(* ===== verification/Prelude.thy ===== *)
theory Prelude
  imports Complex_Main "HOL-Library.AList" "HOL-Library.Char_ord" "HOL-Library.List_Lexorder"
    "HOL-Library.Product_Lexorder" "HOL-Library.Multiset" "HOL-Library.Option_ord"
begin

text \<open>
  Shared vocabulary of the development: the exceptions of the program and the result type of a
  Python call that may raise, the combinators that run such calls in sequence and on a state, Python
  dictionaries as insertion-ordered association lists, and the list lemmas the components share.
  Strings are the bytes of the UTF-8 text, so that the lexicographic order of the library is
  Python's code-point order; lengths are those of ASCII text.
\<close>

section \<open>Exceptions and results\<close>

datatype exn_class =
    ValueError | TypeError | KeyError | IndexError | RuntimeError | AssertionError | AttributeError
  | OSError | LookupError | OtherError
  | InvalidOperation | DivisionByZero
  | GraphConfigurationError | UnknownPluginError | MissingDependencyError | CyclicDependencyError
  | SourceConflictError | PersistenceConflictError | IntegrityError
  | ProviderConfigurationError | ProviderInstrumentError | ProviderProtocolError
  | ProviderRateLimitError | ProviderTemporaryError | ProviderPermanentError
  | StrictConfigurationError

datatype exn = Exn exn_class string

type_synonym 'a result = "exn + 'a"

abbreviation raise :: "exn_class \<Rightarrow> string \<Rightarrow> 'a result" where
  "raise c msg \<equiv> Inl (Exn c msg)"

fun exn_message :: "exn \<Rightarrow> string" where
  "exn_message (Exn c msg) = msg"

fun exn_kind :: "exn \<Rightarrow> exn_class" where
  "exn_kind (Exn c msg) = c"

fun is_ok :: "'a result \<Rightarrow> bool" where
  "is_ok (Inl e) = False"
| "is_ok (Inr x) = True"

fun rbind :: "'a result \<Rightarrow> ('a \<Rightarrow> 'b result) \<Rightarrow> 'b result" where
  "rbind (Inl e) f = Inl e"
| "rbind (Inr x) f = f x"

fun rmapM :: "('a \<Rightarrow> 'b result) \<Rightarrow> 'a list \<Rightarrow> 'b list result" where
  "rmapM f [] = Inr []"
| "rmapM f (x # xs) = rbind (f x) (\<lambda>y. rbind (rmapM f xs) (\<lambda>ys. Inr (y # ys)))"

fun rfoldM :: "('s \<Rightarrow> 'a \<Rightarrow> 's result) \<Rightarrow> 's \<Rightarrow> 'a list \<Rightarrow> 's result" where
  "rfoldM f s [] = Inr s"
| "rfoldM f s (x # xs) = rbind (f s x) (\<lambda>s'. rfoldM f s' xs)"

definition rguard :: "bool \<Rightarrow> exn_class \<Rightarrow> string \<Rightarrow> unit result" where
  "rguard ok c msg = (if ok then Inr () else raise c msg)"

named_theorems model_defs "definitions that component proofs unfold"

lemma rbind_eq_Inr [simp]: "rbind r f = Inr y \<longleftrightarrow> (\<exists>x. r = Inr x \<and> f x = Inr y)"
  by (cases r) auto

lemma rbind_eq_Inl: "rbind r f = Inl e \<longleftrightarrow> r = Inl e \<or> (\<exists>x. r = Inr x \<and> f x = Inl e)"
  by (cases r) auto

lemma rbind_assoc: "rbind (rbind r f) g = rbind r (\<lambda>x. rbind (f x) g)"
  by (cases r) auto

lemma rguard_eq_Inr [simp]: "rguard b c m = Inr u \<longleftrightarrow> b"
  by (simp add: rguard_def)

lemma rguard_True [simp]: "rguard True c m = Inr ()"
  by (simp add: rguard_def)

lemma rguard_False [simp]: "rguard False c m = raise c m"
  by (simp add: rguard_def)

lemma is_ok_iff: "is_ok r \<longleftrightarrow> (\<exists>x. r = Inr x)"
  by (cases r) auto

lemma rmapM_cong [fundef_cong]:
  "xs = ys \<Longrightarrow> (\<And>x. x \<in> set ys \<Longrightarrow> f x = g x) \<Longrightarrow> rmapM f xs = rmapM g ys"
  by (induction ys arbitrary: xs) auto

lemma rbind_cong [fundef_cong]:
  "r = r' \<Longrightarrow> (\<And>x. r' = Inr x \<Longrightarrow> f x = g x) \<Longrightarrow> rbind r f = rbind r' g"
  by (cases r') auto

lemma rmapM_length: "rmapM f xs = Inr ys \<Longrightarrow> length ys = length xs"
  by (induction xs arbitrary: ys) auto

lemma rmapM_nth: "rmapM f xs = Inr ys \<Longrightarrow> i < length xs \<Longrightarrow> f (xs ! i) = Inr (ys ! i)"
  by (induction xs arbitrary: ys i) (auto simp: nth_Cons split: nat.splits)

lemma rmapM_list_all2: "rmapM f xs = Inr ys \<longleftrightarrow> list_all2 (\<lambda>x y. f x = Inr y) xs ys"
  by (induction xs arbitrary: ys) (auto simp: list_all2_Cons1)

lemma rmapM_in_set: "rmapM f xs = Inr ys \<Longrightarrow> y \<in> set ys \<Longrightarrow> \<exists>x\<in>set xs. f x = Inr y"
  by (induction xs arbitrary: ys) auto

lemma rmapM_keys: "rmapM f xs = Inr ys \<Longrightarrow> (\<And>x y. f x = Inr y \<Longrightarrow> g y = x) \<Longrightarrow> map g ys = xs"
  by (induction xs arbitrary: ys) auto

lemma rmapM_append:
  "rmapM f (xs @ ys) = rbind (rmapM f xs) (\<lambda>us. rbind (rmapM f ys) (\<lambda>vs. Inr (us @ vs)))"
proof (induction xs)
  case Nil
  then show ?case by (cases "rmapM f ys") auto
next
  case (Cons x xs)
  then show ?case
    by (cases "f x"; cases "rmapM f xs"; cases "rmapM f ys") auto
qed

lemma rfoldM_cong [fundef_cong]:
  "xs = ys \<Longrightarrow> s = t \<Longrightarrow> (\<And>u x. x \<in> set ys \<Longrightarrow> f u x = g u x) \<Longrightarrow> rfoldM f s xs = rfoldM g t ys"
proof (induction ys arbitrary: xs s t)
  case (Cons y ys)
  then show ?case by (cases "g t y") auto
qed simp

lemma rfoldM_append: "rfoldM f s (xs @ ys) = rbind (rfoldM f s xs) (\<lambda>s'. rfoldM f s' ys)"
  by (induction xs arbitrary: s) (auto simp: rbind_assoc)

lemma rfoldM_invariant:
  assumes "rfoldM f s xs = Inr t" "P s"
    and "\<And>s x s'. P s \<Longrightarrow> x \<in> set xs \<Longrightarrow> f s x = Inr s' \<Longrightarrow> P s'"
  shows "P t"
  using assms
proof (induction xs arbitrary: s)
  case Nil
  then show ?case by simp
next
  case (Cons x xs)
  from Cons.prems(1) obtain s' where s': "f s x = Inr s'" and rest: "rfoldM f s' xs = Inr t"
    by auto
  from Cons.prems(2,3) s' have "P s'" by (meson list.set_intros(1))
  then show ?case using Cons.IH [OF rest] Cons.prems(3) by (meson list.set_intros(2))
qed

section \<open>Python dictionaries\<close>

text \<open>
  A \<^verbatim>\<open>dict\<close> is an association list in insertion order. Assigning to a present key keeps its place,
  a new key goes to the end: \<open>AList.update\<close>.
\<close>

type_synonym ('k, 'v) dict = "('k \<times> 'v) list"

abbreviation dict_get :: "('k, 'v) dict \<Rightarrow> 'k \<Rightarrow> 'v option" where
  "dict_get d k \<equiv> map_of d k"

abbreviation dict_set :: "'k \<Rightarrow> 'v \<Rightarrow> ('k, 'v) dict \<Rightarrow> ('k, 'v) dict" where
  "dict_set k v d \<equiv> AList.update k v d"

abbreviation dict_keys :: "('k, 'v) dict \<Rightarrow> 'k list" where
  "dict_keys d \<equiv> map fst d"

definition dict_of :: "('k \<times> 'v) list \<Rightarrow> ('k, 'v) dict" where
  "dict_of kvs = foldl (\<lambda>d (k, v). dict_set k v d) [] kvs"

definition dict_index :: "('k, 'v) dict \<Rightarrow> 'k \<Rightarrow> 'v result" where
  "dict_index d k = (case dict_get d k of None \<Rightarrow> raise KeyError '''' | Some v \<Rightarrow> Inr v)"

lemma dict_set_conv: "dict_get (dict_set k v d) = (dict_get d)(k \<mapsto> v)"
  by (rule update_conv')

lemma dict_set_keys: "set (dict_keys (dict_set k v d)) = insert k (set (dict_keys d))"
proof -
  have "dom (dict_get (dict_set k v d)) = insert k (dom (dict_get d))"
    by (auto simp: dict_set_conv split: if_splits)
  then show ?thesis by (simp add: dom_map_of_conv_image_fst)
qed

lemma fst_dict_set [simp]: "fst ` set (dict_set k v d) = insert k (fst ` set d)"
  using dict_set_keys [of k v d] by simp

section \<open>Lists\<close>

fun adjacent :: "('a \<Rightarrow> 'a \<Rightarrow> bool) \<Rightarrow> 'a list \<Rightarrow> bool" where
  "adjacent P (x # y # zs) \<longleftrightarrow> P x y \<and> adjacent P (y # zs)"
| "adjacent P _ \<longleftrightarrow> True"

text \<open>Python's \<^verbatim>\<open>range(start, stop, step)\<close> for a positive step.\<close>

definition py_range :: "int \<Rightarrow> int \<Rightarrow> int \<Rightarrow> int list" where
  "py_range start stop st = map (\<lambda>i. start + int i * st) [0..<nat ((stop - start + st - 1) div st)]"

text \<open>The sorted elements of a set given by the list of its members.\<close>

definition sorted_set :: "'a::linorder list \<Rightarrow> 'a list" where
  "sorted_set xs = sort (remdups xs)"

lemma sorted_set_set [simp]: "set (sorted_set xs) = set xs"
  by (simp add: sorted_set_def)

lemma sorted_set_Nil [simp]: "sorted_set xs = [] \<longleftrightarrow> xs = []"
  by (metis set_empty sorted_set_set)

lemma sorted_set_distinct [simp]: "distinct (sorted_set xs)"
  by (simp add: sorted_set_def)

lemma sorted_sorted_set [simp]: "sorted (sorted_set xs)"
  by (simp add: sorted_set_def)

lemma adjacent_nth: "adjacent P xs \<longleftrightarrow> (\<forall>i. Suc i < length xs \<longrightarrow> P (xs ! i) (xs ! Suc i))"
proof (induction P xs rule: adjacent.induct)
  case (1 P x y zs)
  show ?case
  proof
    assume a: "adjacent P (x # y # zs)"
    show "\<forall>i. Suc i < length (x # y # zs) \<longrightarrow> P ((x # y # zs) ! i) ((x # y # zs) ! Suc i)"
    proof (intro allI impI)
      fix i assume "Suc i < length (x # y # zs)"
      with a 1 show "P ((x # y # zs) ! i) ((x # y # zs) ! Suc i)" by (cases i) auto
    qed
  next
    assume r: "\<forall>i. Suc i < length (x # y # zs) \<longrightarrow> P ((x # y # zs) ! i) ((x # y # zs) ! Suc i)"
    from r [rule_format, of 0] have "P x y" by simp
    moreover have "adjacent P (y # zs)"
      using r [rule_format, of "Suc _"] 1 by auto
    ultimately show "adjacent P (x # y # zs)" by simp
  qed
qed auto

lemma adjacent_arith:
  assumes "adjacent (\<lambda>a b. f b = f a + d) xs" and "i < length xs"
  shows "f (xs ! i) = f (xs ! 0) + int i * (d::int)"
  using assms(2)
proof (induction i)
  case 0
  then show ?case by simp
next
  case (Suc i)
  from assms(1) Suc.prems have "f (xs ! Suc i) = f (xs ! i) + d"
    by (simp add: adjacent_nth)
  with Suc show ?case by (simp add: algebra_simps)
qed

lemma le_div_iff_mult_le:
  assumes "0 < (d::int)"
  shows "k \<le> x div d \<longleftrightarrow> k * d \<le> x"
proof
  assume "k \<le> x div d"
  then have "k * d \<le> x div d * d" using assms by (simp add: mult_right_mono)
  also have "\<dots> \<le> x" using assms by (metis add_le_cancel_left div_mult_mod_eq le_add_same_cancel1 pos_mod_sign)
  finally show "k * d \<le> x" .
next
  assume "k * d \<le> x"
  then have "(k * d) div d \<le> x div d" using assms by (rule zdiv_mono1)
  with assms show "k \<le> x div d" by simp
qed

lemma py_range_set:
  assumes "0 < d"
  shows "set (py_range a b d) = {t. \<exists>i::nat. t = a + int i * d \<and> t < b}"
proof -
  have iff: "int i < (b - a + d - 1) div d \<longleftrightarrow> a + int i * d < b" for i
  proof -
    have "int i < (b - a + d - 1) div d \<longleftrightarrow> int i + 1 \<le> (b - a + d - 1) div d" by linarith
    also have "\<dots> \<longleftrightarrow> (int i + 1) * d \<le> b - a + d - 1"
      using assms by (rule le_div_iff_mult_le)
    finally show ?thesis by (simp add: algebra_simps) linarith
  qed
  show ?thesis
  proof (intro set_eqI iffI)
    fix t assume "t \<in> set (py_range a b d)"
    then obtain i where "i < nat ((b - a + d - 1) div d)" "t = a + int i * d"
      by (auto simp: py_range_def)
    with iff [of i] show "t \<in> {t. \<exists>i::nat. t = a + int i * d \<and> t < b}"
      by (auto simp: zless_nat_conj)
  next
    fix t assume "t \<in> {t. \<exists>i::nat. t = a + int i * d \<and> t < b}"
    then obtain i where i: "t = a + int i * d" "t < b" by auto
    with iff [of i] have "int i < (b - a + d - 1) div d" by simp
    then have "i < nat ((b - a + d - 1) div d)" by linarith
    with i show "t \<in> set (py_range a b d)" by (auto simp: py_range_def)
  qed
qed

text \<open>The arithmetic grid \<open>a, a + d, \<dots>\<close> with \<open>n\<close> points, and the strictly sorted lists of its points.\<close>

definition grid :: "int \<Rightarrow> int \<Rightarrow> nat \<Rightarrow> int list" where
  "grid a d n = map (\<lambda>i. a + int i * d) [0..<n]"

lemma grid_length [simp]: "length (grid a d n) = n"
  by (simp add: grid_def)

lemma grid_Nil_iff [simp]: "grid a d n = [] \<longleftrightarrow> n = 0"
  by (simp add: grid_def)

lemma grid_set: "set (grid a d n) = {t. \<exists>i<n. t = a + int i * d}"
  by (auto simp: grid_def)

lemma grid_sorted: "0 < d \<Longrightarrow> sorted_wrt (<) (grid a d n)"
  by (simp add: grid_def sorted_wrt_iff_nth_less)

lemma grid_hd: "0 < n \<Longrightarrow> hd (grid a d n) = a"
  by (simp add: grid_def hd_map)

lemma grid_last: "0 < n \<Longrightarrow> last (grid a d n) = a + (int n - 1) * d"
  by (simp add: grid_def last_map of_nat_diff)

lemma strict_sorted_distinct: "sorted_wrt (<) (xs::'a::linorder list) \<Longrightarrow> sorted xs \<and> distinct xs"
  by (simp add: strict_sorted_iff)

lemma grid_full_iff:
  assumes "0 < d" "sorted_wrt (<) xs" "set xs \<subseteq> set (grid a d n)"
  shows "length xs = n \<longleftrightarrow> xs = grid a d n"
proof
  assume len: "length xs = n"
  have dx: "sorted xs \<and> distinct xs" and dg: "sorted (grid a d n) \<and> distinct (grid a d n)"
    using assms(1,2) grid_sorted strict_sorted_distinct by blast+
  have "card (set xs) = card (set (grid a d n))"
    using dx dg len by (simp add: distinct_card)
  then have "set xs = set (grid a d n)"
    using assms(3) by (intro card_subset_eq) simp_all
  then show "xs = grid a d n" using dx dg by (intro sorted_distinct_set_unique) simp_all
qed simp

lemma adjacent_strict_sorted:
  assumes "adjacent (\<lambda>a b. f b = f a + d) xs" "0 < (d::int)"
  shows "sorted_wrt (<) (map f xs)"
  unfolding sorted_wrt_iff_nth_less
proof (intro allI impI)
  fix i j assume ij: "i < j" "j < length (map f xs)"
  have "f (xs ! i) = f (xs ! 0) + int i * d" "f (xs ! j) = f (xs ! 0) + int j * d"
    using adjacent_arith [OF assms(1)] ij by simp_all
  moreover have "int i * d < int j * d" using ij assms(2) by simp
  ultimately show "map f xs ! i < map f xs ! j" using ij by simp
qed

text \<open>Distinct points of one grid are at least one step apart.\<close>

lemma grid_step:
  assumes "(u - e) mod d = 0" "e < u" "0 < (d::int)"
  shows "e + d \<le> u \<and> (u - (e + d)) mod d = 0"
proof -
  have dv: "d dvd u - e" using assms(1) by (rule mod_0_imp_dvd)
  then have "d \<le> u - e" using assms by (intro zdvd_imp_le) simp_all
  moreover have "d dvd (u - e) - d" using dv by simp
  then have "(u - (e + d)) mod d = 0" by (simp add: algebra_simps)
  ultimately show ?thesis by simp
qed

section \<open>Stateful calls\<close>

text \<open>
  A call with effects maps the state to its outcome and the state it leaves behind; an exception
  keeps the effects made before it. A transaction restores the state it began with.
\<close>

type_synonym ('s, 'a) op = "'s \<Rightarrow> 'a result \<times> 's"

definition sreturn :: "'a \<Rightarrow> ('s, 'a) op" where
  "sreturn x s = (Inr x, s)"

definition slift :: "'a result \<Rightarrow> ('s, 'a) op" where
  "slift r s = (r, s)"

definition sbind :: "('s, 'a) op \<Rightarrow> ('a \<Rightarrow> ('s, 'b) op) \<Rightarrow> ('s, 'b) op" where
  "sbind m f s = (case m s of (Inl e, s') \<Rightarrow> (Inl e, s') | (Inr x, s') \<Rightarrow> f x s')"

fun sfor :: "('a \<Rightarrow> ('s, unit) op) \<Rightarrow> 'a list \<Rightarrow> ('s, unit) op" where
  "sfor f [] s = (Inr (), s)"
| "sfor f (x # xs) s = sbind (f x) (\<lambda>_. sfor f xs) s"

definition sguard :: "bool \<Rightarrow> exn_class \<Rightarrow> string \<Rightarrow> ('s, unit) op" where
  "sguard b c m s = (rguard b c m, s)"

definition transaction :: "('s \<Rightarrow> ('a \<times> 's) result) \<Rightarrow> ('s, 'a) op" where
  "transaction f s = (case f s of Inl e \<Rightarrow> (Inl e, s) | Inr (x, s') \<Rightarrow> (Inr x, s'))"

lemma sbind_Inr: "sbind m f s = (Inr y, s'') \<longleftrightarrow> (\<exists>x s'. m s = (Inr x, s') \<and> f x s' = (Inr y, s''))"
  by (auto simp: sbind_def split: prod.splits sum.splits)

lemma sguard_Inr [simp]: "sguard b c m s = (Inr u, s') \<longleftrightarrow> b \<and> s' = s"
  by (auto simp: sguard_def)

lemma sbind_sguard [simp]: "sbind (sguard b c m) f s = (if b then f () s else (raise c m, s))"
  by (simp add: sbind_def sguard_def)

lemma slift_Inr [simp]: "slift r s = (Inr x, s') \<longleftrightarrow> r = Inr x \<and> s' = s"
  by (auto simp: slift_def)

lemma sreturn_Inr [simp]: "sreturn x s = (Inr y, s') \<longleftrightarrow> y = x \<and> s' = s"
  by (auto simp: sreturn_def)

lemma transaction_Inr: "transaction f s = (Inr x, s') \<longleftrightarrow> f s = Inr (x, s')"
  by (auto simp: transaction_def split: sum.splits)

lemma transaction_Inl: "transaction f s = (Inl e, s') \<longleftrightarrow> f s = Inl e \<and> s' = s"
  by (auto simp: transaction_def split: sum.splits)

lemma sbind_cong [fundef_cong]:
  "s = t \<Longrightarrow> m t = n t \<Longrightarrow> (\<And>x t'. n t = (Inr x, t') \<Longrightarrow> f x t' = g x t') \<Longrightarrow> sbind m f s = sbind n g t"
  by (auto simp: sbind_def split: prod.splits sum.splits)

text \<open>An invariant that a call keeps on success and on failure.\<close>

definition keeps :: "('s \<Rightarrow> bool) \<Rightarrow> ('s, 'a) op \<Rightarrow> bool" where
  "keeps P m \<longleftrightarrow> (\<forall>s r s'. P s \<longrightarrow> m s = (r, s') \<longrightarrow> P s')"

lemma keepsD: "keeps P m \<Longrightarrow> P s \<Longrightarrow> m s = (r, s') \<Longrightarrow> P s'"
  by (auto simp: keeps_def)

lemma keeps_sreturn [intro]: "keeps P (sreturn x)"
  by (auto simp: keeps_def sreturn_def)

lemma keeps_slift [intro]: "keeps P (slift r)"
  by (auto simp: keeps_def slift_def)

lemma keeps_sguard [intro]: "keeps P (sguard b c m)"
  by (auto simp: keeps_def sguard_def)

lemma keeps_sbind [intro]: "keeps P m \<Longrightarrow> (\<And>x. keeps P (f x)) \<Longrightarrow> keeps P (sbind m f)"
  unfolding keeps_def
proof (intro allI impI)
  fix s r s'
  assume m: "\<forall>s r s'. P s \<longrightarrow> m s = (r, s') \<longrightarrow> P s'"
    and f: "\<And>x. \<forall>s r s'. P s \<longrightarrow> f x s = (r, s') \<longrightarrow> P s'"
    and s: "P s" and b: "sbind m f s = (r, s')"
  obtain q t where q: "m s = (q, t)" by (cases "m s")
  with m s have t: "P t" by blast
  show "P s'"
  proof (cases q)
    case (Inl e)
    with b q t show ?thesis by (simp add: sbind_def)
  next
    case (Inr x)
    with b q have "f x t = (r, s')" by (simp add: sbind_def)
    with f t show ?thesis by blast
  qed
qed

lemma keeps_sbind_val:
  "keeps P m \<Longrightarrow> (\<And>s x s'. m s = (Inr x, s') \<Longrightarrow> keeps P (f x)) \<Longrightarrow> keeps P (sbind m f)"
  unfolding keeps_def sbind_def by (fastforce split: prod.splits sum.splits)

lemma keeps_if: "(b \<Longrightarrow> keeps P m) \<Longrightarrow> (\<not> b \<Longrightarrow> keeps P n) \<Longrightarrow> keeps P (\<lambda>s. if b then m s else n s)"
  by (simp add: keeps_def)

lemma keeps_const: "keeps P (\<lambda>s. (r, s))"
  by (simp add: keeps_def)

lemma keeps_transaction: "(\<And>s x s'. P s \<Longrightarrow> f s = Inr (x, s') \<Longrightarrow> P s') \<Longrightarrow> keeps P (transaction f)"
  by (auto simp: keeps_def transaction_def split: sum.splits)

lemma keeps_sfor: "(\<And>x. x \<in> set xs \<Longrightarrow> keeps P (f x)) \<Longrightarrow> keeps P (sfor f xs)"
proof (induction xs)
  case Nil
  show ?case by (simp add: keeps_def)
next
  case (Cons x xs)
  then have "keeps P (sbind (f x) (\<lambda>_. sfor f xs))" by (intro keeps_sbind) simp_all
  then show ?case by (simp add: keeps_def)
qed

definition ensures :: "('s \<Rightarrow> bool) \<Rightarrow> ('s, 'a) op \<Rightarrow> ('a \<Rightarrow> 's \<Rightarrow> bool) \<Rightarrow> bool" where
  "ensures P m Q \<longleftrightarrow> (\<forall>s x s'. P s \<longrightarrow> m s = (Inr x, s') \<longrightarrow> Q x s')"

lemma ensures_sbind: "keeps P m \<Longrightarrow> (\<And>x. ensures P (f x) Q) \<Longrightarrow> ensures P (sbind m f) Q"
  unfolding ensures_def
proof (intro allI impI)
  fix s y s''
  assume k: "keeps P m" and f: "\<And>x. \<forall>s y s'. P s \<longrightarrow> f x s = (Inr y, s') \<longrightarrow> Q y s'"
    and s: "P s" and b: "sbind m f s = (Inr y, s'')"
  from b obtain x s' where "m s = (Inr x, s')" "f x s' = (Inr y, s'')" by (auto simp: sbind_Inr)
  with k s f show "Q y s''" by (meson keepsD)
qed

section \<open>Calls that catch, look and clean up\<close>

text \<open>
  Reading and writing the state, \<^verbatim>\<open>try\<close> with \<^verbatim>\<open>except\<close>, a call on one half of a pair of states, and a
  loop that extends a list of results.
\<close>

definition peek :: "('s \<Rightarrow> 'a) \<Rightarrow> ('s, 'a) op" where
  "peek f s = (Inr (f s), s)"

definition poke :: "('s \<Rightarrow> 's) \<Rightarrow> ('s, unit) op" where
  "poke f s = (Inr (), f s)"

definition scatch :: "('s, 'a) op \<Rightarrow> (exn \<Rightarrow> ('s, 'a) op) \<Rightarrow> ('s, 'a) op" where
  "scatch m h s = (case m s of (Inl e, s') \<Rightarrow> h e s' | (Inr x, s') \<Rightarrow> (Inr x, s'))"

definition on_first :: "('a, 'r) op \<Rightarrow> ('a \<times> 'b, 'r) op" where
  "on_first m s = (case m (fst s) of (r, a') \<Rightarrow> (r, (a', snd s)))"

definition on_second :: "('b, 'r) op \<Rightarrow> ('a \<times> 'b, 'r) op" where
  "on_second m s = (case m (snd s) of (r, b') \<Rightarrow> (r, (fst s, b')))"

fun collect :: "('a \<Rightarrow> ('s, 'r list) op) \<Rightarrow> 'a list \<Rightarrow> ('s, 'r list) op" where
  "collect f [] = sreturn []"
| "collect f (x # xs) = sbind (f x) (\<lambda>r. sbind (collect f xs) (\<lambda>rs. sreturn (r @ rs)))"

text \<open>A context manager: the exit runs whether the body returns or raises.\<close>

definition sfinally :: "('s, 'a) op \<Rightarrow> ('s \<Rightarrow> 's) \<Rightarrow> ('s, 'a) op" where
  "sfinally m f s = (case m s of (r, s') \<Rightarrow> (r, f s'))"

lemma keeps_peek [intro]: "keeps P (peek f)"
  by (simp add: keeps_def peek_def)

lemma keeps_poke: "(\<And>s. P s \<Longrightarrow> P (f s)) \<Longrightarrow> keeps P (poke f)"
  by (simp add: keeps_def poke_def)

lemma keeps_scatch: "keeps P m \<Longrightarrow> (\<And>e. keeps P (h e)) \<Longrightarrow> keeps P (scatch m h)"
  unfolding keeps_def
proof (intro allI impI)
  fix s r s'
  assume m: "\<forall>s r s'. P s \<longrightarrow> m s = (r, s') \<longrightarrow> P s'" and h: "\<And>e. \<forall>s r s'. P s \<longrightarrow> h e s = (r, s') \<longrightarrow> P s'"
    and s: "P s" and run: "scatch m h s = (r, s')"
  obtain q t where q: "m s = (q, t)" by (cases "m s")
  with m s have t: "P t" by blast
  show "P s'"
  proof (cases q)
    case (Inl e)
    with run q have "h e t = (r, s')" by (simp add: scatch_def)
    with h t show ?thesis by blast
  next
    case (Inr x)
    with run q t show ?thesis by (simp add: scatch_def)
  qed
qed

lemma keeps_on_first: "keeps P m \<Longrightarrow> keeps (\<lambda>s. P (fst s)) (on_first m)"
  by (force simp: keeps_def on_first_def split: prod.splits)

lemma keeps_on_second: "keeps P m \<Longrightarrow> keeps (\<lambda>s. P (snd s)) (on_second m)"
  by (force simp: keeps_def on_second_def split: prod.splits)

lemma keeps_first_other: "keeps (\<lambda>s. P (snd s)) (on_first m)"
  by (force simp: keeps_def on_first_def split: prod.splits)

lemma keeps_second_other: "keeps (\<lambda>s. P (fst s)) (on_second m)"
  by (force simp: keeps_def on_second_def split: prod.splits)

lemma keeps_collect: "(\<And>x. x \<in> set xs \<Longrightarrow> keeps P (f x)) \<Longrightarrow> keeps P (collect f xs)"
  by (induction xs) (auto intro!: keeps_sbind)

lemma keeps_sfinally: "keeps P m \<Longrightarrow> (\<And>s. P s \<Longrightarrow> P (f s)) \<Longrightarrow> keeps P (sfinally m f)"
  by (force simp: keeps_def sfinally_def split: prod.splits)

end
