(* ===== verification/Digits.thy ===== *)
theory Digits
  imports Prelude
begin

text \<open>
  Decimal numerals as text: rendering a non-negative integer, reading a string of digits, and the
  facts the decimal arithmetic and the canonical JSON text share (round trip, number of digits,
  absence of leading zeros).
\<close>

definition digit_char :: "int \<Rightarrow> char" where
  "digit_char d = char_of (48 + d)"

definition is_digit :: "char \<Rightarrow> bool" where
  "is_digit c \<longleftrightarrow> 48 \<le> (of_char c :: int) \<and> (of_char c :: int) \<le> 57"

definition digit_val :: "char \<Rightarrow> int" where
  "digit_val c = of_char c - 48"

function int_digits :: "int \<Rightarrow> string" where
  "int_digits n = (if n < 10 then [digit_char n]
     else int_digits (n div 10) @ [digit_char (n mod 10)])"
  by pat_completeness auto
termination
  by (relation "measure nat") (auto simp: nat_less_iff)

declare int_digits.simps [simp del]

definition digits_val :: "string \<Rightarrow> int" where
  "digits_val s = foldl (\<lambda>acc c. acc * 10 + digit_val c) 0 s"

definition ndigits :: "int \<Rightarrow> nat" where
  "ndigits n = length (int_digits n)"

definition all_digits :: "string \<Rightarrow> bool" where
  "all_digits s \<longleftrightarrow> list_all is_digit s"

text \<open>\<^verbatim>\<open>str(n)\<close> of an integer.\<close>

definition int_text :: "int \<Rightarrow> string" where
  "int_text n = (if n < 0 then ''-'' @ int_digits (- n) else int_digits n)"

lemma digit_char_val: "0 \<le> d \<Longrightarrow> d < 10 \<Longrightarrow> of_char (digit_char d) = 48 + d"
  by (simp add: digit_char_def take_bit_int_eq_self)

lemma is_digit_digit_char [simp]: "0 \<le> d \<Longrightarrow> d < 10 \<Longrightarrow> is_digit (digit_char d)"
  by (simp add: is_digit_def digit_char_val)

lemma digit_val_digit_char [simp]: "0 \<le> d \<Longrightarrow> d < 10 \<Longrightarrow> digit_val (digit_char d) = d"
  by (simp add: digit_val_def digit_char_val)

lemma digit_val_range: "is_digit c \<Longrightarrow> 0 \<le> digit_val c \<and> digit_val c < 10"
  by (simp add: is_digit_def digit_val_def)

lemma digit_char_digit_val [simp]: "is_digit c \<Longrightarrow> digit_char (digit_val c) = c"
  by (simp add: digit_char_def digit_val_def)

lemma digits_val_Nil [simp]: "digits_val [] = 0"
  by (simp add: digits_val_def)

lemma digits_val_snoc [simp]: "digits_val (s @ [c]) = digits_val s * 10 + digit_val c"
  by (simp add: digits_val_def)

lemma digits_val_append: "digits_val (s @ t) = digits_val s * 10 ^ length t + digits_val t"
proof (induction t rule: rev_induct)
  case Nil
  show ?case by simp
next
  case (snoc c t)
  have "digits_val (s @ t @ [c]) = digits_val (s @ t) * 10 + digit_val c"
    by (metis append.assoc digits_val_snoc)
  with snoc show ?case by (simp add: algebra_simps)
qed

lemma digits_val_nonneg: "all_digits s \<Longrightarrow> 0 \<le> digits_val s"
  by (induction s rule: rev_induct) (auto simp: all_digits_def dest: digit_val_range)

lemma digits_val_bound: "all_digits s \<Longrightarrow> digits_val s < 10 ^ length s"
proof (induction s rule: rev_induct)
  case Nil
  show ?case by simp
next
  case (snoc c s)
  then have "digits_val s < 10 ^ length s" "digit_val c < 10"
    by (auto simp: all_digits_def dest: digit_val_range)
  then show ?case by simp
qed

lemma int_digits_all_digits: "0 \<le> n \<Longrightarrow> all_digits (int_digits n)"
proof (induction n rule: int_digits.induct)
  case (1 n)
  then show ?case
    by (cases "n < 10") (auto simp: int_digits.simps [of n] all_digits_def)
qed

lemma digits_val_int_digits [simp]: "0 \<le> n \<Longrightarrow> digits_val (int_digits n) = n"
proof (induction n rule: int_digits.induct)
  case (1 n)
  show ?case
  proof (cases "n < 10")
    case True
    with 1 show ?thesis by (simp add: int_digits.simps [of n] digits_val_def)
  next
    case False
    with 1 show ?thesis by (simp add: int_digits.simps [of n])
  qed
qed

lemma int_digits_nonempty [simp]: "int_digits n \<noteq> []"
  by (subst int_digits.simps) simp

lemma ndigits_pos [simp]: "0 < ndigits n"
  by (simp add: ndigits_def)

lemma int_digits_inj: "0 \<le> m \<Longrightarrow> 0 \<le> n \<Longrightarrow> int_digits m = int_digits n \<Longrightarrow> m = n"
  by (metis digits_val_int_digits)

lemma ndigits_upper: "0 \<le> n \<Longrightarrow> n < 10 ^ ndigits n"
  using digits_val_bound [OF int_digits_all_digits] by (simp add: ndigits_def)

lemma ndigits_lower: "0 < n \<Longrightarrow> 10 ^ (ndigits n - 1) \<le> n"
proof (induction n rule: int_digits.induct)
  case (1 n)
  show ?case
  proof (cases "n < 10")
    case True
    with 1 show ?thesis by (simp add: ndigits_def int_digits.simps [of n])
  next
    case False
    then have nd: "ndigits n = Suc (ndigits (n div 10))"
      by (simp add: ndigits_def int_digits.simps [of n])
    from False 1 have "10 ^ (ndigits (n div 10) - 1) \<le> n div 10" by simp
    then have "10 ^ (ndigits (n div 10) - 1) * 10 \<le> n" by linarith
    moreover have "(10::int) ^ ndigits (n div 10) = 10 ^ (ndigits (n div 10) - 1) * 10"
      using ndigits_pos [of "n div 10"] by (metis power_minus_mult)
    ultimately show ?thesis by (simp add: nd)
  qed
qed

lemma ndigits_le_iff:
  assumes "0 \<le> n" "0 < k"
  shows "ndigits n \<le> k \<longleftrightarrow> n < 10 ^ k"
proof
  assume "ndigits n \<le> k"
  then have "(10::int) ^ ndigits n \<le> 10 ^ k" by simp
  with ndigits_upper [OF assms(1)] show "n < 10 ^ k" by linarith
next
  assume lt: "n < 10 ^ k"
  show "ndigits n \<le> k"
  proof (cases "n = 0")
    case True
    then show ?thesis using assms(2) by (simp add: ndigits_def int_digits.simps)
  next
    case False
    with assms(1) have "10 ^ (ndigits n - 1) \<le> n" by (intro ndigits_lower) simp
    with lt have "(10::int) ^ (ndigits n - 1) < 10 ^ k" by linarith
    then have "ndigits n - 1 < k" by simp
    then show ?thesis by simp
  qed
qed

lemma int_digits_head: "0 < n \<Longrightarrow> hd (int_digits n) \<noteq> CHR ''0''"
proof (induction n rule: int_digits.induct)
  case (1 n)
  show ?case
  proof (cases "n < 10")
    case True
    have "digit_char n \<noteq> CHR ''0''"
    proof
      assume "digit_char n = CHR ''0''"
      then have "digit_val (digit_char n) = 0" by (simp add: digit_val_def)
      with True 1 show False by simp
    qed
    with True show ?thesis by (simp add: int_digits.simps [of n])
  next
    case False
    with 1 show ?thesis by (simp add: int_digits.simps [of n])
  qed
qed

end
