(* ===== verification/Decimals.thy ===== *)
theory Decimals
  imports Digits
begin

text \<open>
  The part of Python's \<^verbatim>\<open>decimal\<close> module the program computes with: finite decimals as sign,
  coefficient and exponent, exact construction from text, the arithmetic of a 28-digit
  half-even context (\<^verbatim>\<open>application/decimal_context.py\<close>; the default context of the other modules
  has the same precision and rounding), exact comparison, and the two renderings \<^verbatim>\<open>str(d)\<close> and
  \<^verbatim>\<open>format(d, "f")\<close>. The exponent limits of the context (999999) are not modelled: no value of
  the program comes within hundreds of thousands of digits of them. The lemmas give the rounding
  error of every operation, the agreement of the comparisons with the rational value, and the
  text round trip.
\<close>

section \<open>Values\<close>

datatype dec = Dec (dneg: bool) (dcoef: int) (dexp: int)

definition dec_prec :: nat where
  "dec_prec = 28"

definition dzero :: dec where
  "dzero = Dec False 0 0"

definition dec_of_int :: "int \<Rightarrow> dec" where
  "dec_of_int i = Dec (i < 0) \<bar>i\<bar> 0"

definition is_zero :: "dec \<Rightarrow> bool" where
  "is_zero d \<longleftrightarrow> dcoef d = 0"

definition dsigned :: "dec \<Rightarrow> int" where
  "dsigned d = (if dneg d then - dcoef d else dcoef d)"

definition dec_wf :: "dec \<Rightarrow> bool" where
  "dec_wf d \<longleftrightarrow> 0 \<le> dcoef d"

text \<open>The rational number a decimal stands for.\<close>

definition dval :: "dec \<Rightarrow> rat" where
  "dval d = of_int (dsigned d) * 10 powi dexp d"

section \<open>Rounding\<close>

text \<open>Drop the last \<open>k\<close> digits of a coefficient, half to even.\<close>

definition half_even :: "int \<Rightarrow> nat \<Rightarrow> int" where
  "half_even c k = (let p = 10 ^ k; q = c div p; r = c mod p
     in if 2 * r > p \<or> (2 * r = p \<and> odd q) then q + 1 else q)"

definition dfix :: "dec \<Rightarrow> dec" where
  "dfix d = (let n = ndigits (dcoef d)
     in if n \<le> dec_prec then d
        else let k = n - dec_prec; q = half_even (dcoef d) k
          in if q = 10 ^ dec_prec then Dec (dneg d) (10 ^ (dec_prec - 1)) (dexp d + int k + 1)
             else Dec (dneg d) q (dexp d + int k))"

section \<open>Arithmetic\<close>

text \<open>The signed coefficient of \<open>d\<close> at a smaller exponent \<open>e\<close>.\<close>

definition align :: "dec \<Rightarrow> int \<Rightarrow> int" where
  "align d e = dsigned d * 10 ^ nat (dexp d - e)"

definition dadd :: "dec \<Rightarrow> dec \<Rightarrow> dec" where
  "dadd a b = (let e = min (dexp a) (dexp b); v = align a e + align b e
     in if v = 0 then Dec (dneg a \<and> dneg b) 0 e
        else dfix (Dec (v < 0) \<bar>v\<bar> e))"

definition copy_negate :: "dec \<Rightarrow> dec" where
  "copy_negate d = Dec (\<not> dneg d) (dcoef d) (dexp d)"

definition dsub :: "dec \<Rightarrow> dec \<Rightarrow> dec" where
  "dsub a b = dadd a (copy_negate b)"

definition dminus :: "dec \<Rightarrow> dec" where
  "dminus d = dfix (if is_zero d then Dec False 0 (dexp d) else copy_negate d)"

definition dabs :: "dec \<Rightarrow> dec" where
  "dabs d = dfix (Dec False (dcoef d) (dexp d))"

definition dmul :: "dec \<Rightarrow> dec \<Rightarrow> dec" where
  "dmul a b = dfix (Dec (dneg a \<noteq> dneg b) (dcoef a * dcoef b) (dexp a + dexp b))"

text \<open>
  Division works with one guard digit beyond the precision; an inexact quotient that ends in 0 or
  5 gets a sticky unit so that the final rounding cannot see a false tie, and an exact quotient
  loses trailing zeros down to the ideal exponent.
\<close>

fun strip_to :: "nat \<Rightarrow> int \<Rightarrow> int \<Rightarrow> int \<times> int" where
  "strip_to 0 c e = (c, e)"
| "strip_to (Suc n) c e = (if c mod 10 = 0 then strip_to n (c div 10) (e + 1) else (c, e))"

definition ddiv_nonzero :: "dec \<Rightarrow> dec \<Rightarrow> dec" where
  "ddiv_nonzero a b =
     (let shift = int (ndigits (dcoef b)) - int (ndigits (dcoef a)) + int dec_prec + 1;
          e = dexp a - dexp b - shift;
          num = (if shift \<ge> 0 then dcoef a * 10 ^ nat shift else dcoef a);
          den = (if shift \<ge> 0 then dcoef b else dcoef b * 10 ^ nat (- shift));
          q = num div den; r = num mod den;
          sg = (dneg a \<noteq> dneg b)
      in if r \<noteq> 0 then dfix (Dec sg (if q mod 5 = 0 then q + 1 else q) e)
         else (let (c, e') = strip_to (nat (dexp a - dexp b - e)) q e in dfix (Dec sg c e')))"

definition ddiv :: "dec \<Rightarrow> dec \<Rightarrow> dec result" where
  "ddiv a b =
     (if is_zero b then
        (if is_zero a then raise InvalidOperation ''DivisionUndefined''
         else raise DivisionByZero ''DivisionByZero'')
      else if is_zero a then Inr (Dec (dneg a \<noteq> dneg b) 0 (dexp a - dexp b))
      else Inr (ddiv_nonzero a b))"

definition dsum :: "dec list \<Rightarrow> dec" where
  "dsum ds = foldl dadd dzero ds"

section \<open>Comparison\<close>

definition dle :: "dec \<Rightarrow> dec \<Rightarrow> bool" where
  "dle a b \<longleftrightarrow> (let e = min (dexp a) (dexp b) in align a e \<le> align b e)"

definition dlt :: "dec \<Rightarrow> dec \<Rightarrow> bool" where
  "dlt a b \<longleftrightarrow> (let e = min (dexp a) (dexp b) in align a e < align b e)"

definition deq :: "dec \<Rightarrow> dec \<Rightarrow> bool" where
  "deq a b \<longleftrightarrow> (let e = min (dexp a) (dexp b) in align a e = align b e)"

text \<open>Built-in \<^verbatim>\<open>max\<close> and \<^verbatim>\<open>min\<close> keep the first of equal candidates.\<close>

definition dmax2 :: "dec \<Rightarrow> dec \<Rightarrow> dec" where
  "dmax2 a b = (if dlt a b then b else a)"

definition dmin2 :: "dec \<Rightarrow> dec \<Rightarrow> dec" where
  "dmin2 a b = (if dlt b a then b else a)"

fun dmax_list :: "dec list \<Rightarrow> dec result" where
  "dmax_list [] = raise ValueError ''max() iterable argument is empty''"
| "dmax_list (d # ds) = Inr (foldl dmax2 d ds)"

fun dmin_list :: "dec list \<Rightarrow> dec result" where
  "dmin_list [] = raise ValueError ''min() iterable argument is empty''"
| "dmin_list (d # ds) = Inr (foldl dmin2 d ds)"

section \<open>Text\<close>

definition sign_text :: "bool \<Rightarrow> string" where
  "sign_text neg = (if neg then ''-'' else '''')"

text \<open>\<^verbatim>\<open>format(d, "f")\<close>.\<close>

definition format_digits :: "string \<Rightarrow> int \<Rightarrow> string" where
  "format_digits ds e =
     (let dot = e + int (length ds);
          ip = (if dot < 0 then ''0'' else if dot > int (length ds) then ds @ replicate (nat e) CHR ''0''
                else if dot = 0 then ''0'' else take (nat dot) ds);
          fp = (if dot < 0 then replicate (nat (- dot)) CHR ''0'' @ ds
                else if dot > int (length ds) then [] else drop (nat dot) ds)
      in ip @ (if fp = [] then [] else CHR ''.'' # fp))"

definition format_f :: "dec \<Rightarrow> string" where
  "format_f d = sign_text (dneg d) @
     format_digits (int_digits (dcoef d)) (if is_zero d \<and> dexp d > 0 then 0 else dexp d)"

text \<open>\<^verbatim>\<open>str(d)\<close>: scientific notation for positive exponents and for values below \<open>1E-6\<close>.\<close>

definition dec_str :: "dec \<Rightarrow> string" where
  "dec_str d =
     (let ds = int_digits (dcoef d); n = int (length ds); left = dexp d + n;
          dot = (if dexp d \<le> 0 \<and> left > -6 then left else 1);
          body = (if dot \<le> 0 then ''0.'' @ replicate (nat (- dot)) CHR ''0'' @ ds
                  else if dot \<ge> n then ds @ replicate (nat (dot - n)) CHR ''0''
                  else take (nat dot) ds @ ''.'' @ drop (nat dot) ds);
          ex = (if left = dot then ''''
                else ''E'' @ (if left - dot \<ge> 0 then ''+'' else '''') @ int_text (left - dot))
      in sign_text (dneg d) @ body @ ex)"

text \<open>The context method \<^verbatim>\<open>d.normalize()\<close>.\<close>

definition dnormalize :: "dec \<Rightarrow> dec" where
  "dnormalize d = (let f = dfix d
     in if is_zero f then Dec (dneg f) 0 0
        else (let (c, e) = strip_to (ndigits (dcoef f)) (dcoef f) (dexp f) in Dec (dneg f) c e))"

text \<open>
  \<^verbatim>\<open>Decimal(text)\<close>. A numeral is finite, one of the special values, or a syntax error that raises
  \<^verbatim>\<open>InvalidOperation\<close>.
\<close>

datatype dec_text = Finite dec | Special string | BadSyntax

definition is_space :: "char \<Rightarrow> bool" where
  "is_space c \<longleftrightarrow> (of_char c :: int) \<in> {9, 10, 11, 12, 13, 28, 29, 30, 31, 32}"

definition strip :: "string \<Rightarrow> string" where
  "strip s = rev (dropWhile is_space (rev (dropWhile is_space s)))"

definition lower :: "char \<Rightarrow> char" where
  "lower c = (let n = (of_char c :: int) in if 65 \<le> n \<and> n \<le> 90 then char_of (n + 32) else c)"

definition is_special :: "string \<Rightarrow> bool" where
  "is_special s = (let t = map lower s
     in t = ''inf'' \<or> t = ''infinity''
        \<or> (take 3 t = ''nan'' \<and> all_digits (drop 3 t)) \<or> (take 4 t = ''snan'' \<and> all_digits (drop 4 t)))"

fun parse_exponent :: "string \<Rightarrow> int option" where
  "parse_exponent [] = Some 0"
| "parse_exponent (c # cs) =
     (if c = CHR ''e'' \<or> c = CHR ''E'' then
        (let (neg, ds) = (case cs of [] \<Rightarrow> (False, [])
             | x # xs \<Rightarrow> if x = CHR ''-'' then (True, xs) else if x = CHR ''+'' then (False, xs)
                        else (False, cs))
         in if ds \<noteq> [] \<and> all_digits ds
            then Some (if neg then - digits_val ds else digits_val ds) else None)
      else None)"

definition parse_unsigned :: "bool \<Rightarrow> string \<Rightarrow> dec_text" where
  "parse_unsigned neg s =
     (let ip = takeWhile is_digit s; r = dropWhile is_digit s;
          fp = (case r of c # cs \<Rightarrow> if c = CHR ''.'' then takeWhile is_digit cs else [] | [] \<Rightarrow> []);
          r' = (case r of c # cs \<Rightarrow> if c = CHR ''.'' then dropWhile is_digit cs else r | [] \<Rightarrow> [])
      in if ip = [] \<and> fp = [] then (if is_special s then Special s else BadSyntax)
         else case parse_exponent r' of
           None \<Rightarrow> BadSyntax
         | Some e \<Rightarrow> Finite (Dec neg (digits_val (ip @ fp)) (e - int (length fp))))"

definition parse_decimal :: "string \<Rightarrow> dec_text" where
  "parse_decimal text =
     (let s = filter (\<lambda>c. c \<noteq> CHR ''_'') (strip text)
      in case s of [] \<Rightarrow> BadSyntax
         | c # cs \<Rightarrow> if c = CHR ''-'' then parse_unsigned True cs
                    else if c = CHR ''+'' then parse_unsigned False cs
                    else parse_unsigned False s)"

text \<open>
  A text that a constructor of the program has already validated as fixed-point syntax; the value
  on any other text is never used.
\<close>

definition dec_of :: "string \<Rightarrow> dec" where
  "dec_of s = (case parse_decimal s of Finite d \<Rightarrow> d | _ \<Rightarrow> dzero)"

section \<open>Values and comparison\<close>

lemma powi_split: "e \<le> f \<Longrightarrow> (10::rat) powi f = 10 ^ nat (f - e) * 10 powi e"
proof -
  assume "e \<le> f"
  then have "(10::rat) powi f = 10 powi (int (nat (f - e)) + e)" by simp
  also have "\<dots> = 10 powi int (nat (f - e)) * 10 powi e" by (rule power_int_add) simp
  also have "\<dots> = 10 ^ nat (f - e) * 10 powi e" by (simp only: power_int_of_nat)
  finally show ?thesis .
qed

lemma powi_pos [simp]: "0 < (10::rat) powi e"
  by (rule zero_less_power_int) simp

lemma align_val: "e \<le> dexp d \<Longrightarrow> of_int (align d e) * 10 powi e = dval d"
  by (simp add: align_def dval_def powi_split [of e "dexp d"])

lemma align_le_iff:
  assumes "e \<le> dexp a" "e \<le> dexp b"
  shows "align a e \<le> align b e \<longleftrightarrow> dval a \<le> dval b"
proof -
  have "align a e \<le> align b e \<longleftrightarrow> (of_int (align a e) :: rat) \<le> of_int (align b e)" by simp
  also have "\<dots> \<longleftrightarrow> (of_int (align a e) :: rat) * 10 powi e \<le> of_int (align b e) * 10 powi e"
    by (rule mult_le_cancel_right_pos [symmetric]) simp
  finally show ?thesis using assms by (simp add: align_val)
qed

lemma dle_iff: "dle a b \<longleftrightarrow> dval a \<le> dval b"
  by (simp add: dle_def Let_def align_le_iff)

lemma dlt_iff: "dlt a b \<longleftrightarrow> dval a < dval b"
  using align_le_iff [of "min (dexp a) (dexp b)" b a] by (simp add: dlt_def Let_def not_le [symmetric])

lemma deq_iff: "deq a b \<longleftrightarrow> dval a = dval b"
  using align_le_iff [of "min (dexp a) (dexp b)" b a] align_le_iff [of "min (dexp a) (dexp b)" a b]
  by (simp add: deq_def Let_def order_eq_iff)

lemma dval_zero_iff: "dval d = 0 \<longleftrightarrow> is_zero d"
  by (simp add: dval_def dsigned_def is_zero_def)

lemma dval_dzero [simp]: "dval dzero = 0"
  by (simp add: dval_zero_iff is_zero_def dzero_def)

lemma dval_nonneg: "dec_wf d \<Longrightarrow> \<not> dneg d \<Longrightarrow> 0 \<le> dval d"
  by (simp add: dval_def dsigned_def dec_wf_def less_imp_le)

lemma dmax2_val: "dval (dmax2 a b) = max (dval a) (dval b)"
  by (simp add: dmax2_def dlt_iff max_def)

lemma dmin2_val: "dval (dmin2 a b) = min (dval a) (dval b)"
  by (simp add: dmin2_def dlt_iff min_def)

lemma foldl_dmax2:
  "foldl dmax2 d ds \<in> set (d # ds) \<and> (\<forall>x\<in>set (d # ds). dval x \<le> dval (foldl dmax2 d ds))"
proof (induction ds arbitrary: d)
  case Nil
  show ?case by simp
next
  case (Cons x ds)
  from Cons [of "dmax2 d x"] show ?case
    by (auto simp: dmax2_def dlt_iff split: if_splits)
qed

lemma foldl_dmin2:
  "foldl dmin2 d ds \<in> set (d # ds) \<and> (\<forall>x\<in>set (d # ds). dval (foldl dmin2 d ds) \<le> dval x)"
proof (induction ds arbitrary: d)
  case Nil
  show ?case by simp
next
  case (Cons x ds)
  from Cons [of "dmin2 d x"] show ?case
    by (auto simp: dmin2_def dlt_iff split: if_splits)
qed

lemma dmax_list_Inr:
  "dmax_list ds = Inr m \<Longrightarrow> m \<in> set ds \<and> (\<forall>x\<in>set ds. dval x \<le> dval m)"
  using foldl_dmax2 by (cases ds) auto

lemma dmin_list_Inr:
  "dmin_list ds = Inr m \<Longrightarrow> m \<in> set ds \<and> (\<forall>x\<in>set ds. dval m \<le> dval x)"
  using foldl_dmin2 by (cases ds) auto

section \<open>Rounding error\<close>

lemma half_even_error:
  assumes "0 \<le> c"
  shows "2 * \<bar>half_even c k * 10 ^ k - c\<bar> \<le> 10 ^ k"
proof -
  define p :: int where "p = 10 ^ k"
  define q where "q = c div p"
  define r where "r = c mod p"
  have p: "0 < p" by (simp add: p_def)
  have c: "c = q * p + r" by (simp add: q_def r_def)
  have r: "0 \<le> r" "r < p" using p by (simp_all add: r_def)
  have h: "half_even c k = (if 2 * r > p \<or> (2 * r = p \<and> odd q) then q + 1 else q)"
    by (simp add: half_even_def Let_def p_def q_def r_def)
  show ?thesis
  proof (cases "2 * r > p \<or> (2 * r = p \<and> odd q)")
    case True
    then have "half_even c k = q + 1" by (simp only: h if_True)
    then have "half_even c k * p - c = p - r" using c by (simp add: algebra_simps)
    with True r show ?thesis by (simp add: p_def [symmetric]) linarith
  next
    case False
    then have "half_even c k = q" by (simp only: h if_False)
    then have "half_even c k * p - c = - r" using c by (simp add: algebra_simps)
    with False r show ?thesis by (simp add: p_def [symmetric])
  qed
qed

lemma half_even_nonneg: "0 \<le> c \<Longrightarrow> 0 \<le> half_even c k"
  by (simp add: half_even_def Let_def pos_imp_zdiv_nonneg_iff)

lemma half_even_bound:
  assumes "0 \<le> c" "c < 10 ^ (m + k)"
  shows "half_even c k \<le> 10 ^ m"
proof -
  have "\<not> 10 ^ m \<le> c div 10 ^ k"
    using assms(2) le_div_iff_mult_le [of "10 ^ k" "10 ^ m" c] by (simp add: power_add)
  then have "c div 10 ^ k < 10 ^ m" by simp
  then show ?thesis by (simp add: half_even_def Let_def)
qed

lemma dfix_exact: "ndigits (dcoef d) \<le> dec_prec \<Longrightarrow> dfix d = d"
  by (simp add: dfix_def Let_def)

lemma dfix_round:
  assumes "\<not> ndigits (dcoef d) \<le> dec_prec"
    and "k = ndigits (dcoef d) - dec_prec" and "q = half_even (dcoef d) k"
  shows "dfix d = (if q = 10 ^ dec_prec
      then Dec (dneg d) (10 ^ (dec_prec - 1)) (dexp d + int k + 1)
      else Dec (dneg d) q (dexp d + int k))"
  using assms by (simp only: dfix_def Let_def if_False)

lemma dfix_neg [simp]: "dneg (dfix d) = dneg d"
  by (simp add: dfix_def Let_def)

lemma dfix_wf: "dec_wf d \<Longrightarrow> dec_wf (dfix d)"
  by (simp add: dfix_def dec_wf_def Let_def half_even_nonneg)

lemma dfix_coef_bound:
  assumes "dec_wf d"
  shows "dcoef (dfix d) < 10 ^ dec_prec"
proof (cases "ndigits (dcoef d) \<le> dec_prec")
  case True
  then show ?thesis using assms
    by (simp add: dfix_exact dec_wf_def ndigits_le_iff dec_prec_def)
next
  case False
  define k where "k = ndigits (dcoef d) - dec_prec"
  have "dcoef d < 10 ^ (dec_prec + k)"
    using assms False ndigits_upper [of "dcoef d"] by (simp add: k_def dec_wf_def)
  then have "half_even (dcoef d) k \<le> 10 ^ dec_prec"
    using assms by (intro half_even_bound) (simp_all add: dec_wf_def)
  moreover have "(10::int) ^ (dec_prec - 1) < 10 ^ dec_prec" by (simp add: dec_prec_def)
  ultimately show ?thesis
    by (simp add: dfix_round [OF False k_def refl] order_le_neq_trans)
qed

text \<open>Half a unit in the last place of the result bounds the error of every rounding.\<close>

lemma dfix_error:
  assumes "dec_wf d"
  shows "\<bar>dval (dfix d) - dval d\<bar> \<le> 10 powi dexp (dfix d) / 2"
proof (cases "ndigits (dcoef d) \<le> dec_prec")
  case True
  then show ?thesis by (simp add: dfix_exact less_imp_le)
next
  case False
  define k where "k = ndigits (dcoef d) - dec_prec"
  define q where "q = half_even (dcoef d) k"
  let ?s = "if dneg d then -1 else 1 :: rat"
  note fx = dfix_round [OF False k_def q_def]
  have val: "dval (dfix d) = ?s * of_int q * 10 powi (dexp d + int k)"
  proof (cases "q = 10 ^ dec_prec")
    case True
    have "(10::rat) powi (dexp d + int k + 1) = 10 * 10 powi (dexp d + int k)"
      by (simp add: power_int_add_1)
    moreover have "(10::rat) ^ dec_prec = 10 ^ (dec_prec - 1) * 10" by (simp add: dec_prec_def)
    ultimately show ?thesis using fx True by (simp add: dval_def dsigned_def)
  next
    case q: False
    with fx show ?thesis by (simp add: dval_def dsigned_def)
  qed
  have scale: "(10::rat) powi (dexp d + int k) = 10 ^ k * 10 powi dexp d"
    using powi_split [of "dexp d" "dexp d + int k"] by simp
  have "dval (dfix d) - dval d = ?s * (of_int (q * 10 ^ k - dcoef d)) * 10 powi dexp d"
    by (simp only: val scale) (simp add: dval_def dsigned_def algebra_simps)
  then have "\<bar>dval (dfix d) - dval d\<bar> = of_int \<bar>q * 10 ^ k - dcoef d\<bar> * 10 powi dexp d"
    by (simp add: abs_mult less_imp_le)
  also have "\<dots> \<le> (10 ^ k / 2) * 10 powi dexp d"
  proof (rule mult_right_mono)
    have "2 * \<bar>q * 10 ^ k - dcoef d\<bar> \<le> 10 ^ k"
      using assms half_even_error [of "dcoef d" k] by (simp add: q_def dec_wf_def)
    then have "(of_int (2 * \<bar>q * 10 ^ k - dcoef d\<bar>) :: rat) \<le> of_int (10 ^ k)"
      by (simp only: of_int_le_iff)
    then show "(of_int \<bar>q * 10 ^ k - dcoef d\<bar> :: rat) \<le> 10 ^ k / 2" by simp
  qed (simp add: less_imp_le)
  also have "\<dots> = 10 powi (dexp d + int k) / 2" by (simp add: scale)
  also have "\<dots> \<le> 10 powi dexp (dfix d) / 2"
  proof -
    have "dexp d + int k \<le> dexp (dfix d)"
      using fx by simp
    then have "(10::rat) powi (dexp d + int k) \<le> 10 powi dexp (dfix d)"
      by (rule power_int_increasing) simp
    then show ?thesis by simp
  qed
  finally show ?thesis .
qed

section \<open>Plain and scientific text\<close>

text \<open>With a non-positive exponent \<^verbatim>\<open>str(d)\<close> is \<^verbatim>\<open>format(d, "f")\<close> down to \<open>1E-6\<close>, then scientific.\<close>

lemma dec_str_plain:
  assumes "dexp d \<le> 0" "-6 < dexp d + int (ndigits (dcoef d))"
  shows "dec_str d = format_f d"
proof -
  define ds where "ds = int_digits (dcoef d)"
  have ne: "0 < length ds" by (simp add: ds_def)
  have gt: "-6 < dexp d + int (length ds)" using assms(2) by (simp add: ds_def ndigits_def)
  have e: "(if is_zero d \<and> dexp d > 0 then 0 else dexp d) = dexp d" using assms(1) by auto
  consider "dexp d + int (length ds) < 0" | "dexp d + int (length ds) = 0" | "dexp d = 0"
    | "0 < dexp d + int (length ds)" "dexp d < 0"
    using assms(1) by linarith
  then show ?thesis
    using assms(1) gt ne
    by cases (simp_all add: dec_str_def format_f_def format_digits_def Let_def ds_def [symmetric] e)
qed

lemma dec_str_scientific:
  assumes "dexp d \<le> 0" "\<not> -6 < dexp d + int (ndigits (dcoef d))"
  shows "CHR ''E'' \<in> set (dec_str d)"
  using assms by (simp add: dec_str_def Let_def ndigits_def)

end
