(* ===== verification/Sha256.thy ===== *)
theory Sha256
  imports Prelude "HOL-Library.Word"
begin

text \<open>
  \<^verbatim>\<open>hashlib.sha256(data).hexdigest()\<close> of the Python standard library (FIPS 180-4), as folds over 32-bit
  words. Every content address of the program (candle, observation, decision, run and backtest
  identities) is a digest of a domain tag and a canonical JSON text. The lemmas show the shape of
  a digest (64 lowercase hexadecimal characters); the collision resistance of the function is not
  a theorem and no property rests on it.
\<close>

unbundle bit_operations_syntax

type_synonym w32 = "32 word"

text \<open>The round constants: the first 32 bits of the fractions of the cube roots of the first 64 primes.\<close>

definition sha_k :: "w32 list" where
  "sha_k =
    [1116352408, 1899447441, 3049323471, 3921009573, 961987163, 1508970993, 2453635748, 2870763221,
     3624381080, 310598401, 607225278, 1426881987, 1925078388, 2162078206, 2614888103, 3248222580,
     3835390401, 4022224774, 264347078, 604807628, 770255983, 1249150122, 1555081692, 1996064986,
     2554220882, 2821834349, 2952996808, 3210313671, 3336571891, 3584528711, 113926993, 338241895,
     666307205, 773529912, 1294757372, 1396182291, 1695183700, 1986661051, 2177026350, 2456956037,
     2730485921, 2820302411, 3259730800, 3345764771, 3516065817, 3600352804, 4094571909, 275423344,
     430227734, 506948616, 659060556, 883997877, 958139571, 1322822218, 1537002063, 1747873779,
     1955562222, 2024104815, 2227730452, 2361852424, 2428436474, 2756734187, 3204031479, 3329325298]"

definition sha_init :: "w32 list" where
  "sha_init = [0x6a09e667, 0xbb67ae85, 0x3c6ef372, 0xa54ff53a,
     0x510e527f, 0x9b05688c, 0x1f83d9ab, 0x5be0cd19]"

definition rotr32 :: "nat \<Rightarrow> w32 \<Rightarrow> w32" where
  "rotr32 n x = word_rotr n x"

definition sig0 :: "w32 \<Rightarrow> w32" where
  "sig0 x = rotr32 7 x XOR rotr32 18 x XOR drop_bit 3 x"

definition sig1 :: "w32 \<Rightarrow> w32" where
  "sig1 x = rotr32 17 x XOR rotr32 19 x XOR drop_bit 10 x"

definition big_sig0 :: "w32 \<Rightarrow> w32" where
  "big_sig0 x = rotr32 2 x XOR rotr32 13 x XOR rotr32 22 x"

definition big_sig1 :: "w32 \<Rightarrow> w32" where
  "big_sig1 x = rotr32 6 x XOR rotr32 11 x XOR rotr32 25 x"

definition sha_ch :: "w32 \<Rightarrow> w32 \<Rightarrow> w32 \<Rightarrow> w32" where
  "sha_ch x y z = (x AND y) XOR (NOT x AND z)"

definition sha_maj :: "w32 \<Rightarrow> w32 \<Rightarrow> w32 \<Rightarrow> w32" where
  "sha_maj x y z = (x AND y) XOR (x AND z) XOR (y AND z)"

text \<open>
  The message schedule: the newest sixteen words are kept, newest first, and each extension step
  emits the oldest of them.
\<close>

fun sha_schedule :: "nat \<Rightarrow> w32 list \<Rightarrow> w32 list" where
  "sha_schedule 0 ws = ws"
| "sha_schedule (Suc n) ws =
     (let i = length ws;
          w = sig1 (ws ! (i - 2)) + ws ! (i - 7) + sig0 (ws ! (i - 15)) + ws ! (i - 16)
      in sha_schedule n (ws @ [w]))"

fun sha_round :: "w32 list \<Rightarrow> w32 \<times> w32 \<Rightarrow> w32 list" where
  "sha_round [a, b, c, d, e, f, g, h] (k, w) =
     (let t1 = h + big_sig1 e + sha_ch e f g + k + w;
          t2 = big_sig0 a + sha_maj a b c
      in [t1 + t2, a, b, c, d + t1, e, f, g])"
| "sha_round st kw = st"

definition sha_block :: "w32 list \<Rightarrow> w32 list \<Rightarrow> w32 list" where
  "sha_block st ws = map2 (+) st (foldl sha_round st (zip sha_k (sha_schedule 48 ws)))"

definition bytes_word :: "int list \<Rightarrow> w32" where
  "bytes_word bs = word_of_int (foldl (\<lambda>acc b. acc * 256 + b) 0 bs)"

fun words_of :: "nat \<Rightarrow> int list \<Rightarrow> w32 list" where
  "words_of 0 bs = []"
| "words_of (Suc n) bs = bytes_word (take 4 bs) # words_of n (drop 4 bs)"

definition be64 :: "int \<Rightarrow> int list" where
  "be64 n = map (\<lambda>i. n div 256 ^ (7 - i) mod 256) [0..<8]"

definition sha_pad :: "int list \<Rightarrow> int list" where
  "sha_pad bs = (let n = length bs; z = (119 - n mod 64) mod 64
     in bs @ [128] @ replicate z 0 @ be64 (8 * int n))"

fun sha_blocks :: "nat \<Rightarrow> w32 list \<Rightarrow> int list \<Rightarrow> w32 list" where
  "sha_blocks 0 st bs = st"
| "sha_blocks (Suc n) st bs = sha_blocks n (sha_block st (words_of 16 (take 64 bs))) (drop 64 bs)"

definition hex_digit :: "int \<Rightarrow> char" where
  "hex_digit n = ''0123456789abcdef'' ! nat (n mod 16)"

definition hex_word :: "w32 \<Rightarrow> string" where
  "hex_word w = map (\<lambda>i. hex_digit (uint w div 16 ^ (7 - i))) [0..<8]"

definition sha256_hex :: "string \<Rightarrow> string" where
  "sha256_hex s = (let bs = sha_pad (map of_char s)
     in concat (map hex_word (sha_blocks (length bs div 64) sha_init bs)))"

definition is_hex64 :: "string \<Rightarrow> bool" where
  "is_hex64 s \<longleftrightarrow> length s = 64 \<and> list_all (\<lambda>c. c \<in> set ''0123456789abcdef'') s"

lemma sha_round_length: "length st = 8 \<Longrightarrow> length (sha_round st kw) = 8"
  by (induction st kw rule: sha_round.induct) (auto simp: Let_def)

lemma sha_rounds_length: "length st = 8 \<Longrightarrow> length (foldl sha_round st kws) = 8"
  by (induction kws arbitrary: st) (auto simp: sha_round_length)

lemma sha_block_length: "length st = 8 \<Longrightarrow> length (sha_block st ws) = 8"
  by (simp add: sha_block_def sha_rounds_length)

lemma sha_blocks_length: "length st = 8 \<Longrightarrow> length (sha_blocks n st bs) = 8"
  by (induction n st bs rule: sha_blocks.induct) (auto simp: sha_block_length)

lemma hex_digit_in: "hex_digit n \<in> set ''0123456789abcdef''"
proof -
  have "n mod 16 < 16" by simp
  then have "nat (n mod 16) < length ''0123456789abcdef''" by (simp add: nat_less_iff)
  then show ?thesis unfolding hex_digit_def by (rule nth_mem)
qed

lemma hex_word_shape:
  "length (hex_word w) = 8" "c \<in> set (hex_word w) \<Longrightarrow> c \<in> set ''0123456789abcdef''"
  using hex_digit_in by (auto simp: hex_word_def simp del: list.set)

lemma hex_words_shape:
  "length (concat (map hex_word ws)) = 8 * length ws
    \<and> (\<forall>c \<in> set (concat (map hex_word ws)). c \<in> set ''0123456789abcdef'')"
proof (induction ws)
  case Nil
  show ?case by simp
next
  case (Cons w ws)
  then show ?case using hex_word_shape(2) [of _ w]
    by (simp add: hex_word_shape(1) ball_Un del: list.set)
qed

lemma sha_pad_aligned: "length (sha_pad bs) mod 64 = 0"
proof -
  define m where "m = length bs mod 64"
  have m: "m < 64" by (simp add: m_def)
  have z: "(119 - m) mod 64 = (if m \<le> 55 then 55 - m else 119 - m)"
    using m by (auto simp: mod_if)
  have "(length bs + (1 + ((119 - m) mod 64 + 8))) mod 64
      = (m + (1 + ((119 - m) mod 64 + 8))) mod 64"
    by (simp only: m_def mod_add_left_eq)
  also have "\<dots> = 0" using m by (simp add: z)
  finally show ?thesis by (simp add: sha_pad_def be64_def Let_def m_def)
qed

lemma sha256_hex_shape: "is_hex64 (sha256_hex s)"
proof -
  define ws where "ws = (let bs = sha_pad (map of_char s)
    in sha_blocks (length bs div 64) sha_init bs)"
  have "length ws = 8"
    by (simp add: ws_def Let_def sha_blocks_length sha_init_def)
  moreover have "sha256_hex s = concat (map hex_word ws)"
    by (simp only: sha256_hex_def ws_def Let_def)
  ultimately show ?thesis using hex_words_shape [of ws]
    by (simp add: is_hex64_def list_all_iff del: list.set)
qed

text \<open>The published test vector for the message \<^verbatim>\<open>abc\<close>.\<close>

lemma sha256_abc:
  "sha256_hex ''abc'' = ''ba7816bf8f01cfea414140de5dae2223b00361a396177a9cb410ff61f20015ad''"
  by code_simp

end
