(* ===== verification/Json.thy ===== *)
theory Json
  imports Sha256 Digits
begin

text \<open>
  Dynamically typed Python values, the immutable evidence values they freeze to
  (\<^verbatim>\<open>domain/evidence_values.py\<close>), and the canonical JSON text that every content hash of the
  program is taken of (\<^verbatim>\<open>configuration/hashing.py\<close>, \<^verbatim>\<open>application/graph.py\<close>). The lemmas show that
  freezing is idempotent and that it rejects exactly the values with a non-canonical part.
\<close>

section \<open>Dynamic values\<close>

text \<open>
  \<open>PDict\<close> and \<open>PProxy\<close> are the two mapping types the program meets, \<open>POther\<close> an instance of any
  other type (a float, bytes, a set), tagged with the name of its type.
\<close>

datatype pyobj =
    PNone
  | PBool bool
  | PInt int
  | PStr string
  | PList "pyobj list"
  | PTuple "pyobj list"
  | PDict "(pyobj \<times> pyobj) list"
  | PProxy "(pyobj \<times> pyobj) list"
  | POther string

text \<open>Immutable evidence: mapping proxies with string keys, tuples and the four scalar types.\<close>

datatype evidence =
    ENone
  | EBool bool
  | EInt int
  | EStr string
  | ETuple "evidence list"
  | EMap "(string \<times> evidence) list"

definition evidence_error :: exn where
  "evidence_error = Exn TypeError ''evidence payload must contain canonical JSON values''"

fun py_str_key :: "pyobj \<Rightarrow> string option" where
  "py_str_key (PStr s) = Some s"
| "py_str_key _ = None"

text \<open>
  The two mapping cases test every key before any item is frozen, as the \<^verbatim>\<open>any\<close> over the keys does.
\<close>

function (sequential) freeze_evidence :: "pyobj \<Rightarrow> evidence result" where
  "freeze_evidence (PDict kvs) =
     (if list_ex (\<lambda>kv. py_str_key (fst kv) = None) kvs then Inl evidence_error
      else rbind (rmapM (\<lambda>kv. rbind (freeze_evidence (snd kv))
                          (\<lambda>v. Inr (the (py_str_key (fst kv)), v))) kvs)
             (\<lambda>items. Inr (EMap items)))"
| "freeze_evidence (PProxy kvs) = freeze_evidence (PDict kvs)"
| "freeze_evidence (PList xs) = rbind (rmapM freeze_evidence xs) (\<lambda>ys. Inr (ETuple ys))"
| "freeze_evidence (PTuple xs) = rbind (rmapM freeze_evidence xs) (\<lambda>ys. Inr (ETuple ys))"
| "freeze_evidence PNone = Inr ENone"
| "freeze_evidence (PBool b) = Inr (EBool b)"
| "freeze_evidence (PInt i) = Inr (EInt i)"
| "freeze_evidence (PStr s) = Inr (EStr s)"
| "freeze_evidence (POther t) = Inl evidence_error"
  by pat_completeness auto

lemma size_pair_list_snd: "kv \<in> set kvs \<Longrightarrow> size (snd kv) < Suc (size_list (size_prod size size) kvs)"
  by (induction kvs) (auto simp: size_prod_def split: prod.splits)

lemma size_list_elem: "x \<in> set xs \<Longrightarrow> size x < Suc (size_list size xs)"
  by (induction xs) auto

termination freeze_evidence
  by (relation "measures [size, \<lambda>x. case x of PProxy _ \<Rightarrow> 1 | _ \<Rightarrow> 0]")
    (auto simp: size_list_elem dest: size_pair_list_snd)

text \<open>
  The frozen value seen again as a Python object: proxies and tuples.
\<close>

fun thaw :: "evidence \<Rightarrow> pyobj" where
  "thaw ENone = PNone"
| "thaw (EBool b) = PBool b"
| "thaw (EInt i) = PInt i"
| "thaw (EStr s) = PStr s"
| "thaw (ETuple xs) = PTuple (map thaw xs)"
| "thaw (EMap kvs) = PProxy (map (\<lambda>kv. (PStr (fst kv), thaw (snd kv))) kvs)"

section \<open>Canonical JSON\<close>

datatype json =
    JNull
  | JBool bool
  | JInt int
  | JStr string
  | JArr "json list"
  | JObj "(string \<times> json) list"

fun canonical_evidence :: "evidence \<Rightarrow> json" where
  "canonical_evidence (EMap kvs) = JObj (map (\<lambda>kv. (fst kv, canonical_evidence (snd kv))) kvs)"
| "canonical_evidence (ETuple xs) = JArr (map canonical_evidence xs)"
| "canonical_evidence ENone = JNull"
| "canonical_evidence (EBool b) = JBool b"
| "canonical_evidence (EInt i) = JInt i"
| "canonical_evidence (EStr s) = JStr s"

text \<open>
  \<^verbatim>\<open>json.dumps(value, ensure_ascii=False, sort_keys=True, separators=(",", ":"))\<close>: strings are escaped
  as the standard library escapes them, other characters stand for themselves.
\<close>

definition hex_nibble :: "int \<Rightarrow> char" where
  "hex_nibble n = hex_digit n"

fun json_escape :: "char \<Rightarrow> string" where
  "json_escape c =
     (let n = (of_char c :: int)
      in if n = 34 then [CHR 0x5C, CHR 0x22]
         else if n = 92 then [CHR 0x5C, CHR 0x5C]
         else if n = 8 then [CHR 0x5C, CHR ''b'']
         else if n = 12 then [CHR 0x5C, CHR ''f'']
         else if n = 10 then [CHR 0x5C, CHR ''n'']
         else if n = 13 then [CHR 0x5C, CHR ''r'']
         else if n = 9 then [CHR 0x5C, CHR ''t'']
         else if n < 32 then [CHR 0x5C, CHR ''u'', CHR ''0'', CHR ''0'', hex_nibble (n div 16), hex_nibble n]
         else [c])"

definition json_string :: "string \<Rightarrow> string" where
  "json_string s = CHR 0x22 # concat (map json_escape s) @ [CHR 0x22]"

fun join_with :: "string \<Rightarrow> string list \<Rightarrow> string" where
  "join_with sep [] = []"
| "join_with sep [x] = x"
| "join_with sep (x # y # zs) = x @ sep @ join_with sep (y # zs)"

fun json_dumps :: "json \<Rightarrow> string" where
  "json_dumps JNull = ''null''"
| "json_dumps (JBool b) = (if b then ''true'' else ''false'')"
| "json_dumps (JInt i) = int_text i"
| "json_dumps (JStr s) = json_string s"
| "json_dumps (JArr xs) = ''['' @ join_with '','' (map json_dumps xs) @ '']''"
| "json_dumps (JObj kvs) =
     ''{'' @ join_with '','' (map snd (sort_key fst
        (map (\<lambda>kv. (fst kv, json_string (fst kv) @ '':'' @ json_dumps (snd kv))) kvs))) @ ''}''"

text \<open>\<^verbatim>\<open>sha256(domain + canonical_json(value)).hexdigest()\<close>.\<close>

definition canonical_json :: "json \<Rightarrow> string" where
  "canonical_json v = json_dumps v"

definition hash_with_domain :: "string \<Rightarrow> json \<Rightarrow> string" where
  "hash_with_domain tag v = sha256_hex (tag @ [CHR 0x00] @ canonical_json v)"

definition opt_str :: "string option \<Rightarrow> json" where
  "opt_str x = (case x of None \<Rightarrow> JNull | Some s \<Rightarrow> JStr s)"

definition opt_int :: "int option \<Rightarrow> json" where
  "opt_int x = (case x of None \<Rightarrow> JNull | Some i \<Rightarrow> JInt i)"

lemma hash_with_domain_hex [simp]: "is_hex64 (hash_with_domain tag v)"
  by (simp add: hash_with_domain_def sha256_hex_shape)

text \<open>
  \<^verbatim>\<open>repr\<close> of a string without quotes or control characters, and of a list of such strings, as the
  error messages of the program embed them.
\<close>

definition py_repr :: "string \<Rightarrow> string" where
  "py_repr s = [CHR 0x27] @ s @ [CHR 0x27]"

definition py_list :: "string list \<Rightarrow> string" where
  "py_list xs = ''['' @ join_with '', '' (map py_repr xs) @ '']''"

section \<open>Freezing\<close>

text \<open>A value with only canonical parts.\<close>

function (sequential) canonical_value :: "pyobj \<Rightarrow> bool" where
  "canonical_value (PDict kvs) \<longleftrightarrow>
     list_all (\<lambda>kv. py_str_key (fst kv) \<noteq> None \<and> canonical_value (snd kv)) kvs"
| "canonical_value (PProxy kvs) \<longleftrightarrow>
     list_all (\<lambda>kv. py_str_key (fst kv) \<noteq> None \<and> canonical_value (snd kv)) kvs"
| "canonical_value (PList xs) \<longleftrightarrow> list_all canonical_value xs"
| "canonical_value (PTuple xs) \<longleftrightarrow> list_all canonical_value xs"
| "canonical_value (POther t) \<longleftrightarrow> False"
| "canonical_value v \<longleftrightarrow> True"
  by pat_completeness auto
termination
  by (relation "measure size") (auto simp: size_list_elem dest: size_pair_list_snd)

lemma rmapM_error:
  "(\<And>x e. x \<in> set xs \<Longrightarrow> f x = Inl e \<Longrightarrow> e = e0) \<Longrightarrow> rmapM f xs = Inl e \<Longrightarrow> e = e0"
  by (induction xs) (auto simp: rbind_eq_Inl)

lemma freeze_error: "freeze_evidence v = Inl e \<Longrightarrow> e = evidence_error"
proof (induction v arbitrary: e rule: freeze_evidence.induct)
  case (1 kvs)
  show ?case
  proof (cases "list_ex (\<lambda>kv. py_str_key (fst kv) = None) kvs")
    case True
    with "1.prems" show ?thesis by simp
  next
    case False
    with "1.prems" have "rmapM (\<lambda>kv. rbind (freeze_evidence (snd kv))
        (\<lambda>v. Inr (the (py_str_key (fst kv)), v))) kvs = Inl e"
      by (auto simp: rbind_eq_Inl)
    then show ?thesis
      by (rule rmapM_error [rotated]) (use "1.IH" [OF False] in \<open>auto simp: rbind_eq_Inl\<close>)
  qed
next
  case (3 xs)
  then show ?case by (auto simp: rbind_eq_Inl intro: rmapM_error)
next
  case (4 xs)
  then show ?case by (auto simp: rbind_eq_Inl intro: rmapM_error)
qed auto

lemma is_ok_rmapM: "is_ok (rmapM f xs) \<longleftrightarrow> (\<forall>x\<in>set xs. is_ok (f x))"
proof (induction xs)
  case Nil
  then show ?case by simp
next
  case (Cons x xs)
  then show ?case by (cases "f x"; cases "rmapM f xs") auto
qed

lemma is_ok_rbind_Inr [simp]: "is_ok (rbind r (\<lambda>x. Inr (g x))) \<longleftrightarrow> is_ok r"
  by (cases r) auto

lemma freeze_ok_iff: "is_ok (freeze_evidence v) \<longleftrightarrow> canonical_value v"
proof (induction v rule: freeze_evidence.induct)
  case (1 kvs)
  show ?case
  proof (cases "list_ex (\<lambda>kv. py_str_key (fst kv) = None) kvs")
    case True
    then show ?thesis by (auto simp: list_ex_iff list_all_iff)
  next
    case False
    with 1 show ?thesis by (auto simp: is_ok_rmapM list_ex_iff list_all_iff)
  qed
qed (auto simp: is_ok_rmapM list_all_iff)

lemma rmapM_Inr_map: "(\<And>x. x \<in> set xs \<Longrightarrow> f x = Inr (g x)) \<Longrightarrow> rmapM f xs = Inr (map g xs)"
  by (induction xs) auto

lemma freeze_thaw: "freeze_evidence (thaw e) = Inr e"
proof (induction e rule: thaw.induct)
  case (5 xs)
  then have "rmapM freeze_evidence (map thaw xs) = Inr xs"
    by (simp add: rmapM_list_all2 list_all2_conv_all_nth)
  then show ?case by simp
next
  case (6 kvs)
  then have "rmapM (\<lambda>kv. rbind (freeze_evidence (snd kv)) (\<lambda>v. Inr (the (py_str_key (fst kv)), v)))
      (map (\<lambda>kv. (PStr (fst kv), thaw (snd kv))) kvs) = Inr kvs"
    by (simp add: rmapM_list_all2 list_all2_conv_all_nth)
  then show ?case by (auto simp: list_ex_iff)
qed simp_all

text \<open>Freezing accepts exactly the values all of whose mapping keys are strings
  and all of whose leaves are null, Boolean, integer or string; every other value raises the one
  type error; and a frozen value seen again as a Python object freezes to itself.\<close>

theorem freeze_evidence_exact:
  "(is_ok (freeze_evidence v) \<longleftrightarrow> canonical_value v)
    \<and> (\<not> canonical_value v \<longrightarrow> freeze_evidence v = Inl evidence_error)
    \<and> (freeze_evidence v = Inr e \<longrightarrow> freeze_evidence (thaw e) = Inr e)"
  using freeze_ok_iff [of v] freeze_error [of v] freeze_thaw [of e]
  by (cases "freeze_evidence v") auto

theorem freeze_evidence_exact_witness:
  "freeze_evidence (PDict [(PStr ''a'', PList [PInt 1])]) = Inr (EMap [(''a'', ETuple [EInt 1])])
    \<and> freeze_evidence (thaw (EMap [(''a'', ETuple [EInt 1])])) = Inr (EMap [(''a'', ETuple [EInt 1])])
    \<and> freeze_evidence (PList [POther ''float'']) = Inl evidence_error"
  using freeze_evidence_exact [of "PDict [(PStr ''a'', PList [PInt 1])]" "EMap [(''a'', ETuple [EInt 1])]"]
    freeze_evidence_exact [of "PList [POther ''float'']" ENone]
  by simp

end
