(* ===== verification/Values.thy ===== *)
theory Values
  imports Decimals Json
begin

text \<open>
  Canonical identifiers and exact decimal text: the string subclasses of \<^verbatim>\<open>domain/values.py\<close>. A
  constructor takes a dynamic value and returns the canonical text or raises. The lemmas show that
  the canonical decimal text is a normal form: constructing is idempotent, it keeps the value, and
  two texts of the same value have the same canonical text. The datetime wrapper
  \<^verbatim>\<open>UtcTimestamp\<close> (floating-point seconds) is not modelled.
\<close>

section \<open>Timeframes, event types, instruments\<close>

definition timeframe_minutes :: "(string, int) dict" where
  "timeframe_minutes = [(''1m'', 1), (''5m'', 5), (''15m'', 15), (''1h'', 60), (''4h'', 240)]"

definition event_types :: "string list" where
  "event_types = [''run_started'', ''run_succeeded'', ''run_failed'', ''decision_found'', ''no_decision'']"

definition timeframe :: "string \<Rightarrow> string result" where
  "timeframe v = (if dict_get timeframe_minutes v = None then raise ValueError ''unknown timeframe'' else Inr v)"

definition duration_minutes :: "string \<Rightarrow> int" where
  "duration_minutes tf = (case dict_get timeframe_minutes tf of Some n \<Rightarrow> n | None \<Rightarrow> 0)"

definition event_type_of :: "string \<Rightarrow> string result" where
  "event_type_of v = (if v \<in> set event_types then Inr v else raise ValueError ''unknown event type'')"

fun split_on :: "char \<Rightarrow> string \<Rightarrow> string list" where
  "split_on c [] = [[]]"
| "split_on c (x # xs) =
     (if x = c then [] # split_on c xs
      else (case split_on c xs of [] \<Rightarrow> [[x]] | p # ps \<Rightarrow> (x # p) # ps))"

definition is_upper_digit :: "char \<Rightarrow> bool" where
  "is_upper_digit c \<longleftrightarrow> is_digit c \<or> (65 \<le> (of_char c :: int) \<and> (of_char c :: int) \<le> 90)"

text \<open>The pattern \<^verbatim>\<open>[A-Z0-9]+(?:-[A-Z0-9]+){2,5}\<close>.\<close>

definition instrument_syntax :: "string \<Rightarrow> bool" where
  "instrument_syntax v \<longleftrightarrow> (let ps = split_on CHR ''-'' v
     in 3 \<le> length ps \<and> length ps \<le> 6 \<and> list_all (\<lambda>p. p \<noteq> [] \<and> list_all is_upper_digit p) ps)"

definition instrument_id :: "string \<Rightarrow> string result" where
  "instrument_id v =
     (if \<not> (1 \<le> length v \<and> length v \<le> 64) \<or> \<not> instrument_syntax v
      then raise ValueError ''invalid canonical instrument identifier'' else Inr v)"

section \<open>Decimal text\<close>

text \<open>The pattern \<^verbatim>\<open>[0-9]+(?:\.[0-9]+)?\<close>.\<close>

definition decimal_syntax :: "string \<Rightarrow> bool" where
  "decimal_syntax v \<longleftrightarrow> (let ip = takeWhile is_digit v; r = dropWhile is_digit v
     in ip \<noteq> [] \<and> (case r of [] \<Rightarrow> True
          | c # fp \<Rightarrow> c = CHR ''.'' \<and> fp \<noteq> [] \<and> all_digits fp))"

definition rstrip :: "char \<Rightarrow> string \<Rightarrow> string" where
  "rstrip c s = rev (dropWhile (\<lambda>x. x = c) (rev s))"

text \<open>
  The tail of every decimal renderer of the program: drop trailing zeros, then a trailing point,
  but only of a text that has a point.
\<close>

definition strip_fraction :: "string \<Rightarrow> string" where
  "strip_fraction s = (if CHR ''.'' \<in> set s then rstrip CHR ''.'' (rstrip CHR ''0'' s) else s)"

definition or_zero :: "string \<Rightarrow> string" where
  "or_zero s = (if s = [] then ''0'' else s)"

definition decimal_text :: "string \<Rightarrow> string result" where
  "decimal_text v =
     (if 64 < length v \<or> \<not> decimal_syntax v
      then raise ValueError ''decimal value must use non-negative fixed-point syntax''
      else case parse_decimal v of
        Finite number \<Rightarrow> Inr (or_zero (strip_fraction (format_f number)))
      | _ \<Rightarrow> raise ValueError ''invalid decimal value'')"

text \<open>The constructor on a dynamic value.\<close>

definition decimal_text_obj :: "pyobj \<Rightarrow> string result" where
  "decimal_text_obj v = (case v of PStr s \<Rightarrow> decimal_text s
     | _ \<Rightarrow> raise TypeError ''decimal value must be a string'')"

definition opt_decimal_text :: "string option \<Rightarrow> string option result" where
  "opt_decimal_text v = (case v of None \<Rightarrow> Inr None
     | Some s \<Rightarrow> rbind (decimal_text s) (\<lambda>t. Inr (Some t)))"

section \<open>The normal form of a numeral\<close>

text \<open>Exactly \<open>m\<close> digits, with leading zeros.\<close>

fun fixed_digits :: "nat \<Rightarrow> int \<Rightarrow> string" where
  "fixed_digits 0 x = []"
| "fixed_digits (Suc m) x = fixed_digits m (x div 10) @ [digit_char (x mod 10)]"

text \<open>The numeral of \<open>n / 10 ^ m\<close> with \<open>m\<close> fraction digits.\<close>

definition render :: "int \<Rightarrow> nat \<Rightarrow> string" where
  "render n m = int_digits (n div 10 ^ m) @
     (if m = 0 then [] else CHR ''.'' # fixed_digits m (n mod 10 ^ m))"

fun norm_frac :: "int \<Rightarrow> nat \<Rightarrow> int \<times> nat" where
  "norm_frac n 0 = (n, 0)"
| "norm_frac n (Suc m) = (if n mod 10 = 0 then norm_frac (n div 10) m else (n, Suc m))"

lemma fixed_digits_length [simp]: "length (fixed_digits m x) = m"
  by (induction m arbitrary: x) auto

lemma fixed_digits_Nil_iff [simp]: "fixed_digits m x = [] \<longleftrightarrow> m = 0"
  by (metis fixed_digits_length length_0_conv)

lemma fixed_digits_all_digits: "all_digits (fixed_digits m x)"
  by (induction m arbitrary: x) (auto simp: all_digits_def)

lemma digits_val_fixed: "0 \<le> x \<Longrightarrow> digits_val (fixed_digits m x) = x mod 10 ^ m"
proof (induction m arbitrary: x)
  case 0
  show ?case by simp
next
  case (Suc m)
  then have "digits_val (fixed_digits (Suc m) x) = (x div 10) mod 10 ^ m * 10 + x mod 10"
    by simp
  also have "\<dots> = x mod 10 ^ Suc m"
    by (simp add: zmod_zmult2_eq)
  finally show ?case .
qed

lemma fixed_digits_mod: "fixed_digits m (x mod 10 ^ m) = fixed_digits m x"
proof (induction m arbitrary: x)
  case 0
  show ?case by simp
next
  case (Suc m)
  have "x mod 10 ^ Suc m = 10 * (x div 10 mod 10 ^ m) + x mod 10"
    by (simp add: zmod_zmult2_eq)
  then have "x mod 10 ^ Suc m div 10 = x div 10 mod 10 ^ m" "x mod 10 ^ Suc m mod 10 = x mod 10"
    by simp_all
  with Suc [of "x div 10"] show ?case by simp
qed

lemma int_digits_split:
  "0 \<le> n \<Longrightarrow> m < ndigits n \<Longrightarrow> int_digits n = int_digits (n div 10 ^ m) @ fixed_digits m n"
proof (induction m arbitrary: n)
  case 0
  show ?case by simp
next
  case (Suc m)
  have big: "\<not> n < 10" using Suc.prems by (auto simp: ndigits_def int_digits.simps [of n])
  then have nd: "ndigits n = Suc (ndigits (n div 10))"
    by (simp add: ndigits_def int_digits.simps [of n])
  have "int_digits (n div 10) = int_digits (n div 10 div 10 ^ m) @ fixed_digits m (n div 10)"
    using Suc.prems nd by (intro Suc.IH) auto
  moreover have "n div 10 div 10 ^ m = n div 10 ^ Suc m"
    by (simp add: zdiv_zmult2_eq)
  ultimately show ?case using big by (simp add: int_digits.simps [of n])
qed

lemma fixed_digits_pad:
  "0 \<le> n \<Longrightarrow> ndigits n \<le> m \<Longrightarrow> fixed_digits m n = replicate (m - ndigits n) CHR ''0'' @ int_digits n"
proof (induction m arbitrary: n)
  case 0
  then show ?case by (simp add: not_less [symmetric])
next
  case (Suc m)
  have z: "fixed_digits k 0 = replicate k CHR ''0''" for k
    by (induction k) (simp_all add: digit_char_def char_of_def replicate_append_same)
  show ?case
  proof (cases "n < 10")
    case True
    then have "ndigits n = 1" by (simp add: ndigits_def int_digits.simps [of n])
    with True Suc.prems show ?thesis
      by (simp add: z int_digits.simps [of n])
  next
    case False
    then have nd: "ndigits n = Suc (ndigits (n div 10))"
      by (simp add: ndigits_def int_digits.simps [of n])
    with Suc.prems have "fixed_digits m (n div 10) =
        replicate (m - ndigits (n div 10)) CHR ''0'' @ int_digits (n div 10)"
      by (intro Suc.IH) auto
    with False nd show ?thesis by (simp add: int_digits.simps [of n])
  qed
qed

lemma format_digits_render:
  assumes "0 \<le> n"
  shows "format_digits (int_digits n) (- int m) = render n m"
proof (cases "m < ndigits n")
  case True
  have split: "int_digits n = int_digits (n div 10 ^ m) @ fixed_digits m n"
    by (rule int_digits_split [OF assms True])
  then have len: "length (int_digits n) = length (int_digits (n div 10 ^ m)) + m"
    by (metis fixed_digits_length length_append)
  define a where "a = int_digits (n div 10 ^ m)"
  have a: "0 < length a" by (simp add: a_def)
  have "format_digits (a @ fixed_digits m n) (- int m)
      = a @ (if m = 0 then [] else CHR ''.'' # fixed_digits m n)"
    using a by (auto simp: format_digits_def Let_def)
  then show ?thesis
    by (simp add: split [folded a_def] render_def a_def [symmetric] fixed_digits_mod)
next
  case False
  then have m: "ndigits n \<le> m" by simp
  then have "0 < m" using ndigits_pos [of n] by linarith
  then have "n < 10 ^ m" using m assms by (simp add: ndigits_le_iff)
  then have "n div 10 ^ m = 0" using assms by simp
  moreover have "int_digits 0 = ''0''"
    by (simp add: int_digits.simps digit_char_def char_of_def)
  ultimately have r: "render n m = ''0.'' @ replicate (m - ndigits n) CHR ''0'' @ int_digits n"
    using \<open>0 < m\<close> by (simp add: render_def fixed_digits_mod fixed_digits_pad [OF assms m])
  define len where "len = length (int_digits n)"
  have len: "0 < len" "len \<le> m" using m by (simp_all add: len_def ndigits_def)
  show ?thesis
  proof (cases "len = m")
    case True
    then show ?thesis using len
      by (simp add: r format_digits_def Let_def len_def [symmetric] ndigits_def)
  next
    case False
    then have "len < m" using len by simp
    then show ?thesis
      by (simp add: r format_digits_def Let_def len_def [symmetric] ndigits_def nat_diff_distrib')
  qed
qed

lemma rstrip_snoc: "rstrip c (s @ [x]) = (if x = c then rstrip c s else s @ [x])"
  by (simp add: rstrip_def)

lemma digit_char_zero_iff:
  assumes "0 \<le> d" "d < 10"
  shows "digit_char d = CHR ''0'' \<longleftrightarrow> d = 0"
proof -
  have z: "digit_char 0 = CHR ''0''" by (simp add: digit_char_def char_of_def)
  have "digit_val (digit_char d) = d" using assms by simp
  moreover have "digit_val (digit_char 0) = 0" by simp
  ultimately show ?thesis using z by metis
qed

lemma dot_not_digit [simp]: "\<not> is_digit CHR ''.''"
  by (simp add: is_digit_def)

lemma is_digit_not_dot: "is_digit c \<Longrightarrow> c \<noteq> CHR ''.''"
  by auto

lemma all_digits_no_dot: "all_digits s \<Longrightarrow> CHR ''.'' \<notin> set s"
  by (auto simp: all_digits_def list_all_iff)

lemma rstrip_dot_digits: "all_digits s \<Longrightarrow> rstrip CHR ''.'' s = s"
  by (cases s rule: rev_cases) (auto simp: rstrip_snoc all_digits_def rstrip_def)

lemma strip_render:
  assumes "0 \<le> n"
  shows "strip_fraction (render n m) = (case norm_frac n m of (n', m') \<Rightarrow> render n' m')"
  using assms
proof (induction n m rule: norm_frac.induct)
  case (1 n)
  then have "all_digits (int_digits n)" by (rule int_digits_all_digits)
  then show ?case by (simp add: render_def strip_fraction_def all_digits_no_dot)
next
  case (2 n m)
  have d: "0 \<le> n mod 10" "n mod 10 < 10" by simp_all
  have nm: "n mod 10 ^ Suc m mod 10 = n mod 10"
    by (metis mod_mod_cancel dvd_triv_left power_Suc)
  have nd: "n mod 10 ^ Suc m div 10 = n div 10 mod 10 ^ m"
    by (simp add: zmod_zmult2_eq)
  have ni: "n div 10 ^ Suc m = n div 10 div 10 ^ m"
    by (simp add: zdiv_zmult2_eq)
  define pre where "pre = int_digits (n div 10 div 10 ^ m) @ CHR ''.'' # fixed_digits m (n div 10 mod 10 ^ m)"
  have r: "render n (Suc m) = pre @ [digit_char (n mod 10)]"
    by (simp only: render_def fixed_digits.simps nm nd ni pre_def) simp
  have dot: "CHR ''.'' \<in> set pre" by (simp add: pre_def)
  show ?case
  proof (cases "n mod 10 = 0")
    case False
    then have "digit_char (n mod 10) \<noteq> CHR ''0''" using d by (simp add: digit_char_zero_iff)
    moreover have "digit_char (n mod 10) \<noteq> CHR ''.''" using d is_digit_digit_char is_digit_not_dot by blast
    ultimately have "strip_fraction (render n (Suc m)) = render n (Suc m)"
      using dot by (simp add: r strip_fraction_def rstrip_snoc)
    with False show ?thesis by simp
  next
    case True
    then have "digit_char (n mod 10) = CHR ''0''" using d by (simp add: digit_char_zero_iff)
    then have s: "strip_fraction (render n (Suc m)) = rstrip CHR ''.'' (rstrip CHR ''0'' pre)"
      using dot by (simp add: r strip_fraction_def rstrip_snoc)
    have nn: "0 \<le> n div 10" using 2 by simp
    have "rstrip CHR ''.'' (rstrip CHR ''0'' pre) = strip_fraction (render (n div 10) m)"
    proof (cases "m = 0")
      case True
      have ad: "all_digits (int_digits (n div 10))" using nn by (rule int_digits_all_digits)
      then show ?thesis using True
        by (simp add: pre_def rstrip_snoc rstrip_dot_digits render_def strip_fraction_def all_digits_no_dot)
    next
      case False
      then have "pre = render (n div 10) m" by (simp add: pre_def render_def)
      with dot show ?thesis by (simp add: strip_fraction_def)
    qed
    with s True 2 nn show ?thesis by simp
  qed
qed

lemma render_nonempty [simp]: "render n m \<noteq> []"
  by (simp add: render_def)

definition numeral_of :: "string \<Rightarrow> string \<Rightarrow> string" where
  "numeral_of ip fp = ip @ (if fp = [] then [] else CHR ''.'' # fp)"

definition numeral_parts :: "string \<Rightarrow> string \<Rightarrow> bool" where
  "numeral_parts ip fp \<longleftrightarrow> ip \<noteq> [] \<and> all_digits ip \<and> all_digits fp"

lemma takeWhile_digits:
  "all_digits ip \<Longrightarrow> (r = [] \<or> \<not> is_digit (hd r)) \<Longrightarrow>
    takeWhile is_digit (ip @ r) = ip \<and> dropWhile is_digit (ip @ r) = r"
  by (induction ip) (auto simp: all_digits_def takeWhile_eq_Nil_iff dropWhile_eq_self_iff)

lemma numeral_takeWhile:
  assumes "numeral_parts ip fp"
  shows "takeWhile is_digit (numeral_of ip fp) = ip"
    and "dropWhile is_digit (numeral_of ip fp) = (if fp = [] then [] else CHR ''.'' # fp)"
  using assms takeWhile_digits [of ip "if fp = [] then [] else CHR ''.'' # fp"]
  by (auto simp: numeral_of_def numeral_parts_def)

lemma numeral_syntax: "numeral_parts ip fp \<Longrightarrow> decimal_syntax (numeral_of ip fp)"
  by (simp add: decimal_syntax_def numeral_takeWhile Let_def) (simp add: numeral_parts_def)

lemma decimal_syntax_numeral:
  assumes "decimal_syntax v"
  shows "\<exists>ip fp. numeral_parts ip fp \<and> v = numeral_of ip fp"
proof -
  define ip where "ip = takeWhile is_digit v"
  define r where "r = dropWhile is_digit v"
  have v: "v = ip @ r" by (simp add: ip_def r_def)
  have ip: "all_digits ip" by (auto simp: ip_def all_digits_def list_all_iff dest: set_takeWhileD)
  from assms have ne: "ip \<noteq> []"
    and r: "case r of [] \<Rightarrow> True | c # fp \<Rightarrow> c = CHR ''.'' \<and> fp \<noteq> [] \<and> all_digits fp"
    by (simp_all add: decimal_syntax_def ip_def r_def Let_def)
  show ?thesis
  proof (cases r)
    case Nil
    with v ip ne show ?thesis
      by (intro exI [of _ ip] exI [of _ "[]"]) (simp add: numeral_parts_def numeral_of_def all_digits_def)
  next
    case (Cons c fp)
    with v ip ne r show ?thesis
      by (intro exI [of _ ip] exI [of _ fp]) (simp add: numeral_parts_def numeral_of_def)
  qed
qed

lemma digit_props: "is_digit c \<Longrightarrow> \<not> is_space c \<and> c \<noteq> CHR ''_'' \<and> c \<noteq> CHR ''-'' \<and> c \<noteq> CHR ''+''"
  by (auto simp: is_digit_def is_space_def)

lemma strip_id: "(\<And>c. c \<in> set s \<Longrightarrow> \<not> is_space c) \<Longrightarrow> strip s = s"
proof -
  assume n: "\<And>c. c \<in> set s \<Longrightarrow> \<not> is_space c"
  then have "dropWhile is_space t = t" if "set t \<subseteq> set s" for t
    using that by (cases t) auto
  from this [of s] this [of "rev s"] show ?thesis by (simp add: strip_def)
qed

lemma numeral_chars: "numeral_parts ip fp \<Longrightarrow> c \<in> set (numeral_of ip fp) \<Longrightarrow> is_digit c \<or> c = CHR ''.''"
  by (auto simp: numeral_of_def numeral_parts_def all_digits_def list_all_iff split: if_splits)

lemma parse_unsigned_numeral:
  assumes "numeral_parts ip fp"
  shows "parse_unsigned neg (numeral_of ip fp) = Finite (Dec neg (digits_val (ip @ fp)) (- int (length fp)))"
proof (cases fp)
  case Nil
  then show ?thesis using assms
    by (simp add: parse_unsigned_def Let_def numeral_takeWhile numeral_parts_def)
next
  case (Cons d ds)
  have "takeWhile is_digit fp = fp" "dropWhile is_digit fp = []"
    using assms by (auto simp: numeral_parts_def all_digits_def list_all_iff takeWhile_eq_all_conv)
  with Cons show ?thesis using assms numeral_takeWhile [OF assms]
    by (simp add: parse_unsigned_def Let_def numeral_parts_def)
qed

lemma parse_signed_numeral:
  assumes "numeral_parts ip fp"
  shows "parse_decimal (sign_text neg @ numeral_of ip fp)
    = Finite (Dec neg (digits_val (ip @ fp)) (- int (length fp)))"
proof -
  let ?v = "numeral_of ip fp"
  have s: "\<not> is_space CHR ''.''" "\<not> is_space CHR ''-''" by (simp_all add: is_space_def)
  then have "strip (sign_text neg @ ?v) = sign_text neg @ ?v"
    using numeral_chars [OF assms] digit_props by (intro strip_id) (auto simp: sign_text_def split: if_splits)
  moreover have "filter (\<lambda>c. c \<noteq> CHR ''_'') (sign_text neg @ ?v) = sign_text neg @ ?v"
    using numeral_chars [OF assms] digit_props by (intro filter_True) (auto simp: sign_text_def split: if_splits)
  moreover obtain c cs where "?v = c # cs" "is_digit c"
    using assms by (cases ip) (auto simp: numeral_of_def numeral_parts_def all_digits_def)
  ultimately show ?thesis
    using digit_props [of c] parse_unsigned_numeral [OF assms, of neg]
    by (cases neg) (simp_all add: parse_decimal_def sign_text_def)
qed

lemma parse_numeral:
  assumes "numeral_parts ip fp"
  shows "parse_decimal (numeral_of ip fp)
    = Finite (Dec False (digits_val (ip @ fp)) (- int (length fp)))"
  using parse_signed_numeral [OF assms, of False] by (simp add: sign_text_def)

section \<open>The canonical text\<close>

lemma norm_frac_spec:
  "norm_frac n m = (n', m') \<Longrightarrow>
     n' * 10 ^ m = n * 10 ^ m' \<and> m' \<le> m \<and> (m' = 0 \<or> n' mod 10 \<noteq> 0) \<and> n' div 10 ^ m' = n div 10 ^ m
     \<and> (0 \<le> n \<longrightarrow> 0 \<le> n')"
proof (induction n m rule: norm_frac.induct)
  case (1 n)
  then show ?case by simp
next
  case (2 n m)
  show ?case
  proof (cases "n mod 10 = 0")
    case True
    with 2 have ih: "n' * 10 ^ m = n div 10 * 10 ^ m'" "m' \<le> m" "m' = 0 \<or> n' mod 10 \<noteq> 0"
      "n' div 10 ^ m' = n div 10 div 10 ^ m" "0 \<le> n \<longrightarrow> 0 \<le> n'"
      by auto
    from True have "n div 10 * 10 = n" by presburger
    then have "n' * 10 ^ Suc m = n * 10 ^ m'"
      using ih(1) by (simp add: algebra_simps) (metis mult.assoc mult.commute)
    moreover have "n div 10 div 10 ^ m = n div 10 ^ Suc m"
      by (simp add: zdiv_zmult2_eq)
    ultimately show ?thesis using ih by simp
  next
    case False
    with 2 show ?thesis by auto
  qed
qed

lemma norm_frac_unique:
  assumes "n1 * 10 ^ m2 = n2 * 10 ^ m1" "m1 = 0 \<or> n1 mod 10 \<noteq> 0" "m2 = 0 \<or> n2 mod 10 \<noteq> (0::int)"
  shows "n1 = n2 \<and> m1 = m2"
proof -
  have step: "n = n' \<and> m = m'"
    if eq: "n * 10 ^ m' = n' * 10 ^ m" and le: "m \<le> m'" and nz: "m' = 0 \<or> n' mod 10 \<noteq> 0"
    for n n' :: int and m m' :: nat
  proof -
    have "n * 10 ^ m' = n * 10 ^ (m' - m) * 10 ^ m"
      using le by (simp add: power_add [symmetric])
    with eq have n': "n' = n * 10 ^ (m' - m)" by simp
    show ?thesis
    proof (cases "m' = m")
      case True
      with n' show ?thesis by simp
    next
      case False
      with le have "n' = n * 10 ^ (m' - m - 1) * 10" using n'
        by (simp add: power_eq_if)
      then have "n' mod 10 = 0" by (simp only: mod_mult_self2_is_0)
      with nz False le show ?thesis by simp
    qed
  qed
  show ?thesis
    using step [of n1 m2 n2 m1] step [of n2 m1 n1 m2] assms by (cases "m1 \<le> m2") auto
qed

lemma render_numeral:
  assumes "0 \<le> n"
  shows "render n m = numeral_of (int_digits (n div 10 ^ m)) (fixed_digits m (n mod 10 ^ m))"
    and "numeral_parts (int_digits (n div 10 ^ m)) (fixed_digits m (n mod 10 ^ m))"
    and "digits_val (int_digits (n div 10 ^ m) @ fixed_digits m (n mod 10 ^ m)) = n"
proof -
  have nn: "0 \<le> n div 10 ^ m" using assms by (simp add: pos_imp_zdiv_nonneg_iff)
  show "render n m = numeral_of (int_digits (n div 10 ^ m)) (fixed_digits m (n mod 10 ^ m))"
    by (simp add: render_def numeral_of_def)
  show "numeral_parts (int_digits (n div 10 ^ m)) (fixed_digits m (n mod 10 ^ m))"
    using int_digits_all_digits [OF nn] by (simp add: numeral_parts_def fixed_digits_all_digits)
  show "digits_val (int_digits (n div 10 ^ m) @ fixed_digits m (n mod 10 ^ m)) = n"
    using nn by (simp add: digits_val_append digits_val_fixed div_mult_mod_eq)
qed

lemma decimal_text_numeral:
  assumes "numeral_parts ip fp" "length (numeral_of ip fp) \<le> 64"
    and "norm_frac (digits_val (ip @ fp)) (length fp) = (n', m')"
  shows "decimal_text (numeral_of ip fp) = Inr (render n' m')"
proof -
  let ?n = "digits_val (ip @ fp)"
  have nn: "0 \<le> ?n"
    using assms(1) by (intro digits_val_nonneg) (auto simp: numeral_parts_def all_digits_def)
  have "format_f (Dec False ?n (- int (length fp))) = render ?n (length fp)"
    using format_digits_render [OF nn] by (simp add: format_f_def sign_text_def)
  with assms nn show ?thesis
    by (simp add: decimal_text_def numeral_syntax parse_numeral strip_render or_zero_def)
qed

lemma decimal_textE:
  assumes "decimal_text s = Inr t"
  obtains ip fp n' m' where "numeral_parts ip fp" "s = numeral_of ip fp" "length s \<le> 64"
    "norm_frac (digits_val (ip @ fp)) (length fp) = (n', m')" "t = render n' m'" "0 \<le> n'"
proof -
  from assms have len: "length s \<le> 64" and syn: "decimal_syntax s"
    by (auto simp: decimal_text_def split: if_splits)
  from decimal_syntax_numeral [OF syn] obtain ip fp where v: "numeral_parts ip fp" "s = numeral_of ip fp"
    by auto
  obtain n' m' where nm: "norm_frac (digits_val (ip @ fp)) (length fp) = (n', m')" by fastforce
  have "0 \<le> digits_val (ip @ fp)"
    using v(1) by (intro digits_val_nonneg) (auto simp: numeral_parts_def all_digits_def)
  with norm_frac_spec [OF nm] have "0 \<le> n'" by blast
  with that v len nm show thesis
    using decimal_text_numeral [OF v(1) _ nm] assms by auto
qed

lemma render_length:
  "length (render n m) = ndigits (n div 10 ^ m) + (if m = 0 then 0 else Suc m)"
  by (simp add: render_def ndigits_def)

lemma decimal_text_length:
  assumes "decimal_text s = Inr t"
  shows "length t \<le> length s"
proof -
  from assms obtain ip fp n' m' where p: "numeral_parts ip fp" and s: "s = numeral_of ip fp"
    and nm: "norm_frac (digits_val (ip @ fp)) (length fp) = (n', m')" and t: "t = render n' m'"
    by (rule decimal_textE)
  from p have d: "all_digits ip" "all_digits fp" "ip \<noteq> []" by (auto simp: numeral_parts_def)
  have "digits_val (ip @ fp) div 10 ^ length fp = digits_val ip"
    using digits_val_bound [OF d(2)] digits_val_nonneg [OF d(2)]
    by (simp add: digits_val_append)
  with norm_frac_spec [OF nm] have q: "n' div 10 ^ m' = digits_val ip" "m' \<le> length fp" by auto
  have "ndigits (digits_val ip) \<le> length ip"
    using d digits_val_bound [OF d(1)] digits_val_nonneg [OF d(1)] by (simp add: ndigits_le_iff)
  with q show ?thesis by (auto simp: t s render_length numeral_of_def)
qed

lemma dec_of_numeral:
  "numeral_parts ip fp \<Longrightarrow> dec_of (numeral_of ip fp) = Dec False (digits_val (ip @ fp)) (- int (length fp))"
  by (simp add: dec_of_def parse_numeral)

lemma dval_fraction: "dval (Dec False n (- int m)) = of_int n / 10 ^ m"
  by (simp add: dval_def dsigned_def power_int_minus divide_inverse)

lemma dec_of_render: "0 \<le> n \<Longrightarrow> dec_of (render n m) = Dec False n (- int m)"
  by (simp add: render_numeral dec_of_numeral)

lemma fraction_eq_iff:
  "of_int n / 10 ^ m = (of_int n' / 10 ^ m' :: rat) \<longleftrightarrow> n * 10 ^ m' = n' * (10::int) ^ m"
proof -
  have "of_int n / 10 ^ m = (of_int n' / 10 ^ m' :: rat) \<longleftrightarrow>
      (of_int (n * 10 ^ m') :: rat) = of_int (n' * 10 ^ m)"
    by (simp add: field_simps)
  then show ?thesis by (simp only: of_int_eq_iff)
qed

text \<open>The value of a canonical text, and its shape.\<close>

lemma decimal_text_value:
  assumes "decimal_text s = Inr t"
  shows "dval (dec_of t) = dval (dec_of s)"
proof -
  from assms obtain ip fp n' m' where p: "numeral_parts ip fp" and s: "s = numeral_of ip fp"
    and nm: "norm_frac (digits_val (ip @ fp)) (length fp) = (n', m')" and t: "t = render n' m'"
    and nn: "0 \<le> n'"
    by (rule decimal_textE)
  from norm_frac_spec [OF nm] have "n' * 10 ^ length fp = digits_val (ip @ fp) * 10 ^ m'" by simp
  then show ?thesis
    using nn by (simp add: t s dec_of_render dec_of_numeral [OF p] dval_fraction fraction_eq_iff)
qed

lemma decimal_text_unsigned:
  assumes "decimal_text s = Inr t"
  shows "\<not> dneg (dec_of t) \<and> dec_wf (dec_of t) \<and> 0 \<le> dval (dec_of t)"
proof -
  from assms obtain n' m' where "t = render n' m'" "0 \<le> n'" by (rule decimal_textE)
  then show ?thesis by (simp add: dec_of_render dec_wf_def dval_nonneg)
qed

lemma decimal_text_canonical:
  assumes "decimal_text s = Inr t"
  shows "decimal_text t = Inr t"
proof -
  from assms obtain ip fp n' m' where s: "numeral_parts ip fp" "length s \<le> 64"
    and nm: "norm_frac (digits_val (ip @ fp)) (length fp) = (n', m')" and t: "t = render n' m'"
    and nn: "0 \<le> n'"
    by (rule decimal_textE)
  have fixed: "norm_frac n' m' = (n', m')"
    using norm_frac_spec [OF nm] by (cases m') auto
  have "length t \<le> 64" using decimal_text_length [OF assms] s(2) by simp
  with render_numeral [OF nn, of m'] fixed show ?thesis
    by (simp add: t decimal_text_numeral)
qed

lemma decimal_text_determined:
  assumes "decimal_text s = Inr t" "decimal_text s' = Inr t'" "dval (dec_of s) = dval (dec_of s')"
  shows "t = t'"
proof -
  from assms(1) obtain ip fp n m where t: "t = render n m" "0 \<le> n"
    and nm: "norm_frac (digits_val (ip @ fp)) (length fp) = (n, m)" by (rule decimal_textE)
  from assms(2) obtain ip' fp' n' m' where t': "t' = render n' m'" "0 \<le> n'"
    and nm': "norm_frac (digits_val (ip' @ fp')) (length fp') = (n', m')" by (rule decimal_textE)
  have "dval (dec_of t) = dval (dec_of t')"
    using decimal_text_value [OF assms(1)] decimal_text_value [OF assms(2)] assms(3) by simp
  then have "n * 10 ^ m' = n' * 10 ^ m"
    by (simp add: t t' dec_of_render dval_fraction fraction_eq_iff)
  with norm_frac_unique [of n m' n' m] norm_frac_spec [OF nm] norm_frac_spec [OF nm']
  show ?thesis by (simp add: t t')
qed

lemma decimal_text_format_f:
  assumes "decimal_text (format_f d) = Inr t" "\<not> dneg d" "dec_wf d" "dexp d \<le> 0"
  shows "dval (dec_of t) = dval d"
proof -
  obtain n m where d: "d = Dec False n (- int m)" "0 \<le> n"
    using assms by (cases d) (auto simp: dec_wf_def intro: that [of _ "nat (- dexp d)"])
  then have "format_f d = render n m"
    by (simp add: format_f_def sign_text_def format_digits_render)
  with d decimal_text_value [OF assms(1)] show ?thesis by (simp add: dec_of_render)
qed

lemma decimal_syntax_chars: "decimal_syntax s \<Longrightarrow> c \<in> set s \<Longrightarrow> is_digit c \<or> c = CHR ''.''"
  using decimal_syntax_numeral [of s]
  by (auto simp: numeral_of_def numeral_parts_def all_digits_def list_all_iff split: if_splits)

text \<open>A canonical text that went through \<^verbatim>\<open>Decimal\<close> and \<^verbatim>\<open>str\<close> keeps its value, if it is accepted.\<close>

lemma decimal_text_dec_str:
  assumes "decimal_text (dec_str d) = Inr t" "\<not> dneg d" "dec_wf d" "dexp d \<le> 0"
  shows "dval (dec_of t) = dval d"
proof (cases "-6 < dexp d + int (ndigits (dcoef d))")
  case True
  with assms show ?thesis by (intro decimal_text_format_f) (simp_all add: dec_str_plain)
next
  case False
  then have "CHR ''E'' \<in> set (dec_str d)" using assms(4) by (intro dec_str_scientific)
  moreover have "decimal_syntax (dec_str d)" using assms(1) by (auto simp: decimal_text_def split: if_splits)
  ultimately have "is_digit CHR ''E'' \<or> CHR ''E'' = CHR ''.''" by (rule decimal_syntax_chars [rotated])
  then show ?thesis by (simp add: is_digit_def)
qed

lemma canonical_dec_of:
  assumes "decimal_text s = Inr t"
  shows "\<not> dneg (dec_of t) \<and> dec_wf (dec_of t) \<and> dexp (dec_of t) \<le> 0"
proof -
  from assms obtain n' m' where "t = render n' m'" "0 \<le> n'" by (rule decimal_textE)
  then show ?thesis by (simp add: dec_of_render dec_wf_def)
qed

text \<open>C13: The canonical decimal text is a normal form: constructing from it gives
  it back, it has the value of the text it was made from and is no longer, and any other accepted
  text of the same value has the same canonical text.\<close>

theorem decimal_text_normal_form:
  assumes "decimal_text s = Inr t"
  shows "decimal_text t = Inr t \<and> dval (dec_of t) = dval (dec_of s) \<and> 0 \<le> dval (dec_of t)
    \<and> length t \<le> length s
    \<and> (\<forall>s' t'. decimal_text s' = Inr t' \<longrightarrow> (t' = t \<longleftrightarrow> dval (dec_of s') = dval (dec_of s)))"
  using decimal_text_canonical [OF assms] decimal_text_value [OF assms] decimal_text_unsigned [OF assms]
    decimal_text_length [OF assms] decimal_text_determined [OF assms] decimal_text_value
  by metis

theorem decimal_text_normal_form_witness:
  "decimal_text ''1.5'' = Inr ''1.5'' \<and> length ''1.5'' \<le> length ''01.50''"
proof -
  have "decimal_text ''01.50'' = Inr ''1.5''" by code_simp
  from decimal_text_normal_form [OF this] show ?thesis by simp
qed

end
