(* ===== verification/Candles.thy ===== *)
theory Candles
  imports Values
begin

text \<open>
  Closed one-minute candles (\<^verbatim>\<open>domain/candles.py\<close>): the validating constructor, the primary key, the
  canonical dictionary and the content hash of a set of candles. The constructor takes dynamic
  values (\<open>raw_candle\<close>) and returns a typed, normalised \<open>candle\<close> or the exception it raises, in
  the order of the checks of \<^verbatim>\<open>__post_init__\<close>. The lemmas give the well-formedness of every
  constructed candle and the stability of the constructor on its own results.
\<close>

section \<open>Construction\<close>

record raw_candle =
  rc_provider_id :: pyobj
  rc_market_type :: pyobj
  rc_instrument_id :: pyobj
  rc_provider_symbol :: pyobj
  rc_interval :: pyobj
  rc_open_time_ms :: pyobj
  rc_close_time_ms :: pyobj
  rc_open :: pyobj
  rc_high :: pyobj
  rc_low :: pyobj
  rc_close :: pyobj
  rc_base_volume :: pyobj
  rc_quote_volume :: pyobj
  rc_source_fields :: pyobj

record candle =
  provider_id :: string
  market_type :: string
  c_instrument_id :: string
  provider_symbol :: string
  c_interval :: string
  open_time_ms :: int
  close_time_ms :: int
  c_open :: string
  c_high :: string
  c_low :: string
  c_close :: string
  base_volume :: string
  quote_volume :: "string option"
  source_fields :: "(string \<times> evidence) list"

definition provider_extensions :: "(string, string list) dict" where
  "provider_extensions =
     [(''binance_usdm'', [''trade_count'', ''taker_buy_base_volume'', ''taker_buy_quote_volume'']),
      (''okx_swap'', [''contract_volume''])]"

definition market_type_name :: string where
  "market_type_name = ''LINEAR_PERPETUAL''"

text \<open>The string subclasses on a dynamic value.\<close>

definition instrument_id_obj :: "pyobj \<Rightarrow> string result" where
  "instrument_id_obj v = (case v of PStr s \<Rightarrow> instrument_id s
     | _ \<Rightarrow> raise TypeError ''instrument identifier must be a string'')"

definition timeframe_obj :: "pyobj \<Rightarrow> string result" where
  "timeframe_obj v = (case v of PStr s \<Rightarrow> timeframe s
     | _ \<Rightarrow> raise TypeError ''timeframe must be a string'')"

fun mapping_items :: "pyobj \<Rightarrow> (pyobj \<times> pyobj) list option" where
  "mapping_items (PDict kvs) = Some kvs"
| "mapping_items (PProxy kvs) = Some kvs"
| "mapping_items _ = None"

text \<open>Replace the value of one present key by its canonical decimal text.\<close>

definition set_decimal :: "(pyobj, pyobj) dict \<Rightarrow> string \<Rightarrow> (pyobj, pyobj) dict result" where
  "set_decimal values key =
     rbind (dict_index values (PStr key)) (\<lambda>v. rbind (decimal_text_obj v)
       (\<lambda>t. Inr (dict_set (PStr key) (PStr t) values)))"

definition extension_values :: "string \<Rightarrow> (pyobj, pyobj) dict \<Rightarrow> (pyobj, pyobj) dict result" where
  "extension_values pid values =
     (if pid = ''binance_usdm'' then
        rbind (rguard (case dict_get values (PStr ''trade_count'') of
                         Some (PInt n) \<Rightarrow> 0 \<le> n | _ \<Rightarrow> False)
                 TypeError ''trade_count must be a non-negative integer'') (\<lambda>_.
        rfoldM set_decimal values [''taker_buy_base_volume'', ''taker_buy_quote_volume''])
      else set_decimal values ''contract_volume'')"

definition validated_source_fields :: "string \<Rightarrow> pyobj \<Rightarrow> (string \<times> evidence) list result" where
  "validated_source_fields pid src =
     (case mapping_items src of
        None \<Rightarrow> raise TypeError ''source fields must be a mapping''
      | Some kvs \<Rightarrow>
        (let values = dict_of kvs in
        rbind (dict_index provider_extensions pid) (\<lambda>expected.
        rbind (rguard (set (dict_keys values) = PStr ` set expected) ValueError
                 ''source fields do not match the provider extension schema'') (\<lambda>_.
        rbind (extension_values pid values) (\<lambda>out.
        rmapM (\<lambda>(k, v). rbind (freeze_evidence v) (\<lambda>e. Inr (the (py_str_key k), e))) out)))))"

definition opt_decimal_obj :: "pyobj \<Rightarrow> string option result" where
  "opt_decimal_obj v = (if v = PNone then Inr None
     else rbind (decimal_text_obj v) (\<lambda>t. Inr (Some t)))"

definition ohlc_positive :: "string \<Rightarrow> string \<Rightarrow> string \<Rightarrow> string \<Rightarrow> bool" where
  "ohlc_positive opening high low closing \<longleftrightarrow>
     \<not> list_ex (\<lambda>price. dle (dec_of price) dzero) [opening, high, low, closing]"

definition ohlc_ordered :: "string \<Rightarrow> string \<Rightarrow> string \<Rightarrow> string \<Rightarrow> bool" where
  "ohlc_ordered opening high low closing \<longleftrightarrow>
     (let l = dec_of low; h = dec_of high; op = dec_of opening; cl = dec_of closing
      in \<not> (dlt h l \<or> \<not> (dle l op \<and> dle op h) \<or> \<not> (dle l cl \<and> dle cl h)))"

definition mk_candle :: "raw_candle \<Rightarrow> candle result" where
  "mk_candle rc =
     rbind (case rc_provider_id rc of
              PStr p \<Rightarrow> if p \<in> set (dict_keys provider_extensions) then Inr p
                        else raise ValueError ''unknown provider identifier''
            | _ \<Rightarrow> raise ValueError ''unknown provider identifier'') (\<lambda>pid.
     rbind (rguard (rc_market_type rc = PStr market_type_name) ValueError
              ''market type must be LINEAR_PERPETUAL'') (\<lambda>_.
     rbind (instrument_id_obj (rc_instrument_id rc)) (\<lambda>iid.
     rbind (case rc_provider_symbol rc of
              PStr s \<Rightarrow> if 1 \<le> length s \<and> length s \<le> 64 then Inr s
                        else raise ValueError ''invalid provider symbol''
            | _ \<Rightarrow> raise ValueError ''invalid provider symbol'') (\<lambda>sym.
     rbind (timeframe_obj (rc_interval rc)) (\<lambda>tf.
     rbind (rguard (tf = ''1m'') ValueError ''stored candle interval must be 1m'') (\<lambda>_.
     rbind (case (rc_open_time_ms rc, rc_close_time_ms rc) of
              (PInt a, PInt b) \<Rightarrow> Inr (a, b)
            | _ \<Rightarrow> raise TypeError ''candle times must be integers; Booleans are not integers'')
       (\<lambda>(opn, cls).
     rbind (rguard (\<not> (opn < 0 \<or> opn mod 60000 \<noteq> 0)) ValueError
              ''open time must align to a canonical minute'') (\<lambda>_.
     rbind (rguard (cls = opn + 59999) ValueError
              ''closed candle must end 59,999 ms after open'') (\<lambda>_.
     rbind (decimal_text_obj (rc_open rc)) (\<lambda>o'.
     rbind (decimal_text_obj (rc_high rc)) (\<lambda>h.
     rbind (decimal_text_obj (rc_low rc)) (\<lambda>l.
     rbind (decimal_text_obj (rc_close rc)) (\<lambda>c.
     rbind (decimal_text_obj (rc_base_volume rc)) (\<lambda>bv.
     rbind (opt_decimal_obj (rc_quote_volume rc)) (\<lambda>qv.
     rbind (rguard (ohlc_positive o' h l c) ValueError ''OHLC prices must be positive'') (\<lambda>_.
     rbind (rguard (ohlc_ordered o' h l c) ValueError
              ''OHLC values violate low/high relations'') (\<lambda>_.
     rbind (validated_source_fields pid (rc_source_fields rc)) (\<lambda>sf.
     Inr \<lparr>provider_id = pid, market_type = market_type_name, c_instrument_id = iid,
          provider_symbol = sym, c_interval = tf, open_time_ms = opn, close_time_ms = cls,
          c_open = o', c_high = h, c_low = l, c_close = c, base_volume = bv, quote_volume = qv,
          source_fields = sf\<rparr>))))))))))))))))))"

section \<open>Keys, canonical dictionary, hash\<close>

type_synonym candle_key = "string \<times> string \<times> string \<times> string \<times> int"

definition primary_key :: "candle \<Rightarrow> candle_key" where
  "primary_key c = (provider_id c, market_type c, c_instrument_id c, c_interval c, open_time_ms c)"

definition candle_canonical_dict :: "candle \<Rightarrow> json" where
  "candle_canonical_dict c = JObj
     [(''provider_id'', JStr (provider_id c)), (''market_type'', JStr (market_type c)),
      (''instrument_id'', JStr (c_instrument_id c)), (''provider_symbol'', JStr (provider_symbol c)),
      (''interval'', JStr (c_interval c)), (''open_time_ms'', JInt (open_time_ms c)),
      (''close_time_ms'', JInt (close_time_ms c)), (''open'', JStr (c_open c)),
      (''high'', JStr (c_high c)), (''low'', JStr (c_low c)), (''close'', JStr (c_close c)),
      (''base_volume'', JStr (base_volume c)), (''quote_volume'', opt_str (quote_volume c)),
      (''source_fields'', canonical_evidence (EMap (source_fields c)))]"

definition hash_candles :: "candle list \<Rightarrow> string" where
  "hash_candles candles = hash_with_domain ''candles-v2''
     (JArr (map candle_canonical_dict (sort_key primary_key candles)))"

text \<open>The dynamic values of a constructed candle, as \<^verbatim>\<open>replace\<close> or a database row passes them again.\<close>

definition raw_of :: "candle \<Rightarrow> raw_candle" where
  "raw_of c = \<lparr>rc_provider_id = PStr (provider_id c), rc_market_type = PStr (market_type c),
     rc_instrument_id = PStr (c_instrument_id c), rc_provider_symbol = PStr (provider_symbol c),
     rc_interval = PStr (c_interval c), rc_open_time_ms = PInt (open_time_ms c),
     rc_close_time_ms = PInt (close_time_ms c), rc_open = PStr (c_open c), rc_high = PStr (c_high c),
     rc_low = PStr (c_low c), rc_close = PStr (c_close c), rc_base_volume = PStr (base_volume c),
     rc_quote_volume = (case quote_volume c of None \<Rightarrow> PNone | Some q \<Rightarrow> PStr q),
     rc_source_fields = thaw (EMap (source_fields c))\<rparr>"

section \<open>Well-formedness\<close>

definition canonical_decimal :: "string \<Rightarrow> bool" where
  "canonical_decimal t \<longleftrightarrow> decimal_text t = Inr t"

fun source_value_ok :: "string \<Rightarrow> evidence \<Rightarrow> bool" where
  "source_value_ok k (EInt n) \<longleftrightarrow> k = ''trade_count'' \<and> 0 \<le> n"
| "source_value_ok k (EStr t) \<longleftrightarrow> k \<noteq> ''trade_count'' \<and> canonical_decimal t"
| "source_value_ok k _ \<longleftrightarrow> False"

definition candle_wf :: "candle \<Rightarrow> bool" where
  "candle_wf c \<longleftrightarrow>
     provider_id c \<in> set (dict_keys provider_extensions) \<and> market_type c = market_type_name
     \<and> instrument_id (c_instrument_id c) = Inr (c_instrument_id c)
     \<and> 1 \<le> length (provider_symbol c) \<and> length (provider_symbol c) \<le> 64
     \<and> c_interval c = ''1m''
     \<and> 0 \<le> open_time_ms c \<and> open_time_ms c mod 60000 = 0 \<and> close_time_ms c = open_time_ms c + 59999
     \<and> canonical_decimal (c_open c) \<and> canonical_decimal (c_high c) \<and> canonical_decimal (c_low c)
     \<and> canonical_decimal (c_close c) \<and> canonical_decimal (base_volume c)
     \<and> (\<forall>q \<in> set_option (quote_volume c). canonical_decimal q)
     \<and> 0 < dval (dec_of (c_low c))
     \<and> dval (dec_of (c_low c)) \<le> dval (dec_of (c_open c))
     \<and> dval (dec_of (c_open c)) \<le> dval (dec_of (c_high c))
     \<and> dval (dec_of (c_low c)) \<le> dval (dec_of (c_close c))
     \<and> dval (dec_of (c_close c)) \<le> dval (dec_of (c_high c))
     \<and> distinct (dict_keys (source_fields c))
     \<and> set (dict_keys (source_fields c)) = set (the (dict_get provider_extensions (provider_id c)))
     \<and> (\<forall>(k, v) \<in> set (source_fields c). source_value_ok k v)"

lemma dict_of_snoc: "dict_of (kvs @ [(k, v)]) = dict_set k v (dict_of kvs)"
  by (simp add: dict_of_def)

lemma dict_of_distinct [simp]: "distinct (dict_keys (dict_of kvs))"
proof (induction kvs rule: rev_induct)
  case Nil
  show ?case by (simp add: dict_of_def)
next
  case (snoc kv kvs)
  then show ?case by (cases kv) (simp add: dict_of_snoc distinct_update)
qed

lemma dict_set_fresh: "k \<notin> set (dict_keys d) \<Longrightarrow> dict_set k v d = d @ [(k, v)]"
  by (induction d) auto

lemma dict_of_id: "distinct (dict_keys d) \<Longrightarrow> dict_of d = d"
proof (induction d rule: rev_induct)
  case Nil
  show ?case by (simp add: dict_of_def)
next
  case (snoc kv d)
  then show ?case by (cases kv) (simp add: dict_of_snoc dict_set_fresh)
qed

lemma dict_set_same: "dict_get d k = Some v \<Longrightarrow> dict_set k v d = d"
  by (induction d) (auto split: if_splits)

lemma decimal_text_objE:
  assumes "decimal_text_obj v = Inr t"
  obtains s where "v = PStr s" "decimal_text s = Inr t" "canonical_decimal t"
  using assms by (auto simp: decimal_text_obj_def canonical_decimal_def
    intro: decimal_text_canonical split: pyobj.splits)

lemma set_decimal_Inr:
  assumes "set_decimal d k = Inr d'"
  shows "\<exists>t. canonical_decimal t \<and> d' = dict_set (PStr k) (PStr t) d \<and> PStr k \<in> set (dict_keys d)"
  using assms by (auto simp: set_decimal_def dict_index_def elim!: decimal_text_objE
    dest: map_of_SomeD intro: image_eqI [rotated] split: option.splits)
    (metis fst_conv image_eqI map_of_SomeD)

lemma set_decimal_id:
  assumes "dict_get d (PStr k) = Some (PStr t)" "canonical_decimal t"
  shows "set_decimal d k = Inr d"
  using assms by (simp add: set_decimal_def dict_index_def decimal_text_obj_def canonical_decimal_def dict_set_same)

text \<open>What a value of the validated dictionary can be, by its key.\<close>

definition raw_value_ok :: "string \<Rightarrow> pyobj \<Rightarrow> bool" where
  "raw_value_ok k v \<longleftrightarrow> (if k = ''trade_count'' then (\<exists>n. v = PInt n \<and> 0 \<le> n)
     else (\<exists>t. v = PStr t \<and> canonical_decimal t))"

lemma freeze_values:
  assumes "rmapM (\<lambda>(k, v). rbind (freeze_evidence v) (\<lambda>e. Inr (the (py_str_key k), e))) out = Inr sf"
    and "distinct (dict_keys out)" "set (dict_keys out) = PStr ` S"
    and "\<And>k v. k \<in> S \<Longrightarrow> dict_get out (PStr k) = Some v \<Longrightarrow> raw_value_ok k v"
  shows "distinct (dict_keys sf) \<and> set (dict_keys sf) = S \<and> (\<forall>(k, v) \<in> set sf. source_value_ok k v)"
proof -
  have keys: "dict_keys sf = map (the \<circ> py_str_key) (dict_keys out)"
    using assms(1) by (induction out arbitrary: sf) auto
  have inj: "inj_on (the \<circ> py_str_key) (PStr ` S)" by (auto intro: inj_onI)
  have "set (dict_keys sf) = (the \<circ> py_str_key) ` PStr ` S"
    by (metis keys list.set_map assms(3))
  then have "set (dict_keys sf) = S" by (simp add: image_image)
  moreover have "distinct (dict_keys sf)"
    using assms(2,3) inj by (simp only: keys distinct_map)
  moreover have "source_value_ok k v" if kv: "(k, v) \<in> set sf" for k v
  proof -
    from rmapM_in_set [OF assms(1) kv] obtain k' v' where m: "(k', v') \<in> set out"
      and f: "freeze_evidence v' = Inr v" and k: "k = the (py_str_key k')" by auto
    from m assms(3) have "k' \<in> PStr ` S" by (metis fst_conv image_eqI list.set_map)
    with k have k': "k' = PStr k" "k \<in> S" by auto
    from m assms(2) have "dict_get out k' = Some v'" by simp
    with k' assms(4) have "raw_value_ok k v'" by simp
    with f show ?thesis by (auto simp: raw_value_ok_def split: if_splits)
  qed
  ultimately show ?thesis by auto
qed

lemma validated_source_fields_ok:
  assumes "validated_source_fields pid src = Inr sf"
  shows "distinct (dict_keys sf) \<and> set (dict_keys sf) = set (the (dict_get provider_extensions pid))
    \<and> (\<forall>(k, v) \<in> set sf. source_value_ok k v)"
proof -
  from assms obtain kvs ex out where ex: "dict_get provider_extensions pid = Some ex"
    and keys: "set (dict_keys (dict_of kvs)) = PStr ` set ex"
    and out: "extension_values pid (dict_of kvs) = Inr out"
    and sf: "rmapM (\<lambda>(k, v). rbind (freeze_evidence v) (\<lambda>e. Inr (the (py_str_key k), e))) out = Inr sf"
    by (simp add: validated_source_fields_def dict_index_def Let_def split: option.splits) blast
  have "distinct (dict_keys out) \<and> set (dict_keys out) = PStr ` set ex
    \<and> (\<forall>k v. k \<in> set ex \<longrightarrow> dict_get out (PStr k) = Some v \<longrightarrow> raw_value_ok k v)"
  proof (cases "pid = ''binance_usdm''")
    case True
    with ex have exb: "ex = [''trade_count'', ''taker_buy_base_volume'', ''taker_buy_quote_volume'']"
      by (simp add: provider_extensions_def)
    from out True obtain n m where n: "dict_get (dict_of kvs) (PStr ''trade_count'') = Some (PInt n)" "0 \<le> n"
      and m: "set_decimal (dict_of kvs) ''taker_buy_base_volume'' = Inr m"
      and o: "set_decimal m ''taker_buy_quote_volume'' = Inr out"
      by (auto simp: extension_values_def split: option.splits pyobj.splits)
    from set_decimal_Inr [OF m] set_decimal_Inr [OF o] obtain t u where t: "canonical_decimal t"
        "canonical_decimal u"
      and out': "out = dict_set (PStr ''taker_buy_quote_volume'') (PStr u)
        (dict_set (PStr ''taker_buy_base_volume'') (PStr t) (dict_of kvs))"
      by auto
    show ?thesis
    proof (intro conjI)
      show "distinct (dict_keys out)" by (simp add: out' distinct_update)
      show "set (dict_keys out) = PStr ` set ex" by (use keys in \<open>auto simp: out' exb\<close>)
      show "\<forall>k v. k \<in> set ex \<longrightarrow> dict_get out (PStr k) = Some v \<longrightarrow> raw_value_ok k v"
        using n t by (auto simp: out' exb dict_set_conv raw_value_ok_def)
    qed
  next
    case False
    with ex have exo: "ex = [''contract_volume'']"
      by (auto simp: provider_extensions_def split: if_splits)
    from out False have "set_decimal (dict_of kvs) ''contract_volume'' = Inr out"
      by (simp add: extension_values_def)
    from set_decimal_Inr [OF this] obtain t where t: "canonical_decimal t"
      and out': "out = dict_set (PStr ''contract_volume'') (PStr t) (dict_of kvs)" by auto
    show ?thesis
    proof (intro conjI)
      show "distinct (dict_keys out)" by (simp add: out' distinct_update)
      show "set (dict_keys out) = PStr ` set ex" by (use keys in \<open>auto simp: out' exo\<close>)
      show "\<forall>k v. k \<in> set ex \<longrightarrow> dict_get out (PStr k) = Some v \<longrightarrow> raw_value_ok k v"
        using t by (auto simp: out' exo dict_set_conv raw_value_ok_def)
    qed
  qed
  with freeze_values [OF sf, of "set ex"] ex show ?thesis by auto
qed

lemma ohlc_checks:
  assumes "ohlc_positive o' h l c" "ohlc_ordered o' h l c"
  shows "0 < dval (dec_of l) \<and> dval (dec_of l) \<le> dval (dec_of o') \<and> dval (dec_of o') \<le> dval (dec_of h)
    \<and> dval (dec_of l) \<le> dval (dec_of c) \<and> dval (dec_of c) \<le> dval (dec_of h)"
  using assms by (simp add: ohlc_positive_def ohlc_ordered_def Let_def dle_iff dlt_iff not_le)

lemma ohlc_checks_rev:
  assumes "0 < dval (dec_of l)" "dval (dec_of l) \<le> dval (dec_of o')" "dval (dec_of o') \<le> dval (dec_of h)"
    "dval (dec_of l) \<le> dval (dec_of c)" "dval (dec_of c) \<le> dval (dec_of h)"
  shows "ohlc_positive o' h l c \<and> ohlc_ordered o' h l c"
  using assms by (auto simp: ohlc_positive_def ohlc_ordered_def Let_def dle_iff dlt_iff)

lemma opt_decimal_obj_Inr:
  "opt_decimal_obj v = Inr q \<Longrightarrow> \<forall>t \<in> set_option q. canonical_decimal t"
  by (auto simp: opt_decimal_obj_def split: if_splits elim: decimal_text_objE)

lemma instrument_id_same: "instrument_id s = Inr t \<Longrightarrow> t = s"
  by (auto simp: instrument_id_def split: if_splits)

lemma instrument_id_obj_Inr: "instrument_id_obj v = Inr t \<Longrightarrow> v = PStr t \<and> instrument_id t = Inr t"
  by (auto simp: instrument_id_obj_def dest: instrument_id_same split: pyobj.splits)

lemma mk_candle_wf:
  assumes "mk_candle rc = Inr c"
  shows "candle_wf c"
proof -
  have times: "0 \<le> open_time_ms c \<and> open_time_ms c mod 60000 = 0 \<and> close_time_ms c = open_time_ms c + 59999
      \<and> c_interval c = ''1m'' \<and> market_type c = market_type_name"
    using assms by (auto simp: mk_candle_def split: pyobj.splits if_splits)
  have ids: "provider_id c \<in> set (dict_keys provider_extensions)
      \<and> instrument_id (c_instrument_id c) = Inr (c_instrument_id c)
      \<and> 1 \<le> length (provider_symbol c) \<and> length (provider_symbol c) \<le> 64"
    using assms by (auto simp: mk_candle_def split: pyobj.splits if_splits
      intro: rev_image_eqI dest!: instrument_id_obj_Inr)
  have texts: "canonical_decimal (c_open c) \<and> canonical_decimal (c_high c) \<and> canonical_decimal (c_low c)
      \<and> canonical_decimal (c_close c) \<and> canonical_decimal (base_volume c)
      \<and> (\<forall>q \<in> set_option (quote_volume c). canonical_decimal q)"
    using assms by (auto simp: mk_candle_def split: pyobj.splits if_splits
      elim!: decimal_text_objE dest!: opt_decimal_obj_Inr)
  have prices: "ohlc_positive (c_open c) (c_high c) (c_low c) (c_close c)
      \<and> ohlc_ordered (c_open c) (c_high c) (c_low c) (c_close c)"
    using assms by (auto simp: mk_candle_def split: pyobj.splits if_splits)
  have "validated_source_fields (provider_id c) (rc_source_fields rc) = Inr (source_fields c)"
    using assms by (auto simp: mk_candle_def split: pyobj.splits if_splits)
  note extension = validated_source_fields_ok [OF this]
  from times ids texts extension ohlc_checks [OF conjunct1 [OF prices] conjunct2 [OF prices]] show ?thesis
    by (simp add: candle_wf_def)
qed

lemma map_of_distinct_member:
  "distinct (dict_keys d) \<Longrightarrow> k \<in> set (dict_keys d) \<Longrightarrow> \<exists>v. dict_get d k = Some v \<and> (k, v) \<in> set d"
  by (auto simp: image_iff)

definition thawed :: "(string \<times> evidence) list \<Rightarrow> (pyobj, pyobj) dict" where
  "thawed sf = map (\<lambda>kv. (PStr (fst kv), thaw (snd kv))) sf"

lemma thawed_get: "dict_get (thawed sf) (PStr k) = map_option thaw (dict_get sf k)"
  by (induction sf) (auto simp: thawed_def)

lemma thawed_keys: "dict_keys (thawed sf) = map PStr (dict_keys sf)"
  by (simp add: thawed_def)

lemma thawed_distinct: "distinct (dict_keys (thawed sf)) \<longleftrightarrow> distinct (dict_keys sf)"
  by (simp only: thawed_keys distinct_map) (auto intro: inj_onI)

lemma thawed_decimal:
  assumes "distinct (dict_keys sf)" "\<forall>(k, v) \<in> set sf. source_value_ok k v"
    and "k \<in> set (dict_keys sf)" "k \<noteq> ''trade_count''"
  shows "set_decimal (thawed sf) k = Inr (thawed sf)"
proof -
  obtain v where v: "dict_get sf k = Some v" "(k, v) \<in> set sf"
    using map_of_distinct_member [OF assms(1,3)] by auto
  with assms(2) have "source_value_ok k v" by auto
  with assms(4) obtain t where "v = EStr t" "canonical_decimal t" by (cases v) auto
  with v show ?thesis by (intro set_decimal_id) (simp_all add: thawed_get)
qed

lemma thawed_freeze:
  "rmapM (\<lambda>(k, v). rbind (freeze_evidence v) (\<lambda>e. Inr (the (py_str_key k), e))) (thawed sf) = Inr sf"
  by (induction sf) (auto simp: thawed_def freeze_thaw)

lemma validated_source_fields_same:
  assumes "pid \<in> set (dict_keys provider_extensions)"
    and d: "distinct (dict_keys sf)" and k: "set (dict_keys sf) = set (the (dict_get provider_extensions pid))"
    and ok: "\<forall>(k, v) \<in> set sf. source_value_ok k v"
  shows "validated_source_fields pid (thaw (EMap sf)) = Inr sf"
proof -
  have th: "mapping_items (thaw (EMap sf)) = Some (thawed sf)"
    by (simp add: thawed_def)
  have dict: "dict_of (thawed sf) = thawed sf"
    using d by (intro dict_of_id) (simp add: thawed_distinct)
  obtain ex where ex: "dict_get provider_extensions pid = Some ex"
    using assms(1) by (auto simp: provider_extensions_def)
  have keys: "set (dict_keys (thawed sf)) = PStr ` set ex"
    using k ex by (metis thawed_keys list.set_map option.sel)
  have "extension_values pid (thawed sf) = Inr (thawed sf)"
  proof (cases "pid = ''binance_usdm''")
    case True
    with ex k have sk: "set (dict_keys sf) = {''trade_count'', ''taker_buy_base_volume'', ''taker_buy_quote_volume''}"
      by (auto simp: provider_extensions_def)
    then have "''trade_count'' \<in> set (dict_keys sf)" by simp
    then obtain v where v: "dict_get sf ''trade_count'' = Some v" "(''trade_count'', v) \<in> set sf"
      using map_of_distinct_member [OF d] by blast
    with ok have "source_value_ok ''trade_count'' v" by auto
    then obtain n where "v = EInt n" "0 \<le> n" by (cases v) auto
    with True v sk thawed_decimal [OF d ok] show ?thesis
      by (simp add: extension_values_def thawed_get)
  next
    case False
    with ex have "ex = [''contract_volume'']" by (auto simp: provider_extensions_def split: if_splits)
    with ex k have "''contract_volume'' \<in> set (dict_keys sf)" by simp
    with False thawed_decimal [OF d ok] show ?thesis by (simp add: extension_values_def)
  qed
  with th dict keys ex thawed_freeze [of sf] show ?thesis
    by (simp add: validated_source_fields_def dict_index_def)
qed

text \<open>A well-formed candle passes the constructor unchanged.\<close>

lemma mk_candle_same:
  assumes "candle_wf c"
  shows "mk_candle (raw_of c) = Inr c"
proof -
  have dtx: "decimal_text_obj (PStr t) = Inr t" if "canonical_decimal t" for t
    using that by (simp add: decimal_text_obj_def canonical_decimal_def)
  have qv: "opt_decimal_obj (case quote_volume c of None \<Rightarrow> PNone | Some q \<Rightarrow> PStr q) = Inr (quote_volume c)"
    using assms by (cases "quote_volume c") (auto simp: candle_wf_def opt_decimal_obj_def dtx)
  have src: "validated_source_fields (provider_id c) (thaw (EMap (source_fields c))) = Inr (source_fields c)"
    using assms by (intro validated_source_fields_same) (simp_all add: candle_wf_def)
  have ohlc: "ohlc_positive (c_open c) (c_high c) (c_low c) (c_close c)
      \<and> ohlc_ordered (c_open c) (c_high c) (c_low c) (c_close c)"
    using assms by (intro ohlc_checks_rev) (simp_all add: candle_wf_def)
  show ?thesis
    using assms src ohlc qv
    by (simp add: mk_candle_def raw_of_def candle_wf_def dtx instrument_id_obj_def timeframe_obj_def
        timeframe_def timeframe_minutes_def del: thaw.simps)
qed

section \<open>Sample data\<close>

text \<open>A valid minute of the OKX provider with the given prices; the examples are built from it.\<close>

definition sample_minute :: "int \<Rightarrow> string \<Rightarrow> string \<Rightarrow> string \<Rightarrow> string \<Rightarrow> candle" where
  "sample_minute i op hi lo cl =
     \<lparr>provider_id = ''okx_swap'', market_type = market_type_name, c_instrument_id = ''CRYPTO-BTC-USDT-PERP'',
      provider_symbol = ''BTC-USDT-SWAP'', c_interval = ''1m'', open_time_ms = i * 60000,
      close_time_ms = i * 60000 + 59999, c_open = op, c_high = hi, c_low = lo, c_close = cl,
      base_volume = ''1'', quote_volume = Some ''2'', source_fields = [(''contract_volume'', EStr ''1'')]\<rparr>"

lemma sample_wf: "mk_candle (raw_of c) = Inr c \<Longrightarrow> candle_wf c"
  by (rule mk_candle_wf)

text \<open>Every constructed candle is well-formed: a known provider and its exact
  extension fields, an aligned minute that ends 59,999 ms after it opens, canonical decimal texts,
  a positive low and open and close between low and high. Constructing again from its own fields
  (as a database row does) gives the same candle.\<close>

theorem candle_constructor:
  assumes "mk_candle rc = Inr c"
  shows "candle_wf c \<and> mk_candle (raw_of c) = Inr c"
  using mk_candle_wf [OF assms] mk_candle_same by blast

definition sample_raw :: raw_candle where
  "sample_raw = (raw_of (sample_minute 1 ''010.0'' ''12.50'' ''9.5'' ''11''))
     \<lparr>rc_source_fields := PDict [(PStr ''contract_volume'', PStr ''7.10'')]\<rparr>"

theorem candle_constructor_witness:
  "\<exists>c. mk_candle sample_raw = Inr c \<and> candle_wf c"
proof -
  have "is_ok (mk_candle sample_raw)" by code_simp
  then obtain c where "mk_candle sample_raw = Inr c" by (auto simp: is_ok_iff)
  from this candle_constructor [OF this] show ?thesis by blast
qed

end
