(* ===== verification/Evidence.thy ===== *)
theory Evidence
  imports Candles
begin

text \<open>
  Observations, decisions and pipeline traces (\<^verbatim>\<open>domain/observations.py\<close>, \<^verbatim>\<open>domain/decisions.py\<close>,
  \<^verbatim>\<open>domain/backtesting.py\<close>) with their canonical dictionaries and hashes, and the persistence rows
  made of them (\<^verbatim>\<open>application/evidence.py\<close>). A dataclass whose constructor freezes a payload is a
  record over the type of the payload: \<open>pyobj\<close> before construction, \<open>evidence\<close> after.
\<close>

section \<open>Observations\<close>

record 'p observation_of =
  signal_id :: string
  ob_instrument_id :: string
  ob_timeframe :: string
  ob_status :: string
  ob_event_type :: "string option"
  ob_direction :: "string option"
  event_time_ms :: "int option"
  known_time_ms :: "int option"
  ob_state :: string
  dependency_ids :: "string list"
  ob_parameter_hash :: string
  source_manifest_ids :: "string list"
  payload_schema_version :: int
  bounded_reason :: string
  ob_payload :: 'p
  level_text :: "string option"
  lower_text :: "string option"
  upper_text :: "string option"

type_synonym raw_observation = "pyobj observation_of"
type_synonym observation = "evidence observation_of"

definition times_ok :: "int option \<Rightarrow> int option \<Rightarrow> bool" where
  "times_ok ev known = (case (ev, known) of
     (Some a, Some b) \<Rightarrow> \<not> (a < 0 \<or> b < a) | (None, None) \<Rightarrow> True | _ \<Rightarrow> True)"

definition mk_observation :: "raw_observation \<Rightarrow> observation result" where
  "mk_observation r =
     rbind (instrument_id (ob_instrument_id r)) (\<lambda>iid.
     rbind (timeframe (ob_timeframe r)) (\<lambda>tf.
     rbind (rguard (ob_status r \<in> {''PASS'', ''FAIL'', ''UNAVAILABLE''}) ValueError
              ''unknown observation status'') (\<lambda>_.
     rbind (rguard ((event_time_ms r = None) = (known_time_ms r = None)) ValueError
              ''event and known times must both be present or absent'') (\<lambda>_.
     rbind (rguard (times_ok (event_time_ms r) (known_time_ms r)) ValueError
              ''observation times are invalid'') (\<lambda>_.
     rbind (rguard (is_hex64 (ob_parameter_hash r)) ValueError
              ''parameter hash must be lowercase SHA-256'') (\<lambda>_.
     rbind (rguard (1 \<le> payload_schema_version r) ValueError
              ''payload schema version must be a positive integer'') (\<lambda>_.
     rbind (rguard (1 \<le> length (bounded_reason r) \<and> length (bounded_reason r) \<le> 1000) ValueError
              ''observation reason must contain 1..1000 characters'') (\<lambda>_.
     rbind (opt_decimal_text (level_text r)) (\<lambda>lv.
     rbind (opt_decimal_text (lower_text r)) (\<lambda>lo.
     rbind (opt_decimal_text (upper_text r)) (\<lambda>up.
     rbind (freeze_evidence (ob_payload r)) (\<lambda>pl.
     Inr \<lparr>signal_id = signal_id r, ob_instrument_id = iid, ob_timeframe = tf, ob_status = ob_status r,
          ob_event_type = ob_event_type r, ob_direction = ob_direction r,
          event_time_ms = event_time_ms r, known_time_ms = known_time_ms r, ob_state = ob_state r,
          dependency_ids = dependency_ids r, ob_parameter_hash = ob_parameter_hash r,
          source_manifest_ids = source_manifest_ids r,
          payload_schema_version = payload_schema_version r, bounded_reason = bounded_reason r,
          ob_payload = pl, level_text = lv, lower_text = lo, upper_text = up\<rparr>))))))))))))"

definition opt_evidence :: "string option \<Rightarrow> evidence" where
  "opt_evidence x = (case x of None \<Rightarrow> ENone | Some s \<Rightarrow> EStr s)"

definition opt_int_evidence :: "int option \<Rightarrow> evidence" where
  "opt_int_evidence x = (case x of None \<Rightarrow> ENone | Some i \<Rightarrow> EInt i)"

definition observation_items :: "observation \<Rightarrow> (string \<times> evidence) list" where
  "observation_items ob =
     [(''signal_id'', EStr (signal_id ob)), (''instrument_id'', EStr (ob_instrument_id ob)),
          (''timeframe'', EStr (ob_timeframe ob)), (''status'', EStr (ob_status ob)),
          (''event_type'', opt_evidence (ob_event_type ob)), (''direction'', opt_evidence (ob_direction ob)),
          (''event_time_ms'', opt_int_evidence (event_time_ms ob)), (''known_time_ms'', opt_int_evidence (known_time_ms ob)),
          (''state'', EStr (ob_state ob)), (''dependency_ids'', ETuple (map EStr (dependency_ids ob))),
          (''parameter_hash'', EStr (ob_parameter_hash ob)),
          (''source_manifest_ids'', ETuple (map EStr (source_manifest_ids ob))),
          (''payload_schema_version'', EInt (payload_schema_version ob)),
          (''bounded_reason'', EStr (bounded_reason ob)), (''payload'', ob_payload ob),
          (''level_text'', opt_evidence (level_text ob)), (''lower_text'', opt_evidence (lower_text ob)),
          (''upper_text'', opt_evidence (upper_text ob))]"

definition observation_canonical_dict :: "observation \<Rightarrow> json" where
  "observation_canonical_dict ob = canonical_evidence (EMap (observation_items ob))"

definition hash_observation :: "observation \<Rightarrow> string" where
  "hash_observation ob = hash_with_domain ''observation-v1'' (observation_canonical_dict ob)"

section \<open>Decisions\<close>

record 'p decision_of =
  de_instrument_id :: string
  de_status :: string
  de_direction :: "string option"
  entry_text :: "string option"
  stop_text :: "string option"
  target_text :: "string option"
  first_failed_signal :: "string option"
  de_payload :: 'p

type_synonym raw_decision = "pyobj decision_of"
type_synonym decision = "evidence decision_of"

definition mk_decision :: "raw_decision \<Rightarrow> decision result" where
  "mk_decision r =
     rbind (instrument_id (de_instrument_id r)) (\<lambda>iid.
     rbind (rguard (de_status r \<in> {''READY'', ''NO_TRADE'', ''UNAVAILABLE''}) ValueError
              ''unknown decision status'') (\<lambda>_.
     rbind (if de_status r = ''READY'' then
              rbind (rguard (\<not> (de_direction r \<notin> {Some ''LONG'', Some ''SHORT''} \<or> first_failed_signal r \<noteq> None))
                       ValueError ''ready decision requires a direction and no failed signal'') (\<lambda>_.
              rbind (rguard (\<not> list_ex (\<lambda>v. v = None) [entry_text r, stop_text r, target_text r])
                       ValueError ''ready decision requires entry, stop, and target levels'') (\<lambda>_.
              rbind (opt_decimal_text (entry_text r)) (\<lambda>en.
              rbind (opt_decimal_text (stop_text r)) (\<lambda>st.
              rbind (opt_decimal_text (target_text r)) (\<lambda>tg.
              Inr (en, st, tg))))))
            else rbind (rguard (\<not> (de_direction r \<noteq> None \<or> entry_text r \<noteq> None \<or> stop_text r \<noteq> None
                                  \<or> target_text r \<noteq> None
                                  \<or> (case first_failed_signal r of None \<Rightarrow> True | Some s \<Rightarrow> s = [])))
                          ValueError ''non-ready decision requires only a first failed signal'') (\<lambda>_.
                 Inr (entry_text r, stop_text r, target_text r))) (\<lambda>(en, st, tg).
     rbind (freeze_evidence (de_payload r)) (\<lambda>pl.
     Inr \<lparr>de_instrument_id = iid, de_status = de_status r, de_direction = de_direction r,
          entry_text = en, stop_text = st, target_text = tg,
          first_failed_signal = first_failed_signal r, de_payload = pl\<rparr>))))"

definition decision_canonical_dict :: "decision \<Rightarrow> json" where
  "decision_canonical_dict d = canonical_evidence (EMap
     [(''instrument_id'', EStr (de_instrument_id d)), (''status'', EStr (de_status d)),
      (''direction'', opt_evidence (de_direction d)), (''entry_text'', opt_evidence (entry_text d)),
      (''stop_text'', opt_evidence (stop_text d)), (''target_text'', opt_evidence (target_text d)),
      (''first_failed_signal'', opt_evidence (first_failed_signal d)), (''payload'', de_payload d)])"

definition hash_decision :: "decision \<Rightarrow> string" where
  "hash_decision d = hash_with_domain ''decision-v1'' (decision_canonical_dict d)"

section \<open>Pipeline traces\<close>

record pipeline_step =
  kind :: string
  step_id :: string
  st_state :: string
  st_reason :: string
  dependency_hashes :: "(string \<times> string) list"
  output_hash :: "string option"

definition mk_pipeline_step :: "pipeline_step \<Rightarrow> pipeline_step result" where
  "mk_pipeline_step s =
     rbind (rguard (kind s \<in> {''INDICATOR'', ''DECISION_GATE''}) ValueError
              ''unknown pipeline step kind'') (\<lambda>_.
     (let allowed = (if kind s = ''INDICATOR'' then {''PASS'', ''FAIL'', ''UNAVAILABLE''}
                     else {''PASS'', ''REJECT'', ''UNAVAILABLE'', ''SKIPPED_AFTER_REJECTION''})
      in rbind (rguard (st_state s \<in> allowed) ValueError ''unknown pipeline step state'') (\<lambda>_.
         rbind (rguard (st_reason s \<noteq> []) ValueError ''pipeline step reason must not be empty'') (\<lambda>_.
         Inr s))))"

definition step_canonical_dict :: "pipeline_step \<Rightarrow> json" where
  "step_canonical_dict s = JObj
     [(''kind'', JStr (kind s)), (''step_id'', JStr (step_id s)), (''state'', JStr (st_state s)),
      (''reason'', JStr (st_reason s)),
      (''dependency_hashes'', JArr (map (\<lambda>(a, b). JArr [JStr a, JStr b]) (dependency_hashes s))),
      (''output_hash'', opt_str (output_hash s))]"

record pipeline_trace =
  tr_instrument_id :: string
  tr_evaluation_time_ms :: int
  tr_steps :: "pipeline_step list"
  first_rejection :: "string option"
  tr_decision_hash :: string

definition trace_canonical_dict :: "pipeline_trace \<Rightarrow> json" where
  "trace_canonical_dict t = JObj
     [(''instrument_id'', JStr (tr_instrument_id t)),
      (''evaluation_time_ms'', JInt (tr_evaluation_time_ms t)),
      (''steps'', JArr (map step_canonical_dict (tr_steps t))),
      (''first_rejection'', opt_str (first_rejection t)),
      (''decision_hash'', JStr (tr_decision_hash t))]"

record replay_evaluation =
  ev_instrument_id :: string
  ev_evaluation_time_ms :: int
  ev_decision :: decision
  ev_decision_hash :: string
  ev_trace :: pipeline_trace

definition evaluation_canonical_dict :: "replay_evaluation \<Rightarrow> json" where
  "evaluation_canonical_dict e = JObj
     [(''instrument_id'', JStr (ev_instrument_id e)),
      (''evaluation_time_ms'', JInt (ev_evaluation_time_ms e)),
      (''decision'', decision_canonical_dict (ev_decision e)),
      (''decision_hash'', JStr (ev_decision_hash e)), (''trace'', trace_canonical_dict (ev_trace e))]"

record replay_result =
  evaluations :: "replay_evaluation list"
  candle_count :: nat
  rr_data_hash :: string

definition replay_canonical_dict :: "replay_result \<Rightarrow> json" where
  "replay_canonical_dict r = JObj
     [(''evaluations'', JArr (map evaluation_canonical_dict (evaluations r))),
      (''candle_count'', JInt (int (candle_count r))), (''data_hash'', JStr (rr_data_hash r))]"

section \<open>Persistence rows\<close>

record observation_record =
  or_run_id :: string
  or_instrument_id :: string
  or_signal_id :: string
  or_status :: string
  or_event_time_ms :: "int option"
  or_known_time_ms :: "int option"
  or_reason :: string
  or_payload :: "(string, evidence) dict"

record decision_record =
  dr_run_id :: string
  dr_instrument_id :: string
  decision_status :: string
  dr_direction :: "string option"
  dr_entry_text :: "string option"
  dr_stop_text :: "string option"
  dr_target_text :: "string option"
  dr_first_failed_signal :: "string option"
  dr_payload :: "(string, evidence) dict"

definition observation_record_of :: "string \<Rightarrow> observation \<Rightarrow> observation_record" where
  "observation_record_of rid ob =
     \<lparr>or_run_id = rid, or_instrument_id = ob_instrument_id ob, or_signal_id = signal_id ob,
      or_status = ob_status ob, or_event_time_ms = event_time_ms ob,
      or_known_time_ms = known_time_ms ob, or_reason = bounded_reason ob,
      or_payload =
        [(''event_type'', opt_evidence (ob_event_type ob)), (''direction'', opt_evidence (ob_direction ob)),
         (''state'', EStr (ob_state ob)), (''timeframe'', EStr (ob_timeframe ob)),
         (''dependency_ids'', ETuple (map EStr (dependency_ids ob))),
         (''parameter_hash'', EStr (ob_parameter_hash ob)),
         (''source_manifest_ids'', ETuple (map EStr (source_manifest_ids ob))),
         (''payload_schema_version'', EInt (payload_schema_version ob)),
         (''level_text'', opt_evidence (level_text ob)), (''lower_text'', opt_evidence (lower_text ob)),
         (''upper_text'', opt_evidence (upper_text ob)),
         (''observation_hash'', EStr (hash_observation ob)), (''payload'', ob_payload ob)]\<rparr>"

definition decision_record_of :: "string \<Rightarrow> decision \<Rightarrow> decision_record" where
  "decision_record_of rid d =
     \<lparr>dr_run_id = rid, dr_instrument_id = de_instrument_id d, decision_status = de_status d,
      dr_direction = de_direction d, dr_entry_text = entry_text d, dr_stop_text = stop_text d,
      dr_target_text = target_text d, dr_first_failed_signal = first_failed_signal d,
      dr_payload = [(''decision_hash'', EStr (hash_decision d)), (''payload'', de_payload d)]\<rparr>"

text \<open>The rows \<^verbatim>\<open>persist_evidence\<close> hands to the repository, in its deterministic order.\<close>

definition evidence_rows ::
    "string \<Rightarrow> observation list \<Rightarrow> decision list \<Rightarrow> observation_record list \<times> decision_record list" where
  "evidence_rows rid obs ds =
     (map (observation_record_of rid) (sort_key (\<lambda>ob. (ob_instrument_id ob, signal_id ob)) obs),
      map (decision_record_of rid) (sort_key de_instrument_id ds))"

section \<open>What a constructed value satisfies\<close>

lemma opt_decimal_text_canonical:
  "opt_decimal_text v = Inr w \<Longrightarrow> (w = None \<longleftrightarrow> v = None) \<and> (\<forall>t \<in> set_option w. canonical_decimal t)"
  by (auto simp: opt_decimal_text_def canonical_decimal_def intro: decimal_text_canonical split: option.splits)

lemma mk_observation_Inr:
  assumes "mk_observation r = Inr ob"
  shows "ob = observation_of.truncate ob
    \<and> signal_id ob = signal_id r \<and> ob_instrument_id ob = ob_instrument_id r \<and> ob_status ob = ob_status r
    \<and> ob_timeframe ob = ob_timeframe r \<and> dependency_ids ob = dependency_ids r
    \<and> ob_parameter_hash ob = ob_parameter_hash r \<and> event_time_ms ob = event_time_ms r
    \<and> known_time_ms ob = known_time_ms r \<and> freeze_evidence (ob_payload r) = Inr (ob_payload ob)"
  using assms by (auto simp: mk_observation_def timeframe_def observation_of.defs
    dest: instrument_id_same split: if_splits)

text \<open>The trade levels of a ready decision exist, and a decision that is not ready has none.\<close>

definition decision_wf :: "decision \<Rightarrow> bool" where
  "decision_wf d \<longleftrightarrow>
     (if de_status d = ''READY'' then
        de_direction d \<in> {Some ''LONG'', Some ''SHORT''} \<and> first_failed_signal d = None
        \<and> (\<exists>en st tg. entry_text d = Some en \<and> stop_text d = Some st \<and> target_text d = Some tg
             \<and> canonical_decimal en \<and> canonical_decimal st \<and> canonical_decimal tg)
      else de_status d \<in> {''NO_TRADE'', ''UNAVAILABLE''} \<and> de_direction d = None \<and> entry_text d = None
        \<and> stop_text d = None \<and> target_text d = None
        \<and> (\<exists>s. first_failed_signal d = Some s \<and> s \<noteq> []))"

lemma mk_decision_wf:
  assumes "mk_decision r = Inr d"
  shows "decision_wf d"
proof (cases "de_status r = ''READY''")
  case True
  with assms have st: "de_status d = ''READY''" "de_direction d \<in> {Some ''LONG'', Some ''SHORT''}"
      "first_failed_signal d = None"
    and nn: "entry_text r \<noteq> None" "stop_text r \<noteq> None" "target_text r \<noteq> None"
    and lv: "opt_decimal_text (entry_text r) = Inr (entry_text d)"
      "opt_decimal_text (stop_text r) = Inr (stop_text d)"
      "opt_decimal_text (target_text r) = Inr (target_text d)"
    by (auto simp: mk_decision_def)
  show ?thesis
    using st nn opt_decimal_text_canonical [OF lv(1)] opt_decimal_text_canonical [OF lv(2)]
      opt_decimal_text_canonical [OF lv(3)]
    by (auto simp: decision_wf_def)
next
  case False
  with assms show ?thesis
    by (auto simp: mk_decision_def decision_wf_def split: option.splits if_splits)
qed

text \<open>A constructed decision is ready with a direction and three canonical trade
  levels and no failed signal, or it is not ready, has no direction and no level, and names the
  first failed signal.\<close>

theorem decision_constructor:
  assumes "mk_decision r = Inr d"
  shows "decision_wf d"
  using assms by (rule mk_decision_wf)

definition sample_raw_decision :: raw_decision where
  "sample_raw_decision = \<lparr>de_instrument_id = ''CRYPTO-BTC-USDT-PERP'', de_status = ''READY'',
     de_direction = Some ''LONG'', entry_text = Some ''10.50'', stop_text = Some ''9'',
     target_text = Some ''13'', first_failed_signal = None, de_payload = PDict []\<rparr>"

theorem decision_constructor_witness:
  "\<exists>d. mk_decision sample_raw_decision = Inr d \<and> decision_wf d"
proof -
  have "is_ok (mk_decision sample_raw_decision)" by code_simp
  then obtain d where "mk_decision sample_raw_decision = Inr d" by (auto simp: is_ok_iff)
  from this decision_constructor [OF this] show ?thesis by blast
qed

end
