(* ===== verification/Resampling.thy ===== *)
theory Resampling
  imports Evidence
begin

text \<open>
  Complete-only resampling (\<^verbatim>\<open>application/resampling.py\<close>): validation of the input series, the
  dictionary of UTC buckets, and the derived candles of the full buckets. The lemmas state what
  each derived candle is made of, that every full visible bucket is reported, and that nothing
  after the evaluation time is read.
\<close>

section \<open>Derived candles\<close>

record derived_candle =
  dc_instrument_id :: string
  dc_interval :: string
  dc_open_time_ms :: int
  dc_close_time_ms :: int
  dc_open :: string
  dc_high :: string
  dc_low :: string
  dc_close :: string
  dc_base_volume :: string
  dc_quote_volume :: "string option"

definition mk_derived_candle :: "derived_candle \<Rightarrow> derived_candle result" where
  "mk_derived_candle r =
     rbind (instrument_id (dc_instrument_id r)) (\<lambda>iid.
     rbind (timeframe (dc_interval r)) (\<lambda>tf.
     rbind (rguard (tf \<noteq> ''1m'') ValueError ''derived candles require a higher timeframe'') (\<lambda>_.
     (let duration = duration_minutes tf * 60000 in
     rbind (rguard (\<not> (dc_open_time_ms r < 0 \<or> dc_open_time_ms r mod duration \<noteq> 0)) ValueError
              ''derived candle must align to a UTC timeframe boundary'') (\<lambda>_.
     rbind (rguard (dc_close_time_ms r = dc_open_time_ms r + duration - 1) ValueError
              ''derived candle must cover one complete timeframe'') (\<lambda>_.
     rbind (decimal_text (dc_open r)) (\<lambda>o'.
     rbind (decimal_text (dc_high r)) (\<lambda>h.
     rbind (decimal_text (dc_low r)) (\<lambda>l.
     rbind (decimal_text (dc_close r)) (\<lambda>c.
     rbind (decimal_text (dc_base_volume r)) (\<lambda>bv.
     rbind (opt_decimal_text (dc_quote_volume r)) (\<lambda>qv.
     Inr \<lparr>dc_instrument_id = iid, dc_interval = tf, dc_open_time_ms = dc_open_time_ms r,
          dc_close_time_ms = dc_close_time_ms r, dc_open = o', dc_high = h, dc_low = l,
          dc_close = c, dc_base_volume = bv, dc_quote_volume = qv\<rparr>))))))))))))"

definition derived_canonical_dict :: "derived_candle \<Rightarrow> json" where
  "derived_canonical_dict c = JObj
     [(''instrument_id'', JStr (dc_instrument_id c)), (''interval'', JStr (dc_interval c)),
      (''open_time_ms'', JInt (dc_open_time_ms c)), (''close_time_ms'', JInt (dc_close_time_ms c)),
      (''open'', JStr (dc_open c)), (''high'', JStr (dc_high c)), (''low'', JStr (dc_low c)),
      (''close'', JStr (dc_close c)), (''base_volume'', JStr (dc_base_volume c)),
      (''quote_volume'', opt_str (dc_quote_volume c))]"

definition hash_derived_candles :: "derived_candle list \<Rightarrow> string" where
  "hash_derived_candles cs =
     hash_with_domain ''derived-candles-v1'' (JArr (sort_key canonical_json (map derived_canonical_dict cs)))"

section \<open>Resampling\<close>

definition market_identity :: "candle \<Rightarrow> string \<times> string \<times> string \<times> string" where
  "market_identity c = (provider_id c, market_type c, c_instrument_id c, provider_symbol c)"

definition sum_decimal :: "string list \<Rightarrow> string result" where
  "sum_decimal vs = decimal_text (format_f (dsum (map dec_of vs)))"

definition bucket_start :: "int \<Rightarrow> candle \<Rightarrow> int" where
  "bucket_start duration c = open_time_ms c - open_time_ms c mod duration"

definition visible :: "int option \<Rightarrow> candle \<Rightarrow> bool" where
  "visible evaluation_time c \<longleftrightarrow> (case evaluation_time of None \<Rightarrow> True | Some e \<Rightarrow> \<not> e < close_time_ms c)"

definition add_to_bucket :: "int \<Rightarrow> int option \<Rightarrow> (int, candle list) dict \<Rightarrow> candle \<Rightarrow> (int, candle list) dict" where
  "add_to_bucket duration ev buckets c =
     (if visible ev c then
        (let b = bucket_start duration c;
             old = (case dict_get buckets b of None \<Rightarrow> [] | Some rows \<Rightarrow> rows)
         in dict_set b (old @ [c]) buckets)
      else buckets)"

definition bucket_dict :: "int \<Rightarrow> int option \<Rightarrow> candle list \<Rightarrow> (int, candle list) dict" where
  "bucket_dict duration ev ordered = foldl (add_to_bucket duration ev) [] ordered"

definition bucket_complete :: "int \<Rightarrow> int \<Rightarrow> candle list \<Rightarrow> bool" where
  "bucket_complete minutes b rows \<longleftrightarrow>
     \<not> (int (length rows) \<noteq> minutes \<or> open_time_ms (hd rows) \<noteq> b
        \<or> close_time_ms (last rows) \<noteq> b + minutes * 60000 - 1)"

definition derive_bucket :: "string \<Rightarrow> int \<Rightarrow> int \<Rightarrow> candle list \<Rightarrow> derived_candle result" where
  "derive_bucket tf minutes b rows =
     rbind (if list_ex (\<lambda>r. quote_volume r = None) rows then Inr None
            else rbind (sum_decimal (map (\<lambda>r. the (quote_volume r)) rows)) (\<lambda>q. Inr (Some q))) (\<lambda>qv.
     rbind (dmax_list (map (\<lambda>r. dec_of (c_high r)) rows)) (\<lambda>mx.
     rbind (decimal_text (dec_str mx)) (\<lambda>high.
     rbind (dmin_list (map (\<lambda>r. dec_of (c_low r)) rows)) (\<lambda>mn.
     rbind (decimal_text (dec_str mn)) (\<lambda>low.
     rbind (sum_decimal (map base_volume rows)) (\<lambda>bv.
     mk_derived_candle
       \<lparr>dc_instrument_id = c_instrument_id (hd rows), dc_interval = tf, dc_open_time_ms = b,
        dc_close_time_ms = b + minutes * 60000 - 1, dc_open = c_open (hd rows), dc_high = high,
        dc_low = low, dc_close = c_close (last rows), dc_base_volume = bv,
        dc_quote_volume = qv\<rparr>))))))"

text \<open>The loop over the sorted bucket starts.\<close>

definition derive_complete :: "string \<Rightarrow> int \<Rightarrow> (int, candle list) dict \<Rightarrow> derived_candle list result" where
  "derive_complete tf minutes buckets =
     rmapM (\<lambda>b. derive_bucket tf minutes b (the (dict_get buckets b)))
       (filter (\<lambda>b. bucket_complete minutes b (the (dict_get buckets b))) (sort (dict_keys buckets)))"

definition resample_complete :: "candle list \<Rightarrow> string \<Rightarrow> int option \<Rightarrow> derived_candle list result" where
  "resample_complete candles tf ev =
     rbind (timeframe tf) (\<lambda>canonical.
     rbind (rguard (canonical \<noteq> ''1m'') ValueError ''resampling requires a higher timeframe'') (\<lambda>_.
     rbind (rguard (case ev of None \<Rightarrow> True | Some e \<Rightarrow> 0 \<le> e) ValueError
              ''evaluation time must be non-negative'') (\<lambda>_.
     if candles = [] then Inr []
     else
       rbind (rguard (\<not> list_ex (\<lambda>c. market_identity c \<noteq> market_identity (hd candles)) candles) ValueError
                ''resampling input must have one market identity'') (\<lambda>_.
       rbind (rguard (adjacent (\<lambda>left right. open_time_ms right = open_time_ms left + 60000) candles) ValueError
                ''resampling input must be monotonic and contiguous'') (\<lambda>_.
       derive_complete canonical (duration_minutes canonical)
         (bucket_dict (duration_minutes canonical * 60000) ev candles))))))"

text \<open>
  Roles are resampled in the order of the mapping; a timeframe that occurs under several roles is
  resampled once and the cached series is shared.
\<close>

definition resample_step ::
    "candle list \<Rightarrow> int option \<Rightarrow> (string, derived_candle list) dict \<times> (string, derived_candle list) dict
      \<Rightarrow> string \<times> string \<Rightarrow> ((string, derived_candle list) dict \<times> (string, derived_candle list) dict) result" where
  "resample_step candles ev st rt =
     (let (res, cache) = st; (role, tf) = rt in
      rbind (rguard (role \<noteq> []) ValueError ''role identifiers must be non-empty strings'') (\<lambda>_.
      case dict_get cache tf of
        Some cs \<Rightarrow> Inr (dict_set role cs res, cache)
      | None \<Rightarrow> rbind (resample_complete candles tf ev) (\<lambda>cs.
          Inr (dict_set role cs res, dict_set tf cs cache))))"

definition resample_roles ::
    "candle list \<Rightarrow> (string, string) dict \<Rightarrow> int option \<Rightarrow> (string, derived_candle list) dict result" where
  "resample_roles candles roles ev =
     rbind (rfoldM (resample_step candles ev) ([], []) roles) (\<lambda>(res, cache). Inr res)"

section \<open>The bucket dictionary\<close>

definition bucket_rows :: "int \<Rightarrow> int option \<Rightarrow> candle list \<Rightarrow> int \<Rightarrow> candle list" where
  "bucket_rows duration ev cs b = filter (\<lambda>c. visible ev c \<and> bucket_start duration c = b) cs"

lemma bucket_dict_get:
  "dict_get (bucket_dict d ev cs) b = (if bucket_rows d ev cs b = [] then None else Some (bucket_rows d ev cs b))"
proof (induction cs rule: rev_induct)
  case Nil
  show ?case by (simp add: bucket_dict_def bucket_rows_def)
next
  case (snoc c cs)
  have step: "bucket_dict d ev (cs @ [c]) = add_to_bucket d ev (bucket_dict d ev cs) c"
    by (simp add: bucket_dict_def)
  have rows: "bucket_rows d ev (cs @ [c]) b = bucket_rows d ev cs b
      @ (if visible ev c \<and> bucket_start d c = b then [c] else [])"
    by (simp add: bucket_rows_def)
  show ?case using snoc by (auto simp: step rows add_to_bucket_def dict_set_conv Let_def)
qed

lemma bucket_dict_distinct: "distinct (dict_keys (bucket_dict d ev cs))"
proof (induction cs rule: rev_induct)
  case Nil
  show ?case by (simp add: bucket_dict_def)
next
  case (snoc c cs)
  then show ?case by (simp add: bucket_dict_def add_to_bucket_def Let_def distinct_update)
qed

lemma bucket_dict_keys: "b \<in> set (dict_keys (bucket_dict d ev cs)) \<longleftrightarrow> bucket_rows d ev cs b \<noteq> []"
  using bucket_dict_get [of d ev cs b] by (metis map_of_eq_None_iff option.distinct(1) set_map)

lemma mk_derived_candle_Inr:
  assumes "mk_derived_candle r = Inr k"
  shows "dc_open_time_ms k = dc_open_time_ms r \<and> dc_close_time_ms k = dc_close_time_ms r
    \<and> dc_instrument_id k = dc_instrument_id r \<and> dc_interval k = dc_interval r
    \<and> decimal_text (dc_open r) = Inr (dc_open k) \<and> decimal_text (dc_high r) = Inr (dc_high k)
    \<and> decimal_text (dc_low r) = Inr (dc_low k) \<and> decimal_text (dc_close r) = Inr (dc_close k)
    \<and> decimal_text (dc_base_volume r) = Inr (dc_base_volume k)
    \<and> opt_decimal_text (dc_quote_volume r) = Inr (dc_quote_volume k)"
  using assms
  by (auto simp: mk_derived_candle_def Let_def timeframe_def dest: instrument_id_same split: if_splits)

lemma derive_bucket_times:
  "derive_bucket tf m b rows = Inr k \<Longrightarrow> dc_open_time_ms k = b \<and> dc_close_time_ms k = b + m * 60000 - 1"
  by (auto simp: derive_bucket_def dest: mk_derived_candle_Inr)

text \<open>The members of the result, in one place for the properties below.\<close>

lemma resample_complete_Inr:
  assumes "resample_complete cs tf ev = Inr out" "m = duration_minutes tf" "d = m * 60000"
  shows "map dc_open_time_ms out =
      filter (\<lambda>b. bucket_complete m b (bucket_rows d ev cs b)) (sort (dict_keys (bucket_dict d ev cs)))"
    and "\<And>k. k \<in> set out \<Longrightarrow> derive_bucket tf m (dc_open_time_ms k) (bucket_rows d ev cs (dc_open_time_ms k)) = Inr k"
    and "adjacent (\<lambda>left right. open_time_ms right = open_time_ms left + 60000) cs"
    and "tf \<in> {''5m'', ''15m'', ''1h'', ''4h''}"
proof -
  let ?b = "bucket_dict d ev cs"
  show tf: "tf \<in> {''5m'', ''15m'', ''1h'', ''4h''}"
    using assms(1) by (auto simp: resample_complete_def timeframe_def timeframe_minutes_def split: if_splits)
  show "adjacent (\<lambda>left right. open_time_ms right = open_time_ms left + 60000) cs"
    using assms(1) by (cases "cs = []") (auto simp: resample_complete_def)
  have out: "rmapM (\<lambda>b. derive_bucket tf m b (the (dict_get ?b b)))
      (filter (\<lambda>b. bucket_complete m b (the (dict_get ?b b))) (sort (dict_keys ?b))) = Inr out"
  proof (cases "cs = []")
    case True
    then show ?thesis using assms(1)
      by (auto simp: resample_complete_def bucket_dict_def)
  next
    case False
    then show ?thesis using assms
      by (auto simp: resample_complete_def derive_complete_def timeframe_def split: if_splits)
  qed
  have the_rows: "the (dict_get ?b b) = bucket_rows d ev cs b" if "b \<in> set (dict_keys ?b)" for b
    using that by (simp add: bucket_dict_get bucket_dict_keys del: set_map)
  have flt: "filter (\<lambda>b. bucket_complete m b (the (dict_get ?b b))) (sort (dict_keys ?b))
      = filter (\<lambda>b. bucket_complete m b (bucket_rows d ev cs b)) (sort (dict_keys ?b))"
    by (rule filter_cong) (use the_rows in auto)
  show "map dc_open_time_ms out =
      filter (\<lambda>b. bucket_complete m b (bucket_rows d ev cs b)) (sort (dict_keys ?b))"
    using rmapM_keys [OF out] derive_bucket_times unfolding flt by blast
  show "derive_bucket tf m (dc_open_time_ms k) (bucket_rows d ev cs (dc_open_time_ms k)) = Inr k"
    if "k \<in> set out" for k
  proof -
    from rmapM_in_set [OF out that] obtain b where b: "b \<in> set (dict_keys ?b)"
      and k: "derive_bucket tf m b (the (dict_get ?b b)) = Inr k" by auto
    from derive_bucket_times [OF k] have "dc_open_time_ms k = b" by simp
    with k the_rows [OF b] show ?thesis by simp
  qed
qed

section \<open>Full buckets\<close>

lemma timeframe_minutes_pos:
  "tf \<in> {''5m'', ''15m'', ''1h'', ''4h''} \<Longrightarrow> 0 < duration_minutes tf"
  by (auto simp: duration_minutes_def timeframe_minutes_def)

lemma bucket_rows_grid:
  assumes "\<forall>c\<in>set cs. candle_wf c" "0 < m" "d = m * 60000"
  shows "set (map open_time_ms (bucket_rows d ev cs b)) \<subseteq> set (grid b 60000 (nat m))"
    and "bucket_rows d ev cs b \<noteq> [] \<Longrightarrow> b mod d = 0"
proof -
  have d: "0 < d" "d mod 60000 = 0" using assms by simp_all
  have al: "(open_time_ms c - b) mod 60000 = 0 \<and> 0 \<le> open_time_ms c - b \<and> open_time_ms c - b < d \<and> b mod d = 0"
    if c: "c \<in> set (bucket_rows d ev cs b)" for c
  proof -
    from c have b: "b = open_time_ms c - open_time_ms c mod d" and wf: "candle_wf c"
      using assms(1) by (auto simp: bucket_rows_def bucket_start_def)
    have mm: "open_time_ms c mod 60000 = 0" using wf by (simp add: candle_wf_def)
    have "open_time_ms c mod d mod 60000 = open_time_ms c mod 60000"
      using assms(3) by (intro mod_mod_cancel) simp
    moreover have e: "open_time_ms c - b = open_time_ms c mod d" using b by simp
    moreover have "b mod d = 0" by (simp add: b minus_mod_eq_mult_div)
    ultimately show ?thesis using mm d(1) by (simp only: e) simp
  qed
  show "set (map open_time_ms (bucket_rows d ev cs b)) \<subseteq> set (grid b 60000 (nat m))"
  proof
    fix t assume "t \<in> set (map open_time_ms (bucket_rows d ev cs b))"
    then obtain c where c: "c \<in> set (bucket_rows d ev cs b)" "t = open_time_ms c" by auto
    define i where "i = (t - b) div 60000"
    have "t = b + i * 60000" "0 \<le> i" "i < m"
      using al [OF c(1)] assms(3) c(2) by (auto simp: i_def)
    then show "t \<in> set (grid b 60000 (nat m))"
      by (simp add: grid_set) (intro exI [of _ "nat i"]; simp)
  qed
  show "b mod d = 0" if "bucket_rows d ev cs b \<noteq> []"
    using al hd_in_set [OF that] by blast
qed

lemma bucket_rows_sorted:
  assumes "adjacent (\<lambda>left right. open_time_ms right = open_time_ms left + 60000) cs"
  shows "sorted_wrt (<) (map open_time_ms (bucket_rows d ev cs b))"
  using adjacent_strict_sorted [OF assms]
  by (simp add: bucket_rows_def sorted_wrt_map sorted_wrt_filter)

lemma grid_map_nonempty: "0 < m \<Longrightarrow> map f r = grid b d (nat m) \<Longrightarrow> r \<noteq> []"
  by (cases r) (auto dest: sym)

lemma bucket_complete_iff:
  assumes wf: "\<forall>c\<in>set cs. candle_wf c" and m: "0 < m" and d: "d = m * 60000"
    and adj: "adjacent (\<lambda>left right. open_time_ms right = open_time_ms left + 60000) cs"
  shows "bucket_complete m b (bucket_rows d ev cs b)
    \<longleftrightarrow> map open_time_ms (bucket_rows d ev cs b) = grid b 60000 (nat m)"
proof -
  let ?r = "bucket_rows d ev cs b"
  have sub: "set (map open_time_ms ?r) \<subseteq> set (grid b 60000 (nat m))"
    by (rule bucket_rows_grid [OF wf m d])
  have len: "int (length ?r) = m \<longleftrightarrow> map open_time_ms ?r = grid b 60000 (nat m)"
    using grid_full_iff [OF _ bucket_rows_sorted [OF adj] sub] m by auto
  have ends: "open_time_ms (hd ?r) = b \<and> close_time_ms (last ?r) = b + m * 60000 - 1"
    if g: "map open_time_ms ?r = grid b 60000 (nat m)"
  proof -
    have ne: "?r \<noteq> []" using m g by (rule grid_map_nonempty)
    then have "open_time_ms (hd ?r) = hd (map open_time_ms ?r)"
      and "open_time_ms (last ?r) = last (map open_time_ms ?r)"
      by (simp_all add: hd_map last_map)
    then have "open_time_ms (hd ?r) = b" "open_time_ms (last ?r) = b + (m - 1) * 60000"
      using m by (simp_all add: g grid_hd grid_last)
    moreover have "candle_wf (last ?r)"
      using wf last_in_set [OF ne] by (auto simp: bucket_rows_def)
    ultimately show ?thesis by (simp add: candle_wf_def)
  qed
  show ?thesis
  proof (cases "map open_time_ms ?r = grid b 60000 (nat m)")
    case True
    with len have "int (length ?r) = m" by (rule iffD2)
    with ends [OF True] True show ?thesis by (simp only: bucket_complete_def simp_thms)
  next
    case False
    with len have "int (length ?r) \<noteq> m" by (simp only: simp_thms)
    with False show ?thesis by (simp only: bucket_complete_def simp_thms)
  qed
qed

text \<open>Every minute of the bucket that starts at \<open>b\<close> is in the visible part of the series.\<close>

definition bucket_covered :: "int \<Rightarrow> int option \<Rightarrow> candle list \<Rightarrow> int \<Rightarrow> bool" where
  "bucket_covered m ev cs b \<longleftrightarrow> b mod (m * 60000) = 0
     \<and> (\<forall>t \<in> set (grid b 60000 (nat m)). \<exists>c\<in>set cs. visible ev c \<and> open_time_ms c = t)"

lemma covered_iff_full:
  assumes wf: "\<forall>c\<in>set cs. candle_wf c" and m: "0 < m" and d: "d = m * 60000"
    and adj: "adjacent (\<lambda>left right. open_time_ms right = open_time_ms left + 60000) cs"
  shows "bucket_covered m ev cs b \<longleftrightarrow> map open_time_ms (bucket_rows d ev cs b) = grid b 60000 (nat m)"
proof
  let ?r = "bucket_rows d ev cs b"
  assume cov: "bucket_covered m ev cs b"
  have start: "bucket_start d c = b" if "open_time_ms c \<in> set (grid b 60000 (nat m))" for c
  proof -
    from that obtain i where i: "i < nat m" "open_time_ms c = b + int i * 60000" by (auto simp: grid_set)
    have "int i * 60000 < d" using i d by simp
    moreover have "b mod d = 0" using cov d by (simp add: bucket_covered_def)
    ultimately have "open_time_ms c mod d = int i * 60000"
      using i by (metis add_0 mod_add_left_eq mod_pos_pos_trivial mult_nonneg_nonneg of_nat_0_le_iff zero_le_numeral)
    with i show ?thesis by (simp add: bucket_start_def)
  qed
  have "set (grid b 60000 (nat m)) \<subseteq> set (map open_time_ms ?r)"
  proof
    fix t assume t: "t \<in> set (grid b 60000 (nat m))"
    with cov obtain c where "c \<in> set cs" "visible ev c" "open_time_ms c = t"
      by (auto simp: bucket_covered_def)
    with t start [of c] show "t \<in> set (map open_time_ms ?r)" by (auto simp: bucket_rows_def)
  qed
  then have eq: "set (map open_time_ms ?r) = set (grid b 60000 (nat m))"
    using bucket_rows_grid [OF wf m d] by blast
  have "sorted_wrt (<) (map open_time_ms ?r)" "sorted_wrt (<) (grid b 60000 (nat m))"
    using bucket_rows_sorted [OF adj] grid_sorted by simp_all
  then show "map open_time_ms ?r = grid b 60000 (nat m)"
    using eq strict_sorted_distinct by (intro sorted_distinct_set_unique) blast+
next
  let ?r = "bucket_rows d ev cs b"
  assume g: "map open_time_ms ?r = grid b 60000 (nat m)"
  have "?r \<noteq> []" using m g by (rule grid_map_nonempty)
  then have "b mod d = 0" by (rule bucket_rows_grid [OF wf m d])
  moreover have "\<exists>c\<in>set cs. visible ev c \<and> open_time_ms c = t" if "t \<in> set (grid b 60000 (nat m))" for t
  proof -
    from that g have "t \<in> set (map open_time_ms ?r)" by simp
    then show ?thesis by (auto simp: bucket_rows_def)
  qed
  ultimately show "bucket_covered m ev cs b" using d by (simp add: bucket_covered_def)
qed

section \<open>Properties\<close>

text \<open>C4: Resampling a well-formed series reports, in strictly
  ascending order, exactly the timeframe-aligned buckets all of whose minutes are in the part of
  the series that was closed at the evaluation time.\<close>

theorem resample_reports_covered_buckets:
  assumes "resample_complete cs tf ev = Inr out" "\<forall>c\<in>set cs. candle_wf c"
  shows "sorted_wrt (<) (map dc_open_time_ms out)
    \<and> (\<forall>b. b \<in> set (map dc_open_time_ms out) \<longleftrightarrow> bucket_covered (duration_minutes tf) ev cs b)"
proof -
  define m where "m = duration_minutes tf"
  define d where "d = m * 60000"
  note inr = resample_complete_Inr [OF assms(1) m_def d_def]
  have m: "0 < m" using inr(4) by (simp add: m_def timeframe_minutes_pos)
  note full = bucket_complete_iff [OF assms(2) m d_def inr(3)] covered_iff_full [OF assms(2) m d_def inr(3)]
  have "sorted_wrt (<) (map dc_open_time_ms out)"
    unfolding inr(1) using bucket_dict_distinct [of d ev cs]
    by (simp add: strict_sorted_iff sorted_wrt_filter del: sorted_wrt_map)
  moreover have "b \<in> set (map dc_open_time_ms out) \<longleftrightarrow> bucket_covered m ev cs b" for b
  proof -
    have "b \<in> set (map dc_open_time_ms out) \<longleftrightarrow>
        bucket_rows d ev cs b \<noteq> [] \<and> bucket_complete m b (bucket_rows d ev cs b)"
      unfolding inr(1) set_filter set_sort mem_Collect_eq bucket_dict_keys ..
    also have "\<dots> \<longleftrightarrow> bucket_covered m ev cs b"
      unfolding full using grid_map_nonempty [OF m] by blast
    finally show ?thesis .
  qed
  ultimately show ?thesis by (simp add: m_def)
qed

definition sample_minutes :: "candle list" where
  "sample_minutes = [sample_minute 0 ''10'' ''12'' ''9.5'' ''11'', sample_minute 1 ''11'' ''13'' ''10'' ''12'',
     sample_minute 2 ''12'' ''12.5'' ''8'' ''9'', sample_minute 3 ''9'' ''10'' ''9'' ''10'',
     sample_minute 4 ''10'' ''11'' ''10'' ''10.5'', sample_minute 5 ''10.5'' ''11'' ''10'' ''10'']"

lemma sample_minutes_wf: "\<forall>c\<in>set sample_minutes. candle_wf c"
proof -
  have "list_all (\<lambda>c. mk_candle (raw_of c) = Inr c) sample_minutes" by code_simp
  then show ?thesis by (auto simp: list_all_iff intro: sample_wf)
qed

text \<open>The checks in front of the loop, one by one.\<close>

lemma resample_complete_loop:
  assumes "timeframe tf = Inr tf" "tf \<noteq> ''1m''" "\<forall>e \<in> set_option ev. 0 \<le> e" "cs \<noteq> []"
    and "\<not> list_ex (\<lambda>c. market_identity c \<noteq> market_identity (hd cs)) cs"
    and "adjacent (\<lambda>left right. open_time_ms right = open_time_ms left + 60000) cs"
  shows "resample_complete cs tf ev =
    derive_complete tf (duration_minutes tf) (bucket_dict (duration_minutes tf * 60000) ev cs)"
  using assms by (cases ev) (simp_all add: resample_complete_def)

lemma sample_resampled: "is_ok (resample_complete sample_minutes ''5m'' (Some 299999))"
proof -
  have "resample_complete sample_minutes ''5m'' (Some 299999) = derive_complete ''5m'' (duration_minutes ''5m'')
      (bucket_dict (duration_minutes ''5m'' * 60000) (Some 299999) sample_minutes)"
    by (rule resample_complete_loop) code_simp+
  moreover have "duration_minutes ''5m'' = 5" by code_simp
  moreover have "bucket_dict 300000 (Some 299999) sample_minutes = [(0, take 5 sample_minutes)]" by code_simp
  moreover have "is_ok (derive_complete ''5m'' 5 [(0, take 5 sample_minutes)])" by code_simp
  ultimately show ?thesis by simp
qed

theorem resample_reports_covered_buckets_witness:
  "\<exists>out. resample_complete sample_minutes ''5m'' (Some 299999) = Inr out
    \<and> (0 \<in> set (map dc_open_time_ms out) \<longleftrightarrow> bucket_covered 5 (Some 299999) sample_minutes 0)"
proof -
  from sample_resampled obtain out where out: "resample_complete sample_minutes ''5m'' (Some 299999) = Inr out"
    by (auto simp: is_ok_iff)
  from resample_reports_covered_buckets [OF out sample_minutes_wf] out show ?thesis
    by (auto simp: duration_minutes_def timeframe_minutes_def)
qed

lemma sum_decimal_text: "sum_decimal vs = Inr t \<Longrightarrow> decimal_text (format_f (dsum (map dec_of vs))) = Inr t"
  by (simp add: sum_decimal_def)

text \<open>A derived candle opens at the first and closes at the last minute of its
  bucket, its high and low have the value of the highest high and the lowest low of the bucket's
  minutes, all of them closed at the evaluation time, its base volume is the rounded sum of theirs,
  and it has a quote volume only if all of them have.\<close>

theorem resample_values:
  assumes "resample_complete cs tf ev = Inr out" "\<forall>c\<in>set cs. candle_wf c" "k \<in> set out"
    and "rows = bucket_rows (duration_minutes tf * 60000) ev cs (dc_open_time_ms k)"
  shows "rows \<noteq> [] \<and> (\<forall>r\<in>set rows. r \<in> set cs \<and> visible ev r)
    \<and> dc_close_time_ms k = dc_open_time_ms k + duration_minutes tf * 60000 - 1
    \<and> dc_open k = c_open (hd rows) \<and> dc_close k = c_close (last rows)
    \<and> dval (dec_of (dc_high k)) = Max ((\<lambda>r. dval (dec_of (c_high r))) ` set rows)
    \<and> dval (dec_of (dc_low k)) = Min ((\<lambda>r. dval (dec_of (c_low r))) ` set rows)
    \<and> decimal_text (format_f (dsum (map (\<lambda>r. dec_of (base_volume r)) rows))) = Inr (dc_base_volume k)
    \<and> (dc_quote_volume k = None \<longleftrightarrow> (\<exists>r\<in>set rows. quote_volume r = None))"
proof -
  define m where "m = duration_minutes tf"
  define d where "d = m * 60000"
  note inr = resample_complete_Inr [OF assms(1) m_def d_def]
  define b where "b = dc_open_time_ms k"
  have rows: "rows = bucket_rows d ev cs b" by (simp add: assms(4) d_def m_def b_def)
  have db: "derive_bucket tf m b rows = Inr k" using inr(2) [OF assms(3)] by (simp add: rows b_def)
  have sub: "r \<in> set cs \<and> visible ev r" if "r \<in> set rows" for r
    using that by (auto simp: rows bucket_rows_def)
  then have wf: "candle_wf r" if "r \<in> set rows" for r using assms(2) that by blast
  from db obtain mx mn bv hi lo qv where
    mx: "dmax_list (map (\<lambda>r. dec_of (c_high r)) rows) = Inr mx" "decimal_text (dec_str mx) = Inr hi"
    and mn: "dmin_list (map (\<lambda>r. dec_of (c_low r)) rows) = Inr mn" "decimal_text (dec_str mn) = Inr lo"
    and bv: "sum_decimal (map base_volume rows) = Inr bv"
    and qv: "(if list_ex (\<lambda>r. quote_volume r = None) rows then Inr None
            else rbind (sum_decimal (map (\<lambda>r. the (quote_volume r)) rows)) (\<lambda>q. Inr (Some q))) = Inr qv"
    and mk: "mk_derived_candle
       \<lparr>dc_instrument_id = c_instrument_id (hd rows), dc_interval = tf, dc_open_time_ms = b,
        dc_close_time_ms = b + m * 60000 - 1, dc_open = c_open (hd rows), dc_high = hi,
        dc_low = lo, dc_close = c_close (last rows), dc_base_volume = bv, dc_quote_volume = qv\<rparr> = Inr k"
    unfolding derive_bucket_def rbind_eq_Inr by blast
  note mk' = mk_derived_candle_Inr [OF mk, simplified]
  have ne: "rows \<noteq> []" using mx(1) by auto
  have canon: "decimal_text (c_open r) = Inr (c_open r)" "decimal_text (c_close r) = Inr (c_close r)"
      "decimal_text (c_high r) = Inr (c_high r)" "decimal_text (c_low r) = Inr (c_low r)" if "r \<in> set rows" for r
    using wf [OF that] by (simp_all add: candle_wf_def canonical_decimal_def)
  have ends: "dc_open k = c_open (hd rows)" "dc_close k = c_close (last rows)"
    using mk' canon(1) [OF hd_in_set [OF ne]] canon(2) [OF last_in_set [OF ne]] by simp_all
  have mxs: "mx \<in> (\<lambda>r. dec_of (c_high r)) ` set rows \<and> (\<forall>r\<in>set rows. dval (dec_of (c_high r)) \<le> dval mx)"
    using dmax_list_Inr [OF mx(1)] by simp
  have mns: "mn \<in> (\<lambda>r. dec_of (c_low r)) ` set rows \<and> (\<forall>r\<in>set rows. dval mn \<le> dval (dec_of (c_low r)))"
    using dmin_list_Inr [OF mn(1)] by simp
  obtain r r' where r: "mx = dec_of (c_high r)" "r \<in> set rows" "mn = dec_of (c_low r')" "r' \<in> set rows"
    using mxs mns by auto
  have "dval (dec_of hi) = dval mx"
    using canonical_dec_of [OF canon(3) [OF r(2)]] by (intro decimal_text_dec_str [OF mx(2)]) (simp_all add: r(1))
  moreover have "dval (dec_of lo) = dval mn"
    using canonical_dec_of [OF canon(4) [OF r(4)]] by (intro decimal_text_dec_str [OF mn(2)]) (simp_all add: r(3))
  moreover have "dc_high k = hi" "dc_low k = lo" "dc_base_volume k = bv"
    using mk' decimal_text_canonical [OF mx(2)] decimal_text_canonical [OF mn(2)]
      decimal_text_canonical [OF sum_decimal_text [OF bv]] by simp_all
  moreover have "dval mx = Max ((\<lambda>r. dval (dec_of (c_high r))) ` set rows)"
    using mxs by (intro Max_eqI [symmetric]) auto
  moreover have "dval mn = Min ((\<lambda>r. dval (dec_of (c_low r))) ` set rows)"
    using mns by (intro Min_eqI [symmetric]) auto
  moreover have "dc_quote_volume k = None \<longleftrightarrow> (\<exists>r\<in>set rows. quote_volume r = None)"
    using mk' opt_decimal_text_canonical [of qv "dc_quote_volume k"] qv by (auto simp: list_ex_iff split: if_splits)
  ultimately show ?thesis
    using ne sub ends mk' sum_decimal_text [OF bv] by (simp add: b_def m_def comp_def)
qed

theorem resample_values_witness:
  "\<exists>out. resample_complete sample_minutes ''5m'' (Some 299999) = Inr out
    \<and> (\<forall>k\<in>set out. bucket_rows 300000 (Some 299999) sample_minutes (dc_open_time_ms k) \<noteq> [])"
proof -
  from sample_resampled obtain out where out: "resample_complete sample_minutes ''5m'' (Some 299999) = Inr out"
    by (auto simp: is_ok_iff)
  from resample_values [OF out sample_minutes_wf _ refl] out show ?thesis
    by (auto simp: duration_minutes_def timeframe_minutes_def)
qed

lemma bucket_dict_append_invisible:
  "\<forall>c\<in>set fut. \<not> visible ev c \<Longrightarrow> bucket_dict d ev (cs @ fut) = bucket_dict d ev cs"
  by (induction fut rule: rev_induct) (simp_all add: bucket_dict_def add_to_bucket_def)

lemma adjacent_append1: "adjacent P (xs @ ys) \<Longrightarrow> adjacent P xs"
  by (induction P xs rule: adjacent.induct) simp_all

text \<open>C3: The minutes that close after the evaluation time have no influence on
  the derived candles: dropping them gives the same result.\<close>

theorem resample_no_lookahead:
  assumes "resample_complete (cs @ fut) tf (Some e) = Inr out" "\<forall>c\<in>set fut. e < close_time_ms c"
  shows "resample_complete cs tf (Some e) = Inr out"
proof (cases "cs = []")
  case True
  have invisible: "\<forall>c\<in>set fut. \<not> visible (Some e) c" using assms(2) by (simp add: visible_def)
  have no_rows: "foldl (add_to_bucket d (Some e)) [] fut = []" for d
    using bucket_dict_append_invisible [OF invisible, of d "[]"] by (simp add: bucket_dict_def)
  from True assms(1) show ?thesis
    by (cases "fut = []")
      (auto simp: resample_complete_def derive_complete_def no_rows bucket_dict_def split: if_splits)
next
  case False
  have inv: "\<forall>c\<in>set fut. \<not> visible (Some e) c" using assms(2) by (simp add: visible_def)
  from assms(1) False have tf: "timeframe tf = Inr tf" "tf \<noteq> ''1m''" "0 \<le> e"
    and id: "\<not> list_ex (\<lambda>c. market_identity c \<noteq> market_identity (hd cs)) (cs @ fut)"
    and adj: "adjacent (\<lambda>left right. open_time_ms right = open_time_ms left + 60000) (cs @ fut)"
    by (auto simp: resample_complete_def timeframe_def split: if_splits)
  have full: "resample_complete (cs @ fut) tf (Some e) =
      derive_complete tf (duration_minutes tf) (bucket_dict (duration_minutes tf * 60000) (Some e) (cs @ fut))"
    using tf False id adj by (intro resample_complete_loop) simp_all
  have part: "resample_complete cs tf (Some e) =
      derive_complete tf (duration_minutes tf) (bucket_dict (duration_minutes tf * 60000) (Some e) cs)"
    using tf False id adjacent_append1 [OF adj] by (intro resample_complete_loop) simp_all
  show ?thesis
    using assms(1) unfolding full part by (simp add: bucket_dict_append_invisible [OF inv])
qed

theorem resample_no_lookahead_witness:
  "\<exists>out. resample_complete sample_minutes ''5m'' (Some 299999) = Inr out
    \<and> resample_complete (take 5 sample_minutes) ''5m'' (Some 299999) = Inr out"
proof -
  from sample_resampled obtain out where
    out: "resample_complete (take 5 sample_minutes @ drop 5 sample_minutes) ''5m'' (Some 299999) = Inr out"
    by (auto simp: is_ok_iff)
  have "\<forall>c\<in>set (drop 5 sample_minutes). 299999 < close_time_ms c"
    by (simp add: sample_minutes_def sample_minute_def)
  from resample_no_lookahead [OF out this] out show ?thesis by simp
qed

definition tiny_minutes :: "candle list" where
  "tiny_minutes = map (\<lambda>i. sample_minute i ''0.0000001'' ''0.0000001'' ''0.0000001'' ''0.0000001'') [0, 1, 2, 3, 4]"


end
