(* ===== verification/Graph.thy ===== *)
theory Graph
  imports Resampling
begin

text \<open>
  The configured indicator graph (\<^verbatim>\<open>application/graph.py\<close>): nodes, the run context, the
  deterministic topological order and the checked execution of the plugins. Plugins and their
  factories are parameters: a factory maps parameters to a plugin or raises, a plugin maps the
  context and the dependency observations to an observation or raises. The lemmas show that the
  order exists exactly for acyclic graphs, is a permutation that respects the dependencies, and
  that an executed graph only holds observations that passed every check.
\<close>

section \<open>Nodes and contexts\<close>

record configured_node =
  instance_id :: string
  plugin_id :: string
  nd_role :: string
  depends_on :: "string list"
  parameters :: evidence
  nd_order :: int
  nd_timeframe :: "string option"

definition mk_node ::
    "string \<Rightarrow> string \<Rightarrow> string \<Rightarrow> string list \<Rightarrow> pyobj \<Rightarrow> int \<Rightarrow> string option \<Rightarrow> configured_node result" where
  "mk_node inst plug role deps params ord tf =
     rbind (freeze_evidence params) (\<lambda>p.
     Inr \<lparr>instance_id = inst, plugin_id = plug, nd_role = role, depends_on = deps, parameters = p,
          nd_order = ord, nd_timeframe = tf\<rparr>)"

definition node_canonical_dict :: "configured_node \<Rightarrow> json" where
  "node_canonical_dict n = JObj
     [(''instance_id'', JStr (instance_id n)), (''plugin_id'', JStr (plugin_id n)),
      (''role'', JStr (nd_role n)), (''depends_on'', JArr (map JStr (depends_on n))),
      (''parameters'', canonical_evidence (parameters n)), (''order'', JInt (nd_order n)),
      (''timeframe'', opt_str (nd_timeframe n))]"

definition params_hash :: "evidence \<Rightarrow> string" where
  "params_hash p = hash_with_domain ''indicator-parameters-v1'' (canonical_evidence p)"

definition node_parameter_hash :: "configured_node \<Rightarrow> string" where
  "node_parameter_hash n = params_hash (parameters n)"

record run_context =
  cx_instrument_id :: string
  evaluation_time_ms :: int
  candles_by_role :: "(string, derived_candle list) dict"
  timeframes_by_role :: "(string, string) dict"

definition mk_context :: "run_context \<Rightarrow> run_context result" where
  "mk_context c =
     rbind (instrument_id (cx_instrument_id c)) (\<lambda>iid.
     rbind (rguard (\<not> evaluation_time_ms c < 0) ValueError
              ''evaluation time must be a non-negative integer'') (\<lambda>_.
     rbind (rmapM (\<lambda>(role, tf). rbind (timeframe tf) (\<lambda>t. Inr (role, t))) (timeframes_by_role c)) (\<lambda>tfs.
     Inr \<lparr>cx_instrument_id = iid, evaluation_time_ms = evaluation_time_ms c,
          candles_by_role = candles_by_role c, timeframes_by_role = tfs\<rparr>)))"

record plugin =
  pl_role :: "string option"
  pl_evaluate :: "run_context \<Rightarrow> (string, observation) dict \<Rightarrow> observation result"

type_synonym factories = "(string, evidence \<Rightarrow> plugin result) dict"

section \<open>Topological order\<close>

definition node_key :: "configured_node \<Rightarrow> int \<times> string" where
  "node_key n = (nd_order n, instance_id n)"

text \<open>
  One round of the loop: the nodes whose dependencies are all completed, in order. The list of
  remaining nodes keeps the insertion order of the dictionary.
\<close>

definition ready_nodes :: "configured_node list \<Rightarrow> string list \<Rightarrow> configured_node list" where
  "ready_nodes remaining completed =
     sort_key node_key (filter (\<lambda>n. list_all (\<lambda>d. d \<in> set completed) (depends_on n)) remaining)"

function topo_loop ::
    "configured_node list \<Rightarrow> string list \<Rightarrow> configured_node list \<Rightarrow> configured_node list result" where
  "topo_loop remaining completed ordered =
     (if remaining = [] then Inr ordered
      else let ready = ready_nodes remaining completed in
        if ready = [] then
          raise CyclicDependencyError ''configured indicator graph has cyclic dependencies''
        else topo_loop (filter (\<lambda>n. instance_id n \<notin> set (map instance_id ready)) remaining)
               (completed @ map instance_id ready) (ordered @ ready))"
  by pat_completeness auto

lemma ready_nodes_set:
  "set (ready_nodes remaining completed) = {n \<in> set remaining. set (depends_on n) \<subseteq> set completed}"
  by (auto simp: ready_nodes_def list_all_iff)

termination topo_loop
proof (relation "measure (\<lambda>(remaining, _, _). length remaining)")
  fix remaining completed and ordered r :: "configured_node list"
  assume "r = ready_nodes remaining completed" "r \<noteq> []"
  then have "hd r \<in> set remaining" "instance_id (hd r) \<in> set (map instance_id r)"
    using ready_nodes_set [of remaining completed] hd_in_set [of r] by auto
  then show "((filter (\<lambda>n. instance_id n \<notin> set (map instance_id r)) remaining,
        completed @ map instance_id r, ordered @ r), remaining, completed, ordered)
      \<in> measure (\<lambda>(remaining, _, _). length remaining)"
    by (auto intro!: length_filter_less)
qed simp

declare topo_loop.simps [simp del]

definition topological_order :: "configured_node list \<Rightarrow> factories \<Rightarrow> configured_node list result" where
  "topological_order nodes facs =
     (let ids = map instance_id nodes;
          missing_factories = sorted_set (filter (\<lambda>p. p \<notin> set (dict_keys facs)) (map plugin_id nodes));
          missing_dependencies = sorted_set (filter (\<lambda>d. d \<notin> set ids) (concat (map depends_on nodes)))
      in if length (remdups ids) \<noteq> length nodes then raise ValueError ''duplicate configured instance ID''
         else if missing_factories \<noteq> [] then
           raise UnknownPluginError (''unknown plugin IDs: '' @ py_list missing_factories)
         else if missing_dependencies \<noteq> [] then
           raise MissingDependencyError (''missing dependency IDs: '' @ py_list missing_dependencies)
         else topo_loop nodes [] [])"

record graph =
  g_ordered :: "configured_node list"
  g_factories :: factories

definition mk_graph :: "configured_node list \<Rightarrow> factories \<Rightarrow> graph result" where
  "mk_graph nodes facs =
     rbind (topological_order nodes facs) (\<lambda>ordered. Inr \<lparr>g_ordered = ordered, g_factories = facs\<rparr>)"

definition ordered_instance_ids :: "graph \<Rightarrow> string list" where
  "ordered_instance_ids g = map instance_id (g_ordered g)"

definition graph_hash :: "graph \<Rightarrow> string" where
  "graph_hash g = hash_with_domain ''indicator-graph-v1'' (JArr (map node_canonical_dict (g_ordered g)))"

section \<open>Execution\<close>

definition known_after :: "observation \<Rightarrow> int \<Rightarrow> bool" where
  "known_after ob t \<longleftrightarrow> (case known_time_ms ob of None \<Rightarrow> False | Some k \<Rightarrow> t < k)"

definition execute_node ::
    "factories \<Rightarrow> run_context \<Rightarrow> (string, observation) dict \<Rightarrow> configured_node
      \<Rightarrow> (string, observation) dict result" where
  "execute_node facs cx obs n =
     rbind (rguard (nd_role n \<in> set (dict_keys (candles_by_role cx))) ValueError
              (''missing candle role '' @ py_repr (nd_role n))) (\<lambda>_.
     rbind (dict_index facs (plugin_id n)) (\<lambda>make.
     rbind (make (parameters n)) (\<lambda>plug.
     rbind (rguard (\<not> (case pl_role plug of None \<Rightarrow> False | Some r \<Rightarrow> r \<noteq> nd_role n)) ValueError
              ''plugin role does not match configured node'') (\<lambda>_.
     rbind (rmapM (\<lambda>d. rbind (dict_index obs d) (\<lambda>ob. Inr (d, ob))) (depends_on n)) (\<lambda>deps.
     rbind (pl_evaluate plug cx (dict_of deps)) (\<lambda>ob.
     rbind (rguard (signal_id ob = instance_id n) ValueError
              ''plugin observation signal ID does not match configured instance'') (\<lambda>_.
     rbind (rguard (ob_instrument_id ob = cx_instrument_id cx) ValueError
              ''plugin observation instrument does not match run context'') (\<lambda>_.
     rbind (rguard (case nd_timeframe n of None \<Rightarrow> True | Some tf \<Rightarrow> ob_timeframe ob = tf) ValueError
              ''plugin observation timeframe does not match configured role'') (\<lambda>_.
     rbind (rguard (dependency_ids ob = depends_on n) ValueError
              ''plugin observation dependencies do not match configured node'') (\<lambda>_.
     rbind (rguard (ob_parameter_hash ob = node_parameter_hash n) ValueError
              ''plugin observation parameter hash does not match configured node'') (\<lambda>_.
     rbind (rguard (\<not> known_after ob (evaluation_time_ms cx)) ValueError
              ''plugin observation knowledge time exceeds evaluation time'') (\<lambda>_.
     Inr (dict_set (instance_id n) ob obs)))))))))))))"

definition execute :: "graph \<Rightarrow> run_context \<Rightarrow> (string, observation) dict result" where
  "execute g cx = rfoldM (execute_node (g_factories g) cx) [] (g_ordered g)"

section \<open>The order respects the dependencies\<close>

fun deps_before :: "string set \<Rightarrow> configured_node list \<Rightarrow> bool" where
  "deps_before seen [] \<longleftrightarrow> True"
| "deps_before seen (n # ns) \<longleftrightarrow> set (depends_on n) \<subseteq> seen \<and> deps_before (insert (instance_id n) seen) ns"

lemma deps_before_mono: "deps_before s ns \<Longrightarrow> s \<subseteq> t \<Longrightarrow> deps_before t ns"
  by (induction ns arbitrary: s t) (auto intro: insert_mono, meson insert_mono)

lemma deps_before_append:
  "deps_before s (xs @ ys) \<longleftrightarrow> deps_before s xs \<and> deps_before (s \<union> instance_id ` set xs) ys"
  by (induction xs arbitrary: s) auto

lemma deps_before_all: "\<forall>n\<in>set ns. set (depends_on n) \<subseteq> s \<Longrightarrow> deps_before s ns"
proof (induction ns arbitrary: s)
  case (Cons n ns)
  then have "deps_before s ns" by simp
  with Cons.prems show ?case by (auto intro: deps_before_mono)
qed simp

lemma ready_nodes_deps: "deps_before (set completed) (ready_nodes remaining completed)"
  by (rule deps_before_all) (auto simp: ready_nodes_set)

lemma ready_nodes_mset: "mset (ready_nodes remaining completed) \<subseteq># mset remaining"
  by (simp add: ready_nodes_def multiset_filter_subset)

lemma ready_rest_mset:
  assumes "distinct (map instance_id remaining)" "r = ready_nodes remaining completed"
  shows "mset r + mset (filter (\<lambda>n. instance_id n \<notin> set (map instance_id r)) remaining) = mset remaining"
proof -
  let ?ok = "\<lambda>n. list_all (\<lambda>d. d \<in> set completed) (depends_on n)"
  have "instance_id n \<notin> set (map instance_id r) \<longleftrightarrow> \<not> ?ok n" if "n \<in> set remaining" for n
    using that assms by (auto simp: ready_nodes_def distinct_map inj_on_def)
  then have "filter (\<lambda>n. instance_id n \<notin> set (map instance_id r)) remaining = filter (\<lambda>n. \<not> ?ok n) remaining"
    by (intro filter_cong) simp_all
  moreover have "mset r = mset (filter ?ok remaining)" by (simp add: assms(2) ready_nodes_def)
  ultimately show ?thesis by (simp add: mset_filter)
qed

lemma topo_loop_Inr:
  assumes "topo_loop remaining completed ordered = Inr out" "distinct (map instance_id remaining)"
    and "deps_before {} ordered" "set completed = instance_id ` set ordered"
  shows "mset out = mset ordered + mset remaining \<and> deps_before {} out"
  using assms
proof (induction remaining completed ordered rule: topo_loop.induct)
  case (1 remaining completed ordered)
  show ?case
  proof (cases "remaining = []")
    case True
    with 1 show ?thesis by (simp add: topo_loop.simps)
  next
    case False
    define r where "r = ready_nodes remaining completed"
    define rest where "rest = filter (\<lambda>n. instance_id n \<notin> set (map instance_id r)) remaining"
    have ne: "r \<noteq> []" and out: "topo_loop rest (completed @ map instance_id r) (ordered @ r) = Inr out"
      using "1.prems"(1) False by (auto simp: topo_loop.simps [of remaining] r_def rest_def Let_def split: if_splits)
    have d: "distinct (map instance_id rest)"
      using "1.prems"(2) by (simp add: rest_def distinct_map_filter)
    have db: "deps_before {} (ordered @ r)"
      using "1.prems"(3,4) ready_nodes_deps [of completed remaining] by (simp add: deps_before_append r_def)
    have st: "set (completed @ map instance_id r) = instance_id ` set (ordered @ r)"
      using "1.prems"(4) by auto
    have "mset out = mset (ordered @ r) + mset rest \<and> deps_before {} out"
      using "1.IH" [OF False r_def ne] out d db st unfolding rest_def by blast
    with ready_rest_mset [OF "1.prems"(2) r_def] show ?thesis
      by (simp add: rest_def add.assoc)
  qed
qed

section \<open>Cycles\<close>

definition dep_rel :: "configured_node list \<Rightarrow> (string \<times> string) set" where
  "dep_rel nodes = {(d, instance_id n) | d n. n \<in> set nodes \<and> d \<in> set (depends_on n)}"

lemma dep_relI: "n \<in> set ns \<Longrightarrow> d \<in> set (depends_on n) \<Longrightarrow> i = instance_id n \<Longrightarrow> (d, i) \<in> dep_rel ns"
  by (auto simp: dep_rel_def)

lemma dep_rel_finite: "finite (dep_rel nodes)"
proof -
  have "dep_rel nodes = (\<Union>n\<in>set nodes. (\<lambda>d. (d, instance_id n)) ` set (depends_on n))"
    by (auto simp: dep_rel_def)
  then show ?thesis by simp
qed

fun id_rank :: "configured_node list \<Rightarrow> string \<Rightarrow> nat" where
  "id_rank [] i = 0"
| "id_rank (n # ns) i = (if instance_id n = i then 0 else Suc (id_rank ns i))"

lemma deps_before_rank:
  assumes "deps_before s ns" "distinct (map instance_id ns)" "n \<in> set ns" "d \<in> set (depends_on n)"
    and "s \<inter> set (map instance_id ns) = {}" "d \<notin> s"
  shows "id_rank ns d < id_rank ns (instance_id n)"
  using assms
proof (induction ns arbitrary: s)
  case Nil
  then show ?case by simp
next
  case (Cons m ns)
  show ?case
  proof (cases "n = m")
    case True
    with Cons.prems show ?thesis by auto
  next
    case False
    then have n: "n \<in> set ns" using Cons.prems by simp
    then have "instance_id m \<noteq> instance_id n" using Cons.prems(2) by (metis distinct.simps(2) image_eqI list.set_map list.simps(9))
    moreover have "id_rank ns d < id_rank ns (instance_id n)" if "d \<noteq> instance_id m"
      using Cons.prems n that by (intro Cons.IH [of "insert (instance_id m) s"]) auto
    ultimately show ?thesis by auto
  qed
qed

lemma ordered_acyclic:
  assumes "deps_before {} ns" "distinct (map instance_id ns)"
  shows "acyclic (dep_rel ns)"
proof -
  have "dep_rel ns \<subseteq> measure (id_rank ns)"
    using deps_before_rank [OF assms(1,2)] by (auto simp: dep_rel_def)
  then have "wf (dep_rel ns)" using wf_measure wf_subset by blast
  then show ?thesis by (rule wf_acyclic)
qed

lemma topo_loop_total:
  assumes "acyclic (dep_rel nodes)" "set remaining \<subseteq> set nodes"
    and "\<forall>n\<in>set nodes. set (depends_on n) \<subseteq> set completed \<union> instance_id ` set remaining"
  shows "\<exists>out. topo_loop remaining completed ordered = Inr out"
  using assms(2,3)
proof (induction remaining completed ordered rule: topo_loop.induct)
  case (1 remaining completed ordered)
  show ?case
  proof (cases "remaining = []")
    case True
    then show ?thesis by (simp add: topo_loop.simps)
  next
    case False
    define r where "r = ready_nodes remaining completed"
    have "wf (dep_rel nodes)" using assms(1) dep_rel_finite by (intro finite_acyclic_wf)
    moreover have "instance_id (hd remaining) \<in> instance_id ` set remaining" using False by simp
    ultimately obtain i where i: "i \<in> instance_id ` set remaining"
      and min: "\<And>d. (d, i) \<in> dep_rel nodes \<Longrightarrow> d \<notin> instance_id ` set remaining"
      by (rule wfE_min) blast
    from i obtain n where n: "n \<in> set remaining" "instance_id n = i" by auto
    have "set (depends_on n) \<subseteq> set completed"
    proof
      fix d assume d: "d \<in> set (depends_on n)"
      have "(d, i) \<in> dep_rel nodes" using n d "1.prems"(1) by (auto simp: dep_rel_def)
      with min have "d \<notin> instance_id ` set remaining" .
      with n d "1.prems" show "d \<in> set completed" by blast
    qed
    with n have ne: "r \<noteq> []" using ready_nodes_set [of remaining completed] by (auto simp: r_def)
    have "\<exists>out. topo_loop (filter (\<lambda>n. instance_id n \<notin> set (map instance_id r)) remaining)
        (completed @ map instance_id r) (ordered @ r) = Inr out"
      using "1.prems" by (intro "1.IH" [OF False r_def ne]) auto
    with ne False show ?thesis by (simp add: topo_loop.simps [of remaining] r_def [symmetric])
  qed
qed

lemma topo_loop_error:
  "topo_loop remaining completed ordered = Inl e \<Longrightarrow>
    e = Exn CyclicDependencyError ''configured indicator graph has cyclic dependencies''"
proof (induction remaining completed ordered rule: topo_loop.induct)
  case (1 remaining completed ordered)
  from "1.prems" have "remaining \<noteq> []" by (auto simp: topo_loop.simps [of remaining])
  with 1 show ?case
    by (cases "ready_nodes remaining completed = []") (auto simp: topo_loop.simps [of remaining] Let_def)
qed

lemma topological_order_Inr:
  assumes "topological_order nodes facs = Inr out"
  shows "distinct (map instance_id nodes) \<and> plugin_id ` set nodes \<subseteq> set (dict_keys facs)
    \<and> (\<forall>n\<in>set nodes. set (depends_on n) \<subseteq> instance_id ` set nodes) \<and> topo_loop nodes [] [] = Inr out"
proof -
  have "length (remdups (map instance_id nodes)) = length (map instance_id nodes)"
    using assms by (simp add: topological_order_def Let_def del: set_map split: if_splits)
  then have d: "distinct (map instance_id nodes)" by (metis distinct_remdups length_remdups_eq)
  moreover have "filter (\<lambda>p. p \<notin> set (dict_keys facs)) (map plugin_id nodes) = []"
    and "filter (\<lambda>d. d \<notin> set (map instance_id nodes)) (concat (map depends_on nodes)) = []"
    and "topo_loop nodes [] [] = Inr out"
    using assms by (simp_all add: topological_order_def Let_def del: set_map split: if_splits)
  ultimately show ?thesis by (auto simp: filter_empty_conv)
qed

section \<open>Properties of the order\<close>

text \<open>The order of a constructed graph lists every configured
  node exactly once, and every node after all the nodes it depends on.\<close>

theorem graph_order_respects_dependencies:
  assumes "mk_graph nodes facs = Inr g"
  shows "mset (g_ordered g) = mset nodes \<and>
    (\<forall>i < length (g_ordered g). \<forall>d \<in> set (depends_on (g_ordered g ! i)).
       \<exists>j < i. instance_id (g_ordered g ! j) = d)"
proof -
  from assms have t: "topological_order nodes facs = Inr (g_ordered g)" by (auto simp: mk_graph_def)
  note inr = topological_order_Inr [OF t]
  from topo_loop_Inr [of nodes "[]" "[]"] inr
  have m: "mset (g_ordered g) = mset nodes" and db: "deps_before {} (g_ordered g)" by auto
  have "\<exists>j < i. instance_id (g_ordered g ! j) = d"
    if i: "i < length (g_ordered g)" and d: "d \<in> set (depends_on (g_ordered g ! i))" for i d
  proof -
    have "deps_before {} (take i (g_ordered g) @ g_ordered g ! i # drop (Suc i) (g_ordered g))"
      using db i by (simp add: id_take_nth_drop [symmetric])
    then have "set (depends_on (g_ordered g ! i)) \<subseteq> instance_id ` set (take i (g_ordered g))"
      by (simp add: deps_before_append)
    with d have "d \<in> instance_id ` set (take i (g_ordered g))" by blast
    with i show ?thesis by (auto simp: in_set_conv_nth) blast
  qed
  with m show ?thesis by blast
qed

text \<open>C1: A graph with known plugins, known dependencies and distinct
  instances can be constructed exactly when its dependency relation has no cycle; the loop
  terminates in either case.\<close>

theorem graph_exists_iff_acyclic:
  assumes "distinct (map instance_id nodes)" "plugin_id ` set nodes \<subseteq> set (dict_keys facs)"
    and "\<forall>n\<in>set nodes. set (depends_on n) \<subseteq> instance_id ` set nodes"
  shows "if acyclic (dep_rel nodes) then \<exists>g. mk_graph nodes facs = Inr g
    else mk_graph nodes facs = raise CyclicDependencyError ''configured indicator graph has cyclic dependencies''"
proof -
  have nofac: "sorted_set (filter (\<lambda>p. p \<notin> set (dict_keys facs)) (map plugin_id nodes)) = []"
  proof -
    have "set (sorted_set (filter (\<lambda>p. p \<notin> set (dict_keys facs)) (map plugin_id nodes))) = {}"
      using assms(2) by auto
    then show ?thesis by (simp only: set_empty)
  qed
  have nodep: "sorted_set (filter (\<lambda>d. d \<notin> set (map instance_id nodes)) (concat (map depends_on nodes))) = []"
  proof -
    have "set (sorted_set (filter (\<lambda>d. d \<notin> set (map instance_id nodes)) (concat (map depends_on nodes)))) = {}"
      using assms(3) by auto
    then show ?thesis by (simp only: set_empty)
  qed
  have len: "length (remdups (map instance_id nodes)) = length nodes"
    using assms(1) by (simp add: distinct_remdups_id)
  have t: "topological_order nodes facs = topo_loop nodes [] []"
    by (simp only: topological_order_def Let_def len nofac nodep) simp
  show ?thesis
  proof (cases "topo_loop nodes [] []")
    case (Inl e)
    have "\<not> acyclic (dep_rel nodes)"
      using topo_loop_total [of nodes nodes "[]" "[]"] assms(3) Inl by auto
    with Inl topo_loop_error [OF Inl] show ?thesis by (simp add: mk_graph_def t)
  next
    case (Inr out)
    note spec = topo_loop_Inr [OF Inr assms(1)]
    have m: "mset out = mset nodes" and db: "deps_before {} out" using spec by auto
    have "distinct (map instance_id out)"
      using assms(1) m by (metis mset_eq_imp_distinct_iff mset_map)
    with db have "acyclic (dep_rel out)" by (rule ordered_acyclic)
    moreover have "dep_rel out = dep_rel nodes"
      using mset_eq_setD [OF m] by (simp add: dep_rel_def)
    ultimately show ?thesis using Inr by (simp add: mk_graph_def t)
  qed
qed

text \<open>Distinct instances make the sort key injective, so a round depends on the set of nodes only.\<close>

lemma ready_nodes_perm:
  assumes "mset xs = mset ys" "distinct (map instance_id xs)"
  shows "ready_nodes xs completed = ready_nodes ys completed"
proof -
  let ?f = "filter (\<lambda>n. list_all (\<lambda>d. d \<in> set completed) (depends_on n))"
  have sx: "set xs = set ys" using assms(1) by (rule mset_eq_setD)
  have "distinct (map instance_id ys)" using assms by (metis mset_eq_imp_distinct_iff mset_map)
  then have dis: "distinct (map node_key zs)" if "zs \<in> {xs, ys}" for zs
    using that assms(2) by (auto simp: distinct_map inj_on_def node_key_def)
  have sd: "sorted (map node_key (sort_key node_key (?f zs))) \<and> distinct (map node_key (sort_key node_key (?f zs)))"
    if "zs \<in> {xs, ys}" for zs
    using dis [OF that] by (auto simp: distinct_map inj_on_def)
  have inj: "inj_on node_key (set (sort_key node_key (?f xs)) \<union> set (sort_key node_key (?f ys)))"
    using dis [of xs] sx by (auto simp: distinct_map inj_on_def)
  have st: "set (sort_key node_key (?f xs)) = set (sort_key node_key (?f ys))" using sx by simp
  show ?thesis unfolding ready_nodes_def
    by (rule map_sorted_distinct_set_unique [OF inj _ _ _ _ st]) (use sd [of xs] sd [of ys] in simp_all)
qed

lemma topo_loop_perm:
  "mset xs = mset ys \<Longrightarrow> distinct (map instance_id xs) \<Longrightarrow>
    topo_loop xs completed ordered = topo_loop ys completed ordered"
proof (induction xs completed ordered arbitrary: ys rule: topo_loop.induct)
  case (1 xs completed ordered)
  show ?case
  proof (cases "xs = [] \<or> ready_nodes xs completed = []")
    case True
    with 1 ready_nodes_perm [OF "1.prems"] show ?thesis by (auto simp: topo_loop.simps)
  next
    case False
    define r where "r = ready_nodes xs completed"
    let ?rest = "filter (\<lambda>n. instance_id n \<notin> set (map instance_id r))"
    have "topo_loop (?rest xs) (completed @ map instance_id r) (ordered @ r)
        = topo_loop (?rest ys) (completed @ map instance_id r) (ordered @ r)"
      using False "1.prems" by (intro "1.IH") (auto simp: r_def distinct_map_filter mset_filter)
    with False "1.prems" ready_nodes_perm [OF "1.prems"] show ?thesis
      by (auto simp: topo_loop.simps [of xs] topo_loop.simps [of ys] r_def Let_def)
  qed
qed

text \<open>C2: The order of a graph, and with it its hash, does not depend on the
  order in which the nodes are configured.\<close>

theorem graph_order_deterministic:
  assumes "mset nodes = mset nodes'" "mk_graph nodes facs = Inr g"
  shows "mk_graph nodes' facs = Inr g"
proof -
  from assms(2) have t: "topological_order nodes facs = Inr (g_ordered g)" and g: "g_factories g = facs"
    by (auto simp: mk_graph_def)
  note inr = topological_order_Inr [OF t]
  have sets: "set nodes = set nodes'" using assms(1) by (rule mset_eq_setD)
  have "topo_loop nodes' [] [] = Inr (g_ordered g)"
    using topo_loop_perm [OF assms(1)] inr by simp
  moreover have "topological_order nodes' facs = topo_loop nodes' [] []"
  proof -
    have "distinct (map instance_id nodes')" using inr assms(1) by (metis mset_eq_imp_distinct_iff mset_map)
    then have len: "length (remdups (map instance_id nodes')) = length nodes'" by (simp add: distinct_remdups_id)
    have "set (sorted_set (filter (\<lambda>p. p \<notin> set (dict_keys facs)) (map plugin_id nodes'))) = {}"
      "set (sorted_set (filter (\<lambda>d. d \<notin> set (map instance_id nodes')) (concat (map depends_on nodes')))) = {}"
      using inr sets by auto
    then show ?thesis unfolding set_empty by (simp only: topological_order_def Let_def len) simp
  qed
  ultimately show ?thesis using g by (simp add: mk_graph_def)
qed

section \<open>Properties of the execution\<close>

text \<open>What the checks of one step demand of an observation.\<close>

definition valid_output :: "run_context \<Rightarrow> configured_node \<Rightarrow> observation \<Rightarrow> bool" where
  "valid_output cx n ob \<longleftrightarrow> signal_id ob = instance_id n \<and> ob_instrument_id ob = cx_instrument_id cx
     \<and> (\<forall>tf \<in> set_option (nd_timeframe n). ob_timeframe ob = tf) \<and> dependency_ids ob = depends_on n
     \<and> ob_parameter_hash ob = node_parameter_hash n
     \<and> (\<forall>k \<in> set_option (known_time_ms ob). k \<le> evaluation_time_ms cx)"

lemma known_after_iff: "\<not> known_after ob t \<longleftrightarrow> (\<forall>k \<in> set_option (known_time_ms ob). k \<le> t)"
  by (auto simp: known_after_def split: option.splits)

lemma option_all_iff: "(case x of None \<Rightarrow> True | Some t \<Rightarrow> P t) \<longleftrightarrow> (\<forall>t \<in> set_option x. P t)"
  by (cases x) auto

lemma execute_node_Inr:
  assumes "execute_node facs cx obs n = Inr obs'"
  shows "\<exists>ob. obs' = dict_set (instance_id n) ob obs \<and> valid_output cx n ob"
  using assms
  unfolding execute_node_def rbind_eq_Inr rguard_eq_Inr known_after_iff option_all_iff valid_output_def
  by blast

lemma execute_fold_Inr:
  assumes "rfoldM (execute_node facs cx) obs ns = Inr out" "distinct (map instance_id ns)"
    and "set (dict_keys obs) \<inter> instance_id ` set ns = {}"
  shows "dict_keys out = dict_keys obs @ map instance_id ns
    \<and> (\<forall>i \<in> set (dict_keys obs). dict_get out i = dict_get obs i)
    \<and> (\<forall>n\<in>set ns. \<exists>ob. dict_get out (instance_id n) = Some ob \<and> valid_output cx n ob)"
  using assms
proof (induction ns arbitrary: obs)
  case Nil
  then show ?case by simp
next
  case (Cons n ns)
  from Cons.prems(1) obtain obs' where step: "execute_node facs cx obs n = Inr obs'"
    and rest: "rfoldM (execute_node facs cx) obs' ns = Inr out" by auto
  from execute_node_Inr [OF step] obtain ob where obs': "obs' = obs @ [(instance_id n, ob)]"
    and ok: "valid_output cx n ob"
    using Cons.prems(3) by (auto simp: dict_set_fresh)
  have fresh: "dict_get obs (instance_id n) = None"
    using Cons.prems(3) by (auto simp: map_of_eq_None_iff)
  have ih: "dict_keys out = dict_keys obs' @ map instance_id ns
    \<and> (\<forall>i \<in> set (dict_keys obs'). dict_get out i = dict_get obs' i)
    \<and> (\<forall>n\<in>set ns. \<exists>ob. dict_get out (instance_id n) = Some ob \<and> valid_output cx n ob)"
    using Cons.prems(2,3) by (intro Cons.IH [OF rest]) (auto simp: obs')
  have "dict_get out (instance_id n) = Some ob" using ih fresh by (auto simp: obs' map_add_def)
  moreover have "\<forall>i \<in> set (dict_keys obs). dict_get out i = dict_get obs i"
    using ih by (auto simp: obs' map_add_def split: option.splits) (metis map_of_SomeD fst_conv imageI map_of_eq_None_iff option.distinct(1))
  ultimately show ?case using ih ok by (simp add: obs')
qed

lemma mk_graph_distinct:
  assumes "mk_graph nodes facs = Inr g"
  shows "distinct (ordered_instance_ids g) \<and> set (g_ordered g) = set nodes \<and> g_factories g = facs"
proof -
  from assms have t: "topological_order nodes facs = Inr (g_ordered g)" "g_factories g = facs"
    by (auto simp: mk_graph_def)
  note inr = topological_order_Inr [OF t(1)]
  from topo_loop_Inr [of nodes "[]" "[]"] inr have m: "mset (g_ordered g) = mset nodes" by auto
  then show ?thesis
    using inr t(2) mset_eq_setD [OF m] unfolding ordered_instance_ids_def
    by (metis mset_eq_imp_distinct_iff mset_map)
qed

text \<open>C12: An execution that returns holds one observation per node, in the order
  of the graph, and each of them belongs to its node and instrument, names the configured
  dependencies and parameter hash, and is known no later than the evaluation time.\<close>

theorem graph_execution_sound:
  assumes "mk_graph nodes facs = Inr g" "execute g cx = Inr obs"
  shows "dict_keys obs = ordered_instance_ids g \<and>
    (\<forall>n\<in>set nodes. \<exists>ob. dict_get obs (instance_id n) = Some ob \<and> valid_output cx n ob)"
proof -
  note g = mk_graph_distinct [OF assms(1)]
  then have d: "distinct (map instance_id (g_ordered g))" by (simp only: ordered_instance_ids_def)
  have "set (dict_keys []) \<inter> instance_id ` set (g_ordered g) = {}" by simp
  note inr = execute_fold_Inr [OF assms(2) [unfolded execute_def] d this]
  with g show ?thesis unfolding ordered_instance_ids_def by (metis append_Nil list.simps(8))
qed

text \<open>
  A plugin does what its node asks: the factory accepts the parameters, and for any observations of
  the configured dependencies the plugin returns an output that passes the checks.
\<close>

definition conforming :: "factories \<Rightarrow> run_context \<Rightarrow> configured_node \<Rightarrow> bool" where
  "conforming facs cx n \<longleftrightarrow> nd_role n \<in> set (dict_keys (candles_by_role cx)) \<and>
     (\<exists>make plug. dict_get facs (plugin_id n) = Some make \<and> make (parameters n) = Inr plug
       \<and> pl_role plug \<in> {None, Some (nd_role n)}
       \<and> (\<forall>deps. set (dict_keys deps) = set (depends_on n) \<longrightarrow>
            (\<exists>ob. pl_evaluate plug cx deps = Inr ob \<and> valid_output cx n ob)))"

lemma dict_of_keys: "set (dict_keys (dict_of kvs)) = set (map fst kvs)"
proof (induction kvs rule: rev_induct)
  case Nil
  show ?case by (simp add: dict_of_def)
next
  case (snoc kv kvs)
  then show ?case by (cases kv) (simp add: dict_of_snoc)
qed

lemma execute_node_total:
  assumes "conforming facs cx n" "set (depends_on n) \<subseteq> set (dict_keys obs)"
  shows "\<exists>ob. execute_node facs cx obs n = Inr (dict_set (instance_id n) ob obs)"
proof -
  from assms(1) obtain make plug where role: "nd_role n \<in> set (dict_keys (candles_by_role cx))"
    and make: "dict_get facs (plugin_id n) = Some make" "make (parameters n) = Inr plug"
    and pr: "pl_role plug \<in> {None, Some (nd_role n)}"
    and ev: "\<And>deps. set (dict_keys deps) = set (depends_on n) \<Longrightarrow>
            \<exists>ob. pl_evaluate plug cx deps = Inr ob \<and> valid_output cx n ob"
    by (auto simp: conforming_def)
  have get: "\<exists>ob. dict_get obs d = Some ob" if "d \<in> set (depends_on n)" for d
    using that assms(2) by (metis map_of_eq_None_iff not_None_eq set_map subsetD)
  define deps where "deps = map (\<lambda>d. (d, the (dict_get obs d))) (depends_on n)"
  have "rmapM (\<lambda>d. rbind (dict_index obs d) (\<lambda>ob. Inr (d, ob))) (depends_on n) = Inr deps"
    unfolding deps_def by (intro rmapM_Inr_map) (auto simp: dict_index_def dest!: get)
  moreover have "set (dict_keys (dict_of deps)) = set (depends_on n)"
    by (simp add: dict_of_keys deps_def image_image del: set_map) (simp add: image_image)
  ultimately show ?thesis
    using ev [of "dict_of deps"] role make pr
    by (auto simp: execute_node_def dict_index_def valid_output_def known_after_iff option_all_iff)
qed

text \<open>When every plugin conforms to its node, an execution of the graph
  returns: no dependency lookup fails and no check rejects.\<close>

theorem graph_execution_total:
  assumes "mk_graph nodes facs = Inr g" "\<forall>n\<in>set nodes. conforming facs cx n"
  shows "\<exists>obs. execute g cx = Inr obs"
proof -
  note g = mk_graph_distinct [OF assms(1)]
  have db: "deps_before {} (g_ordered g)"
    using assms(1) topo_loop_Inr [of nodes "[]" "[]"] topological_order_Inr by (auto simp: mk_graph_def)
  have "\<exists>out. rfoldM (execute_node facs cx) obs ns = Inr out"
    if "deps_before (set (dict_keys obs)) ns" "set ns \<subseteq> set nodes" for obs ns
    using that
  proof (induction ns arbitrary: obs)
    case Nil
    then show ?case by simp
  next
    case (Cons n ns)
    from execute_node_total [of facs cx n obs] Cons.prems assms(2) obtain ob
      where "execute_node facs cx obs n = Inr (dict_set (instance_id n) ob obs)" by auto
    with Cons.IH [of "dict_set (instance_id n) ob obs"] Cons.prems show ?case by simp
  qed
  from this [of "[]" "g_ordered g"] db g show ?thesis by (simp add: execute_def)
qed

section \<open>A two-node example\<close>

definition sample_node :: "string \<Rightarrow> string list \<Rightarrow> configured_node" where
  "sample_node i deps = \<lparr>instance_id = i, plugin_id = i, nd_role = ''execution'', depends_on = deps,
     parameters = EMap [], nd_order = 0, nd_timeframe = None\<rparr>"

definition sample_observation :: "string \<Rightarrow> string list \<Rightarrow> observation" where
  "sample_observation i deps = \<lparr>signal_id = i, ob_instrument_id = ''CRYPTO-BTC-USDT-PERP'',
     ob_timeframe = ''5m'', ob_status = ''PASS'', ob_event_type = None, ob_direction = None,
     event_time_ms = Some 0, known_time_ms = Some 299999, ob_state = ''ACTIVE'', dependency_ids = deps,
     ob_parameter_hash = params_hash (EMap []), source_manifest_ids = [], payload_schema_version = 1,
     bounded_reason = ''seen'', ob_payload = EMap [], level_text = None, lower_text = None,
     upper_text = None\<rparr>"

definition sample_factories :: factories where
  "sample_factories = map (\<lambda>(i, deps). (i, \<lambda>p. Inr \<lparr>pl_role = None,
     pl_evaluate = (\<lambda>cx ds. Inr (sample_observation i deps))\<rparr>)) [(''a'', []), (''b'', [''a''])]"

definition sample_nodes :: "configured_node list" where
  "sample_nodes = [sample_node ''b'' [''a''], sample_node ''a'' []]"

definition sample_context :: run_context where
  "sample_context = \<lparr>cx_instrument_id = ''CRYPTO-BTC-USDT-PERP'', evaluation_time_ms = 299999,
     candles_by_role = [(''execution'', [])], timeframes_by_role = [(''execution'', ''5m'')]\<rparr>"

definition sample_graph :: graph where
  "sample_graph = \<lparr>g_ordered = [sample_node ''a'' [], sample_node ''b'' [''a'']], g_factories = sample_factories\<rparr>"

lemma sample_graph_built: "mk_graph sample_nodes sample_factories = Inr sample_graph"
proof -
  have "topological_order sample_nodes sample_factories = Inr [sample_node ''a'' [], sample_node ''b'' [''a'']]"
    by code_simp
  then show ?thesis by (simp add: mk_graph_def sample_graph_def)
qed

lemma sample_conforming: "\<forall>n\<in>set sample_nodes. conforming sample_factories sample_context n"
  by (simp add: sample_nodes_def sample_node_def conforming_def sample_factories_def sample_context_def
      valid_output_def sample_observation_def node_parameter_hash_def)

theorem graph_order_respects_dependencies_witness:
  "\<exists>j < 1. instance_id (g_ordered sample_graph ! j) = ''a''"
  using graph_order_respects_dependencies [OF sample_graph_built]
  by (simp add: sample_graph_def sample_node_def)

theorem graph_exists_iff_acyclic_witness:
  "\<not> acyclic (dep_rel [sample_node ''a'' [''b''], sample_node ''b'' [''a'']])
    \<and> mk_graph [sample_node ''a'' [''b''], sample_node ''b'' [''a'']] sample_factories
      = raise CyclicDependencyError ''configured indicator graph has cyclic dependencies''"
proof -
  let ?ns = "[sample_node ''a'' [''b''], sample_node ''b'' [''a'']]"
  have "(''a'', ''b'') \<in> dep_rel ?ns"
    by (rule dep_relI [of "sample_node ''b'' [''a'']"]) (simp_all add: sample_node_def)
  moreover have "(''b'', ''a'') \<in> dep_rel ?ns"
    by (rule dep_relI [of "sample_node ''a'' [''b'']"]) (simp_all add: sample_node_def)
  ultimately have "(''a'', ''a'') \<in> (dep_rel ?ns)\<^sup>+" by (meson trancl.r_into_trancl trancl_into_trancl)
  then have c: "\<not> acyclic (dep_rel ?ns)" unfolding acyclic_def by blast
  have "distinct (map instance_id ?ns)" "plugin_id ` set ?ns \<subseteq> set (dict_keys sample_factories)"
    "\<forall>n\<in>set ?ns. set (depends_on n) \<subseteq> instance_id ` set ?ns"
    by (simp_all add: sample_node_def sample_factories_def)
  from graph_exists_iff_acyclic [OF this] c show ?thesis by simp
qed

theorem graph_order_deterministic_witness:
  "mk_graph [sample_node ''a'' [], sample_node ''b'' [''a'']] sample_factories = Inr sample_graph"
  by (rule graph_order_deterministic [OF _ sample_graph_built]) (simp add: sample_nodes_def)

lemma sample_executed: "execute sample_graph sample_context
    = Inr [(''a'', sample_observation ''a'' []), (''b'', sample_observation ''b'' [''a''])]"
  by (simp add: execute_def sample_graph_def execute_node_def sample_node_def sample_context_def
      sample_factories_def dict_index_def dict_of_def sample_observation_def node_parameter_hash_def
      known_after_def)

theorem graph_execution_sound_witness:
  "\<exists>ob. dict_get [(''a'', sample_observation ''a'' []), (''b'', sample_observation ''b'' [''a''])] ''b'' = Some ob
    \<and> valid_output sample_context (sample_node ''b'' [''a'']) ob"
  using graph_execution_sound [OF sample_graph_built sample_executed]
  by (simp add: sample_nodes_def sample_node_def)

theorem graph_execution_total_witness:
  "\<exists>obs. execute sample_graph sample_context = Inr obs"
  by (rule graph_execution_total [OF sample_graph_built sample_conforming])

end
