(* ===== verification/Policy.thy ===== *)
theory Policy
  imports Graph
begin

text \<open>
  The ordered decision plugin (\<^verbatim>\<open>application/decision_policy.py\<close>): configured signals are visited in
  order, the first required signal that is missing, unavailable, failed or without usable levels
  ends the walk, and the levels of the last levels signal make the decision ready.
\<close>

record decision_signal =
  ds_signal_id :: string
  ds_required :: bool
  ds_effect :: string
  ds_order :: int

definition mk_decision_signal :: "decision_signal \<Rightarrow> decision_signal result" where
  "mk_decision_signal s = rbind (rguard (ds_effect s \<in> {''REJECT'', ''LEVELS''}) ValueError
     ''decision effect must be REJECT or LEVELS'') (\<lambda>_. Inr s)"

definition policy_order :: "decision_signal list \<Rightarrow> decision_signal list" where
  "policy_order signals = sort_key (\<lambda>s. (ds_order s, ds_signal_id s)) signals"

text \<open>\<^verbatim>\<open>payload.get(field)\<close>; a payload that is not a mapping has no such attribute.\<close>

definition payload_get :: "evidence \<Rightarrow> string \<Rightarrow> evidence result" where
  "payload_get p k = (case p of
     EMap kvs \<Rightarrow> Inr (case dict_get kvs k of None \<Rightarrow> ENone | Some v \<Rightarrow> v)
   | _ \<Rightarrow> raise AttributeError ''get'')"

fun evidence_str :: "evidence \<Rightarrow> string option" where
  "evidence_str (EStr s) = Some s"
| "evidence_str _ = None"

type_synonym levels = "string \<times> string \<times> string \<times> string"

definition payload_levels :: "evidence \<Rightarrow> levels option result" where
  "payload_levels p =
     rbind (rmapM (payload_get p) [''direction'', ''entry_text'', ''stop_text'', ''target_text'']) (\<lambda>vs.
     Inr (case map evidence_str vs of [Some d, Some e, Some s, Some t] \<Rightarrow> Some (d, e, s, t) | _ \<Rightarrow> None))"

definition non_ready :: "run_context \<Rightarrow> string \<Rightarrow> string \<Rightarrow> (string, string) dict \<Rightarrow> raw_decision" where
  "non_ready cx status sid hashes =
     \<lparr>de_instrument_id = cx_instrument_id cx, de_status = status, de_direction = None, entry_text = None,
      stop_text = None, target_text = None, first_failed_signal = Some sid,
      de_payload = PDict [(PStr ''observation_hashes'', PDict (map (\<lambda>(k, v). (PStr k, PStr v)) hashes))]\<rparr>"

definition ready_decision :: "run_context \<Rightarrow> levels \<Rightarrow> (string, string) dict \<Rightarrow> raw_decision" where
  "ready_decision cx lv hashes = (case lv of (d, e, s, t) \<Rightarrow>
     \<lparr>de_instrument_id = cx_instrument_id cx, de_status = ''READY'', de_direction = Some d,
      entry_text = Some e, stop_text = Some s, target_text = Some t, first_failed_signal = None,
      de_payload = PDict [(PStr ''observation_hashes'', PDict (map (\<lambda>(k, v). (PStr k, PStr v)) hashes))]\<rparr>)"

fun decide_loop ::
    "run_context \<Rightarrow> (string, observation) dict \<Rightarrow> decision_signal list \<Rightarrow> (string, string) dict
      \<Rightarrow> levels option \<Rightarrow> decision result" where
  "decide_loop cx obs [] hashes lv =
     (case lv of
        Some l \<Rightarrow> mk_decision (ready_decision cx l hashes)
      | None \<Rightarrow> mk_decision (non_ready cx ''UNAVAILABLE'' ''decision.levels'' hashes))"
| "decide_loop cx obs (s # ss) hashes lv =
     (let ob = dict_get obs (ds_signal_id s);
          hashes' = (case ob of None \<Rightarrow> hashes | Some x \<Rightarrow> dict_set (ds_signal_id s) (hash_observation x) hashes)
      in if \<not> ds_required s then decide_loop cx obs ss hashes' lv
         else case ob of
           None \<Rightarrow> mk_decision (non_ready cx ''UNAVAILABLE'' (ds_signal_id s) hashes')
         | Some x \<Rightarrow>
             if ob_status x = ''UNAVAILABLE'' then
               mk_decision (non_ready cx ''UNAVAILABLE'' (ds_signal_id s) hashes')
             else if ob_status x = ''FAIL'' then
               mk_decision (non_ready cx ''NO_TRADE'' (ds_signal_id s) hashes')
             else if ds_effect s = ''LEVELS'' then
               rbind (payload_levels (ob_payload x)) (\<lambda>l.
               case l of None \<Rightarrow> mk_decision (non_ready cx ''UNAVAILABLE'' (ds_signal_id s) hashes')
                       | Some v \<Rightarrow> decide_loop cx obs ss hashes' (Some v))
             else decide_loop cx obs ss hashes' lv)"

definition decide :: "decision_signal list \<Rightarrow> run_context \<Rightarrow> (string, observation) dict \<Rightarrow> decision result" where
  "decide signals cx obs = decide_loop cx obs (policy_order signals) [] None"

section \<open>First failure\<close>

text \<open>How a required signal can stop the walk.\<close>

definition signal_blocks :: "(string, observation) dict \<Rightarrow> decision_signal \<Rightarrow> string option" where
  "signal_blocks obs s =
     (if \<not> ds_required s then None
      else case dict_get obs (ds_signal_id s) of
        None \<Rightarrow> Some ''UNAVAILABLE''
      | Some x \<Rightarrow> if ob_status x = ''UNAVAILABLE'' then Some ''UNAVAILABLE''
                else if ob_status x = ''FAIL'' then Some ''NO_TRADE''
                else if ds_effect s = ''LEVELS'' \<and> payload_levels (ob_payload x) = Inr None
                     then Some ''UNAVAILABLE'' else None)"

definition first_block :: "(string, observation) dict \<Rightarrow> decision_signal list \<Rightarrow> (decision_signal \<times> string) option" where
  "first_block obs ss = (case filter (\<lambda>s. signal_blocks obs s \<noteq> None) ss of
     [] \<Rightarrow> None | s # _ \<Rightarrow> Some (s, the (signal_blocks obs s)))"

text \<open>The levels that the required levels signals leave behind.\<close>

definition walk_levels :: "(string, observation) dict \<Rightarrow> decision_signal list \<Rightarrow> levels option \<Rightarrow> levels option" where
  "walk_levels obs ss lv = foldl (\<lambda>acc s.
     if ds_required s \<and> ds_effect s = ''LEVELS'' then
       (case dict_get obs (ds_signal_id s) of
          Some x \<Rightarrow> (case payload_levels (ob_payload x) of Inr (Some v) \<Rightarrow> Some v | _ \<Rightarrow> acc)
        | None \<Rightarrow> acc)
     else acc) lv ss"

text \<open>The signals the walk visits, and the hash of every observation among them, in visiting order.\<close>

definition visited :: "(string, observation) dict \<Rightarrow> decision_signal list \<Rightarrow> decision_signal list" where
  "visited obs ss = (let ok = (\<lambda>s. signal_blocks obs s = None) in takeWhile ok ss @ take 1 (dropWhile ok ss))"

definition visit_hashes ::
    "(string, observation) dict \<Rightarrow> decision_signal list \<Rightarrow> (string, string) dict \<Rightarrow> (string, string) dict" where
  "visit_hashes obs ss hs = foldl (\<lambda>h s. case dict_get obs (ds_signal_id s) of
     None \<Rightarrow> h | Some x \<Rightarrow> dict_set (ds_signal_id s) (hash_observation x) h) hs ss"

text \<open>The verdict of a walk, before the decision is constructed.\<close>

definition verdict ::
    "run_context \<Rightarrow> (string, observation) dict \<Rightarrow> decision_signal list \<Rightarrow> (string, string) dict \<Rightarrow> levels option
      \<Rightarrow> raw_decision" where
  "verdict cx obs ss hs lv =
     (let h = visit_hashes obs (visited obs ss) hs
      in case first_block obs ss of
           Some (s, st) \<Rightarrow> non_ready cx st (ds_signal_id s) h
         | None \<Rightarrow> (case walk_levels obs ss lv of
             Some l \<Rightarrow> ready_decision cx l h
           | None \<Rightarrow> non_ready cx ''UNAVAILABLE'' ''decision.levels'' h))"

definition map_payloads :: "(string, observation) dict \<Rightarrow> bool" where
  "map_payloads obs \<longleftrightarrow> (\<forall>(k, x) \<in> set obs. \<exists>kvs. ob_payload x = EMap kvs)"

lemma payload_levels_map: "\<exists>l. payload_levels (EMap kvs) = Inr l"
  by (simp add: payload_levels_def payload_get_def)

lemma map_payloads_get:
  "map_payloads obs \<Longrightarrow> dict_get obs k = Some x \<Longrightarrow> \<exists>l. payload_levels (ob_payload x) = Inr l"
  using payload_levels_map by (fastforce simp: map_payloads_def dest!: map_of_SomeD)

lemma verdict_block:
  "signal_blocks obs s = Some st \<Longrightarrow>
    verdict cx obs (s # ss) hs lv = non_ready cx st (ds_signal_id s) (visit_hashes obs [s] hs)"
  by (simp add: verdict_def first_block_def visited_def)

lemma verdict_pass:
  "signal_blocks obs s = None \<Longrightarrow>
    verdict cx obs (s # ss) hs lv = verdict cx obs ss (visit_hashes obs [s] hs) (walk_levels obs [s] lv)"
proof -
  assume n: "signal_blocks obs s = None"
  have v: "visited obs (s # ss) = s # visited obs ss" using n by (simp add: visited_def Let_def)
  have h: "visit_hashes obs (s # visited obs ss) hs = visit_hashes obs (visited obs ss) (visit_hashes obs [s] hs)"
    by (simp add: visit_hashes_def)
  have f: "first_block obs (s # ss) = first_block obs ss" using n by (simp add: first_block_def)
  have w: "walk_levels obs (s # ss) lv = walk_levels obs ss (walk_levels obs [s] lv)"
    by (simp add: walk_levels_def)
  show ?thesis unfolding verdict_def v f w unfolding h ..
qed

lemma decide_loop_verdict:
  assumes "map_payloads obs"
  shows "decide_loop cx obs ss hs lv = mk_decision (verdict cx obs ss hs lv)"
proof (induction ss arbitrary: hs lv)
  case Nil
  show ?case
    by (simp add: verdict_def first_block_def visited_def visit_hashes_def walk_levels_def split: option.split)
next
  case (Cons s ss)
  show ?case
  proof (cases "signal_blocks obs s")
    case None
    with Cons show ?thesis
      using map_payloads_get [OF assms, of "ds_signal_id s"]
      by (auto simp: verdict_pass signal_blocks_def visit_hashes_def walk_levels_def Let_def
          split: option.splits if_splits)
  next
    case (Some st)
    then show ?thesis
      using map_payloads_get [OF assms, of "ds_signal_id s"]
      by (auto simp: verdict_block signal_blocks_def visit_hashes_def Let_def
          split: option.splits if_splits)
  qed
qed

text \<open>C5: The decision is the verdict of a declarative reading of the policy:
  the first signal in (order, id) order that is required and missing, unavailable, failed or
  without textual levels decides the status and is named; without one, the levels of the last
  required levels signal make the decision ready, and their absence makes it unavailable. The
  payload lists the hashes of exactly the observations visited.\<close>

theorem decision_is_first_failure:
  assumes "map_payloads obs"
  shows "decide signals cx obs = mk_decision (verdict cx obs (policy_order signals) [] None)"
  using decide_loop_verdict [OF assms] by (simp add: decide_def)

definition sample_signals :: "decision_signal list" where
  "sample_signals = [\<lparr>ds_signal_id = ''b'', ds_required = True, ds_effect = ''REJECT'', ds_order = 2\<rparr>,
     \<lparr>ds_signal_id = ''a'', ds_required = True, ds_effect = ''REJECT'', ds_order = 1\<rparr>]"

theorem decision_is_first_failure_witness:
  "decide sample_signals sample_context [(''a'', sample_observation ''a'' [])]
    = mk_decision (verdict sample_context [(''a'', sample_observation ''a'' [])] (policy_order sample_signals) [] None)"
  by (rule decision_is_first_failure) (simp add: map_payloads_def sample_observation_def)

lemma mk_decision_status:
  "mk_decision r = Inr d \<Longrightarrow> de_status d = de_status r \<and> first_failed_signal d = first_failed_signal r
    \<and> de_direction d = de_direction r"
  by (auto simp: mk_decision_def)

text \<open>A decision is ready exactly when no required signal stops the walk and some
  required levels signal passed; then its direction and trade levels are that signal's, the levels
  in canonical text.\<close>

theorem decision_ready_iff:
  assumes "decide signals cx obs = Inr d" "map_payloads obs"
  shows "(de_status d = ''READY'' \<longleftrightarrow>
      (\<forall>s\<in>set signals. signal_blocks obs s = None) \<and> walk_levels obs (policy_order signals) None \<noteq> None)
    \<and> (de_status d = ''READY'' \<longrightarrow> (\<exists>dir e s t. walk_levels obs (policy_order signals) None = Some (dir, e, s, t)
      \<and> de_direction d = Some dir \<and> opt_decimal_text (Some e) = Inr (entry_text d)
      \<and> opt_decimal_text (Some s) = Inr (stop_text d) \<and> opt_decimal_text (Some t) = Inr (target_text d)))"
proof -
  let ?ss = "policy_order signals"
  have mk: "mk_decision (verdict cx obs ?ss [] None) = Inr d"
    using assms decide_loop_verdict [OF assms(2)] by (simp add: decide_def)
  have fb: "first_block obs ?ss = None \<longleftrightarrow> (\<forall>s\<in>set signals. signal_blocks obs s = None)"
  proof -
    have "first_block obs ?ss = None \<longleftrightarrow> filter (\<lambda>s. signal_blocks obs s \<noteq> None) ?ss = []"
      by (simp add: first_block_def split: list.split)
    then show ?thesis by (simp only: filter_empty_conv) (simp add: policy_order_def)
  qed
  have st: "st \<noteq> ''READY''" if "first_block obs ?ss = Some (s, st)" for s st
  proof -
    from that obtain t where "signal_blocks obs t = Some st"
      by (auto simp: first_block_def split: list.splits dest: filter_eq_ConsD)
    then show ?thesis by (auto simp: signal_blocks_def split: if_splits option.splits)
  qed
  show ?thesis
  proof (cases "first_block obs ?ss")
    case (Some p)
    then obtain s st' where p: "first_block obs ?ss = Some (s, st')" by (cases p) simp
    then have "de_status d = st'"
      using mk_decision_status [OF mk] by (simp add: verdict_def Let_def non_ready_def)
    with p st [OF p] fb show ?thesis by auto
  next
    case None
    show ?thesis
    proof (cases "walk_levels obs ?ss None")
      case walk: None
      then have "de_status d = ''UNAVAILABLE''"
        using mk_decision_status [OF mk] None by (simp add: verdict_def Let_def non_ready_def)
      with walk show ?thesis by simp
    next
      case (Some l)
      obtain dir e s t where l: "l = (dir, e, s, t)" by (cases l) auto
      have "verdict cx obs ?ss [] None = ready_decision cx l (visit_hashes obs (visited obs ?ss) [])"
        using None Some by (simp add: verdict_def Let_def)
      with mk have "mk_decision (ready_decision cx l (visit_hashes obs (visited obs ?ss) [])) = Inr d" by simp
      then have "de_status d = ''READY''" "de_direction d = Some dir"
        "opt_decimal_text (Some e) = Inr (entry_text d)" "opt_decimal_text (Some s) = Inr (stop_text d)"
        "opt_decimal_text (Some t) = Inr (target_text d)"
        by (auto simp: mk_decision_def ready_decision_def l)
      with None Some fb l show ?thesis by auto
    qed
  qed
qed

definition sample_levels_observation :: observation where
  "sample_levels_observation = (sample_observation ''b'' [''a''])\<lparr>ob_payload := EMap
     [(''direction'', EStr ''LONG''), (''entry_text'', EStr ''10.50''), (''stop_text'', EStr ''9''),
      (''target_text'', EStr ''13'')]\<rparr>"

definition sample_level_signals :: "decision_signal list" where
  "sample_level_signals = [\<lparr>ds_signal_id = ''b'', ds_required = True, ds_effect = ''LEVELS'', ds_order = 1\<rparr>]"

lemma sample_levels:
  "payload_levels (ob_payload sample_levels_observation) = Inr (Some (''LONG'', ''10.50'', ''9'', ''13''))"
  by code_simp

theorem decision_ready_iff_witness:
  "\<exists>d. decide sample_level_signals sample_context [(''b'', sample_levels_observation)] = Inr d
    \<and> de_status d = ''READY''"
proof -
  let ?obs = "[(''b'', sample_levels_observation)]"
  have mp: "map_payloads ?obs" by (simp add: map_payloads_def sample_levels_observation_def)
  have t: "decimal_text ''10.50'' = Inr ''10.5''" "decimal_text ''9'' = Inr ''9''" "decimal_text ''13'' = Inr ''13''"
    by code_simp+
  have i: "instrument_id ''CRYPTO-BTC-USDT-PERP'' = Inr ''CRYPTO-BTC-USDT-PERP''" by code_simp
  have st: "ob_status sample_levels_observation = ''PASS''"
    by (simp add: sample_levels_observation_def sample_observation_def)
  have "\<exists>d. decide sample_level_signals sample_context ?obs = Inr d"
    by (simp add: decide_def policy_order_def sample_level_signals_def sample_levels st
        mk_decision_def ready_decision_def sample_context_def i t opt_decimal_text_def)
  then obtain d where d: "decide sample_level_signals sample_context ?obs = Inr d" ..
  have "signal_blocks ?obs s = None" if "s \<in> set sample_level_signals" for s
    using that by (simp add: sample_level_signals_def signal_blocks_def st sample_levels)
  moreover have "walk_levels ?obs (policy_order sample_level_signals) None \<noteq> None"
    by (simp add: walk_levels_def policy_order_def sample_level_signals_def sample_levels)
  ultimately show ?thesis using decision_ready_iff [OF d mp] d by blast
qed

end
