(* ===== verification/Repository.thy ===== *)
theory Repository
  imports Resampling
begin

text \<open>
  The candle side of the repository port (\<^verbatim>\<open>application/ports/repository.py\<close>): what a caller passes and
  receives, and the contract its clients rely on, as a locale. A repository is a record of three
  stateful calls. The contract describes the stored rows as a partial function from primary keys:
  a load lists the rows of its range in order, a successful store overlays a page that agrees with
  itself and with the rows, a failed store changes nothing, and a page that agrees can be stored.
\<close>

section \<open>Rows and pages\<close>

type_synonym market = "string \<times> string \<times> string \<times> string"

record sync_state =
  last_completed_open_time_ms :: int
  last_completed_close_time_ms :: int
  last_successful_sync_ms :: int
  last_error :: "string option"

definition row_of :: "candle \<Rightarrow> candle" where
  "row_of c = c\<lparr>source_fields := sort_key fst (source_fields c)\<rparr>"

definition market_key :: "candle \<Rightarrow> market" where
  "market_key c = (provider_id c, market_type c, c_instrument_id c, c_interval c)"

definition one_market :: "candle list \<Rightarrow> bool" where
  "one_market page \<longleftrightarrow> \<not> list_ex (\<lambda>c. market_key c \<noteq> market_key (hd page)) page"

definition minute_aligned :: "int \<Rightarrow> bool" where
  "minute_aligned t \<longleftrightarrow> t mod 60000 = 0"

definition page_guards :: "candle list \<Rightarrow> int \<Rightarrow> int \<Rightarrow> bool" where
  "page_guards page t req \<longleftrightarrow> page \<noteq> [] \<and> 0 \<le> t \<and> 0 \<le> req \<and> minute_aligned req
     \<and> one_market page"

lemma row_of_simps [simp]:
  "primary_key (row_of c) = primary_key c" "market_key (row_of c) = market_key c"
  "open_time_ms (row_of c) = open_time_ms c" "close_time_ms (row_of c) = close_time_ms c"
  "provider_symbol (row_of c) = provider_symbol c"
  "row_of (row_of c) = row_of c"
  by (simp_all add: row_of_def primary_key_def market_key_def sort_key_id_if_sorted)

lemma row_of_wf:
  assumes "candle_wf c"
  shows "candle_wf (row_of c)"
proof -
  have "distinct (map fst (sort_key fst (source_fields c))) = distinct (map fst (source_fields c))"
    by (intro mset_eq_imp_distinct_iff) (simp add: mset_map)
  with assms show ?thesis by (simp add: candle_wf_def row_of_def)
qed

lemma primary_key_split: "primary_key r = (p, m, i, v, t) \<longleftrightarrow> market_key r = (p, m, i, v) \<and> open_time_ms r = t"
  by (auto simp: primary_key_def market_key_def)

text \<open>A page that agrees with itself: equal keys name equal rows.\<close>

definition page_consistent :: "candle list \<Rightarrow> bool" where
  "page_consistent page \<longleftrightarrow>
     (\<forall>c\<in>set page. \<forall>d\<in>set page. primary_key c = primary_key d \<longrightarrow> row_of c = row_of d)"

definition page_row :: "candle list \<Rightarrow> candle_key \<Rightarrow> candle option" where
  "page_row page k = map_option row_of (List.find (\<lambda>c. primary_key c = k) page)"

lemma page_row_Cons:
  "page_row (c # page) k = (if primary_key c = k then Some (row_of c) else page_row page k)"
  by (simp add: page_row_def)

lemma page_row_Some: "page_row page k = Some r \<Longrightarrow> \<exists>c\<in>set page. primary_key c = k \<and> r = row_of c"
  by (auto simp: page_row_def find_Some_iff)

lemma page_row_None: "page_row page k = None \<longleftrightarrow> k \<notin> primary_key ` set page"
  by (auto simp: page_row_def find_None_iff)

text \<open>The rows of the table after the inserts: the page's where it has one, the old ones elsewhere.\<close>

definition merged :: "candle list \<Rightarrow> (candle_key \<Rightarrow> candle option) \<Rightarrow> candle_key \<Rightarrow> candle option" where
  "merged page old k = (case page_row page k of Some r \<Rightarrow> Some r | None \<Rightarrow> old k)"

definition agrees :: "(candle_key \<Rightarrow> candle option) \<Rightarrow> candle \<Rightarrow> bool" where
  "agrees old c \<longleftrightarrow> old (primary_key c) = None \<or> old (primary_key c) = Some (row_of c)"

lemma merged_keep: "old k = Some r \<Longrightarrow> \<forall>c\<in>set page. agrees old c \<Longrightarrow> merged page old k = Some r"
proof (cases "page_row page k")
  case (Some x)
  assume a: "old k = Some r" "\<forall>c\<in>set page. agrees old c"
  from page_row_Some [OF Some] obtain c where "c \<in> set page" "primary_key c = k" "x = row_of c" by blast
  with a Some show ?thesis by (auto simp: merged_def agrees_def)
qed (simp add: merged_def)

lemma merged_page:
  assumes "page_consistent page" "c \<in> set page"
  shows "merged page old (primary_key c) = Some (row_of c)"
proof -
  obtain x where x: "page_row page (primary_key c) = Some x"
    using assms(2) page_row_None [of page "primary_key c"] by blast
  from page_row_Some [OF x] assms have "x = row_of c" unfolding page_consistent_def by metis
  with x show ?thesis by (simp add: merged_def)
qed

section \<open>The port\<close>

record 's candle_repo =
  repo_store :: "candle list \<Rightarrow> int \<Rightarrow> int \<Rightarrow> ('s, unit) op"
  repo_load :: "string \<Rightarrow> string \<Rightarrow> string \<Rightarrow> int \<Rightarrow> int \<Rightarrow> ('s, candle list) op"
  repo_sync_state :: "string \<Rightarrow> string \<Rightarrow> string \<Rightarrow> ('s, sync_state option) op"

locale candle_repository =
  fixes repo :: "'s candle_repo"
    and inv :: "'s \<Rightarrow> bool"
    and rows :: "'s \<Rightarrow> candle_key \<Rightarrow> candle option"
  assumes load_spec: "inv s \<Longrightarrow> \<exists>cs. repo_load repo p m i a b s = (Inr cs, s)
      \<and> sorted_wrt (<) (map open_time_ms cs)
      \<and> set cs = {c. \<exists>t. a \<le> t \<and> t \<le> b \<and> rows s (p, m, i, ''1m'', t) = Some c}"
    and rows_wf: "inv s \<Longrightarrow> rows s k = Some c \<Longrightarrow> candle_wf c \<and> primary_key c = k"
    and sync_state_pure: "snd (repo_sync_state repo p m i s) = s"
    and store_inv: "inv s \<Longrightarrow> \<forall>c\<in>set page. candle_wf c \<Longrightarrow> repo_store repo page t req s = (r, s') \<Longrightarrow> inv s'"
    and store_rows: "repo_store repo page t req s = (Inr u, s') \<Longrightarrow>
      page_consistent page \<and> (\<forall>c\<in>set page. agrees (rows s) c) \<and> rows s' = merged page (rows s)"
    and store_failed: "repo_store repo page t req s = (Inl e, s') \<Longrightarrow> s' = s"
    and store_total: "inv s \<Longrightarrow> page_guards page t req \<Longrightarrow> \<forall>c\<in>set page. candle_wf c \<Longrightarrow>
      page_consistent page \<Longrightarrow> \<forall>c\<in>set page. agrees (rows s) c \<Longrightarrow>
      \<exists>s'. repo_store repo page t req s = (Inr (), s')"
begin

lemma store_keeps:
  assumes "repo_store repo page t req s = (r, s')" "rows s k = Some c"
  shows "rows s' k = Some c"
proof (cases r)
  case (Inl e)
  with assms store_failed have "s' = s" by blast
  with assms(2) show ?thesis by simp
next
  case (Inr u)
  with assms(1) store_rows have "\<forall>c\<in>set page. agrees (rows s) c" "rows s' = merged page (rows s)" by blast+
  with assms(2) show ?thesis by (simp add: merged_keep)
qed

lemma store_present:
  "repo_store repo page t req s = (Inr u, s') \<Longrightarrow> c \<in> set page \<Longrightarrow> rows s' (primary_key c) = Some (row_of c)"
  using store_rows merged_page by metis

text \<open>Storing a page again is accepted and leaves the rows as they are.\<close>

lemma store_again:
  assumes "repo_store repo page t req s = (Inr u, s')" "inv s" "\<forall>c\<in>set page. candle_wf c"
    and "page_guards page t' req'"
  shows "\<exists>s''. repo_store repo page t' req' s' = (Inr (), s'') \<and> rows s'' = rows s'"
proof -
  have inv': "inv s'" using store_inv [OF assms(2,3,1)] .
  have pc: "page_consistent page" using store_rows [OF assms(1)] by blast
  have ag: "\<forall>c\<in>set page. agrees (rows s') c"
    using store_present [OF assms(1)] by (simp add: agrees_def)
  from store_total [OF inv' assms(4,3) pc ag] obtain s'' where s'': "repo_store repo page t' req' s' = (Inr (), s'')"
    by blast
  have "merged page (rows s') k = rows s' k" for k
  proof (cases "page_row page k")
    case None
    then show ?thesis by (simp add: merged_def)
  next
    case (Some x)
    from page_row_Some [OF Some] obtain c where "c \<in> set page" "primary_key c = k" "x = row_of c" by blast
    with Some store_present [OF assms(1)] show ?thesis by (auto simp: merged_def)
  qed
  with store_rows [OF s''] s'' show ?thesis by (metis ext)
qed

end

end
