(* ===== verification/CandleStore.thy ===== *)
theory CandleStore
  imports Repository
begin

text \<open>
  The candle tables of the SQLite repository (\<^verbatim>\<open>adapters/persistence/sqlite.py\<close>): the constraint
  checks of \<^verbatim>\<open>candles_1m\<close>, storing a page in one transaction, advancing the contiguous-prefix mark
  of \<^verbatim>\<open>sync_state\<close>, and the two loads. A row is the candle with its source fields in the key order
  of the canonical JSON column, so that two rows are equal when their columns are.
\<close>

section \<open>Rows and constraints\<close>

record candle_db =
  candles_1m :: "candle list"
  sync_rows :: "(market, sync_state) dict"

text \<open>\<^verbatim>\<open>x NOT GLOB '*[^0-9.]*'\<close> and \<^verbatim>\<open>x = upper(x)\<close>.\<close>

definition sql_decimal :: "string \<Rightarrow> bool" where
  "sql_decimal t \<longleftrightarrow> 1 \<le> length t \<and> length t \<le> 64 \<and> list_all (\<lambda>c. is_digit c \<or> c = CHR ''.'') t"

definition sql_upper :: "char \<Rightarrow> char" where
  "sql_upper c = (let n = (of_char c :: int) in if 97 \<le> n \<and> n \<le> 122 then char_of (n - 32) else c)"

definition is_upper_text :: "string \<Rightarrow> bool" where
  "is_upper_text t \<longleftrightarrow> t = map sql_upper t"

definition candle_row_check :: "candle \<Rightarrow> bool" where
  "candle_row_check c \<longleftrightarrow>
     1 \<le> length (provider_id c) \<and> length (provider_id c) \<le> 32
     \<and> market_type c = market_type_name
     \<and> 1 \<le> length (c_instrument_id c) \<and> length (c_instrument_id c) \<le> 64 \<and> is_upper_text (c_instrument_id c)
     \<and> 1 \<le> length (provider_symbol c) \<and> length (provider_symbol c) \<le> 64
     \<and> c_interval c = ''1m''
     \<and> 0 \<le> open_time_ms c \<and> open_time_ms c mod 60000 = 0
     \<and> close_time_ms c = open_time_ms c + 59999
     \<and> sql_decimal (c_open c) \<and> sql_decimal (c_high c) \<and> sql_decimal (c_low c) \<and> sql_decimal (c_close c)
     \<and> sql_decimal (base_volume c)
     \<and> (case quote_volume c of None \<Rightarrow> True | Some q \<Rightarrow> sql_decimal q)"

definition sync_row_check :: "market \<Rightarrow> sync_state \<Rightarrow> bool" where
  "sync_row_check k st \<longleftrightarrow> (case k of (pid, mt, iid, iv) \<Rightarrow>
     1 \<le> length pid \<and> length pid \<le> 32 \<and> mt = market_type_name \<and> is_upper_text iid \<and> iv = ''1m''
     \<and> 0 \<le> last_completed_open_time_ms st \<and> last_completed_open_time_ms st mod 60000 = 0
     \<and> last_completed_close_time_ms st = last_completed_open_time_ms st + 59999
     \<and> 0 \<le> last_successful_sync_ms st
     \<and> (case last_error st of None \<Rightarrow> True | Some e \<Rightarrow> 1 \<le> length e \<and> length e \<le> 1000))"

section \<open>Storing a page\<close>

definition find_row :: "candle_db \<Rightarrow> candle_key \<Rightarrow> candle option" where
  "find_row db k = List.find (\<lambda>r. primary_key r = k) (candles_1m db)"

definition insert_candle :: "candle_db \<Rightarrow> candle \<Rightarrow> candle_db result" where
  "insert_candle db c =
     (case find_row db (primary_key c) of
        None \<Rightarrow> if candle_row_check c then Inr (db\<lparr>candles_1m := candles_1m db @ [row_of c]\<rparr>)
                else raise IntegrityError ''CHECK constraint failed: candles_1m''
      | Some r \<Rightarrow> if r = row_of c then Inr db
                else raise SourceConflictError ''SOURCE_CONFLICT at canonical candle primary key'')"

text \<open>The last minute of the run of consecutive minutes that starts at \<open>expected\<close>.\<close>

fun prefix_end :: "int \<Rightarrow> int option \<Rightarrow> int list \<Rightarrow> int option" where
  "prefix_end expected pre [] = pre"
| "prefix_end expected pre (t # ts) =
     (if t \<noteq> expected then pre else prefix_end (expected + 60000) (Some t) ts)"

definition market_opens :: "candle_db \<Rightarrow> market \<Rightarrow> int \<Rightarrow> int list" where
  "market_opens db k start =
     sort (map open_time_ms (filter (\<lambda>r. market_key r = k \<and> start \<le> open_time_ms r) (candles_1m db)))"

definition next_mark :: "int option \<Rightarrow> int \<Rightarrow> int" where
  "next_mark existing p = (case existing of None \<Rightarrow> p | Some e \<Rightarrow> max p e)"

definition mark_state :: "int \<Rightarrow> int \<Rightarrow> sync_state" where
  "mark_state mark successful_sync_ms =
     \<lparr>last_completed_open_time_ms = mark, last_completed_close_time_ms = mark + 59999,
      last_successful_sync_ms = successful_sync_ms, last_error = None\<rparr>"

definition advance_sync_state :: "candle_db \<Rightarrow> market \<Rightarrow> int \<Rightarrow> int \<Rightarrow> candle_db result" where
  "advance_sync_state db k successful_sync_ms required_start =
     (let existing = map_option last_completed_open_time_ms (dict_get (sync_rows db) k)
      in if (case existing of None \<Rightarrow> False | Some e \<Rightarrow> e + 60000 < required_start) then Inr db
         else case prefix_end required_start None (market_opens db k required_start) of
           None \<Rightarrow> Inr db
         | Some p \<Rightarrow>
           (let st = mark_state (next_mark existing p) successful_sync_ms
            in if sync_row_check k st then Inr (db\<lparr>sync_rows := dict_set k st (sync_rows db)\<rparr>)
               else raise IntegrityError ''CHECK constraint failed: sync_state''))"

definition store_candle_page :: "candle list \<Rightarrow> int \<Rightarrow> int \<Rightarrow> (candle_db, unit) op" where
  "store_candle_page page successful_sync_ms required_start =
     sbind (sguard (page \<noteq> []) ValueError ''candle page must not be empty'') (\<lambda>_.
     sbind (sguard (0 \<le> successful_sync_ms) ValueError
              ''successful sync time must be a non-negative integer'') (\<lambda>_.
     sbind (sguard (\<not> (required_start < 0 \<or> required_start mod 60000 \<noteq> 0)) ValueError
              ''required sync start must be an aligned non-negative integer'') (\<lambda>_.
     sbind (sguard (one_market page) ValueError
              ''one candle page cannot mix market identities'') (\<lambda>_.
     transaction (\<lambda>db.
       rbind (rfoldM insert_candle db page) (\<lambda>db'.
       rbind (advance_sync_state db' (market_key (hd page)) successful_sync_ms required_start) (\<lambda>db''.
       Inr ((), db''))))))))"

section \<open>Loading\<close>

definition row_to_candle :: "candle \<Rightarrow> candle result" where
  "row_to_candle r = mk_candle (raw_of r)"

definition load_candles :: "string \<Rightarrow> string \<Rightarrow> string \<Rightarrow> int \<Rightarrow> int \<Rightarrow> (candle_db, candle list) op" where
  "load_candles pid mt iid start_open end_open db =
     (rmapM row_to_candle (sort_key open_time_ms
        (filter (\<lambda>r. market_key r = (pid, mt, iid, ''1m'') \<and> start_open \<le> open_time_ms r
                   \<and> open_time_ms r \<le> end_open) (candles_1m db))), db)"

definition load_sync_state :: "string \<Rightarrow> string \<Rightarrow> string \<Rightarrow> (candle_db, sync_state option) op" where
  "load_sync_state pid mt iid db = (Inr (dict_get (sync_rows db) (pid, mt, iid, ''1m'')), db)"

definition load_all_candles :: "candle_db \<Rightarrow> candle list result" where
  "load_all_candles db = rmapM row_to_candle (sort_key primary_key (candles_1m db))"

section \<open>Constructed candles satisfy the constraints\<close>

lemma sql_decimal_canonical: "canonical_decimal t \<Longrightarrow> sql_decimal t"
proof -
  assume "canonical_decimal t"
  then have t: "decimal_text t = Inr t" by (simp add: canonical_decimal_def)
  then have "length t \<le> 64" and syn: "decimal_syntax t"
    by (auto simp: decimal_text_def split: if_splits)
  moreover have "t \<noteq> []" using syn by (auto simp: decimal_syntax_def)
  then have "1 \<le> length t" by (cases t) simp_all
  ultimately show ?thesis
    using decimal_syntax_chars [OF syn] by (auto simp: sql_decimal_def list_all_iff)
qed

lemma split_on_chars: "c \<in> set s \<Longrightarrow> c = d \<or> (\<exists>p \<in> set (split_on d s). c \<in> set p)"
  by (induction d s rule: split_on.induct) (auto split: list.splits if_splits)

lemma instrument_upper:
  assumes "instrument_id s = Inr s"
  shows "is_upper_text s"
proof -
  have "\<forall>p \<in> set (split_on CHR ''-'' s). list_all is_upper_digit p"
    using assms by (auto simp: instrument_id_def instrument_syntax_def Let_def list_all_iff split: if_splits)
  then have "c = CHR ''-'' \<or> is_upper_digit c" if "c \<in> set s" for c
    using split_on_chars [OF that, of "CHR ''-''"] by (auto simp: list_all_iff)
  moreover have "sql_upper c = c" if "is_upper_digit c" for c
    using that by (auto simp: sql_upper_def is_upper_digit_def is_digit_def Let_def)
  moreover have "sql_upper CHR ''-'' = CHR ''-''" by (simp add: sql_upper_def)
  ultimately have "map sql_upper s = map id s" by (intro map_cong) auto
  then show ?thesis by (simp add: is_upper_text_def)
qed

lemma candle_wf_check:
  assumes "candle_wf c"
  shows "candle_row_check c"
proof -
  have "length (provider_id c) \<le> 32 \<and> 1 \<le> length (provider_id c)"
    using assms by (auto simp: candle_wf_def provider_extensions_def)
  moreover have "1 \<le> length (c_instrument_id c) \<and> length (c_instrument_id c) \<le> 64"
    using assms by (auto simp: candle_wf_def instrument_id_def split: if_splits)
  ultimately show ?thesis
    using assms by (auto simp: candle_row_check_def candle_wf_def instrument_upper
      intro: sql_decimal_canonical split: option.split)
qed

section \<open>The invariant of the tables\<close>

definition candle_db_wf :: "candle_db \<Rightarrow> bool" where
  "candle_db_wf db \<longleftrightarrow> distinct (map primary_key (candles_1m db))
     \<and> (\<forall>r \<in> set (candles_1m db). candle_wf r \<and> row_of r = r)
     \<and> (\<forall>(k, st) \<in> set (sync_rows db). sync_row_check k st)"

definition empty_candle_db :: candle_db where
  "empty_candle_db = \<lparr>candles_1m = [], sync_rows = []\<rparr>"

lemma find_row_Some:
  "find_row db k = Some r \<Longrightarrow> r \<in> set (candles_1m db) \<and> primary_key r = k"
  by (auto simp: find_row_def find_Some_iff)

lemma find_row_None: "find_row db k = None \<longleftrightarrow> k \<notin> primary_key ` set (candles_1m db)"
  by (auto simp: find_row_def find_None_iff)

lemma find_row_member:
  assumes "distinct (map primary_key (candles_1m db))" "r \<in> set (candles_1m db)"
  shows "find_row db (primary_key r) = Some r"
proof -
  obtain r' where r': "find_row db (primary_key r) = Some r'"
    using assms(2) find_row_None [of db "primary_key r"] by auto
  with assms find_row_Some [OF r'] show ?thesis by (auto simp: distinct_map dest: inj_onD)
qed

lemma find_append: "List.find P (xs @ ys) = (case List.find P xs of None \<Rightarrow> List.find P ys | Some x \<Rightarrow> Some x)"
  by (induction xs) auto

lemma insert_candle_cases:
  assumes "insert_candle db c = Inr db'"
  obtains (old) "find_row db (primary_key c) = Some (row_of c)" "db' = db"
  | (new) "find_row db (primary_key c) = None" "candle_row_check c"
      "db' = db\<lparr>candles_1m := candles_1m db @ [row_of c]\<rparr>"
  using assms by (auto simp: insert_candle_def split: option.splits if_splits)

lemma find_row_append:
  "find_row db (primary_key c) = None \<Longrightarrow>
    find_row (db\<lparr>candles_1m := candles_1m db @ [row_of c]\<rparr>) k
      = (if k = primary_key c then Some (row_of c) else find_row db k)"
  by (auto simp: find_row_def find_append split: option.split)

lemma insert_candle_Inr:
  assumes "insert_candle db c = Inr db'"
  shows "find_row db' k = (if k = primary_key c then Some (row_of c) else find_row db k)"
    and "candle_db_wf db \<Longrightarrow> candle_wf c \<Longrightarrow> candle_db_wf db'"
    and "sync_rows db' = sync_rows db"
    and "find_row db (primary_key c) = None \<or> find_row db (primary_key c) = Some (row_of c)"
  using assms
  by (cases rule: insert_candle_cases [OF assms];
      auto simp: find_row_append candle_db_wf_def row_of_wf find_row_None)+

lemma insert_candle_total:
  "candle_wf c \<Longrightarrow> find_row db (primary_key c) \<in> {None, Some (row_of c)} \<Longrightarrow>
    \<exists>db'. insert_candle db c = Inr db'"
  by (auto simp: insert_candle_def candle_wf_check)

lemma insert_page_Inr:
  assumes "rfoldM insert_candle db page = Inr db'"
  shows "page_consistent page \<and> sync_rows db' = sync_rows db \<and> (\<forall>c\<in>set page. agrees (find_row db) c)
    \<and> find_row db' = merged page (find_row db)
    \<and> (candle_db_wf db \<longrightarrow> (\<forall>c\<in>set page. candle_wf c) \<longrightarrow> candle_db_wf db')"
  using assms
proof (induction page arbitrary: db)
  case Nil
  then show ?case by (auto simp: page_consistent_def page_row_def merged_def)
next
  case (Cons c page)
  from Cons.prems obtain db1 where one: "insert_candle db c = Inr db1"
    and rest: "rfoldM insert_candle db1 page = Inr db'" by auto
  note ih = Cons.IH [OF rest]
  have upd: "find_row db1 = (find_row db)(primary_key c \<mapsto> row_of c)"
    by (rule ext) (use insert_candle_Inr(1) [OF one] in simp)
  have first: "agrees (find_row db) c" using insert_candle_Inr(4) [OF one] by (simp add: agrees_def)
  have same: "row_of d = row_of c" if "d \<in> set page" "primary_key d = primary_key c" for d
  proof -
    have "agrees (find_row db1) d" using ih that(1) by blast
    with that(2) show ?thesis by (simp add: agrees_def upd)
  qed
  have con: "page_consistent (c # page)"
    using ih same unfolding page_consistent_def by (metis set_ConsD)
  have ag: "agrees (find_row db) d" if "d \<in> set (c # page)" for d
  proof (cases "d = c \<or> primary_key d = primary_key c")
    case True
    then show ?thesis using first that same by (auto simp: agrees_def)
  next
    case False
    with that ih have "agrees (find_row db1) d" by auto
    with False show ?thesis by (simp add: agrees_def upd)
  qed
  have fr: "find_row db' = merged (c # page) (find_row db)"
  proof
    fix k
    have db': "find_row db' k = merged page (find_row db1) k" using ih by simp
    show "find_row db' k = merged (c # page) (find_row db) k"
    proof (cases "page_row page k")
      case None
      then show ?thesis by (simp add: db' merged_def page_row_Cons upd)
    next
      case (Some r)
      with same have "primary_key c = k \<Longrightarrow> r = row_of c" by (metis page_row_Some)
      with Some show ?thesis by (simp add: db' merged_def page_row_Cons)
    qed
  qed
  have wf: "candle_db_wf db \<longrightarrow> (\<forall>c\<in>set (c # page). candle_wf c) \<longrightarrow> candle_db_wf db'"
    using ih insert_candle_Inr(2) [OF one] by simp
  show ?case using con ag fr wf ih insert_candle_Inr(3) [OF one] by simp
qed

lemma insert_page_total:
  assumes "page_consistent page" "\<forall>c\<in>set page. candle_wf c"
    and "\<forall>c\<in>set page. agrees (find_row db) c"
  shows "\<exists>db'. rfoldM insert_candle db page = Inr db'"
  using assms
proof (induction page arbitrary: db)
  case Nil
  then show ?case by simp
next
  case (Cons c page)
  then obtain db1 where one: "insert_candle db c = Inr db1"
    using insert_candle_total [of c db] by (auto simp: agrees_def)
  have "agrees (find_row db1) d" if "d \<in> set page" for d
  proof -
    have old: "agrees (find_row db) d" using Cons.prems(3) that by simp
    have new: "find_row db1 (primary_key d) =
        (if primary_key d = primary_key c then Some (row_of c) else find_row db (primary_key d))"
      by (rule insert_candle_Inr(1) [OF one])
    show ?thesis
    proof (cases "primary_key d = primary_key c")
      case True
      with Cons.prems(1) that have "row_of d = row_of c"
        unfolding page_consistent_def by (meson list.set_intros)
      with True new show ?thesis by (simp add: agrees_def)
    next
      case False
      with old new show ?thesis by (simp add: agrees_def)
    qed
  qed
  moreover have "page_consistent page"
    using Cons.prems(1) unfolding page_consistent_def by (meson list.set_intros)
  ultimately have "\<exists>db'. rfoldM insert_candle db1 page = Inr db'"
    using Cons.prems(2) by (intro Cons.IH) simp_all
  with one show ?case by simp
qed

section \<open>The prefix mark\<close>

text \<open>All minutes from \<open>a\<close> to \<open>e\<close> of a market are stored.\<close>

definition has_minute :: "candle_db \<Rightarrow> market \<Rightarrow> int \<Rightarrow> bool" where
  "has_minute db k t \<longleftrightarrow> (\<exists>r\<in>set (candles_1m db). market_key r = k \<and> open_time_ms r = t)"

definition contiguous :: "candle_db \<Rightarrow> market \<Rightarrow> int \<Rightarrow> int \<Rightarrow> bool" where
  "contiguous db k a e \<longleftrightarrow> (\<forall>t. a \<le> t \<and> t \<le> e \<and> minute_aligned t \<longrightarrow> has_minute db k t)"

definition sync_mark :: "candle_db \<Rightarrow> market \<Rightarrow> int option" where
  "sync_mark db k = map_option last_completed_open_time_ms (dict_get (sync_rows db) k)"

lemma prefix_end_sound:
  "prefix_end e pre ts = Some p \<Longrightarrow>
     pre = Some p \<or> (e \<le> p \<and> (\<forall>t. e \<le> t \<and> t \<le> p \<and> (t - e) mod 60000 = 0 \<longrightarrow> t \<in> set ts) \<and> p \<in> set ts)"
proof (induction e pre ts rule: prefix_end.induct)
  case (1 e pre)
  then show ?case by simp
next
  case (2 e pre t ts)
  show ?case
  proof (cases "t = e")
    case False
    with 2 show ?thesis by simp
  next
    case True
    with "2.prems" have "prefix_end (e + 60000) (Some e) ts = Some p" by simp
    with "2.IH" True have c: "e = p \<or> (e + 60000 \<le> p \<and>
        (\<forall>t. e + 60000 \<le> t \<and> t \<le> p \<and> (t - (e + 60000)) mod 60000 = 0 \<longrightarrow> t \<in> set ts) \<and> p \<in> set ts)"
      by auto
    have all: "u \<in> set (t # ts)" if u: "e \<le> u" "u \<le> p" "(u - e) mod 60000 = 0" for u
    proof (cases "u = e")
      case True
      with \<open>t = e\<close> show ?thesis by simp
    next
      case False
      with u(1) have lt: "e < u" by simp
      have "e + 60000 \<le> u \<and> (u - (e + 60000)) mod 60000 = 0"
        by (rule grid_step [OF u(3) lt]) simp
      then have ge: "e + 60000 \<le> u" and m: "(u - (e + 60000)) mod 60000 = 0" by blast+
      have "e \<noteq> p" using ge u(2) by simp
      with c have "\<forall>t. e + 60000 \<le> t \<and> t \<le> p \<and> (t - (e + 60000)) mod 60000 = 0 \<longrightarrow> t \<in> set ts"
        by (elim disjE conjE) (erule (1) notE, assumption)
      from this [rule_format, OF conjI [OF ge conjI [OF u(2) m]]] show ?thesis by simp
    qed
    have le: "e \<le> p" and mem: "p \<in> set (t # ts)" using c True by auto
    show ?thesis
      by (intro disjI2 conjI allI impI le mem, elim conjE) (rule all)
  qed
qed

lemma market_opens_set:
  "set (market_opens db k a) = {open_time_ms r | r. r \<in> set (candles_1m db) \<and> market_key r = k \<and> a \<le> open_time_ms r}"
  by (auto simp: market_opens_def)

lemma prefix_contiguous:
  assumes "prefix_end a None (market_opens db k a) = Some p" "a mod 60000 = 0"
  shows "a \<le> p \<and> contiguous db k a p"
proof -
  from prefix_end_sound [OF assms(1)] have "a \<le> p"
    and "\<And>t. a \<le> t \<and> t \<le> p \<and> (t - a) mod 60000 = 0 \<Longrightarrow> t \<in> set (market_opens db k a)" by auto
  moreover have "(t - a) mod 60000 = 0" if "minute_aligned t" for t
    using that assms(2) by (simp add: minute_aligned_def mod_0_imp_dvd)
  ultimately show ?thesis by (auto simp: contiguous_def has_minute_def market_opens_set)
qed

lemma dict_set_member: "(j, x) \<in> set (dict_set k v d) \<Longrightarrow> (j = k \<and> x = v) \<or> (j, x) \<in> set d"
  by (induction d) (auto split: if_splits)

lemma advance_Inr:
  assumes "advance_sync_state db k t req = Inr db'" "req mod 60000 = 0"
  shows "candles_1m db' = candles_1m db \<and> (\<forall>k'. k' \<noteq> k \<longrightarrow> dict_get (sync_rows db') k' = dict_get (sync_rows db) k')
    \<and> (sync_mark db' k = sync_mark db k
       \<or> (\<exists>p. contiguous db k req p \<and> req \<le> p \<and>
            (case sync_mark db k of None \<Rightarrow> sync_mark db' k = Some p
             | Some e \<Rightarrow> req \<le> e + 60000 \<and> sync_mark db' k = Some (max p e))))
    \<and> (candle_db_wf db \<longrightarrow> candle_db_wf db')"
proof -
  have "db' = db \<or> (\<exists>p st. prefix_end req None (market_opens db k req) = Some p
        \<and> sync_row_check k st \<and> db' = db\<lparr>sync_rows := dict_set k st (sync_rows db)\<rparr>
        \<and> last_completed_open_time_ms st = next_mark (sync_mark db k) p
        \<and> (\<forall>e. sync_mark db k = Some e \<longrightarrow> req \<le> e + 60000))"
  proof (cases "case sync_mark db k of None \<Rightarrow> False | Some e \<Rightarrow> e + 60000 < req")
    case True
    then show ?thesis using assms(1) by (simp add: advance_sync_state_def sync_mark_def)
  next
    case early: False
    show ?thesis
    proof (cases "prefix_end req None (market_opens db k req)")
      case None
      with early show ?thesis using assms(1) by (simp add: advance_sync_state_def sync_mark_def)
    next
      case (Some p)
      define st where "st = mark_state (next_mark (sync_mark db k) p) t"
      have "(if sync_row_check k st then Inr (db\<lparr>sync_rows := dict_set k st (sync_rows db)\<rparr>)
          else raise IntegrityError ''CHECK constraint failed: sync_state'') = Inr db'"
        using assms(1) early Some unfolding advance_sync_state_def sync_mark_def [symmetric] Let_def st_def
        by simp
      moreover have "\<forall>e. sync_mark db k = Some e \<longrightarrow> req \<le> e + 60000" using early by auto
      moreover have "last_completed_open_time_ms st = next_mark (sync_mark db k) p"
        by (simp add: st_def mark_state_def)
      ultimately show ?thesis using Some by (metis Inl_Inr_False Inr_inject)
    qed
  qed
  then consider (same) "db' = db"
    | (mark) p st where "prefix_end req None (market_opens db k req) = Some p"
        "sync_row_check k st" "db' = db\<lparr>sync_rows := dict_set k st (sync_rows db)\<rparr>"
        "last_completed_open_time_ms st = next_mark (sync_mark db k) p"
        "\<forall>e. sync_mark db k = Some e \<longrightarrow> req \<le> e + 60000"
    by blast
  then show ?thesis
  proof cases
    case same
    then show ?thesis by simp
  next
    case mark
    have wf: "candle_db_wf db'" if "candle_db_wf db"
      using that mark(2) by (auto simp: candle_db_wf_def mark(3) dest: dict_set_member)
    have "sync_mark db' k = Some (next_mark (sync_mark db k) p)"
      using mark(3,4) by (simp add: sync_mark_def dict_set_conv)
    with prefix_contiguous [OF mark(1) assms(2)] mark(3,5) wf show ?thesis
      by (auto simp: dict_set_conv next_mark_def split: option.splits)
  qed
qed

section \<open>What a stored page leaves behind\<close>

lemma insert_page_mono: "rfoldM insert_candle db page = Inr db' \<Longrightarrow> set (candles_1m db) \<subseteq> set (candles_1m db')"
proof (induction page arbitrary: db)
  case (Cons c page)
  then obtain db1 where one: "insert_candle db c = Inr db1" and rest: "rfoldM insert_candle db1 page = Inr db'"
    by auto
  have "set (candles_1m db) \<subseteq> set (candles_1m db1)"
    by (cases rule: insert_candle_cases [OF one]) auto
  with Cons.IH [OF rest] show ?case by blast
qed simp

lemma contiguous_mono:
  "contiguous db k a e \<Longrightarrow> set (candles_1m db) \<subseteq> set (candles_1m db') \<Longrightarrow> contiguous db' k a e"
  unfolding contiguous_def has_minute_def by blast

definition store_body :: "candle list \<Rightarrow> int \<Rightarrow> int \<Rightarrow> candle_db \<Rightarrow> (unit \<times> candle_db) result" where
  "store_body page t req db =
     rbind (rfoldM insert_candle db page) (\<lambda>db'.
     rbind (advance_sync_state db' (market_key (hd page)) t req) (\<lambda>db''. Inr ((), db'')))"

lemma store_page_body:
  "page_guards page t req \<Longrightarrow> store_candle_page page t req db = transaction (store_body page t req) db"
  by (simp add: store_candle_page_def page_guards_def minute_aligned_def store_body_def
      transaction_def)

lemma store_page_guards:
  "store_candle_page page t req db = (Inr u, db') \<Longrightarrow> page_guards page t req"
  by (auto simp: store_candle_page_def page_guards_def minute_aligned_def split: if_splits)

lemma store_page_Inl: "store_candle_page page t req db = (Inl e, db') \<Longrightarrow> db' = db"
  by (cases "page_guards page t req")
    (auto simp: store_page_body transaction_Inl, auto simp: store_candle_page_def page_guards_def
      minute_aligned_def split: if_splits)

lemma store_page_steps:
  assumes "store_candle_page page t req db = (Inr u, db')"
  obtains db1 where "page_guards page t req" "rfoldM insert_candle db page = Inr db1"
    "advance_sync_state db1 (market_key (hd page)) t req = Inr db'"
proof -
  note g = store_page_guards [OF assms]
  with assms have "store_body page t req db = Inr (u, db')" by (simp add: store_page_body transaction_Inr)
  then show thesis using that g by (auto simp: store_body_def)
qed

lemma store_page_Inr:
  assumes "store_candle_page page t req db = (Inr (), db')"
  shows "find_row db' = merged page (find_row db) \<and> page_consistent page
    \<and> (\<forall>c\<in>set page. agrees (find_row db) c)
    \<and> (candle_db_wf db \<longrightarrow> (\<forall>c\<in>set page. candle_wf c) \<longrightarrow> candle_db_wf db')
    \<and> set (candles_1m db) \<subseteq> set (candles_1m db')"
proof -
  obtain db1 where g: "page_guards page t req" and one: "rfoldM insert_candle db page = Inr db1"
    and adv: "advance_sync_state db1 (market_key (hd page)) t req = Inr db'"
    using assms by (rule store_page_steps)
  have req: "req mod 60000 = 0" using g by (simp add: page_guards_def minute_aligned_def)
  note ins = insert_page_Inr [OF one] and ad = advance_Inr [OF adv req]
  have "find_row db' = find_row db1" using ad by (simp add: find_row_def fun_eq_iff)
  with ins ad insert_page_mono [OF one] show ?thesis by simp
qed

lemma store_page_wf:
  "candle_db_wf db \<Longrightarrow> \<forall>c\<in>set page. candle_wf c \<Longrightarrow> store_candle_page page t req db = (r, db') \<Longrightarrow>
    candle_db_wf db'"
proof (cases r)
  case (Inl e)
  assume a: "candle_db_wf db" "store_candle_page page t req db = (r, db')"
  with store_page_Inl show ?thesis by (metis Inl)
next
  case (Inr u)
  assume "candle_db_wf db" "\<forall>c\<in>set page. candle_wf c" "store_candle_page page t req db = (r, db')"
  with store_page_Inr [of page t req db db'] Inr show ?thesis by simp
qed

lemma sync_key_check:
  assumes "candle_wf c" "0 \<le> t" "0 \<le> m" "m mod 60000 = 0"
  shows "sync_row_check (market_key c) (mark_state m t)"
  using candle_wf_check [OF assms(1)] assms(2-)
  by (simp add: sync_row_check_def market_key_def candle_row_check_def mark_state_def)

lemma db_mark_aligned:
  "candle_db_wf db \<Longrightarrow> sync_mark db k = Some e \<Longrightarrow> 0 \<le> e \<and> e mod 60000 = 0"
  by (fastforce simp: candle_db_wf_def sync_mark_def sync_row_check_def dest!: map_of_SomeD)

lemma advance_total:
  assumes "candle_db_wf db" "candle_wf c" "0 \<le> t" "k = market_key c" "req mod 60000 = 0"
  shows "\<exists>db'. advance_sync_state db k t req = Inr db'"
proof (cases "prefix_end req None (market_opens db k req)")
  case None
  then show ?thesis by (simp add: advance_sync_state_def)
next
  case (Some p)
  from prefix_end_sound [OF Some] have "p \<in> set (market_opens db k req)" by auto
  then obtain r where r: "r \<in> set (candles_1m db)" "p = open_time_ms r" by (auto simp: market_opens_set)
  then have "candle_wf r" using assms(1) by (simp add: candle_db_wf_def)
  then have "0 \<le> p \<and> p mod 60000 = 0" using r by (simp add: candle_wf_def)
  then have "0 \<le> next_mark (sync_mark db k) p \<and> next_mark (sync_mark db k) p mod 60000 = 0"
    using db_mark_aligned [OF assms(1)] by (auto simp: next_mark_def max_def split: option.split)
  with assms have "sync_row_check k (mark_state (next_mark (sync_mark db k) p) t)"
    by (simp add: sync_key_check)
  with Some show ?thesis by (simp add: advance_sync_state_def sync_mark_def Let_def)
qed

lemma store_page_total:
  assumes "candle_db_wf db" "page_guards page t req" "\<forall>c\<in>set page. candle_wf c"
    and "page_consistent page" "\<forall>c\<in>set page. agrees (find_row db) c"
  shows "\<exists>db'. store_candle_page page t req db = (Inr (), db')"
proof -
  obtain db1 where one: "rfoldM insert_candle db page = Inr db1"
    using insert_page_total [OF assms(4,3,5)] by auto
  have wf1: "candle_db_wf db1" using insert_page_Inr [OF one] assms(1,3) by auto
  have "candle_wf (hd page)" "0 \<le> t" "req mod 60000 = 0"
    using assms(2,3) by (auto simp: page_guards_def minute_aligned_def)
  from advance_total [OF wf1 this(1,2) refl this(3)] obtain db'
    where "advance_sync_state db1 (market_key (hd page)) t req = Inr db'" by auto
  with one have "store_body page t req db = Inr ((), db')" by (simp add: store_body_def)
  with assms(2) show ?thesis by (auto simp: store_page_body transaction_Inr)
qed

section \<open>Loading what was stored\<close>

lemma row_to_candle_wf: "candle_wf r \<Longrightarrow> row_to_candle r = Inr r"
  by (simp add: row_to_candle_def mk_candle_same)

lemma load_candles_Inr:
  assumes "candle_db_wf db"
  shows "load_candles p m i a b db = (Inr (sort_key open_time_ms
        (filter (\<lambda>r. market_key r = (p, m, i, ''1m'') \<and> a \<le> open_time_ms r \<and> open_time_ms r \<le> b) (candles_1m db))), db)"
proof -
  have "rmapM row_to_candle xs = Inr xs" if "set xs \<subseteq> set (candles_1m db)" for xs
    using that assms rmapM_Inr_map [of xs row_to_candle id]
    by (auto simp: candle_db_wf_def row_to_candle_wf subset_iff)
  then show ?thesis by (simp add: load_candles_def subset_iff)
qed

lemma load_candles_spec:
  assumes "candle_db_wf db"
  shows "\<exists>cs. load_candles p m i a b db = (Inr cs, db) \<and> sorted_wrt (<) (map open_time_ms cs)
    \<and> set cs = {c. \<exists>t. a \<le> t \<and> t \<le> b \<and> find_row db (p, m, i, ''1m'', t) = Some c}"
proof -
  let ?P = "\<lambda>r. market_key r = (p, m, i, ''1m'') \<and> a \<le> open_time_ms r \<and> open_time_ms r \<le> b"
  let ?cs = "sort_key open_time_ms (filter ?P (candles_1m db))"
  have dk: "distinct (map primary_key (candles_1m db))" using assms by (simp add: candle_db_wf_def)
  have "inj_on open_time_ms (set (filter ?P (candles_1m db)))"
    using dk by (auto simp: inj_on_def distinct_map primary_key_def market_key_def)
  moreover have "distinct (filter ?P (candles_1m db))"
    using dk by (simp add: distinct_map)
  ultimately have "distinct (map open_time_ms ?cs)"
    by (simp add: distinct_map)
  then have "sorted_wrt (<) (map open_time_ms ?cs)"
    by (simp add: strict_sorted_iff del: sorted_wrt_map)
  moreover have "set ?cs = {c. \<exists>t. a \<le> t \<and> t \<le> b \<and> find_row db (p, m, i, ''1m'', t) = Some c}"
  proof (intro set_eqI iffI)
    fix c assume "c \<in> set ?cs"
    then have c: "c \<in> set (candles_1m db)" "market_key c = (p, m, i, ''1m'')" "a \<le> open_time_ms c" "open_time_ms c \<le> b"
      by simp_all
    from find_row_member [OF dk c(1)] c(2) have "find_row db (p, m, i, ''1m'', open_time_ms c) = Some c"
      by (simp add: primary_key_def market_key_def)
    with c show "c \<in> {c. \<exists>t. a \<le> t \<and> t \<le> b \<and> find_row db (p, m, i, ''1m'', t) = Some c}" by blast
  next
    fix c assume "c \<in> {c. \<exists>t. a \<le> t \<and> t \<le> b \<and> find_row db (p, m, i, ''1m'', t) = Some c}"
    then show "c \<in> set ?cs" by (auto simp: primary_key_split dest!: find_row_Some)
  qed
  ultimately show ?thesis using load_candles_Inr [OF assms] by blast
qed

section \<open>The repository contract\<close>

definition sqlite_repo :: "candle_db candle_repo" where
  "sqlite_repo = \<lparr>repo_store = store_candle_page, repo_load = load_candles, repo_sync_state = load_sync_state\<rparr>"

interpretation sqlite: candle_repository sqlite_repo candle_db_wf find_row
proof unfold_locales
  fix s k c assume "candle_db_wf s" "find_row s k = Some c"
  then show "candle_wf c \<and> primary_key c = k"
    using find_row_Some [of s k c] by (auto simp: candle_db_wf_def)
next
  fix page t req s u s' assume "repo_store sqlite_repo page t req s = (Inr u, s')"
  then show "page_consistent page \<and> (\<forall>c\<in>set page. agrees (find_row s) c) \<and> find_row s' = merged page (find_row s)"
    using store_page_Inr [of page t req s s'] by (simp add: sqlite_repo_def)
qed (auto simp: sqlite_repo_def load_sync_state_def intro: load_candles_spec store_page_wf store_page_Inl
    store_page_total)

section \<open>Properties of the store\<close>

definition sample_page :: "candle list" where
  "sample_page = [sample_minute 0 ''10'' ''12'' ''9.5'' ''11'', sample_minute 1 ''11'' ''13'' ''10'' ''12'']"

lemma sample_page_wf: "\<forall>c\<in>set sample_page. candle_wf c"
proof -
  have "list_all (\<lambda>c. mk_candle (raw_of c) = Inr c) sample_page" by code_simp
  then show ?thesis by (auto simp: list_all_iff intro: sample_wf)
qed

lemma empty_db_wf: "candle_db_wf empty_candle_db"
  by (simp add: candle_db_wf_def empty_candle_db_def)

lemma sample_stored: "\<exists>db. store_candle_page sample_page 5 0 empty_candle_db = (Inr (), db)"
proof (rule store_page_total [OF empty_db_wf _ sample_page_wf])
  show "page_guards sample_page 5 0" by code_simp
  show "page_consistent sample_page" by (simp add: page_consistent_def sample_page_def sample_minute_def primary_key_def)
  show "\<forall>c\<in>set sample_page. agrees (find_row empty_candle_db) c"
    by (simp add: agrees_def find_row_def empty_candle_db_def)
qed

text \<open>C16: The row of every constructed candle satisfies all CHECK constraints
  of the candle table: a valid page is never refused by the schema.\<close>

theorem candle_rows_satisfy_checks:
  assumes "mk_candle rc = Inr c"
  shows "candle_row_check c \<and> candle_row_check (row_of c)"
  using mk_candle_wf [OF assms] candle_wf_check row_of_wf by blast

theorem candle_rows_satisfy_checks_witness:
  "candle_row_check (sample_minute 0 ''10'' ''12'' ''9.5'' ''11'')"
proof -
  have "mk_candle (raw_of (sample_minute 0 ''10'' ''12'' ''9.5'' ''11'')) = Inr (sample_minute 0 ''10'' ''12'' ''9.5'' ''11'')"
    by code_simp
  from candle_rows_satisfy_checks [OF this] show ?thesis by simp
qed

text \<open>C7: Storing a page either fails and leaves every table as it was, or succeeds;
  then the page agrees with itself and with the old rows, and the table is the old rows overlaid
  with the page's, so that no stored row was changed.\<close>

theorem store_page_atomic:
  assumes "store_candle_page page t req db = (r, db')"
  shows "case r of Inl e \<Rightarrow> db' = db
    | Inr _ \<Rightarrow> page_guards page t req \<and> page_consistent page \<and> find_row db' = merged page (find_row db)
        \<and> (\<forall>k c. find_row db k = Some c \<longrightarrow> find_row db' k = Some c)"
proof (cases r)
  case (Inl e)
  with assms show ?thesis by (simp add: store_page_Inl)
next
  case (Inr u)
  with assms have a: "store_candle_page page t req db = (Inr (), db')" by simp
  have "find_row db' k = Some c" if "find_row db k = Some c" for k c
    by (rule sqlite.store_keeps [OF _ that]) (use a in \<open>simp add: sqlite_repo_def\<close>)
  with Inr store_page_Inr [OF a] store_page_guards [OF a] show ?thesis by simp
qed

theorem store_page_atomic_witness:
  "\<exists>db. store_candle_page sample_page 5 0 empty_candle_db = (Inr (), db)
    \<and> find_row db = merged sample_page (find_row empty_candle_db)"
proof -
  from sample_stored obtain db where db: "store_candle_page sample_page 5 0 empty_candle_db = (Inr (), db)" ..
  from store_page_atomic [OF db] db show ?thesis by auto
qed

text \<open>Loading a range after a page of constructed candles was stored returns, in
  ascending order, every candle of the page that lies in the range.\<close>

theorem store_then_load:
  assumes "candle_db_wf db" "\<forall>c\<in>set page. candle_wf c"
    and "store_candle_page page t req db = (Inr (), db')"
  shows "\<exists>cs. load_candles p m i a b db' = (Inr cs, db') \<and> sorted_wrt (<) (map open_time_ms cs)
    \<and> (\<forall>c\<in>set page. market_key c = (p, m, i, ''1m'') \<and> a \<le> open_time_ms c \<and> open_time_ms c \<le> b \<longrightarrow> row_of c \<in> set cs)"
proof -
  have st: "repo_store sqlite_repo page t req db = (Inr (), db')" using assms(3) by (simp add: sqlite_repo_def)
  have "candle_db_wf db'" using assms store_page_wf by blast
  from load_candles_spec [OF this, of p m i a b] obtain cs where
    cs: "load_candles p m i a b db' = (Inr cs, db')" "sorted_wrt (<) (map open_time_ms cs)"
      "set cs = {c. \<exists>t. a \<le> t \<and> t \<le> b \<and> find_row db' (p, m, i, ''1m'', t) = Some c}" by blast
  have "row_of c \<in> set cs"
    if "c \<in> set page" "market_key c = (p, m, i, ''1m'')" "a \<le> open_time_ms c" "open_time_ms c \<le> b" for c
  proof -
    have "primary_key c = (p, m, i, ''1m'', open_time_ms c)"
      using that(2) by (simp add: primary_key_def market_key_def)
    with sqlite.store_present [OF st that(1)] that(3,4) show ?thesis by (auto simp: cs(3))
  qed
  with cs(1,2) show ?thesis by blast
qed

theorem store_then_load_witness:
  "\<exists>db cs. load_candles ''okx_swap'' market_type_name ''CRYPTO-BTC-USDT-PERP'' 0 60000 db = (Inr cs, db)
    \<and> row_of (sample_minute 1 ''11'' ''13'' ''10'' ''12'') \<in> set cs"
proof -
  from sample_stored obtain db where db: "store_candle_page sample_page 5 0 empty_candle_db = (Inr (), db)" ..
  from store_then_load [OF empty_db_wf sample_page_wf db, of "''okx_swap''" market_type_name "''CRYPTO-BTC-USDT-PERP''" 0 60000]
  show ?thesis by (auto simp: sample_page_def sample_minute_def market_key_def)
qed

text \<open>A page of constructed candles that was stored can be stored again, and
  the second time changes no row.\<close>

theorem store_page_idempotent:
  assumes "candle_db_wf db" "\<forall>c\<in>set page. candle_wf c"
    and "store_candle_page page t req db = (Inr (), db')"
  shows "\<exists>db''. store_candle_page page t req db' = (Inr (), db'') \<and> find_row db'' = find_row db'"
  using sqlite.store_again [of page t req db "()" db' t req] assms store_page_guards [OF assms(3)]
  by (simp add: sqlite_repo_def)

theorem store_page_idempotent_witness:
  "\<exists>db db''. store_candle_page sample_page 5 0 db = (Inr (), db'') \<and> find_row db'' = find_row db"
proof -
  from sample_stored obtain db where db: "store_candle_page sample_page 5 0 empty_candle_db = (Inr (), db)" ..
  from store_page_idempotent [OF empty_db_wf sample_page_wf db] show ?thesis by blast
qed

text \<open>The prefix mark of a market never moves backwards, and it never moves
  over a missing minute: if all minutes from some start to the mark were stored, all minutes from
  that start to the new mark are stored; a first mark is reached without a gap from the required
  start.\<close>

theorem sync_mark_hides_no_gap:
  assumes "candle_db_wf db" "store_candle_page page t req db = (Inr (), db')" "k = market_key (hd page)"
  shows "case sync_mark db k of
      None \<Rightarrow> (\<forall>e. sync_mark db' k = Some e \<longrightarrow> contiguous db' k req e)
    | Some e \<Rightarrow> (\<exists>e'. sync_mark db' k = Some e' \<and> e \<le> e' \<and> (\<forall>a. contiguous db k a e \<longrightarrow> contiguous db' k a e'))"
proof -
  obtain db1 where g: "page_guards page t req" and one: "rfoldM insert_candle db page = Inr db1"
    and adv: "advance_sync_state db1 k t req = Inr db'"
    using assms(2,3) store_page_steps by metis
  have req: "req mod 60000 = 0" using g by (simp add: page_guards_def minute_aligned_def)
  note ad = advance_Inr [OF adv req]
  have m1: "sync_mark db1 k = sync_mark db k" using insert_page_Inr [OF one] by (simp add: sync_mark_def)
  have sub: "set (candles_1m db) \<subseteq> set (candles_1m db1)" by (rule insert_page_mono [OF one])
  have db1': "contiguous db1 k' a e \<longleftrightarrow> contiguous db' k' a e" for k' a e
    using ad by (simp add: contiguous_def has_minute_def)
  show ?thesis
  proof (cases "sync_mark db k")
    case None
    with ad m1 db1' show ?thesis by auto
  next
    case (Some e)
    have al: "e mod 60000 = 0" using db_mark_aligned [OF assms(1) Some] by simp
    from ad m1 Some consider (same) "sync_mark db' k = Some e"
      | (moved) p where "contiguous db1 k req p" "req \<le> e + 60000" "sync_mark db' k = Some (max p e)" by auto
    then show ?thesis
    proof cases
      case same
      have "contiguous db' k a e" if "contiguous db k a e" for a
        using contiguous_mono [OF that sub] db1' by blast
      with same Some show ?thesis by auto
    next
      case moved
      have "contiguous db' k a (max p e)" if c: "contiguous db k a e" for a
        unfolding contiguous_def
      proof (intro allI impI)
        fix u assume u: "a \<le> u \<and> u \<le> max p e \<and> minute_aligned u"
        show "has_minute db' k u"
        proof (cases "u \<le> e")
          case True
          with u contiguous_mono [OF c sub] db1' show ?thesis unfolding contiguous_def by blast
        next
          case False
          have "(u - e) mod 60000 = 0" using u al by (simp add: minute_aligned_def mod_0_imp_dvd)
          then have "e + 60000 \<le> u" using grid_step [of u e 60000] False by simp
          then have "req \<le> u" using moved(2) by simp
          moreover have "u \<le> p" using u False by (simp add: le_max_iff_disj)
          ultimately show ?thesis using moved(1) u db1' unfolding contiguous_def by blast
        qed
      qed
      with moved(3) Some show ?thesis by auto
    qed
  qed
qed

theorem sync_mark_hides_no_gap_witness:
  "\<exists>db. \<forall>e. sync_mark db (market_key (hd sample_page)) = Some e \<longrightarrow> contiguous db (market_key (hd sample_page)) 0 e"
proof -
  from sample_stored obtain db where db: "store_candle_page sample_page 5 0 empty_candle_db = (Inr (), db)" ..
  from sync_mark_hides_no_gap [OF empty_db_wf db refl] show ?thesis
    by (auto simp: sync_mark_def empty_candle_db_def)
qed

end
