(* ===== verification/MarketSync.thy ===== *)
theory MarketSync
  imports CandleStore
begin

text \<open>
  Synchronising a range of minutes (\<^verbatim>\<open>application/market_sync.py\<close>) and the provider port it uses
  (\<^verbatim>\<open>application/ports/market_data.py\<close>). The provider is a record of calls over a world of its own,
  the repository a record of calls over its store; an exception keeps the effects made before it.
  The page loop narrows the requested range on every page, so it terminates for every provider.
\<close>

section \<open>The provider port\<close>

record instrument_mapping =
  im_instrument_id :: string
  im_provider_symbol :: string

definition mk_mapping :: "instrument_mapping \<Rightarrow> instrument_mapping result" where
  "mk_mapping m =
     rbind (instrument_id (im_instrument_id m)) (\<lambda>_.
     rbind (rguard (1 \<le> length (im_provider_symbol m) \<and> length (im_provider_symbol m) \<le> 64) ValueError
              ''invalid provider symbol'') (\<lambda>_. Inr m))"

record kline_request =
  rq_provider_id :: string
  rq_market_type :: string
  rq_instrument_id :: string
  rq_provider_symbol :: string
  rq_interval :: string
  rq_start :: int
  rq_end :: int

definition mk_request :: "kline_request \<Rightarrow> kline_request result" where
  "mk_request r =
     rbind (rguard (rq_provider_id r \<noteq> []) ValueError ''provider ID is required'') (\<lambda>_.
     rbind (rguard (rq_market_type r = market_type_name) ValueError
              ''market type must be LINEAR_PERPETUAL'') (\<lambda>_.
     rbind (instrument_id (rq_instrument_id r)) (\<lambda>_.
     rbind (rguard (1 \<le> length (rq_provider_symbol r) \<and> length (rq_provider_symbol r) \<le> 64) ValueError
              ''invalid provider symbol'') (\<lambda>_.
     rbind (rguard (rq_interval r = ''1m'') ValueError ''provider requests use canonical 1m only'') (\<lambda>_.
     rbind (rguard (\<not> (rq_start r < 0 \<or> rq_start r mod 60000 \<noteq> 0)) ValueError
              ''request start must align to one minute'') (\<lambda>_.
     rbind (rguard (\<not> (rq_end r < rq_start r \<or> rq_end r mod 60000 \<noteq> 0)) ValueError
              ''request end must be aligned and not precede start'') (\<lambda>_.
     Inr r)))))))"

record kline_page =
  pg_candles :: "candle list"
  pg_next :: "int option"
  pg_complete :: bool

definition mk_page :: "kline_page \<Rightarrow> kline_page result" where
  "mk_page p = rbind (rguard (pg_complete p \<or> pg_candles p \<noteq> []) ValueError
     ''a non-complete page must make progress'') (\<lambda>_. Inr p)"

record 'w kline_provider =
  pv_id :: string
  pv_validate :: "instrument_mapping \<Rightarrow> ('w, unit) op"
  pv_server_time :: "('w, int) op"
  pv_latest_closed :: "('w, int) op"
  pv_fetch :: "kline_request \<Rightarrow> ('w, kline_page) op"

text \<open>Calls on one half of the world and store.\<close>

definition on_world :: "('w, 'a) op \<Rightarrow> ('w \<times> 's, 'a) op" where
  "on_world m ws = (case m (fst ws) of (r, w') \<Rightarrow> (r, (w', snd ws)))"

definition on_store :: "('s, 'a) op \<Rightarrow> ('w \<times> 's, 'a) op" where
  "on_store m ws = (case m (snd ws) of (r, s') \<Rightarrow> (r, (fst ws, s')))"

lemma on_world_Inr: "on_world m (w, s) = (r, (w', s')) \<longleftrightarrow> m w = (r, w') \<and> s' = s"
  by (auto simp: on_world_def split: prod.splits)

lemma on_store_Inr: "on_store m (w, s) = (r, (w', s')) \<longleftrightarrow> m s = (r, s') \<and> w' = w"
  by (auto simp: on_store_def split: prod.splits)

section \<open>Checks\<close>

text \<open>
  Equality of candle objects: mappings compare without regard to the order of their keys.
\<close>

definition same_candle :: "candle \<Rightarrow> candle \<Rightarrow> bool" where
  "same_candle a b \<longleftrightarrow> row_of a = row_of b"

definition page_candle_ok :: "kline_request \<Rightarrow> candle \<Rightarrow> bool" where
  "page_candle_ok rq c \<longleftrightarrow>
     \<not> (provider_id c \<noteq> rq_provider_id rq \<or> market_type c \<noteq> rq_market_type rq
        \<or> c_instrument_id c \<noteq> rq_instrument_id rq \<or> provider_symbol c \<noteq> rq_provider_symbol rq
        \<or> c_interval c \<noteq> rq_interval rq
        \<or> \<not> (rq_start rq \<le> open_time_ms c \<and> open_time_ms c \<le> rq_end rq))"

type_synonym keyed = "(candle_key, candle) dict"

definition unique_step ::
    "kline_request \<Rightarrow> candle list \<times> keyed \<Rightarrow> candle \<Rightarrow> (candle list \<times> keyed) result" where
  "unique_step rq st c = (case st of (unique, by_key) \<Rightarrow>
     if \<not> page_candle_ok rq c then
       raise ValueError ''provider candle identity or bounds do not match the request''
     else case dict_get by_key (primary_key c) of
       Some old \<Rightarrow> if \<not> same_candle old c then
           raise ValueError ''provider page contains a conflicting duplicate'' else Inr (unique, by_key)
     | None \<Rightarrow> Inr (unique @ [c], dict_set (primary_key c) c by_key))"

definition validate_page :: "kline_request \<Rightarrow> kline_page \<Rightarrow> candle list result" where
  "validate_page rq page =
     rbind (rfoldM (unique_step rq) ([], []) (pg_candles page)) (\<lambda>(unique, _).
     rbind (rguard (unique \<noteq> []) ValueError ''provider page did not make candle progress'') (\<lambda>_.
     rbind (rguard (map open_time_ms unique = sort (map open_time_ms unique)) ValueError
              ''provider page is non-monotonic'') (\<lambda>_.
     rbind (rguard (adjacent (\<lambda>left right. open_time_ms right = open_time_ms left + 60000) unique) ValueError
              ''provider page is not contiguous'') (\<lambda>_.
     Inr unique))))"

definition existing_ok :: "string \<Rightarrow> instrument_mapping \<Rightarrow> candle \<Rightarrow> bool" where
  "existing_ok pid m c \<longleftrightarrow>
     \<not> (provider_id c \<noteq> pid \<or> market_type c \<noteq> market_type_name \<or> c_instrument_id c \<noteq> im_instrument_id m
        \<or> provider_symbol c \<noteq> im_provider_symbol m \<or> c_interval c \<noteq> ''1m'')"

definition validate_existing :: "string \<Rightarrow> instrument_mapping \<Rightarrow> candle list \<Rightarrow> unit result" where
  "validate_existing pid m cs = rguard (list_all (existing_ok pid m) cs) ValueError
     ''stored candle identity does not match the requested market''"

text \<open>Python's \<^verbatim>\<open>range(start, end + 1, 60_000)\<close>.\<close>

definition minutes :: "int \<Rightarrow> int \<Rightarrow> int list" where
  "minutes a b = py_range a (b + 1) 60000"

definition validate_sync_state :: "sync_state option \<Rightarrow> int \<Rightarrow> int list \<Rightarrow> unit result" where
  "validate_sync_state st start present =
     (case st of None \<Rightarrow> Inr ()
      | Some x \<Rightarrow> if last_completed_open_time_ms x < start then Inr ()
          else rguard (list_all (\<lambda>t. t \<in> set present) (minutes start (last_completed_open_time_ms x)))
                 ValueError ''sync state hides a canonical candle gap'')"

fun missing_step :: "int list \<Rightarrow> (int \<times> int) list \<times> int option \<Rightarrow> int \<Rightarrow> (int \<times> int) list \<times> int option" where
  "missing_step present (ranges, start) t =
     (let start' = (if t \<notin> set present \<and> start = None then Some t else start)
      in if t \<in> set present \<and> start' \<noteq> None then (ranges @ [(the start', t - 60000)], None)
         else (ranges, start'))"

definition missing_ranges :: "int \<Rightarrow> int \<Rightarrow> int list \<Rightarrow> (int \<times> int) list" where
  "missing_ranges start stop present =
     (case foldl (missing_step present) ([], None) (minutes start stop) of
        (ranges, None) \<Rightarrow> ranges
      | (ranges, Some m) \<Rightarrow> ranges @ [(m, stop)])"

section \<open>The page loop\<close>

definition accept_step :: "keyed \<Rightarrow> candle \<Rightarrow> keyed result" where
  "accept_step accepted c =
     (case dict_get accepted (primary_key c) of
        Some old \<Rightarrow> if \<not> same_candle old c then
            raise ValueError ''provider page contains a conflicting duplicate''
          else Inr (dict_set (primary_key c) c accepted)
      | None \<Rightarrow> Inr (dict_set (primary_key c) c accepted))"

definition next_range :: "candle list \<Rightarrow> int \<Rightarrow> int \<Rightarrow> int \<Rightarrow> (int \<times> int) result" where
  "next_range candles cursor cur_start cur_end =
     (if cursor = open_time_ms (last candles) + 60000 \<and> cursor \<le> cur_end then Inr (cursor, cur_end)
      else if cursor = open_time_ms (hd candles) - 60000 \<and> cur_start \<le> cursor then Inr (cur_start, cursor)
      else raise ValueError ''provider page cursor is outside bounded progress'')"

definition sync_request :: "string \<Rightarrow> instrument_mapping \<Rightarrow> int \<Rightarrow> int \<Rightarrow> kline_request" where
  "sync_request pid m a b =
     \<lparr>rq_provider_id = pid, rq_market_type = market_type_name, rq_instrument_id = im_instrument_id m,
      rq_provider_symbol = im_provider_symbol m, rq_interval = ''1m'', rq_start = a, rq_end = b\<rparr>"

lemma mk_request_Inr:
  "mk_request r = Inr q \<Longrightarrow> q = r \<and> 0 \<le> rq_start r \<and> rq_start r \<le> rq_end r
    \<and> minute_aligned (rq_start r) \<and> minute_aligned (rq_end r)"
  by (auto simp: mk_request_def minute_aligned_def)

lemma unique_fold:
  assumes "rfoldM (unique_step rq) ([], []) cs = Inr (u, k)"
  shows "(\<forall>c\<in>set u. page_candle_ok rq c) \<and> set u \<subseteq> set cs
    \<and> (\<forall>c\<in>set cs. \<exists>d\<in>set u. primary_key d = primary_key c \<and> same_candle d c)
    \<and> distinct (map primary_key u) \<and> k = map (\<lambda>c. (primary_key c, c)) u"
  using assms
proof (induction cs arbitrary: u k rule: rev_induct)
  case Nil
  then show ?case by simp
next
  case (snoc c cs)
  from snoc.prems obtain u0 k0 where f: "rfoldM (unique_step rq) ([], []) cs = Inr (u0, k0)"
    and st: "unique_step rq (u0, k0) c = Inr (u, k)"
    by (auto simp: rfoldM_append)
  note ih = snoc.IH [OF f]
  from st have ok: "page_candle_ok rq c" by (auto simp: unique_step_def split: if_splits)
  have k0: "k0 = map (\<lambda>c. (primary_key c, c)) u0" using ih by blast
  have keys: "set (dict_keys k0) = primary_key ` set u0" by (force simp: k0)
  show ?case
  proof (cases "dict_get k0 (primary_key c)")
    case None
    then have fresh: "primary_key c \<notin> primary_key ` set u0" "primary_key c \<notin> set (dict_keys k0)"
      using keys by (simp_all add: map_of_eq_None_iff)
    from None st ok have u: "u = u0 @ [c]" and "k = dict_set (primary_key c) c k0"
      by (simp_all add: unique_step_def)
    then have k: "k = map (\<lambda>c. (primary_key c, c)) u"
      using dict_set_fresh [OF fresh(2)] k0 by simp
    have "distinct (map primary_key u)" using ih fresh(1) by (simp add: u)
    moreover have "\<forall>x\<in>set (cs @ [c]). \<exists>d\<in>set u. primary_key d = primary_key x \<and> same_candle d x"
      using ih unfolding u by (auto simp: same_candle_def)
    ultimately show ?thesis using ih ok k by (auto simp: u)
  next
    case (Some old)
    then have "(primary_key c, old) \<in> set k0" by (rule map_of_SomeD)
    then have old: "old \<in> set u0" "primary_key old = primary_key c" by (auto simp: k0)
    from Some st ok have u: "u = u0" "k = k0" "same_candle old c"
      by (auto simp: unique_step_def split: if_splits)
    with ih old show ?thesis by auto
  qed
qed

lemma validate_page_Inr:
  assumes "validate_page rq page = Inr cs"
  shows "cs \<noteq> [] \<and> (\<forall>c\<in>set cs. page_candle_ok rq c) \<and> set cs \<subseteq> set (pg_candles page)
    \<and> adjacent (\<lambda>left right. open_time_ms right = open_time_ms left + 60000) cs
    \<and> distinct (map primary_key cs)"
  using assms unique_fold by (fastforce simp: validate_page_def)

lemma next_range_shrinks:
  assumes "next_range cs c a b = Inr (a', b')" "cs \<noteq> []"
    and "\<forall>x\<in>set cs. a \<le> open_time_ms x \<and> open_time_ms x \<le> b"
  shows "(a' = c \<and> b' = b \<and> a + 60000 \<le> c \<and> c \<le> b \<and> c = open_time_ms (last cs) + 60000)
    \<or> (a' = a \<and> b' = c \<and> a \<le> c \<and> c + 60000 \<le> b \<and> c = open_time_ms (hd cs) - 60000)"
proof -
  have "a \<le> open_time_ms (last cs)" "open_time_ms (hd cs) \<le> b"
    using assms(2,3) last_in_set hd_in_set by blast+
  with assms(1) show ?thesis by (auto simp: next_range_def split: if_splits)
qed

lemma page_candle_bounds: "page_candle_ok rq c \<Longrightarrow> rq_start rq \<le> open_time_ms c \<and> open_time_ms c \<le> rq_end rq"
  by (simp add: page_candle_ok_def)

lemma sync_step_shrinks:
  assumes "mk_request (sync_request pid m a b) = Inr rq" "validate_page rq page = Inr cs"
    and "next_range cs c a b = Inr ab"
  shows "nat (snd ab - fst ab + 1) < nat (b - a + 1)"
proof -
  from assms(1) have ab: "a \<le> b" "rq_start rq = a" "rq_end rq = b"
    by (auto dest!: mk_request_Inr simp: sync_request_def)
  have "\<forall>x\<in>set cs. a \<le> open_time_ms x \<and> open_time_ms x \<le> b"
    using validate_page_Inr [OF assms(2)] page_candle_bounds ab by blast
  moreover have "next_range cs c a b = Inr (fst ab, snd ab)" using assms(3) by simp
  ultimately show ?thesis
    using next_range_shrinks [of cs c a b "fst ab" "snd ab"] validate_page_Inr [OF assms(2)] ab by linarith
qed

text \<open>One turn of the loop: it ends with what was accepted, or goes on in a narrower range.\<close>

datatype turn = Done keyed | Again int int "int list" keyed

definition after_page :: "kline_page \<Rightarrow> candle list \<Rightarrow> int \<Rightarrow> int \<Rightarrow> int list \<Rightarrow> keyed \<Rightarrow> turn result" where
  "after_page page cs a b cursors acc =
     (if pg_complete page then Inr (Done acc)
      else case pg_next page of
          None \<Rightarrow> raise ValueError ''provider page cursor did not make progress''
        | Some c \<Rightarrow>
            if c \<in> set cursors then raise ValueError ''provider page cursor did not make progress''
            else rbind (next_range cs c a b) (\<lambda>(a', b'). Inr (Again a' b' (cursors @ [c]) acc)))"

definition sync_page ::
    "'w kline_provider \<Rightarrow> 's candle_repo \<Rightarrow> instrument_mapping \<Rightarrow> int \<Rightarrow> int \<Rightarrow> int \<Rightarrow> int \<Rightarrow> int list
      \<Rightarrow> keyed \<Rightarrow> ('w \<times> 's, turn) op" where
  "sync_page pv repo m t req a b cursors acc =
     sbind (slift (mk_request (sync_request (pv_id pv) m a b))) (\<lambda>rq.
     sbind (on_world (pv_fetch pv rq)) (\<lambda>page.
     sbind (slift (validate_page rq page)) (\<lambda>cs.
     sbind (slift (rfoldM accept_step acc cs)) (\<lambda>acc'.
     sbind (on_store (repo_store repo cs t req)) (\<lambda>_.
     slift (after_page page cs a b cursors acc'))))))"

lemma sync_page_Inr:
  assumes "sync_page pv repo m t req a b cursors acc (w, s) = (Inr x, (w', s'))"
  obtains rq page cs acc' where "mk_request (sync_request (pv_id pv) m a b) = Inr rq"
    and "pv_fetch pv rq w = (Inr page, w')" and "validate_page rq page = Inr cs"
    and "rfoldM accept_step acc cs = Inr acc'" and "repo_store repo cs t req s = (Inr (), s')"
    and "after_page page cs a b cursors acc' = Inr x"
  using assms that
  by (auto simp: sync_page_def sbind_Inr on_world_Inr on_store_Inr)

lemma after_page_Again:
  "after_page page cs a b cursors acc = Inr (Again a' b' cursors' acc') \<Longrightarrow>
    \<exists>c. next_range cs c a b = Inr (a', b') \<and> c \<notin> set cursors \<and> cursors' = cursors @ [c] \<and> acc' = acc"
  by (auto simp: after_page_def split: if_splits option.splits)

lemma sync_page_shrinks:
  assumes "sync_page pv repo m t req a b cursors acc ws = (Inr (Again a' b' cursors' acc'), ws')"
  shows "nat (b' - a' + 1) < nat (b - a + 1)"
proof -
  obtain w s w' s' where "ws = (w, s)" "ws' = (w', s')" by fastforce
  with assms obtain rq page cs acc0 where "mk_request (sync_request (pv_id pv) m a b) = Inr rq"
    and "validate_page rq page = Inr cs"
    and "after_page page cs a b cursors acc0 = Inr (Again a' b' cursors' acc')"
    by (auto elim: sync_page_Inr)
  with after_page_Again sync_step_shrinks show ?thesis by fastforce
qed

function sync_loop ::
    "'w kline_provider \<Rightarrow> 's candle_repo \<Rightarrow> instrument_mapping \<Rightarrow> int \<Rightarrow> int \<Rightarrow> int \<Rightarrow> int \<Rightarrow> int list
      \<Rightarrow> keyed \<Rightarrow> ('w \<times> 's, keyed) op" where
  "sync_loop pv repo m t req a b cursors acc ws =
     (case sync_page pv repo m t req a b cursors acc ws of
        (Inl e, ws') \<Rightarrow> (Inl e, ws')
      | (Inr (Done acc'), ws') \<Rightarrow> (Inr acc', ws')
      | (Inr (Again a' b' cursors' acc'), ws') \<Rightarrow> sync_loop pv repo m t req a' b' cursors' acc' ws')"
  by pat_completeness auto
termination
proof (relation "measure (\<lambda>(pv, repo, m, t, req, a, b, cursors, acc, ws). nat (b - a + 1))")
  fix pv :: "'w kline_provider" and repo :: "'s candle_repo" and m t req a b cursors acc ws a' b' cursors' acc' q ws' u
  assume "(q, ws') = sync_page pv repo m t req a b cursors acc ws" "q = Inr u" "u = Again a' b' cursors' acc'"
  then have "sync_page pv repo m t req a b cursors acc ws = (Inr (Again a' b' cursors' acc'), ws')" by simp
  from sync_page_shrinks [OF this]
  show "((pv, repo, m, t, req, a', b', cursors', acc', ws'), pv, repo, m, t, req, a, b, cursors, acc, ws)
      \<in> measure (\<lambda>(pv, repo, m, t, req, a, b, cursors, acc, ws). nat (b - a + 1))" by simp
qed simp

declare sync_loop.simps [simp del]

lemma sync_loop_induct:
  assumes run: "sync_loop pv repo m t req a b cursors acc ws = (r, ws')"
    and start: "P a b cursors acc ws"
    and again: "\<And>a b cursors acc ws a' b' cursors' acc' ws'. P a b cursors acc ws \<Longrightarrow>
      sync_page pv repo m t req a b cursors acc ws = (Inr (Again a' b' cursors' acc'), ws') \<Longrightarrow>
      P a' b' cursors' acc' ws'"
    and finish: "\<And>a b cursors acc ws acc' ws'. P a b cursors acc ws \<Longrightarrow>
      sync_page pv repo m t req a b cursors acc ws = (Inr (Done acc'), ws') \<Longrightarrow> Q (Inr acc') ws'"
    and fail: "\<And>a b cursors acc ws e ws'. P a b cursors acc ws \<Longrightarrow>
      sync_page pv repo m t req a b cursors acc ws = (Inl e, ws') \<Longrightarrow> Q (Inl e) ws'"
  shows "Q r ws'"
  using run start
proof (induction "nat (b - a + 1)" arbitrary: a b cursors acc ws rule: less_induct)
  case less
  obtain q ws1 where q: "sync_page pv repo m t req a b cursors acc ws = (q, ws1)"
    by (cases "sync_page pv repo m t req a b cursors acc ws")
  show ?case
  proof (cases q)
    case (Inl e)
    with q less.prems(1) have "r = Inl e" "ws' = ws1" by (simp_all add: sync_loop.simps)
    with fail less.prems(2) q Inl show ?thesis by simp
  next
    case (Inr x)
    show ?thesis
    proof (cases x)
      case (Done acc')
      with q Inr less.prems(1) have "r = Inr acc'" "ws' = ws1" by (simp_all add: sync_loop.simps)
      with finish less.prems(2) q Inr Done show ?thesis by simp
    next
      case (Again a' b' cursors' acc')
      with q Inr less.prems have "sync_loop pv repo m t req a' b' cursors' acc' ws1 = (r, ws')"
        by (simp add: sync_loop.simps)
      with q Inr Again less.prems show ?thesis
        by (intro less.hyps [OF _ _ again]) (auto dest: sync_page_shrinks)
    qed
  qed
qed

section \<open>The service\<close>

definition sync_missing_range ::
    "'w kline_provider \<Rightarrow> 's candle_repo \<Rightarrow> instrument_mapping \<Rightarrow> int \<Rightarrow> int \<Rightarrow> int \<times> int \<Rightarrow> ('w \<times> 's, unit) op" where
  "sync_missing_range pv repo m t req ab =
     sbind (sync_loop pv repo m t req (fst ab) (snd ab) [] []) (\<lambda>accepted.
       sguard (map open_time_ms (sort_key open_time_ms (map snd accepted)) = minutes (fst ab) (snd ab))
         ValueError ''completed provider range is not contiguous'')"

definition load_market ::
    "'w kline_provider \<Rightarrow> 's candle_repo \<Rightarrow> instrument_mapping \<Rightarrow> int \<Rightarrow> int \<Rightarrow> ('w \<times> 's, candle list) op" where
  "load_market pv repo m a b =
     on_store (repo_load repo (pv_id pv) market_type_name (im_instrument_id m) a b)"

definition sync_range ::
    "'w kline_provider \<Rightarrow> 's candle_repo \<Rightarrow> instrument_mapping \<Rightarrow> int \<Rightarrow> int \<Rightarrow> ('w \<times> 's, candle list) op" where
  "sync_range pv repo m a b =
     sbind (on_world (pv_validate pv m)) (\<lambda>_.
     sbind (on_world (pv_server_time pv)) (\<lambda>t.
     sbind (on_world (pv_latest_closed pv)) (\<lambda>latest.
     sbind (sguard (\<not> b > latest) ValueError ''requested range includes an open canonical minute'') (\<lambda>_.
     sbind (load_market pv repo m a b) (\<lambda>existing.
     sbind (slift (validate_existing (pv_id pv) m existing)) (\<lambda>_.
     sbind (on_store (repo_sync_state repo (pv_id pv) market_type_name (im_instrument_id m))) (\<lambda>st.
     sbind (slift (validate_sync_state st a (map open_time_ms existing))) (\<lambda>_.
     sbind (sfor (sync_missing_range pv repo m t a) (missing_ranges a b (map open_time_ms existing))) (\<lambda>_.
     sbind (load_market pv repo m a b) (\<lambda>ordered.
     sbind (slift (validate_existing (pv_id pv) m ordered)) (\<lambda>_.
     sbind (sguard (map open_time_ms ordered = minutes a b)
              ValueError ''completed provider range is not contiguous'') (\<lambda>_.
     sreturn ordered))))))))))))"

section \<open>The missing ranges\<close>

lemma minutes_grid: "minutes a b = grid a 60000 (nat ((b - a) div 60000 + 1))"
proof -
  have "b + 1 - a + 60000 - 1 = (b - a) + 60000" by simp
  then have "(b + 1 - a + 60000 - 1) div 60000 = (b - a) div 60000 + 1"
    by (simp only: div_add_self2)
  then show ?thesis by (simp only: minutes_def py_range_def grid_def)
qed

lemma grid_Suc: "grid a d (Suc n) = grid a d n @ [a + int n * d]"
  by (simp add: grid_def)

text \<open>What the fold has collected after \<open>n\<close> minutes.\<close>

definition open_range :: "int \<Rightarrow> nat \<Rightarrow> int option \<Rightarrow> int list \<Rightarrow> bool" where
  "open_range a n start tail \<longleftrightarrow> (case start of None \<Rightarrow> tail = []
     | Some m \<Rightarrow> \<exists>i<n. m = a + int i * 60000 \<and> tail = grid m 60000 (n - i))"

definition range_minutes :: "int \<times> int \<Rightarrow> int list" where
  "range_minutes ab = minutes (fst ab) (snd ab)"

lemma missing_fold:
  assumes "foldl (missing_step present) ([], None) (grid a 60000 n) = (ranges, start)"
  shows "\<exists>tail. concat (map range_minutes ranges) @ tail = filter (\<lambda>t. t \<notin> set present) (grid a 60000 n)
    \<and> open_range a n start tail \<and> list_all (\<lambda>(x, y). x \<le> y \<and> y + 60000 \<in> set present) ranges"
  using assms
proof (induction n arbitrary: ranges start)
  case 0
  then show ?case by (simp add: grid_def open_range_def)
next
  case (Suc n)
  obtain ranges0 start0 where f: "foldl (missing_step present) ([], None) (grid a 60000 n) = (ranges0, start0)"
    by fastforce
  let ?t = "a + int n * 60000"
  have st: "missing_step present (ranges0, start0) ?t = (ranges, start)"
    using Suc.prems f by (simp add: grid_Suc del: missing_step.simps)
  from Suc.IH [OF f] obtain tail0 where
    c: "concat (map range_minutes ranges0) @ tail0 = filter (\<lambda>t. t \<notin> set present) (grid a 60000 n)"
    and o: "open_range a n start0 tail0"
    and l: "list_all (\<lambda>(x, y). x \<le> y \<and> y + 60000 \<in> set present) ranges0" by blast
  show ?case
  proof (cases start0)
    case None
    with o have "tail0 = []" by (simp add: open_range_def)
    with None st c l show ?thesis
      by (auto simp: open_range_def grid_Suc grid_def [of ?t] intro!: exI [of _ "if ?t \<in> set present then [] else [?t]"]
          split: if_splits)
  next
    case (Some m)
    with o obtain i where i: "i < n" "m = a + int i * 60000" "tail0 = grid m 60000 (n - i)"
      by (auto simp: open_range_def)
    have t: "?t = m + int (n - i) * 60000" using i(1,2) by (simp add: of_nat_diff algebra_simps)
    show ?thesis
    proof (cases "?t \<in> set present")
      case True
      have "(?t - 60000 - m) div 60000 + 1 = int (n - i)"
      proof -
        have "?t - 60000 - m = (int (n - i) - 1) * 60000" unfolding t by (simp add: algebra_simps)
        then show ?thesis by simp
      qed
      then have "range_minutes (m, ?t - 60000) = tail0"
        by (simp add: range_minutes_def minutes_grid i(3))
      moreover have "m \<le> ?t - 60000" using i(1) unfolding t by simp
      ultimately show ?thesis using True Some st c l
        by (auto simp: open_range_def grid_Suc intro!: exI [of _ "[]"])
    next
      case False
      have "grid m 60000 (Suc n - i) = tail0 @ [?t]"
        using i t by (simp add: Suc_diff_le grid_Suc)
      with False Some st c l i show ?thesis
        by (auto simp: open_range_def grid_Suc less_Suc_eq intro!: exI [of _ "tail0 @ [?t]"] exI [of _ i])
    qed
  qed
qed

lemma missing_ranges_cover:
  "concat (map range_minutes (missing_ranges a b present)) = filter (\<lambda>t. t \<notin> set present) (minutes a b)
   \<and> list_all (\<lambda>(x, y). x \<le> y \<and> (y + 60000 \<in> set present \<or> y = b)) (missing_ranges a b present)"
proof -
  define n where "n = nat ((b - a) div 60000 + 1)"
  obtain ranges start where f: "foldl (missing_step present) ([], None) (grid a 60000 n) = (ranges, start)"
    by fastforce
  from missing_fold [OF f] obtain tail where
    c: "concat (map range_minutes ranges) @ tail = filter (\<lambda>t. t \<notin> set present) (grid a 60000 n)"
    and o: "open_range a n start tail"
    and l: "list_all (\<lambda>(x, y). x \<le> y \<and> y + 60000 \<in> set present) ranges" by blast
  from l have l': "list_all (\<lambda>(x, y). x \<le> y \<and> (y + 60000 \<in> set present \<or> y = b)) ranges"
    by (auto simp: list_all_iff)
  have m: "minutes a b = grid a 60000 n" by (simp add: minutes_grid n_def)
  show ?thesis
  proof (cases start)
    case None
    with f m have "missing_ranges a b present = ranges" by (simp add: missing_ranges_def)
    with None o c l' m show ?thesis by (simp add: open_range_def)
  next
    case (Some x)
    with o obtain i where i: "i < n" "x = a + int i * 60000" "tail = grid x 60000 (n - i)"
      by (auto simp: open_range_def)
    have n: "int n = (b - a) div 60000 + 1" using i(1) by (simp add: n_def)
    have "b - x = (b - a) + (- int i) * 60000" using i(2) by simp
    then have "(b - x) div 60000 + 1 = int (n - i)"
      using n i(1) div_mult_self1 [of 60000 "b - a" "- int i"] by (simp add: of_nat_diff)
    then have t: "range_minutes (x, b) = tail" by (simp add: range_minutes_def minutes_grid i(3))
    have "0 \<le> (b - x) div 60000" using \<open>(b - x) div 60000 + 1 = int (n - i)\<close> i(1) by simp
    then have "x \<le> b" by (simp add: pos_imp_zdiv_nonneg_iff)
    moreover have "missing_ranges a b present = ranges @ [(x, b)]"
      using Some f m by (simp add: missing_ranges_def)
    ultimately show ?thesis using c l' m t by simp
  qed
qed

section \<open>What the service keeps\<close>

text \<open>Pages hold candle objects, which their constructor has checked.\<close>

definition typed_provider :: "'w kline_provider \<Rightarrow> bool" where
  "typed_provider pv \<longleftrightarrow>
     (\<forall>rq w page w'. pv_fetch pv rq w = (Inr page, w') \<longrightarrow> (\<forall>c\<in>set (pg_candles page). candle_wf c))"

lemma keeps_on_world: "keeps (\<lambda>ws. P (snd ws)) (on_world m)"
  by (auto simp: keeps_def on_world_def split: prod.splits)

lemma keeps_on_store: "(\<And>s r s'. P s \<Longrightarrow> m s = (r, s') \<Longrightarrow> P s') \<Longrightarrow> keeps (\<lambda>ws. P (snd ws)) (on_store m)"
  by (auto simp: keeps_def on_store_def split: prod.splits)

context candle_repository
begin

definition grown :: "'s \<Rightarrow> 's \<Rightarrow> bool" where
  "grown s0 s \<longleftrightarrow> inv s \<and> (\<forall>k c. rows s0 k = Some c \<longrightarrow> rows s k = Some c)"

lemma grown_refl: "inv s \<Longrightarrow> grown s s"
  by (simp add: grown_def)

lemma grown_store:
  "grown s0 s \<Longrightarrow> \<forall>c\<in>set page. candle_wf c \<Longrightarrow> repo_store repo page t req s = (r, s') \<Longrightarrow> grown s0 s'"
  using store_keeps store_inv unfolding grown_def by meson

lemma keeps_load: "keeps (\<lambda>ws. grown s0 (snd ws)) (load_market pv repo m a b)"
  unfolding load_market_def
proof (rule keeps_on_store)
  fix s r s'
  assume g: "grown s0 s"
    and l: "repo_load repo (pv_id pv) market_type_name (im_instrument_id m) a b s = (r, s')"
  from g have "inv s" by (simp add: grown_def)
  from load_spec [OF this, of "pv_id pv" market_type_name "im_instrument_id m" a b] l have "s' = s" by auto
  with g show "grown s0 s'" by simp
qed

lemma keeps_sync_state: "keeps (\<lambda>ws. grown s0 (snd ws)) (on_store (repo_sync_state repo p m i))"
  by (rule keeps_on_store) (metis snd_conv sync_state_pure)

lemma keeps_page:
  assumes "typed_provider pv"
  shows "keeps (\<lambda>ws. grown s0 (snd ws)) (sync_page pv repo m t req a b cs acc)"
  unfolding sync_page_def
proof (rule keeps_sbind, rule keeps_slift, rule keeps_sbind_val, rule keeps_on_world,
    rule keeps_sbind_val, rule keeps_slift, rule keeps_sbind, rule keeps_slift, rule keeps_sbind)
  fix rq ws2 page ws3 ws4 cs ws5
  assume pg: "on_world (pv_fetch pv rq) ws2 = (Inr page, ws3)"
    and cs: "slift (validate_page rq page) ws4 = (Inr cs, ws5)"
  from pg assms have "\<forall>c\<in>set (pg_candles page). candle_wf c"
    by (auto simp: typed_provider_def on_world_def split: prod.splits)
  with cs have wf: "\<forall>c\<in>set cs. candle_wf c" using validate_page_Inr by fastforce
  show "keeps (\<lambda>ws. grown s0 (snd ws)) (on_store (repo_store repo cs t req))"
    by (rule keeps_on_store) (erule grown_store [OF _ wf])
qed (rule keeps_slift)

lemma keeps_loop:
  assumes "typed_provider pv"
  shows "keeps (\<lambda>ws. grown s0 (snd ws)) (sync_loop pv repo m t req a b cs acc)"
  unfolding keeps_def
proof (intro allI impI)
  fix ws r ws'
  assume "grown s0 (snd ws)" and run: "sync_loop pv repo m t req a b cs acc ws = (r, ws')"
  then show "grown s0 (snd ws')"
    by (rule_tac sync_loop_induct [OF run, where P = "\<lambda>a b cs acc ws. grown s0 (snd ws)"
          and Q = "\<lambda>r ws. grown s0 (snd ws)"]) (auto dest: keepsD [OF keeps_page [OF assms]])
qed

lemma keeps_missing:
  assumes "typed_provider pv"
  shows "keeps (\<lambda>ws. grown s0 (snd ws)) (sync_missing_range pv repo m t req ab)"
  unfolding sync_missing_range_def
  by (rule keeps_sbind, rule keeps_loop [OF assms], rule keeps_sguard)

lemma keeps_sync_range:
  assumes "typed_provider pv"
  shows "keeps (\<lambda>ws. grown s0 (snd ws)) (sync_range pv repo m a b)"
  unfolding sync_range_def
  by (rule keeps_missing [OF assms] keeps_sbind keeps_sfor keeps_on_world keeps_load keeps_slift
      keeps_sync_state keeps_sguard keeps_sreturn)+

end

section \<open>Counting the fetches\<close>

definition uncounted :: "('w, 'a) op \<Rightarrow> ('w \<times> nat, 'a) op" where
  "uncounted m wn = (case m (fst wn) of (r, w') \<Rightarrow> (r, (w', snd wn)))"

definition counted :: "'w kline_provider \<Rightarrow> ('w \<times> nat) kline_provider" where
  "counted pv = \<lparr>pv_id = pv_id pv, pv_validate = (\<lambda>m. uncounted (pv_validate pv m)),
     pv_server_time = uncounted (pv_server_time pv), pv_latest_closed = uncounted (pv_latest_closed pv),
     pv_fetch = (\<lambda>rq wn. case pv_fetch pv rq (fst wn) of (r, w') \<Rightarrow> (r, (w', Suc (snd wn))))\<rparr>"

text \<open>An operation makes at most \<open>n\<close> fetches.\<close>

definition fetches :: "nat \<Rightarrow> (('w \<times> nat) \<times> 's, 'a) op \<Rightarrow> bool" where
  "fetches n m \<longleftrightarrow> (\<forall>ws r ws'. m ws = (r, ws') \<longrightarrow> snd (fst ws') \<le> snd (fst ws) + n)"

lemma fetches_sbind:
  assumes "fetches i m" "\<And>s x s'. m s = (Inr x, s') \<Longrightarrow> fetches j (f x)"
  shows "fetches (i + j) (sbind m f)"
  unfolding fetches_def
proof (intro allI impI)
  fix ws r ws'
  assume b: "sbind m f ws = (r, ws')"
  obtain q t where q: "m ws = (q, t)" by (cases "m ws")
  with assms(1) have t: "snd (fst t) \<le> snd (fst ws) + i" unfolding fetches_def by blast
  show "snd (fst ws') \<le> snd (fst ws) + (i + j)"
  proof (cases q)
    case (Inl e)
    with b q t show ?thesis by (simp add: sbind_def)
  next
    case (Inr x)
    with b q have "f x t = (r, ws')" by (simp add: sbind_def)
    moreover have "fetches j (f x)" using assms(2) q Inr by blast
    ultimately have "snd (fst ws') \<le> snd (fst t) + j" unfolding fetches_def by blast
    with t show ?thesis by linarith
  qed
qed

lemma fetches_then: "fetches 0 m \<Longrightarrow> (\<And>s x s'. m s = (Inr x, s') \<Longrightarrow> fetches j (f x)) \<Longrightarrow> fetches j (sbind m f)"
  using fetches_sbind [of 0 m j f] by simp

lemma fetches_pure:
  "fetches 0 (slift r)" "fetches 0 (sguard b c msg)" "fetches 0 (sreturn x)" "fetches 0 (on_store n)"
  by (auto simp: fetches_def slift_def sguard_def sreturn_def on_store_def split: prod.splits)

lemma fetches_uncounted: "fetches 0 (on_world (uncounted m))"
  by (auto simp: fetches_def on_world_def uncounted_def split: prod.splits)

lemma fetches_fetch: "fetches 1 (on_world (pv_fetch (counted pv) rq))"
  by (auto simp: fetches_def on_world_def counted_def split: prod.splits)

lemma fetches_mono: "fetches i m \<Longrightarrow> i \<le> j \<Longrightarrow> fetches j m"
  unfolding fetches_def by (meson add_left_mono le_trans)

lemma fetches_sfor: "(\<And>x. x \<in> set xs \<Longrightarrow> fetches (n x) (f x)) \<Longrightarrow> fetches (sum_list (map n xs)) (sfor f xs)"
proof (induction xs)
  case Nil
  show ?case by (simp add: fetches_def)
next
  case (Cons x xs)
  then have "fetches (n x + sum_list (map n xs)) (sbind (f x) (\<lambda>_. sfor f xs))"
    by (intro fetches_sbind) simp_all
  then show ?case by (simp add: fetches_def)
qed

lemma page_fetches:
  "fetches (min 1 (length (minutes a b))) (sync_page (counted pv) repo m t req a b cursors acc)"
proof (cases "a \<le> b")
  case True
  then have "1 \<le> nat ((b - a) div 60000 + 1)" by (simp add: pos_imp_zdiv_nonneg_iff)
  then have n: "min 1 (length (minutes a b)) = 1" by (simp add: minutes_grid)
  have "fetches (1 + 0) (sbind (on_world (pv_fetch (counted pv) rq)) (\<lambda>page.
     sbind (slift (validate_page rq page)) (\<lambda>cs.
     sbind (slift (rfoldM accept_step acc cs)) (\<lambda>acc'.
     sbind (on_store (repo_store repo cs t req)) (\<lambda>_.
     slift (after_page page cs a b cursors acc'))))))" for rq
    by (intro fetches_sbind [OF fetches_fetch] fetches_then fetches_pure)
  then show ?thesis unfolding sync_page_def n by - (rule fetches_then [OF fetches_pure(1)], simp)
next
  case False
  then have "mk_request (sync_request (pv_id (counted pv)) m a b) \<noteq> Inr rq" for rq
    using mk_request_Inr by (fastforce simp: sync_request_def)
  then show ?thesis
    unfolding sync_page_def by - (rule fetches_then [OF fetches_pure(1)], simp)
qed

lemma again_minutes:
  assumes "sync_page pv repo m t req a b cursors acc ws = (Inr (Again a' b' cursors' acc'), ws')"
  shows "Suc (length (minutes a' b')) \<le> length (minutes a b)"
proof -
  obtain w s w' s' where "ws = (w, s)" "ws' = (w', s')" by fastforce
  with assms obtain rq page cs acc0 where rq: "mk_request (sync_request (pv_id pv) m a b) = Inr rq"
    and cs: "validate_page rq page = Inr cs"
    and af: "after_page page cs a b cursors acc0 = Inr (Again a' b' cursors' acc')"
    by (auto elim: sync_page_Inr)
  from rq have ab: "a \<le> b" "rq_start rq = a" "rq_end rq = b"
    by (auto dest!: mk_request_Inr simp: sync_request_def)
  have "\<forall>x\<in>set cs. a \<le> open_time_ms x \<and> open_time_ms x \<le> b"
    using validate_page_Inr [OF cs] page_candle_bounds ab by blast
  moreover obtain c where "next_range cs c a b = Inr (a', b')" using after_page_Again [OF af] by blast
  ultimately have "b' - a' + 60000 \<le> b - a" "a' \<le> b'"
    using next_range_shrinks [of cs c a b a' b'] validate_page_Inr [OF cs] by linarith+
  then have "(b' - a') div 60000 + 1 \<le> (b - a) div 60000" "0 \<le> (b' - a') div 60000"
    using zdiv_mono1 [of "b' - a' + 60000" "b - a" 60000] by (simp_all add: pos_imp_zdiv_nonneg_iff)
  then show ?thesis by (simp add: minutes_grid)
qed

lemma loop_fetches:
  "fetches (length (minutes a b)) (sync_loop (counted pv) repo m t req a b cursors acc)"
  unfolding fetches_def
proof (intro allI impI)
  fix ws r ws'
  assume run: "sync_loop (counted pv) repo m t req a b cursors acc ws = (r, ws')"
  let ?N = "snd (fst ws) + length (minutes a b)"
  note page = page_fetches [unfolded fetches_def, rule_format]
  show "snd (fst ws') \<le> ?N"
  proof (rule sync_loop_induct [OF run, where P = "\<lambda>a b cs acc ws. snd (fst ws) + length (minutes a b) \<le> ?N"
        and Q = "\<lambda>r ws. snd (fst ws) \<le> ?N"])
    fix a b cs acc ws1 a' b' cs' acc' ws2
    assume "snd (fst ws1) + length (minutes a b) \<le> ?N"
      and "sync_page (counted pv) repo m t req a b cs acc ws1 = (Inr (Again a' b' cs' acc'), ws2)"
    with page [OF this(2)] again_minutes [OF this(2)]
    show "snd (fst ws2) + length (minutes a' b') \<le> ?N" by linarith
  next
    fix a b cs acc ws1 acc' ws2
    assume "snd (fst ws1) + length (minutes a b) \<le> ?N"
      and "sync_page (counted pv) repo m t req a b cs acc ws1 = (Inr (Done acc'), ws2)"
    with page [OF this(2)] show "snd (fst ws2) \<le> ?N" by linarith
  next
    fix a b cs acc ws1 e ws2
    assume "snd (fst ws1) + length (minutes a b) \<le> ?N"
      and "sync_page (counted pv) repo m t req a b cs acc ws1 = (Inl e, ws2)"
    with page [OF this(2)] show "snd (fst ws2) \<le> ?N" by linarith
  qed simp
qed

lemma missing_range_fetches:
  "fetches (length (range_minutes ab)) (sync_missing_range (counted pv) repo m t req ab)"
  unfolding sync_missing_range_def range_minutes_def
  using fetches_sbind [OF loop_fetches fetches_pure(2)] by simp

definition absent_minutes :: "int \<Rightarrow> int \<Rightarrow> candle list \<Rightarrow> int list" where
  "absent_minutes a b cs = filter (\<lambda>t. t \<notin> set (map open_time_ms cs)) (minutes a b)"

lemma ranges_fetches:
  "fetches (length (absent_minutes a b cs))
     (sfor (sync_missing_range (counted pv) repo m t req) (missing_ranges a b (map open_time_ms cs)))"
proof -
  let ?R = "missing_ranges a b (map open_time_ms cs)"
  have "length (concat (map range_minutes ?R)) = length (absent_minutes a b cs)"
    unfolding absent_minutes_def using missing_ranges_cover [of a b "map open_time_ms cs"] by (simp only:)
  then have n: "sum_list (map (\<lambda>ab. length (range_minutes ab)) ?R) = length (absent_minutes a b cs)"
    by (simp only: length_concat map_map comp_def)
  have "fetches (sum_list (map (\<lambda>ab. length (range_minutes ab)) ?R))
      (sfor (sync_missing_range (counted pv) repo m t req) ?R)"
    by (rule fetches_sfor) (rule missing_range_fetches)
  then show ?thesis by (simp only: n)
qed

text \<open>The same bound for a call that starts in the store \<open>s\<close>.\<close>

definition fetches_from :: "'s \<Rightarrow> nat \<Rightarrow> (('w \<times> nat) \<times> 's, 'a) op \<Rightarrow> bool" where
  "fetches_from s n m \<longleftrightarrow> (\<forall>w c r ws'. m ((w, c), s) = (r, ws') \<longrightarrow> snd (fst ws') \<le> c + n)"

lemma fetches_from: "fetches n m \<Longrightarrow> fetches_from s n m"
  by (auto simp: fetches_def fetches_from_def)

lemma fetches_from_world:
  assumes "\<And>x. fetches_from s n (f x)"
  shows "fetches_from s n (sbind (on_world (uncounted m)) f)"
  unfolding fetches_from_def
proof (intro allI impI)
  fix w c r ws'
  assume b: "sbind (on_world (uncounted m)) f ((w, c), s) = (r, ws')"
  obtain q w1 where q: "m w = (q, w1)" by (cases "m w")
  show "snd (fst ws') \<le> c + n"
  proof (cases q)
    case (Inl e)
    with b q show ?thesis by (auto simp: sbind_def on_world_def uncounted_def)
  next
    case (Inr x)
    with b q have "f x ((w1, c), s) = (r, ws')" by (simp add: sbind_def on_world_def uncounted_def)
    with assms [of x] show ?thesis unfolding fetches_from_def by blast
  qed
qed

lemma fetches_from_sguard:
  "fetches_from s n (f ()) \<Longrightarrow> fetches_from s n (sbind (sguard b c msg) f)"
  by (auto simp: fetches_from_def)

lemma fetches_from_store:
  "m s = (Inr x, s) \<Longrightarrow> fetches_from s n (f x) \<Longrightarrow> fetches_from s n (sbind (on_store m) f)"
  by (simp add: fetches_from_def sbind_def on_store_def)

definition market_row_key :: "'w kline_provider \<Rightarrow> instrument_mapping \<Rightarrow> int \<Rightarrow> candle_key" where
  "market_row_key pv m t = (pv_id pv, market_type_name, im_instrument_id m, ''1m'', t)"

context candle_repository
begin

lemma load_present:
  assumes "inv s" "repo_load repo p m i a b s = (r, s')"
  obtains cs where "r = Inr cs" "s' = s" "sorted_wrt (<) (map open_time_ms cs)"
    and "\<And>c. c \<in> set cs \<longleftrightarrow> a \<le> open_time_ms c \<and> open_time_ms c \<le> b \<and> rows s (p, m, i, ''1m'', open_time_ms c) = Some c"
    and "\<And>t. t \<in> set (map open_time_ms cs) \<longleftrightarrow> a \<le> t \<and> t \<le> b \<and> rows s (p, m, i, ''1m'', t) \<noteq> None"
proof -
  from load_spec [OF assms(1), of p m i a b] obtain cs where cs: "repo_load repo p m i a b s = (Inr cs, s)"
      "sorted_wrt (<) (map open_time_ms cs)"
      "set cs = {c. \<exists>t. a \<le> t \<and> t \<le> b \<and> rows s (p, m, i, ''1m'', t) = Some c}" by blast
  have key: "open_time_ms c = t" if "rows s (p, m, i, ''1m'', t) = Some c" for c t
    using rows_wf [OF assms(1) that] by (simp add: primary_key_def)
  have "c \<in> set cs \<longleftrightarrow> a \<le> open_time_ms c \<and> open_time_ms c \<le> b \<and> rows s (p, m, i, ''1m'', open_time_ms c) = Some c" for c
    using cs(3) key by auto
  moreover have "t \<in> set (map open_time_ms cs) \<longleftrightarrow> a \<le> t \<and> t \<le> b \<and> rows s (p, m, i, ''1m'', t) \<noteq> None" for t
    using cs(3) key by force
  ultimately show ?thesis using that cs(1,2) assms(2) by simp
qed

lemma sync_range_fetches:
  assumes "inv s"
  shows "fetches_from s (length (filter (\<lambda>t. rows s (market_row_key pv m t) = None) (minutes a b)))
    (sync_range (counted pv) repo m a b)"
proof -
  obtain r s' where l: "repo_load repo (pv_id pv) market_type_name (im_instrument_id m) a b s = (r, s')"
    by fastforce
  from load_present [OF assms l] obtain cs where r: "r = Inr cs" "s' = s"
    and cs: "\<And>t. t \<in> set (map open_time_ms cs) \<longleftrightarrow>
      a \<le> t \<and> t \<le> b \<and> rows s (pv_id pv, market_type_name, im_instrument_id m, ''1m'', t) \<noteq> None" by metis
  have n: "absent_minutes a b cs = filter (\<lambda>t. rows s (market_row_key pv m t) = None) (minutes a b)"
    unfolding absent_minutes_def
    by (rule filter_cong) (use cs in \<open>auto simp: market_row_key_def minutes_def py_range_set\<close>)
  have "fetches (length (absent_minutes a b cs) + 0)
      (sbind (sfor (sync_missing_range (counted pv) repo m t a) (missing_ranges a b (map open_time_ms cs))) (\<lambda>_.
       sbind (load_market (counted pv) repo m a b) (\<lambda>ordered.
       sbind (slift (validate_existing (pv_id (counted pv)) m ordered)) (\<lambda>_.
       sbind (sguard (map open_time_ms ordered = minutes a b)
              ValueError ''completed provider range is not contiguous'') (\<lambda>_.
       sreturn ordered)))))" for t
    unfolding load_market_def
    by (rule fetches_sbind [OF ranges_fetches]) (rule fetches_then fetches_pure)+
  then have tail: "fetches (length (absent_minutes a b cs))
      (sbind (slift (validate_existing (pv_id (counted pv)) m cs)) (\<lambda>_.
       sbind (on_store (repo_sync_state repo (pv_id (counted pv)) market_type_name (im_instrument_id m))) (\<lambda>st.
       sbind (slift (validate_sync_state st a (map open_time_ms cs))) (\<lambda>_.
       sbind (sfor (sync_missing_range (counted pv) repo m t a) (missing_ranges a b (map open_time_ms cs))) (\<lambda>_.
       sbind (load_market (counted pv) repo m a b) (\<lambda>ordered.
       sbind (slift (validate_existing (pv_id (counted pv)) m ordered)) (\<lambda>_.
       sbind (sguard (map open_time_ms ordered = minutes a b)
              ValueError ''completed provider range is not contiguous'') (\<lambda>_.
       sreturn ordered))))))))" for t
    by (simp only: add_0_right) (rule fetches_then [OF fetches_pure(1)] fetches_then [OF fetches_pure(4)])+
  have ids: "pv_id (counted pv) = pv_id pv" "pv_validate (counted pv) m = uncounted (pv_validate pv m)"
    "pv_server_time (counted pv) = uncounted (pv_server_time pv)"
    "pv_latest_closed (counted pv) = uncounted (pv_latest_closed pv)" by (simp_all add: counted_def)
  have l': "repo_load repo (pv_id (counted pv)) market_type_name (im_instrument_id m) a b s = (Inr cs, s)"
    using l r by (simp add: ids)
  show ?thesis
    unfolding sync_range_def n [symmetric] ids(2-4)
    by (intro fetches_from_world fetches_from_sguard)
      (subst (1) load_market_def, rule fetches_from_store, rule l', rule fetches_from, rule tail)
qed

text \<open>A success leaves every minute of the range in the store, and reports the rows.\<close>

lemma sync_range_result:
  assumes "inv s" "typed_provider pv" "sync_range pv repo m a b (w, s) = (Inr cs, (w', s'))"
  shows "grown s s' \<and> map open_time_ms cs = minutes a b
    \<and> list_all (existing_ok (pv_id pv) m) cs
    \<and> list_all (\<lambda>c. rows s' (market_row_key pv m (open_time_ms c)) = Some c) cs"
proof -
  define Q where "Q cs ws \<longleftrightarrow> map open_time_ms cs = minutes a b \<and> list_all (existing_ok (pv_id pv) m) cs
      \<and> list_all (\<lambda>c. rows (snd ws) (market_row_key pv m (open_time_ms c)) = Some c) cs"
    for cs and ws :: "'a \<times> 's"
  have g: "grown s s'"
    using keepsD [OF keeps_sync_range [OF assms(2)] _ assms(3)] grown_refl [OF assms(1)] by simp
  have last: "ensures (\<lambda>ws. grown s (snd ws)) (sbind (load_market pv repo m a b) (\<lambda>ordered.
       sbind (slift (validate_existing (pv_id pv) m ordered)) (\<lambda>_.
       sbind (sguard (map open_time_ms ordered = minutes a b)
              ValueError ''completed provider range is not contiguous'') (\<lambda>_.
       sreturn ordered)))) Q"
    unfolding ensures_def
  proof (intro allI impI)
    fix ws :: "'a \<times> 's" and cs ws'
    assume gr: "grown s (snd ws)"
      and run: "sbind (load_market pv repo m a b) (\<lambda>ordered.
       sbind (slift (validate_existing (pv_id pv) m ordered)) (\<lambda>_.
       sbind (sguard (map open_time_ms ordered = minutes a b)
              ValueError ''completed provider range is not contiguous'') (\<lambda>_.
       sreturn ordered))) ws = (Inr cs, ws')"
    obtain w1 s1 where ws: "ws = (w1, s1)" by fastforce
    obtain w2 s2 where ws': "ws' = (w2, s2)" by fastforce
    from run have l: "repo_load repo (pv_id pv) market_type_name (im_instrument_id m) a b s1 = (Inr cs, s2)"
      and ok: "list_all (existing_ok (pv_id pv) m) cs" and mins: "map open_time_ms cs = minutes a b"
      unfolding ws ws' by (auto simp: sbind_Inr load_market_def on_store_Inr validate_existing_def split: if_splits)
    have "inv s1" using gr by (simp add: grown_def ws)
    from load_present [OF this l] have "s2 = s1"
      and "\<forall>c\<in>set cs. rows s1 (pv_id pv, market_type_name, im_instrument_id m, ''1m'', open_time_ms c) = Some c"
      by auto
    with ok mins show "Q cs ws'" by (simp add: Q_def ws' market_row_key_def list_all_iff)
  qed
  have "ensures (\<lambda>ws. grown s (snd ws)) (sync_range pv repo m a b) Q"
    unfolding sync_range_def
    by (rule ensures_sbind, rule keeps_on_world)+
      (rule ensures_sbind, rule keeps_sguard, rule ensures_sbind, rule keeps_load,
       rule ensures_sbind, rule keeps_slift, rule ensures_sbind, rule keeps_sync_state,
       rule ensures_sbind, rule keeps_slift, rule ensures_sbind, rule keeps_sfor,
       rule keeps_missing [OF assms(2)], rule last)
  with assms(3) grown_refl [OF assms(1)] have "Q cs (w', s')" unfolding ensures_def by force
  with g show ?thesis by (simp add: Q_def)
qed

end

section \<open>Properties\<close>

text \<open>A provider that serves the sample minutes in one page.\<close>

definition sample_provider :: "unit kline_provider" where
  "sample_provider = \<lparr>pv_id = ''okx_swap'', pv_validate = (\<lambda>m. sreturn ()), pv_server_time = sreturn 180000,
     pv_latest_closed = sreturn 60000,
     pv_fetch = (\<lambda>rq. sreturn \<lparr>pg_candles = filter (page_candle_ok rq) sample_page, pg_next = None, pg_complete = True\<rparr>)\<rparr>"

definition sample_mapping :: instrument_mapping where
  "sample_mapping = \<lparr>im_instrument_id = ''CRYPTO-BTC-USDT-PERP'', im_provider_symbol = ''BTC-USDT-SWAP''\<rparr>"

lemma sample_typed: "typed_provider sample_provider"
  using sample_page_wf by (auto simp: typed_provider_def sample_provider_def)

lemma sample_run:
  "\<exists>cs w' db'. sync_range sample_provider sqlite_repo sample_mapping 0 60000 ((), empty_candle_db) = (Inr cs, (w', db'))"
proof -
  have "is_ok (fst (sync_range sample_provider sqlite_repo sample_mapping 0 60000 ((), empty_candle_db)))"
    by code_simp
  then show ?thesis by (metis is_ok_iff prod.collapse)
qed

text \<open>\<open>_missing_ranges\<close> returns closed ranges that list, in order and without repetition, exactly the
  minutes of the request that are not present; every range is maximal: it ends at a present minute
  or at the end of the request.\<close>

theorem missing_ranges_exact:
  "concat (map (\<lambda>(x, y). minutes x y) (missing_ranges a b present))
     = filter (\<lambda>t. t \<notin> set present) (minutes a b)
   \<and> list_all (\<lambda>(x, y). x \<le> y \<and> (y + 60000 \<in> set present \<or> y = b)) (missing_ranges a b present)"
proof -
  have "range_minutes = (\<lambda>(x, y). minutes x y)" by (auto simp: range_minutes_def)
  then show ?thesis using missing_ranges_cover [of a b present] by simp
qed

text \<open>C15:
  Synchronising a range terminates for every provider, and it asks the provider for at most as many
  pages as there are minutes of the range without a row, whatever the pages say and however the
  call ends.\<close>

theorem sync_range_fetch_bound:
  "candle_db_wf db \<Longrightarrow>
   \<exists>r w' n' db'. sync_range (counted pv) sqlite_repo m a b ((w, n), db) = (r, ((w', n'), db'))
     \<and> n' \<le> n + length (filter (\<lambda>t. find_row db (market_row_key pv m t) = None) (minutes a b))"
proof -
  assume wf: "candle_db_wf db"
  obtain r w' n' db' where run: "sync_range (counted pv) sqlite_repo m a b ((w, n), db) = (r, ((w', n'), db'))"
    by (metis prod.collapse)
  from sqlite.sync_range_fetches [OF wf, of pv m a b] run
  have "snd (fst ((w', n'), db')) \<le> n + length (filter (\<lambda>t. find_row db (market_row_key pv m t) = None) (minutes a b))"
    unfolding fetches_from_def by blast
  with run show ?thesis by auto
qed

theorem sync_range_fetch_bound_witness:
  "\<exists>r w' n' db'. sync_range (counted sample_provider) sqlite_repo sample_mapping 0 60000 (((), 0), empty_candle_db)
     = (r, ((w', n'), db')) \<and> n' \<le> 2"
proof -
  have "length (filter (\<lambda>t. find_row empty_candle_db (market_row_key sample_provider sample_mapping t) = None)
    (minutes 0 60000)) = 2" by code_simp
  with sync_range_fetch_bound [OF empty_db_wf, of sample_provider sample_mapping 0 60000 "()" 0]
  show ?thesis by (simp only: add_0)
qed

text \<open>C6:
  A synchronisation that succeeds returns exactly one candle per minute of the range, all of the
  requested market, each of them a stored row; no stored row has changed.\<close>

theorem sync_range_complete:
  "candle_db_wf db \<Longrightarrow> typed_provider pv \<Longrightarrow>
   sync_range pv sqlite_repo m a b (w, db) = (Inr cs, (w', db')) \<Longrightarrow>
   map open_time_ms cs = minutes a b \<and> list_all (existing_ok (pv_id pv) m) cs
   \<and> list_all (\<lambda>c. find_row db' (market_row_key pv m (open_time_ms c)) = Some c) cs"
  by (drule (2) sqlite.sync_range_result) simp

theorem sync_range_complete_witness:
  "\<exists>cs w' db'. sync_range sample_provider sqlite_repo sample_mapping 0 60000 ((), empty_candle_db) = (Inr cs, (w', db'))
    \<and> map open_time_ms cs = [0, 60000]"
proof -
  have m: "minutes 0 60000 = [0, 60000]" by code_simp
  obtain cs w' db' where run:
    "sync_range sample_provider sqlite_repo sample_mapping 0 60000 ((), empty_candle_db) = (Inr cs, (w', db'))"
    using sample_run by blast
  from sync_range_complete [OF empty_db_wf sample_typed run] run m show ?thesis by auto
qed

text \<open>However a synchronisation ends, by success or by an exception in the middle of a page sequence,
  the database keeps its invariant and every row it had.\<close>

theorem sync_range_keeps_rows:
  "candle_db_wf db \<Longrightarrow> typed_provider pv \<Longrightarrow>
   sync_range pv sqlite_repo m a b (w, db) = (r, (w', db')) \<Longrightarrow> find_row db k = Some c \<Longrightarrow>
   candle_db_wf db' \<and> find_row db' k = Some c"
proof -
  assume wf: "candle_db_wf db" and ty: "typed_provider pv"
    and run: "sync_range pv sqlite_repo m a b (w, db) = (r, (w', db'))" and k: "find_row db k = Some c"
  have "sqlite.grown db (snd (w', db'))"
    by (rule keepsD [OF sqlite.keeps_sync_range [OF ty] _ run]) (simp add: sqlite.grown_refl wf)
  with k show ?thesis unfolding sqlite.grown_def snd_conv by blast
qed

theorem sync_range_keeps_rows_witness:
  "\<exists>db r w' db'. find_row db (primary_key (hd sample_page)) = Some (row_of (hd sample_page))
    \<and> sync_range sample_provider sqlite_repo sample_mapping 0 60000 ((), db) = (r, (w', db'))
    \<and> find_row db' (primary_key (hd sample_page)) = Some (row_of (hd sample_page))"
proof -
  from sample_stored obtain db where db: "store_candle_page sample_page 5 0 empty_candle_db = (Inr (), db)" ..
  have k: "find_row db (primary_key (hd sample_page)) = Some (row_of (hd sample_page))"
    by (rule sqlite.store_present [where page = sample_page and t = 5 and req = 0 and s = empty_candle_db and u = "()"])
      (use db in \<open>simp_all add: sqlite_repo_def, simp add: sample_page_def\<close>)
  obtain r w' db' where run: "sync_range sample_provider sqlite_repo sample_mapping 0 60000 ((), db) = (r, (w', db'))"
    by (metis prod.collapse)
  have "candle_db_wf db" using store_page_wf [OF empty_db_wf sample_page_wf db] .
  from sync_range_keeps_rows [OF this sample_typed run k] k run show ?thesis by blast
qed

end
