(* ===== verification/HistoricalSync.thy ===== *)
theory HistoricalSync
  imports MarketSync
begin

text \<open>
  Historical readiness (\<^verbatim>\<open>application/historical_sync.py\<close>): every missing range is synchronised by
  the market service over an adapter of the repository that has no sync state, the result is checked
  for continuity, and a receipt is returned per instrument.
\<close>

section \<open>The repository adapter\<close>

definition historical_repo :: "'s candle_repo \<Rightarrow> 's candle_repo" where
  "historical_repo repo = \<lparr>repo_store = repo_store repo, repo_load = repo_load repo,
     repo_sync_state = (\<lambda>p m i. sreturn None)\<rparr>"

interpretation historical: candle_repository "historical_repo sqlite_repo" candle_db_wf find_row
proof unfold_locales
  fix s k c assume "candle_db_wf s" "find_row s k = Some c"
  then show "candle_wf c \<and> primary_key c = k" by (rule sqlite.rows_wf)
next
  fix s p m i a b assume "candle_db_wf s"
  then show "\<exists>cs. repo_load (historical_repo sqlite_repo) p m i a b s = (Inr cs, s)
      \<and> sorted_wrt (<) (map open_time_ms cs)
      \<and> set cs = {c. \<exists>t. a \<le> t \<and> t \<le> b \<and> find_row s (p, m, i, ''1m'', t) = Some c}"
    by (simp add: historical_repo_def sqlite.load_spec)
next
  fix s and page :: "candle list" and t req r s'
  assume "candle_db_wf s" "\<forall>c\<in>set page. candle_wf c"
    "repo_store (historical_repo sqlite_repo) page t req s = (r, s')"
  then show "candle_db_wf s'"
    using sqlite.store_inv by (simp add: historical_repo_def)
next
  fix page t req s u s'
  assume "repo_store (historical_repo sqlite_repo) page t req s = (Inr u, s')"
  then show "page_consistent page \<and> (\<forall>c\<in>set page. agrees (find_row s) c) \<and> find_row s' = merged page (find_row s)"
    using sqlite.store_rows by (simp add: historical_repo_def)
next
  fix page t req s e s'
  assume "repo_store (historical_repo sqlite_repo) page t req s = (Inl e, s')"
  then show "s' = s" using sqlite.store_failed by (simp add: historical_repo_def)
next
  fix s page t req
  assume "candle_db_wf s" "page_guards page t req" "\<forall>c\<in>set page. candle_wf c" "page_consistent page"
    "\<forall>c\<in>set page. agrees (find_row s) c"
  then show "\<exists>s'. repo_store (historical_repo sqlite_repo) page t req s = (Inr (), s')"
    using sqlite.store_total by (simp add: historical_repo_def)
qed (simp add: historical_repo_def sreturn_def)

section \<open>Receipts\<close>

record instrument_sync_result =
  is_candles :: "candle list"
  is_existing :: int
  is_fetched :: int
  is_total :: int
  is_gaps :: int
  is_hash :: string

definition sync_result_dict :: "instrument_sync_result \<Rightarrow> json" where
  "sync_result_dict r = JObj [(''existing_rows'', JInt (is_existing r)), (''fetched_rows'', JInt (is_fetched r)),
     (''total_rows'', JInt (is_total r)), (''gap_count'', JInt (is_gaps r)), (''data_hash'', JStr (is_hash r))]"

record historical_receipt =
  hr_provider :: string
  hr_start :: int
  hr_end :: int
  hr_instruments :: "(string, instrument_sync_result) dict"

definition historical_receipt_dict :: "historical_receipt \<Rightarrow> json" where
  "historical_receipt_dict r = JObj
     [(''status'', JStr ''SUCCEEDED''), (''provider'', JStr (hr_provider r)),
      (''required_start_ms'', JInt (hr_start r)), (''required_end_ms'', JInt (hr_end r)),
      (''instruments'', JObj (map (\<lambda>(i, x). (i, sync_result_dict x)) (sort_key fst (hr_instruments r))))]"

section \<open>The service\<close>

definition validate_range :: "int \<Rightarrow> int \<Rightarrow> unit result" where
  "validate_range a b = rguard (\<not> (a < 0 \<or> a mod 60000 \<noteq> 0 \<or> b mod 60000 \<noteq> 0 \<or> a > b)) ValueError
     ''historical range must be aligned, non-negative, and ordered''"

text \<open>The classes \<^verbatim>\<open>except ValueError\<close> catches.\<close>

fun is_value_error :: "exn_class \<Rightarrow> bool" where
  "is_value_error c \<longleftrightarrow> c \<in> {ValueError, StrictConfigurationError, GraphConfigurationError,
     UnknownPluginError, MissingDependencyError, CyclicDependencyError}"

definition sync_gap ::
    "'w kline_provider \<Rightarrow> 's candle_repo \<Rightarrow> instrument_mapping \<Rightarrow> int \<times> int \<Rightarrow> ('w \<times> 's, unit) op" where
  "sync_gap pv repo m ab ws =
     (case sync_range pv (historical_repo repo) m (fst ab) (snd ab) ws of
        (Inr _, ws') \<Rightarrow> (Inr (), ws')
      | (Inl (Exn c msg), ws') \<Rightarrow>
          if is_value_error c \<and> msg = ''completed provider range is not contiguous''
          then (raise ValueError ''historical range is not contiguous after synchronization'', ws')
          else (Inl (Exn c msg), ws'))"

definition sync_result :: "int \<Rightarrow> int \<Rightarrow> candle list \<Rightarrow> candle list \<Rightarrow> instrument_sync_result result" where
  "sync_result a b existing whole =
     rbind (rguard (\<not> (int (length whole) \<noteq> (b - a) div 60000 + 1
              \<or> \<not> adjacent (\<lambda>left right. open_time_ms right = open_time_ms left + 60000) whole))
              ValueError ''historical range is not contiguous after synchronization'') (\<lambda>_.
     Inr \<lparr>is_candles = whole, is_existing = int (length existing),
        is_fetched = int (length whole) - int (length existing), is_total = int (length whole),
        is_gaps = 0, is_hash = hash_candles whole\<rparr>)"

definition historical_sync_range ::
    "'w kline_provider \<Rightarrow> 's candle_repo \<Rightarrow> instrument_mapping \<Rightarrow> int \<Rightarrow> int
      \<Rightarrow> ('w \<times> 's, instrument_sync_result) op" where
  "historical_sync_range pv repo m a b =
     sbind (slift (validate_range a b)) (\<lambda>_.
     sbind (on_world (pv_validate pv m)) (\<lambda>_.
     sbind (on_world (pv_latest_closed pv)) (\<lambda>latest.
     sbind (sguard (\<not> b > latest) ValueError ''requested range includes an open canonical minute'') (\<lambda>_.
     sbind (load_market pv repo m a b) (\<lambda>existing.
     sbind (sfor (sync_gap pv repo m) (missing_ranges a b (map open_time_ms existing))) (\<lambda>_.
     sbind (load_market pv repo m a b) (\<lambda>whole.
     slift (sync_result a b existing whole))))))))"

fun sync_each ::
    "'w kline_provider \<Rightarrow> 's candle_repo \<Rightarrow> int \<Rightarrow> int \<Rightarrow> instrument_mapping list
      \<Rightarrow> ('w \<times> 's, (string, instrument_sync_result) dict) op" where
  "sync_each pv repo a b [] = sreturn []"
| "sync_each pv repo a b (m # ms) =
     sbind (historical_sync_range pv repo m a b) (\<lambda>r.
     sbind (sync_each pv repo a b ms) (\<lambda>rs. sreturn ((im_instrument_id m, r) # rs)))"

definition sync_all ::
    "'w kline_provider \<Rightarrow> 's candle_repo \<Rightarrow> instrument_mapping list \<Rightarrow> int \<Rightarrow> int
      \<Rightarrow> ('w \<times> 's, historical_receipt) op" where
  "sync_all pv repo ms a b =
     sbind (slift (validate_range a b)) (\<lambda>_.
     sbind (sguard (ms \<noteq> [] \<and> distinct (map im_instrument_id ms)) ValueError
              ''historical sync requires unique instrument mappings'') (\<lambda>_.
     sbind (sync_each pv repo a b (sort_key im_instrument_id ms)) (\<lambda>results.
     sreturn \<lparr>hr_provider = pv_id pv, hr_start = a, hr_end = b, hr_instruments = results\<rparr>)))"

section \<open>What the service keeps\<close>

lemma load_historical: "load_market pv (historical_repo repo) m a b = load_market pv repo m a b"
  by (simp add: load_market_def historical_repo_def)

abbreviation rows_grown :: "candle_db \<Rightarrow> candle_db \<Rightarrow> bool" where
  "rows_grown \<equiv> historical.grown"

lemma keeps_gap:
  assumes "typed_provider pv"
  shows "keeps (\<lambda>ws. rows_grown s0 (snd ws)) (sync_gap pv sqlite_repo m ab)"
  unfolding keeps_def
proof (intro allI impI)
  fix ws r ws'
  assume g: "rows_grown s0 (snd ws)" and run: "sync_gap pv sqlite_repo m ab ws = (r, ws')"
  obtain q t where q: "sync_range pv (historical_repo sqlite_repo) m (fst ab) (snd ab) ws = (q, t)"
    by (cases "sync_range pv (historical_repo sqlite_repo) m (fst ab) (snd ab) ws")
  with run have "ws' = t"
    by (cases q) (auto simp: sync_gap_def split: exn.splits if_splits)
  then show "rows_grown s0 (snd ws')"
    using keepsD [OF historical.keeps_sync_range [OF assms] g q] by simp
qed

lemma keeps_load_sqlite: "keeps (\<lambda>ws. rows_grown s0 (snd ws)) (load_market pv sqlite_repo m a b)"
  using historical.keeps_load by (simp add: load_historical)

lemma keeps_historical:
  assumes "typed_provider pv"
  shows "keeps (\<lambda>ws. rows_grown s0 (snd ws)) (historical_sync_range pv sqlite_repo m a b)"
  unfolding historical_sync_range_def
  by (rule keeps_gap [OF assms] keeps_sbind keeps_sfor keeps_on_world keeps_load_sqlite keeps_slift
      keeps_sguard keeps_sreturn)+

lemma keeps_each:
  assumes "typed_provider pv"
  shows "keeps (\<lambda>ws. rows_grown s0 (snd ws)) (sync_each pv sqlite_repo a b ms)"
  by (induction ms) (auto intro!: keeps_sbind keeps_sreturn keeps_historical [OF assms] simp del: split_paired_All)

lemma arith_minutes:
  assumes "adjacent (\<lambda>l r. open_time_ms r = open_time_ms l + 60000) cs" "cs \<noteq> []"
    and "\<forall>c\<in>set cs. a \<le> open_time_ms c \<and> open_time_ms c \<le> b" "int (length cs) = (b - a) div 60000 + 1"
    and "minute_aligned a" "minute_aligned b" "a \<le> b"
  shows "map open_time_ms cs = minutes a b"
proof -
  let ?n = "length cs"
  have pos: "0 < ?n" using assms(2) by simp
  have nth: "open_time_ms (cs ! i) = open_time_ms (cs ! 0) + int i * 60000" if "i < ?n" for i
    using adjacent_arith [OF assms(1) that] .
  have lo: "a \<le> open_time_ms (cs ! 0)" using assms(3) pos nth_mem by blast
  have hi: "open_time_ms (cs ! (?n - 1)) \<le> b" using assms(3) pos by simp
  have "60000 dvd b - a" using assms(5,6) unfolding minute_aligned_def by (intro dvd_diff mod_0_imp_dvd)
  then have "(b - a) div 60000 * 60000 = b - a" by (rule dvd_div_mult_self)
  moreover have "(b - a) div 60000 = int ?n - 1" using assms(4) by simp
  ultimately have ba: "b - a = (int ?n - 1) * 60000" by (simp only:)
  have "open_time_ms (cs ! (?n - 1)) = open_time_ms (cs ! 0) + (int ?n - 1) * 60000"
    using nth [of "?n - 1"] pos by (simp add: of_nat_diff)
  with hi lo ba have first: "open_time_ms (cs ! 0) = a" by linarith
  have "minutes a b = grid a 60000 ?n" by (simp only: minutes_grid assms(4) [symmetric] nat_int)
  moreover have "map open_time_ms cs = grid a 60000 ?n"
    by (rule nth_equalityI) (simp_all add: grid_def nth first)
  ultimately show ?thesis by (simp only:)
qed

lemma historical_result:
  assumes "typed_provider pv" "candle_db_wf db"
    and "historical_sync_range pv sqlite_repo m a b (w, db) = (Inr res, (w', db'))"
  shows "map open_time_ms (is_candles res) = minutes a b
    \<and> list_all (\<lambda>c. find_row db' (market_row_key pv m (open_time_ms c)) = Some c) (is_candles res)"
proof -
  define Q where "Q res ws \<longleftrightarrow> map open_time_ms (is_candles res) = minutes a b
      \<and> list_all (\<lambda>c. find_row (snd ws) (market_row_key pv m (open_time_ms c)) = Some c) (is_candles res)"
    for res :: instrument_sync_result and ws :: "'a \<times> candle_db"
  from assms(3) have "\<not> (a < 0 \<or> a mod 60000 \<noteq> 0 \<or> b mod 60000 \<noteq> 0 \<or> a > b)"
    by (auto simp: historical_sync_range_def sbind_Inr validate_range_def)
  then have ab: "minute_aligned a" "minute_aligned b" "a \<le> b" by (simp_all add: minute_aligned_def)
  have last: "ensures (\<lambda>ws. rows_grown db (snd ws)) (sbind (load_market pv sqlite_repo m a b) (\<lambda>whole.
     slift (sync_result a b existing whole))) Q" for existing :: "candle list"
    unfolding ensures_def
  proof (intro allI impI)
    fix ws :: "'a \<times> candle_db" and res ws'
    assume gr: "rows_grown db (snd ws)"
      and run: "sbind (load_market pv sqlite_repo m a b) (\<lambda>whole.
     slift (sync_result a b existing whole)) ws = (Inr res, ws')"
    obtain w1 s1 where ws: "ws = (w1, s1)" by fastforce
    obtain w2 s2 where ws': "ws' = (w2, s2)" by fastforce
    from run obtain cs where l: "repo_load sqlite_repo (pv_id pv) market_type_name (im_instrument_id m) a b s1 = (Inr cs, s2)"
      and n: "int (length cs) = (b - a) div 60000 + 1"
      and adj: "adjacent (\<lambda>left right. open_time_ms right = open_time_ms left + 60000) cs"
      and res: "is_candles res = cs"
      unfolding ws ws' by (auto simp: sbind_Inr load_market_def on_store_Inr sync_result_def)
    have "candle_db_wf s1" using gr by (simp add: historical.grown_def ws)
    from sqlite.load_present [OF this l] have s: "s2 = s1"
      and cs: "\<forall>c\<in>set cs. a \<le> open_time_ms c \<and> open_time_ms c \<le> b
        \<and> find_row s1 (pv_id pv, market_type_name, im_instrument_id m, ''1m'', open_time_ms c) = Some c"
      by auto
    have "0 \<le> (b - a) div 60000" using ab(3) by (simp add: pos_imp_zdiv_nonneg_iff)
    with n have "cs \<noteq> []" by auto
    with arith_minutes [OF adj] cs n ab have "map open_time_ms cs = minutes a b" by blast
    with cs s show "Q res ws'" by (simp add: Q_def res ws' market_row_key_def list_all_iff)
  qed
  have "ensures (\<lambda>ws. rows_grown db (snd ws)) (historical_sync_range pv sqlite_repo m a b) Q"
    unfolding historical_sync_range_def
    by (rule ensures_sbind, rule keeps_slift, rule ensures_sbind, rule keeps_on_world,
        rule ensures_sbind, rule keeps_on_world, rule ensures_sbind, rule keeps_sguard,
        rule ensures_sbind, rule keeps_load_sqlite, rule ensures_sbind, rule keeps_sfor,
        rule keeps_gap [OF assms(1)], rule last)
  moreover have "rows_grown db (snd (w, db))" using assms(2) by (simp add: historical.grown_refl)
  ultimately have "Q res (w', db')" using assms(3) unfolding ensures_def by blast
  then show ?thesis by (simp add: Q_def)
qed

text \<open>A range that an empty database synchronises.\<close>

definition sample_history :: "candle list" where
  "sample_history =
     (case sfor (sync_gap sample_provider sqlite_repo sample_mapping) (missing_ranges 0 60000 []) ((), empty_candle_db) of
        (Inr _, ws) \<Rightarrow> (case load_market sample_provider sqlite_repo sample_mapping 0 60000 ws of (Inr cs, _) \<Rightarrow> cs | _ \<Rightarrow> [])
      | _ \<Rightarrow> [])"

lemma sample_synchronised:
  "\<exists>res w' db'. historical_sync_range sample_provider sqlite_repo sample_mapping 0 60000 ((), empty_candle_db)
     = (Inr res, (w', db')) \<and> is_candles res = sample_history"
proof -
  have e: "case sfor (sync_gap sample_provider sqlite_repo sample_mapping) (missing_ranges 0 60000 []) ((), empty_candle_db) of
      (Inr _, ws) \<Rightarrow> (case load_market sample_provider sqlite_repo sample_mapping 0 60000 ws of
          (Inr cs, _) \<Rightarrow> int (length cs) = 60000 div 60000 + 1
            \<and> adjacent (\<lambda>left right. open_time_ms right = open_time_ms left + 60000) cs
        | _ \<Rightarrow> False)
    | _ \<Rightarrow> False" by code_simp
  have l: "load_market sample_provider sqlite_repo sample_mapping 0 60000 ((), empty_candle_db) = (Inr [], ((), empty_candle_db))"
    by code_simp
  have v: "validate_range 0 60000 = Inr ()" by code_simp
  from e obtain ws cs ws' where f:
    "sfor (sync_gap sample_provider sqlite_repo sample_mapping) (missing_ranges 0 60000 []) ((), empty_candle_db) = (Inr (), ws)"
    "load_market sample_provider sqlite_repo sample_mapping 0 60000 ws = (Inr cs, ws')"
    "int (length cs) = 60000 div 60000 + 1"
    "adjacent (\<lambda>left right. open_time_ms right = open_time_ms left + 60000) cs"
    by (auto split: prod.splits sum.splits)
  have "pv_validate sample_provider sample_mapping () = (Inr (), ())" "pv_latest_closed sample_provider () = (Inr 60000, ())"
    by (simp_all add: sample_provider_def sreturn_def)
  then show ?thesis
    using f l v
    by (cases ws') (auto simp: historical_sync_range_def sbind_def slift_def on_world_def sync_result_def sguard_def
        sample_history_def)
qed

section \<open>Properties\<close>

text \<open>A historical synchronisation that succeeds returns exactly one stored candle per minute of the
  requested range, whatever prefix mark the database holds for the market.\<close>

theorem historical_range_ready:
  "typed_provider pv \<Longrightarrow> candle_db_wf db \<Longrightarrow>
   historical_sync_range pv sqlite_repo m a b (w, db) = (Inr res, (w', db')) \<Longrightarrow>
   map open_time_ms (is_candles res) = minutes a b
   \<and> list_all (\<lambda>c. find_row db' (market_row_key pv m (open_time_ms c)) = Some c) (is_candles res)"
  by (rule historical_result)

theorem historical_range_ready_witness:
  "\<exists>res w' db'. historical_sync_range sample_provider sqlite_repo sample_mapping 0 60000 ((), empty_candle_db)
     = (Inr res, (w', db')) \<and> map open_time_ms (is_candles res) = [0, 60000]"
proof -
  obtain res w' db' where run:
    "historical_sync_range sample_provider sqlite_repo sample_mapping 0 60000 ((), empty_candle_db) = (Inr res, (w', db'))"
    using sample_synchronised by blast
  have m: "minutes 0 60000 = [0, 60000]" by code_simp
  from historical_range_ready [OF sample_typed empty_db_wf run] run m show ?thesis by auto
qed

text \<open>Synchronising many instruments keeps the database invariant and every stored row, also when one of
  them fails after others have stored their pages.\<close>

theorem sync_all_keeps_rows:
  "typed_provider pv \<Longrightarrow> candle_db_wf db \<Longrightarrow> sync_all pv sqlite_repo ms a b (w, db) = (r, (w', db')) \<Longrightarrow>
   candle_db_wf db' \<and> (\<forall>k c. find_row db k = Some c \<longrightarrow> find_row db' k = Some c)"
proof -
  assume ty: "typed_provider pv" and wf: "candle_db_wf db"
    and run: "sync_all pv sqlite_repo ms a b (w, db) = (r, (w', db'))"
  have "keeps (\<lambda>ws. rows_grown db (snd ws)) (sync_all pv sqlite_repo ms a b)"
    unfolding sync_all_def
    by (rule keeps_each [OF ty] keeps_sbind keeps_slift keeps_sguard keeps_sreturn)+
  from keepsD [OF this _ run] have "rows_grown db db'" using wf by (simp add: historical.grown_refl)
  then show ?thesis unfolding historical.grown_def by blast
qed

theorem sync_all_keeps_rows_witness:
  "\<exists>r w' db'. sync_all sample_provider sqlite_repo [sample_mapping] 0 60000 ((), empty_candle_db) = (r, (w', db'))
    \<and> candle_db_wf db'"
proof -
  obtain r w' db' where run:
    "sync_all sample_provider sqlite_repo [sample_mapping] 0 60000 ((), empty_candle_db) = (r, (w', db'))"
    by (metis prod.collapse)
  from sync_all_keeps_rows [OF sample_typed empty_db_wf run] run show ?thesis by blast
qed

end
