(* ===== verification/Indicators.thy ===== *)
theory Indicators
  imports Graph
begin

text \<open>
  Shared mechanics of the indicator plugins (\<^verbatim>\<open>indicators/base.py\<close>): the timeframe and the validated
  candle series of a role, the dependency checks, the construction of an observation, true ranges,
  Wilder's average true range and the simple moving average. The parts of an observation a plugin
  chooses are the record \<open>evaluation\<close>; what identifies the plugin is the record \<open>plugin_spec\<close>.
  Candle prices are canonical decimal text, so \<open>dec_of\<close> reads them; the series is validated first.
\<close>

section \<open>Candle series\<close>

definition configured_timeframe :: "run_context \<Rightarrow> string \<Rightarrow> string result" where
  "configured_timeframe cx role =
     (case dict_get (timeframes_by_role cx) role of
        Some tf \<Rightarrow> Inr tf
      | None \<Rightarrow>
          (case dict_get (candles_by_role cx) role of
             None \<Rightarrow> raise ValueError (''missing candle role '' @ py_repr role)
           | Some cs \<Rightarrow> (case remdups (map dc_interval cs) of
               [tf] \<Rightarrow> Inr tf
             | _ \<Rightarrow> raise ValueError ''configured role must contain one non-empty timeframe'')))"

definition check_decimal :: "string \<Rightarrow> unit result" where
  "check_decimal s = (case parse_decimal s of BadSyntax \<Rightarrow> raise InvalidOperation ''ConversionSyntax'' | _ \<Rightarrow> Inr ())"

definition series_step ::
    "run_context \<Rightarrow> string \<Rightarrow> int option \<Rightarrow> derived_candle \<Rightarrow> int option result" where
  "series_step cx tf previous_close c =
     rbind (rguard (\<not> (dc_instrument_id c \<noteq> cx_instrument_id cx \<or> dc_interval c \<noteq> tf)) ValueError
              ''candle identity does not match plugin role'') (\<lambda>_.
     rbind (rguard (\<not> dc_close_time_ms c > evaluation_time_ms cx) ValueError
              ''developing or future candle is not allowed'') (\<lambda>_.
     rbind (rguard (\<not> (case previous_close of None \<Rightarrow> False | Some p \<Rightarrow> dc_open_time_ms c \<noteq> p + 1)) ValueError
              ''indicator candles must be monotonic and contiguous'') (\<lambda>_.
     rbind (rmapM check_decimal [dc_open c, dc_high c, dc_low c, dc_close c]) (\<lambda>_.
     Inr (Some (dc_close_time_ms c))))))"

definition closed_candles :: "run_context \<Rightarrow> string \<Rightarrow> string \<Rightarrow> derived_candle list result" where
  "closed_candles cx role tf =
     (case dict_get (candles_by_role cx) role of
        None \<Rightarrow> raise ValueError (''missing candle role '' @ py_repr role)
      | Some cs \<Rightarrow> rbind (rfoldM (series_step cx tf) None cs) (\<lambda>_. Inr cs))"

definition plain_decimal :: "dec \<Rightarrow> string" where
  "plain_decimal d = or_zero (strip_fraction (format_f d))"

abbreviation high_of :: "derived_candle \<Rightarrow> dec" where "high_of c \<equiv> dec_of (dc_high c)"
abbreviation low_of :: "derived_candle \<Rightarrow> dec" where "low_of c \<equiv> dec_of (dc_low c)"
abbreviation open_of :: "derived_candle \<Rightarrow> dec" where "open_of c \<equiv> dec_of (dc_open c)"
abbreviation close_of :: "derived_candle \<Rightarrow> dec" where "close_of c \<equiv> dec_of (dc_close c)"

section \<open>Observations\<close>

record plugin_spec =
  sp_id :: string
  sp_role :: string
  sp_deps :: "string list"
  sp_sources :: "string list"

record evaluation =
  ev_status :: string
  ev_reason :: string
  ev_event_type :: "string option"
  ev_direction :: "string option"
  ev_event_time :: "int option"
  ev_known_time :: "int option"
  ev_state :: string
  ev_payload :: "(string \<times> pyobj) list"
  ev_level :: "dec option"
  ev_lower :: "dec option"
  ev_upper :: "dec option"

definition outcome :: "string \<Rightarrow> string \<Rightarrow> string \<Rightarrow> (string \<times> pyobj) list \<Rightarrow> evaluation" where
  "outcome status reason state payload =
     \<lparr>ev_status = status, ev_reason = reason, ev_event_type = None, ev_direction = None,
      ev_event_time = None, ev_known_time = None, ev_state = state, ev_payload = payload,
      ev_level = None, ev_lower = None, ev_upper = None\<rparr>"

definition parameter_hash :: "string \<Rightarrow> string \<Rightarrow> evidence \<Rightarrow> string" where
  "parameter_hash plug role params =
     node_parameter_hash \<lparr>instance_id = plug, plugin_id = plug, nd_role = role, depends_on = [],
       parameters = params, nd_order = 0, nd_timeframe = None\<rparr>"

definition indicator_observation ::
    "plugin_spec \<Rightarrow> string \<Rightarrow> evidence \<Rightarrow> run_context \<Rightarrow> evaluation \<Rightarrow> observation result" where
  "indicator_observation sp tf params cx ev = mk_observation
     \<lparr>signal_id = sp_id sp, ob_instrument_id = cx_instrument_id cx, ob_timeframe = tf,
      ob_status = ev_status ev, ob_event_type = ev_event_type ev, ob_direction = ev_direction ev,
      event_time_ms = ev_event_time ev, known_time_ms = ev_known_time ev, ob_state = ev_state ev,
      dependency_ids = sp_deps sp, ob_parameter_hash = parameter_hash (sp_id sp) (sp_role sp) params,
      source_manifest_ids = sp_sources sp, payload_schema_version = 1, bounded_reason = ev_reason ev,
      ob_payload = PDict (map (\<lambda>(k, v). (PStr k, v)) (ev_payload ev)),
      level_text = map_option plain_decimal (ev_level ev),
      lower_text = map_option plain_decimal (ev_lower ev),
      upper_text = map_option plain_decimal (ev_upper ev)\<rparr>"

section \<open>Dependencies\<close>

definition dependency_timeframes :: "(string, string) dict" where
  "dependency_timeframes = [(''smc.swing_structure'', ''4h''), (''smc.equal_high_low'', ''1h'')]"

definition execution_dependencies :: "string list" where
  "execution_dependencies = [''ict.clustered_liquidity'', ''ict.market_structure'', ''ict.fair_value_gap'']"

definition check_dependency :: "run_context \<Rightarrow> string \<Rightarrow> observation \<Rightarrow> unit result" where
  "check_dependency cx d ob =
     rbind (rguard (signal_id ob = d) ValueError ''dependency observation signal ID mismatch'') (\<lambda>_.
     rbind (rguard (ob_instrument_id ob = cx_instrument_id cx) ValueError
              ''dependency observation instrument mismatch'') (\<lambda>_.
     rbind (if d \<in> set execution_dependencies then configured_timeframe cx ''execution''
            else dict_index dependency_timeframes d) (\<lambda>tf.
     rguard (ob_timeframe ob = tf) ValueError ''dependency observation timeframe mismatch'')))"

text \<open>
  The loop over the dependencies: it stops at evidence from the future, and otherwise yields the
  first failed and the first unavailable dependency (the latter only among those seen while no
  earlier test of the same turn took the branch).
\<close>

fun scan_dependencies ::
    "run_context \<Rightarrow> string option \<Rightarrow> string option \<Rightarrow> (string, observation) dict
      \<Rightarrow> (evaluation + string option \<times> string option) result" where
  "scan_dependencies cx failed unavailable [] = Inr (Inr (failed, unavailable))"
| "scan_dependencies cx failed unavailable ((d, ob) # rest) =
     rbind (check_dependency cx d ob) (\<lambda>_.
     if known_after ob (evaluation_time_ms cx) then
       Inr (Inl (outcome ''FAIL'' ''dependency evidence is from the future'' ''INVALID_DEPENDENCY_EVIDENCE'' []))
     else if ob_status ob = ''FAIL'' \<and> failed = None then scan_dependencies cx (Some d) unavailable rest
     else if ob_status ob = ''UNAVAILABLE'' \<and> unavailable = None then
       scan_dependencies cx failed (Some d) rest
     else scan_dependencies cx failed unavailable rest)"

definition failed_dependency :: "string \<Rightarrow> observation \<Rightarrow> evaluation" where
  "failed_dependency d ob =
     (outcome ''FAIL'' (''dependency '' @ d @ '' failed'') ''FAILED_DEPENDENCY''
        [(''failed_dependency_id'', PStr d), (''dependency_reason'', PStr (bounded_reason ob))])
     \<lparr>ev_event_time := event_time_ms ob, ev_known_time := known_time_ms ob\<rparr>"

definition dependency_problem ::
    "(string, observation) dict \<Rightarrow> string list \<Rightarrow> run_context \<Rightarrow> evaluation option result" where
  "dependency_problem deps expected cx =
     rbind (rguard (dict_keys deps = expected) ValueError
              ''plugin dependencies do not match configured IDs'') (\<lambda>_.
     rbind (scan_dependencies cx None None deps) (\<lambda>found.
     case found of
       Inl problem \<Rightarrow> Inr (Some problem)
     | Inr (Some d, _) \<Rightarrow> rbind (dict_index deps d) (\<lambda>ob. Inr (Some (failed_dependency d ob)))
     | Inr (None, Some d) \<Rightarrow>
         Inr (Some (outcome ''UNAVAILABLE'' (''dependency '' @ d @ '' is unavailable'') ''UNAVAILABLE'' []))
     | Inr (None, None) \<Rightarrow> Inr None))"

section \<open>Averages\<close>

definition true_range :: "dec option \<Rightarrow> derived_candle \<Rightarrow> dec" where
  "true_range previous_close c =
     (let v = dsub (high_of c) (low_of c)
      in case previous_close of
           None \<Rightarrow> v
         | Some p \<Rightarrow> dmax2 (dmax2 v (dabs (dsub (high_of c) p))) (dabs (dsub (low_of c) p)))"

fun true_ranges_from :: "dec option \<Rightarrow> derived_candle list \<Rightarrow> dec list" where
  "true_ranges_from previous_close [] = []"
| "true_ranges_from previous_close (c # cs) =
     true_range previous_close c # true_ranges_from (Some (close_of c)) cs"

definition true_ranges :: "derived_candle list \<Rightarrow> dec list" where
  "true_ranges cs = true_ranges_from None cs"

fun wilder_tail :: "nat \<Rightarrow> dec \<Rightarrow> dec list \<Rightarrow> dec option list result" where
  "wilder_tail n current [] = Inr []"
| "wilder_tail n current (r # rs) =
     rbind (ddiv (dadd (dmul current (dec_of_int (int n - 1))) r) (dec_of_int (int n))) (\<lambda>v.
     rbind (wilder_tail n v rs) (\<lambda>vs. Inr (Some v # vs)))"

definition wilder_atr :: "derived_candle list \<Rightarrow> nat \<Rightarrow> dec option list result" where
  "wilder_atr cs n =
     (let rs = true_ranges cs in
      if length rs < n then Inr (replicate (length rs) None)
      else rbind (ddiv (dsum (take n rs)) (dec_of_int (int n))) (\<lambda>current.
           rbind (wilder_tail n current (drop n rs)) (\<lambda>vs.
           Inr (replicate (n - 1) None @ Some current # vs))))"

fun sma_from :: "dec list \<Rightarrow> nat \<Rightarrow> nat \<Rightarrow> dec \<Rightarrow> dec list \<Rightarrow> dec option list result" where
  "sma_from values n i running [] = Inr []"
| "sma_from values n i running (v # vs) =
     (let running1 = dadd running v;
          running2 = (if i \<ge> n then dsub running1 (values ! (i - n)) else running1)
      in rbind (if i + 1 \<ge> n then rbind (ddiv running2 (dec_of_int (int n))) (\<lambda>m. Inr (Some m)) else Inr None) (\<lambda>m.
         rbind (sma_from values n (i + 1) running2 vs) (\<lambda>ms. Inr (m # ms))))"

definition simple_moving_average :: "dec list \<Rightarrow> nat \<Rightarrow> dec option list result" where
  "simple_moving_average values n = sma_from values n 0 dzero values"

section \<open>Parameters\<close>

fun param_get :: "evidence \<Rightarrow> string \<Rightarrow> evidence option" where
  "param_get (EMap kvs) k = map_of kvs k"
| "param_get _ k = None"

fun param_keys :: "evidence \<Rightarrow> string list" where
  "param_keys (EMap kvs) = map fst kvs"
| "param_keys _ = []"

definition same_keys :: "evidence \<Rightarrow> string list \<Rightarrow> bool" where
  "same_keys p ks \<longleftrightarrow> set (param_keys p) = set ks"

definition exact_int :: "evidence \<Rightarrow> string \<Rightarrow> int \<Rightarrow> int option \<Rightarrow> int result" where
  "exact_int p name lo hi =
     (case param_get p name of
        Some (EInt v) \<Rightarrow>
          if v < lo then raise ValueError (name @ '' must be at least '' @ int_text lo)
          else (case hi of
              Some m \<Rightarrow> if v > m then raise ValueError (name @ '' must be at most '' @ int_text m) else Inr v
            | None \<Rightarrow> Inr v)
      | _ \<Rightarrow> raise TypeError (name @ '' must be an integer; Boolean is not integer''))"

definition exact_bool :: "evidence \<Rightarrow> string \<Rightarrow> bool result" where
  "exact_bool p name =
     (case param_get p name of Some (EBool b) \<Rightarrow> Inr b | _ \<Rightarrow> raise TypeError (name @ '' must be Boolean''))"

text \<open>
  A decimal parameter. An infinite or undefined value fails the range test that follows in every
  constructor; it is refused here with the error of that test.
\<close>

definition exact_decimal :: "evidence \<Rightarrow> string \<Rightarrow> string \<Rightarrow> dec result" where
  "exact_decimal p name range_error =
     (case param_get p name of
        Some (EStr s) \<Rightarrow> (case parse_decimal s of
            Finite d \<Rightarrow> Inr d
          | Special _ \<Rightarrow> raise ValueError range_error
          | BadSyntax \<Rightarrow> raise InvalidOperation ''ConversionSyntax'')
      | _ \<Rightarrow> raise TypeError (name @ '' must be canonical decimal text''))"

section \<open>The plugin contract\<close>

text \<open>Every branch of an evaluation ends with an observation made of the plugin's own identity.\<close>

definition observe ::
    "plugin_spec \<Rightarrow> evidence \<Rightarrow> (run_context \<Rightarrow> (string, observation) dict \<Rightarrow> (string \<times> evaluation) result) \<Rightarrow> plugin" where
  "observe sp params f = \<lparr>pl_role = Some (sp_role sp),
     pl_evaluate = (\<lambda>cx deps. rbind (f cx deps) (\<lambda>(tf, ev). indicator_observation sp tf params cx ev))\<rparr>"

definition timely :: "run_context \<Rightarrow> evaluation \<Rightarrow> bool" where
  "timely cx ev \<longleftrightarrow> (\<forall>k\<in>set_option (ev_known_time ev). k \<le> evaluation_time_ms cx)"

lemma timely_outcome [simp]: "timely cx (outcome s r st p)"
  by (simp add: timely_def outcome_def)

lemma parameter_hash_params: "parameter_hash plug role p = params_hash p"
  by (simp add: parameter_hash_def node_parameter_hash_def)

lemma indicator_observation_Inr:
  assumes "indicator_observation sp tf params cx ev = Inr ob"
  shows "signal_id ob = sp_id sp \<and> ob_instrument_id ob = cx_instrument_id cx \<and> ob_timeframe ob = tf
    \<and> dependency_ids ob = sp_deps sp \<and> ob_parameter_hash ob = params_hash params
    \<and> known_time_ms ob = ev_known_time ev \<and> event_time_ms ob = ev_event_time ev \<and> ob_status ob = ev_status ev"
  using assms
  by (auto simp: indicator_observation_def mk_observation_def instrument_id_def timeframe_def
      parameter_hash_params split: if_splits)

lemma series_known:
  assumes "rfoldM (series_step cx tf) p cs = Inr q" "c \<in> set cs"
  shows "dc_close_time_ms c \<le> evaluation_time_ms cx \<and> dc_interval c = tf \<and> dc_instrument_id c = cx_instrument_id cx"
  using assms
proof (induction cs arbitrary: p)
  case (Cons x cs)
  then show ?case by (auto simp: series_step_def)
qed simp

lemma closed_candles_known:
  "closed_candles cx role tf = Inr cs \<Longrightarrow> c \<in> set cs \<Longrightarrow> dc_close_time_ms c \<le> evaluation_time_ms cx"
  by (auto simp: closed_candles_def series_known split: option.splits)

lemma scan_failed:
  assumes "scan_dependencies cx f u deps = Inr (Inr (Some d, v))"
  shows "f = Some d \<or> (\<exists>ob. (d, ob) \<in> set deps \<and> \<not> known_after ob (evaluation_time_ms cx))"
  using assms
proof (induction cx f u deps rule: scan_dependencies.induct)
  case (2 cx f u d' ob rest)
  then show ?case by (auto split: if_splits)
qed simp

lemma scan_known:
  assumes "scan_dependencies cx f u deps = Inr (Inr r)" "(d, ob) \<in> set deps"
  shows "\<not> known_after ob (evaluation_time_ms cx)"
  using assms
proof (induction cx f u deps rule: scan_dependencies.induct)
  case (2 cx f u d' ob' rest)
  then show ?case by (auto split: if_splits)
qed simp

lemma scan_problem: "scan_dependencies cx f u deps = Inr (Inl ev) \<Longrightarrow> timely cx ev"
proof (induction cx f u deps rule: scan_dependencies.induct)
  case (2 cx f u d' ob' rest)
  then show ?case by (auto split: if_splits)
qed simp

lemma dict_index_member: "dict_index d k = Inr v \<Longrightarrow> (k, v) \<in> set d"
  by (auto simp: dict_index_def dest: map_of_SomeD split: option.splits)

lemma known_time_iff: "\<not> known_after ob t \<longleftrightarrow> (\<forall>k\<in>set_option (known_time_ms ob). k \<le> t)"
  by (rule known_after_iff)

lemma dependency_problem_timely:
  assumes "dependency_problem deps expected cx = Inr (Some ev)"
  shows "timely cx ev"
proof -
  from assms obtain found where s: "scan_dependencies cx None None deps = Inr found"
    and f: "(case found of Inl problem \<Rightarrow> Inr (Some problem)
     | Inr (Some d, _) \<Rightarrow> rbind (dict_index deps d) (\<lambda>ob. Inr (Some (failed_dependency d ob)))
     | Inr (None, Some d) \<Rightarrow>
         Inr (Some (outcome ''UNAVAILABLE'' (''dependency '' @ d @ '' is unavailable'') ''UNAVAILABLE'' []))
     | Inr (None, None) \<Rightarrow> Inr None) = Inr (Some ev)"
    by (auto simp: dependency_problem_def)
  show ?thesis
  proof (cases found)
    case (Inl p)
    with s f scan_problem show ?thesis by auto
  next
    case (Inr fu)
    obtain f0 u0 where fu: "fu = (f0, u0)" by fastforce
    show ?thesis
    proof (cases f0)
      case None
      with f Inr fu show ?thesis by (auto split: option.splits)
    next
      case (Some d)
      with f Inr fu obtain ob where ob: "dict_index deps d = Inr ob" "ev = failed_dependency d ob" by auto
      have "\<not> known_after ob (evaluation_time_ms cx)"
        by (rule scan_known [OF s [unfolded Inr] dict_index_member [OF ob(1)]])
      then show ?thesis
        by (simp add: ob(2) timely_def failed_dependency_def known_time_iff)
    qed
  qed
qed

lemma dependency_problem_None:
  assumes "dependency_problem deps expected cx = Inr None" "(d, ob) \<in> set deps"
  shows "(\<forall>k\<in>set_option (known_time_ms ob). k \<le> evaluation_time_ms cx) \<and> dict_keys deps = expected"
proof -
  from assms(1) obtain found where s: "scan_dependencies cx None None deps = Inr found" "dict_keys deps = expected"
    by (auto simp: dependency_problem_def)
  with assms(1) obtain r where "found = Inr r"
    by (cases found) (auto simp: dependency_problem_def)
  with s scan_known assms(2) show ?thesis using known_time_iff by blast
qed

text \<open>
  What the graph relies on: the plugins of a factory have the role of the specification, and
  whatever they observe carries their identity and is known no later than the evaluation time.
\<close>

locale indicator =
  fixes sp :: plugin_spec
    and make :: "evidence \<Rightarrow> plugin result"
    and eval :: "evidence \<Rightarrow> run_context \<Rightarrow> (string, observation) dict \<Rightarrow> (string \<times> evaluation) result"
  assumes make_observe: "make p = Inr plug \<Longrightarrow> plug = observe sp p (eval p)"
    and eval_timely: "make p = Inr plug \<Longrightarrow> eval p cx deps = Inr (tf, ev) \<Longrightarrow> timely cx ev"
begin

lemma plugin_output:
  assumes "make p = Inr plug" "pl_evaluate plug cx deps = Inr ob"
  shows "signal_id ob = sp_id sp \<and> ob_instrument_id ob = cx_instrument_id cx
    \<and> dependency_ids ob = sp_deps sp \<and> ob_parameter_hash ob = params_hash p
    \<and> (\<forall>k\<in>set_option (known_time_ms ob). k \<le> evaluation_time_ms cx)"
proof -
  have pl: "plug = observe sp p (eval p)" using assms(1) by (rule make_observe)
  with assms(2) obtain tf ev where e: "eval p cx deps = Inr (tf, ev)"
    and ob: "indicator_observation sp tf p cx ev = Inr ob"
    by (auto simp: observe_def)
  from eval_timely [OF assms(1) e] indicator_observation_Inr [OF ob] show ?thesis
    by (simp add: timely_def)
qed

text \<open>The checks of the graph accept every observation of the plugin in its timeframe.\<close>

lemma accepted:
  assumes "make (parameters n) = Inr plug" "pl_evaluate plug cx deps = Inr ob"
    and "instance_id n = sp_id sp" "depends_on n = sp_deps sp"
    and "\<forall>tf\<in>set_option (nd_timeframe n). ob_timeframe ob = tf"
  shows "valid_output cx n ob"
  using plugin_output [OF assms(1,2)] assms(3-5) by (simp add: valid_output_def node_parameter_hash_def)

end

text \<open>A plugin made of parsed parameters.\<close>

definition with_params ::
    "(evidence \<Rightarrow> 'x result) \<Rightarrow> ('x \<Rightarrow> run_context \<Rightarrow> (string, observation) dict \<Rightarrow> (string \<times> evaluation) result)
      \<Rightarrow> evidence \<Rightarrow> run_context \<Rightarrow> (string, observation) dict \<Rightarrow> (string \<times> evaluation) result" where
  "with_params f eval p cx deps = rbind (f p) (\<lambda>x. eval x cx deps)"

lemma indicator_of_params:
  assumes "\<And>p. mk p = rbind (f p) (\<lambda>x. Inr (observe sp p (eval x)))"
    and "\<And>p x cx deps tf ev. f p = Inr x \<Longrightarrow> eval x cx deps = Inr (tf, ev) \<Longrightarrow> timely cx ev"
  shows "indicator sp mk (with_params f eval)"
proof unfold_locales
  fix p plug assume "mk p = Inr plug"
  then obtain x where x: "f p = Inr x" "plug = observe sp p (eval x)" by (auto simp: assms(1))
  have "with_params f eval p = eval x" by (intro ext) (simp add: with_params_def x)
  with x show "plug = observe sp p (with_params f eval p)" by simp
next
  fix p plug cx deps tf ev
  assume "mk p = Inr plug" "with_params f eval p cx deps = Inr (tf, ev)"
  then show "timely cx ev" by (auto simp: with_params_def intro: assms(2))
qed

lemma timely_close:
  "closed_candles cx role tf = Inr cs \<Longrightarrow> i < length cs \<Longrightarrow> dc_close_time_ms (cs ! i) \<le> evaluation_time_ms cx"
  by (simp add: closed_candles_known)

text \<open>The common shape of an evaluation with dependencies.\<close>

lemma checked_timely:
  assumes "rbind (dependency_problem deps expected cx) (\<lambda>problem. rbind (closed_candles cx role tf) (\<lambda>cs.
      case problem of Some ev \<Rightarrow> Inr (tf, ev) | None \<Rightarrow> rest cs)) = Inr (tf', ev)"
    and "\<And>cs. closed_candles cx role tf = Inr cs \<Longrightarrow> dependency_problem deps expected cx = Inr None \<Longrightarrow>
      rest cs = Inr (tf', ev) \<Longrightarrow> timely cx ev"
  shows "timely cx ev"
proof -
  from assms(1) obtain problem cs where p: "dependency_problem deps expected cx = Inr problem"
    and cs: "closed_candles cx role tf = Inr cs"
    and r: "(case problem of Some ev \<Rightarrow> Inr (tf, ev) | None \<Rightarrow> rest cs) = Inr (tf', ev)" by auto
  show ?thesis
  proof (cases problem)
    case None
    with assms(2) [OF cs] p r show ?thesis by simp
  next
    case (Some q)
    with p r dependency_problem_timely show ?thesis by auto
  qed
qed

lemma warmup_timely:
  assumes "(if short then Inr (tf, outcome st reason state payload) else rest) = Inr (tf', ev)"
    and "rest = Inr (tf', ev) \<Longrightarrow> timely cx ev"
  shows "timely cx ev"
  using assms by (auto split: if_splits)

section \<open>Rounding keeps the sign\<close>

lemma dfix_coef_pos:
  assumes "0 < dcoef d"
  shows "0 < dcoef (dfix d)"
proof (cases "ndigits (dcoef d) \<le> dec_prec")
  case True
  with assms show ?thesis by (simp add: dfix_exact)
next
  case False
  define k where "k = ndigits (dcoef d) - dec_prec"
  have "k \<le> ndigits (dcoef d) - 1" by (simp add: k_def dec_prec_def)
  then have "(10::int) ^ k \<le> 10 ^ (ndigits (dcoef d) - 1)" by (intro power_increasing) simp_all
  also have "\<dots> \<le> dcoef d" using assms by (rule ndigits_lower)
  finally have "1 \<le> dcoef d div 10 ^ k" using le_div_iff_mult_le [of "10 ^ k" 1 "dcoef d"] by simp
  then have "0 < half_even (dcoef d) k" by (simp add: half_even_def Let_def)
  then show ?thesis by (simp add: dfix_round [OF False k_def refl])
qed

lemma powi_not_neg [simp]: "\<not> (10::rat) powi e < 0"
  by (simp add: not_less less_imp_le)

lemma dval_pos_iff: "0 < dval d \<longleftrightarrow> 0 < dsigned d"
  by (simp add: dval_def zero_less_mult_iff)

lemma sgn_dval: "sgn (dval d) = of_int (sgn (dsigned d))"
  by (simp add: dval_def sgn_mult) (simp add: sgn_if)

lemma dadd_sgn: "sgn (dval (dadd a b)) = sgn (dval a + dval b)"
proof -
  define e where "e = min (dexp a) (dexp b)"
  define v where "v = align a e + align b e"
  have "dval a + dval b = of_int v * 10 powi e"
    using align_val [of e a] align_val [of e b] by (simp add: v_def e_def distrib_right)
  then have sum: "sgn (dval a + dval b) = of_int (sgn v)" by (simp add: sgn_mult) (simp add: sgn_if)
  show ?thesis
  proof (cases "v = 0")
    case True
    then have "dadd a b = Dec (dneg a \<and> dneg b) 0 e" by (simp add: dadd_def Let_def e_def v_def)
    with True sum show ?thesis by (simp add: sgn_dval dsigned_def)
  next
    case False
    then have d: "dadd a b = dfix (Dec (v < 0) \<bar>v\<bar> e)" by (simp add: dadd_def Let_def e_def v_def)
    have "0 < dcoef (dadd a b)" unfolding d using False by (intro dfix_coef_pos) simp
    moreover have "dneg (dadd a b) \<longleftrightarrow> v < 0" by (simp add: d)
    ultimately have "sgn (dsigned (dadd a b)) = sgn v" using False by (simp add: dsigned_def)
    then show ?thesis by (simp add: sgn_dval sum)
  qed
qed

lemma dadd_pos_iff: "0 < dval (dadd a b) \<longleftrightarrow> 0 < dval a + dval b"
  by (metis dadd_sgn sgn_1_pos)

lemma dadd_neg_iff: "dval (dadd a b) < 0 \<longleftrightarrow> dval a + dval b < 0"
  by (metis dadd_sgn sgn_1_neg)

lemma dval_copy_negate [simp]: "dval (copy_negate d) = - dval d"
  by (simp add: dval_def dsigned_def copy_negate_def)

lemma dsub_pos_iff: "dlt dzero (dsub a b) \<longleftrightarrow> dval b < dval a"
  by (simp add: dlt_iff dsub_def dadd_pos_iff)

section \<open>Averages look at the past only\<close>

lemma true_ranges_from_take: "true_ranges_from p (take m cs) = take m (true_ranges_from p cs)"
  by (induction cs arbitrary: p m) (auto simp: take_Cons split: nat.splits)

lemma true_ranges_length [simp]: "length (true_ranges cs) = length cs"
proof -
  have "length (true_ranges_from p cs) = length cs" for p by (induction cs arbitrary: p) auto
  then show ?thesis by (simp add: true_ranges_def)
qed

lemma wilder_tail_take:
  "wilder_tail n c rs = Inr vs \<Longrightarrow> wilder_tail n c (take m rs) = Inr (take m vs)"
  by (induction rs arbitrary: c vs m) (auto simp: take_Cons split: nat.splits)

lemma ddiv_Inr: "\<not> is_zero b \<Longrightarrow> \<exists>q. ddiv a b = Inr q"
  by (simp add: ddiv_def)

lemma is_zero_dec_of_int: "is_zero (dec_of_int i) \<longleftrightarrow> i = 0"
  by (simp add: is_zero_def dec_of_int_def)

lemma wilder_tail_total: "0 < n \<Longrightarrow> \<exists>vs. wilder_tail n c rs = Inr vs \<and> length vs = length rs"
proof (induction rs arbitrary: c)
  case (Cons r rs)
  obtain v where v: "ddiv (dadd (dmul c (dec_of_int (int n - 1))) r) (dec_of_int (int n)) = Inr v"
    using ddiv_Inr is_zero_dec_of_int Cons.prems by fastforce
  from Cons.IH [OF Cons.prems, of v] v show ?case by auto
qed simp

lemma wilder_atr_total:
  assumes "0 < n"
  obtains vs where "wilder_atr cs n = Inr vs" "length vs = length cs"
proof (cases "length cs < n")
  case True
  then show ?thesis using that by (simp add: wilder_atr_def Let_def)
next
  case False
  obtain c where c: "ddiv (dsum (take n (true_ranges cs))) (dec_of_int (int n)) = Inr c"
    using ddiv_Inr is_zero_dec_of_int assms by fastforce
  from wilder_tail_total [OF assms, of c "drop n (true_ranges cs)"] c False assms that
  show ?thesis by (auto simp: wilder_atr_def Let_def)
qed

lemma wilder_atr_take:
  assumes "wilder_atr cs n = Inr vs" "0 < n"
  shows "wilder_atr (take m cs) n = Inr (take m vs)"
proof -
  let ?rs = "true_ranges cs"
  have tr: "true_ranges (take m cs) = take m ?rs" by (simp add: true_ranges_def true_ranges_from_take)
  show ?thesis
  proof (cases "length cs < n")
    case True
    with assms show ?thesis by (auto simp: wilder_atr_def Let_def)
  next
    case False
    with assms obtain c ws where c: "ddiv (dsum (take n ?rs)) (dec_of_int (int n)) = Inr c"
      and ws: "wilder_tail n c (drop n ?rs) = Inr ws" and vs: "vs = replicate (n - 1) None @ Some c # ws"
      by (auto simp: wilder_atr_def Let_def)
    show ?thesis
    proof (cases "m < n")
      case True
      with False vs assms(2) show ?thesis by (simp add: wilder_atr_def Let_def min_absorb2)
    next
      case f2: False
      have tk: "take n (take m ?rs) = take n ?rs" "drop n (take m ?rs) = take (m - n) (drop n ?rs)"
        using f2 by (simp_all add: min_absorb1 drop_take)
      have "take m vs = replicate (n - 1) None @ Some c # take (m - n) ws"
        using vs f2 assms(2) by (simp add: take_Cons' Suc_diff_Suc)
      moreover have "\<not> length (take m ?rs) < n" using False f2 by simp
      ultimately show ?thesis
        unfolding wilder_atr_def Let_def tr by (simp add: c tk wilder_tail_take [OF ws] del: length_take take_take)
    qed
  qed
qed

section \<open>Scans that do not repaint\<close>

lemma foldl_upt_inv:
  "P 0 s \<Longrightarrow> (\<And>i s. i < n \<Longrightarrow> P i s \<Longrightarrow> P (Suc i) (f s i)) \<Longrightarrow> P n (foldl f s [0..<n])"
  by (induction n) auto

lemma rfoldM_upt_inv:
  "rfoldM f s [0..<n] = Inr t \<Longrightarrow> P 0 s \<Longrightarrow>
   (\<And>i s s'. i < n \<Longrightarrow> P i s \<Longrightarrow> f s i = Inr s' \<Longrightarrow> P (Suc i) s') \<Longrightarrow> P n t"
proof (induction n arbitrary: t)
  case (Suc n)
  from Suc.prems(1) obtain u where u: "rfoldM f s [0..<n] = Inr u" "f u n = Inr t"
    by (auto simp: rfoldM_append)
  from Suc.IH [OF u(1) Suc.prems(2)] Suc.prems(3) have "P n u" by (metis less_SucI)
  with u(2) Suc.prems(3) show ?case by blast
qed simp

text \<open>
  A scan folds a step over the bar indices and collects events. When a step only reads bars up to its
  index and only appends events known at its index, the events of a prefix of the series are the
  events of the whole series known within the prefix.
\<close>

definition scan ::
    "('c list \<Rightarrow> 's \<Rightarrow> nat \<Rightarrow> 's result) \<Rightarrow> 's \<Rightarrow> ('s \<Rightarrow> 'e list) \<Rightarrow> nat \<Rightarrow> 'c list \<Rightarrow> 'e list result" where
  "scan stp s0 evs first cs = rbind (rfoldM (stp cs) s0 [first..<length cs]) (\<lambda>st. Inr (evs st))"

locale causal_scan =
  fixes stp :: "'c list \<Rightarrow> 's \<Rightarrow> nat \<Rightarrow> 's result"
    and s0 :: 's
    and evs :: "'s \<Rightarrow> 'e list"
    and known :: "'e \<Rightarrow> nat"
    and first :: nat
    and good :: "'c list \<Rightarrow> 'e \<Rightarrow> bool"
  assumes start_empty: "evs s0 = []"
    and prefix_step: "first \<le> i \<Longrightarrow> i < n \<Longrightarrow> i < length cs \<Longrightarrow> stp (take n cs) st i = stp cs st i"
    and step_total: "first \<le> i \<Longrightarrow> i < length cs \<Longrightarrow> \<exists>st'. stp cs st i = Inr st'"
    and step_appends: "first \<le> i \<Longrightarrow> i < length cs \<Longrightarrow> stp cs st i = Inr st' \<Longrightarrow>
      \<exists>new. evs st' = evs st @ new \<and> (\<forall>e\<in>set new. known e = i \<and> good cs e)"
begin

lemma fold_appends:
  assumes "rfoldM (stp cs) st [a..<b] = Inr t" "first \<le> a" "b \<le> length cs"
  shows "\<exists>new. evs t = evs st @ new \<and> (\<forall>e\<in>set new. a \<le> known e \<and> known e < b \<and> good cs e)"
  using assms
proof (induction "b - a" arbitrary: a st)
  case 0
  then show ?case by simp
next
  case (Suc k)
  then have u: "[a..<b] = a # [Suc a..<b]" by (simp add: upt_conv_Cons)
  with Suc.prems(1) obtain st1 where st1: "stp cs st a = Inr st1"
    and rest: "rfoldM (stp cs) st1 [Suc a..<b] = Inr t" by auto
  from Suc have a: "a < length cs" by simp
  from step_appends [OF Suc.prems(2) a st1] obtain n1 where
    n1: "evs st1 = evs st @ n1" "\<forall>e\<in>set n1. known e = a \<and> good cs e" by blast
  have k: "k = b - Suc a" "first \<le> Suc a" using Suc.hyps(2) Suc.prems(2) by linarith+
  from Suc.hyps(1) [OF k(1) rest k(2) Suc.prems(3)] obtain n2 where
    n2: "evs t = evs st1 @ n2" "\<forall>e\<in>set n2. Suc a \<le> known e \<and> known e < b \<and> good cs e" by blast
  from n1 n2 Suc.hyps(2) show ?case by (intro exI [of _ "n1 @ n2"]) auto
qed

lemma fold_total:
  "first \<le> a \<Longrightarrow> b \<le> length cs \<Longrightarrow> \<exists>t. rfoldM (stp cs) st [a..<b] = Inr t"
proof (induction "b - a" arbitrary: a st)
  case 0
  then show ?case by simp
next
  case (Suc k)
  then have u: "[a..<b] = a # [Suc a..<b]" by (simp add: upt_conv_Cons)
  have k: "k = b - Suc a" "first \<le> Suc a" "a < length cs" using Suc.hyps(2) Suc.prems by linarith+
  obtain st1 where "stp cs st a = Inr st1" using step_total [OF Suc.prems(1) k(3)] by blast
  with Suc.hyps(1) [OF k(1,2) Suc.prems(2), of st1] u show ?case by simp
qed

lemma scan_total: "\<exists>es. scan stp s0 evs first cs = Inr es"
proof -
  obtain t where "rfoldM (stp cs) s0 [first..<length cs] = Inr t"
    using fold_total [of first "length cs" cs s0] by auto
  then show ?thesis by (simp add: scan_def)
qed

lemma scan_range:
  "scan stp s0 evs first cs = Inr es \<Longrightarrow> e \<in> set es \<Longrightarrow> first \<le> known e \<and> known e < length cs \<and> good cs e"
  using fold_appends [of cs s0 first "length cs"] start_empty by (fastforce simp: scan_def)

lemma no_repaint:
  assumes "scan stp s0 evs first cs = Inr es"
  shows "scan stp s0 evs first (take n cs) = Inr (filter (\<lambda>e. known e < n) es)"
proof -
  define m where "m = min n (length cs)"
  from assms obtain t where t: "rfoldM (stp cs) s0 [first..<length cs] = Inr t" and es: "es = evs t"
    by (auto simp: scan_def)
  have m: "length (take n cs) = m" by (simp add: m_def)
  obtain st1 where f1: "rfoldM (stp cs) s0 [first..<m] = Inr st1"
    and f2: "rfoldM (stp cs) st1 [max first m..<length cs] = Inr t"
  proof (cases "first \<le> m")
    case True
    then have "[first..<length cs] = [first..<m] @ [m..<length cs]"
      using upt_add_eq_append [of first m "length cs - m"] by (simp add: m_def)
    with t True that show ?thesis by (auto simp: rfoldM_append max_def)
  next
    case False
    with t that [of s0] show ?thesis by (simp add: max_def)
  qed
  have same: "rfoldM (stp (take n cs)) st [first..<m] = rfoldM (stp cs) st [first..<m]" for st
    by (rule rfoldM_cong) (auto simp: m_def intro: prefix_step)
  from fold_appends [OF f1] start_empty have e1: "\<forall>e\<in>set (evs st1). known e < n"
    by (auto simp: m_def)
  from fold_appends [OF f2] obtain new where new: "evs t = evs st1 @ new"
    "\<forall>e\<in>set new. m \<le> known e \<and> known e < length cs" by auto
  have "filter (\<lambda>e. known e < n) new = []"
    using new(2) by (auto simp: filter_empty_conv m_def min_def split: if_splits)
  with e1 new(1) es have "filter (\<lambda>e. known e < n) es = evs st1" by simp
  with f1 same m show ?thesis by (simp add: scan_def)
qed

end

end
