(* ===== verification/Smc.thy ===== *)
theory Smc
  imports Indicators
begin

text \<open>
  The SMC plugins (\<^verbatim>\<open>indicators/smc.py\<close>): swing structure, equal highs and lows, order blocks. Each is
  a fold over the bar indices; a bar \<open>i\<close> confirms the pivot \<open>i - sz\<close> when every later bar up to \<open>i\<close> is
  strictly inside it and the leg changes. The lemmas show that an event found on a prefix of the series
  is the event found on the whole series (nothing repaints), that the indices of events are in range,
  and what a pivot, an equal level and an active order block are.
\<close>

section \<open>Swing structure\<close>

record structure_event =
  se_type :: string
  se_direction :: string
  se_level :: dec
  se_event_index :: nat
  se_known_index :: nat
  se_state :: string
  se_pivot_kind :: string

record pivot =
  pt_level :: dec
  pt_index :: nat
  pt_crossed :: bool

definition new_pivot :: "dec \<Rightarrow> nat \<Rightarrow> pivot" where
  "new_pivot l i = \<lparr>pt_level = l, pt_index = i, pt_crossed = False\<rparr>"

text \<open>The candidate's high and low and the leg after bar \<open>i\<close>.\<close>

definition later_bars :: "nat \<Rightarrow> derived_candle list \<Rightarrow> nat \<Rightarrow> derived_candle list" where
  "later_bars sz cs i = take sz (drop (i - sz + 1) cs)"

definition next_leg :: "nat \<Rightarrow> derived_candle list \<Rightarrow> int \<Rightarrow> nat \<Rightarrow> int result" where
  "next_leg sz cs leg i =
     (let c = cs ! (i - sz); subsequent = later_bars sz cs i in
      rbind (dmax_list (map high_of subsequent)) (\<lambda>mx.
      rbind (dmin_list (map low_of subsequent)) (\<lambda>mn.
      Inr (if dlt mx (high_of c) then 0 else if dlt (low_of c) mn then 1 else leg))))"

record swing_state =
  sw_leg :: int
  sw_trend :: int
  sw_high :: "pivot option"
  sw_low :: "pivot option"
  sw_prev_high :: "dec option"
  sw_prev_low :: "dec option"
  sw_events :: "structure_event list"

definition swing_start :: swing_state where
  "swing_start = \<lparr>sw_leg = 0, sw_trend = 0, sw_high = None, sw_low = None, sw_prev_high = None,
     sw_prev_low = None, sw_events = []\<rparr>"

definition pivot_event :: "string \<Rightarrow> string \<Rightarrow> dec \<Rightarrow> nat \<Rightarrow> nat \<Rightarrow> string \<Rightarrow> structure_event" where
  "pivot_event ty dir lv k i kd = \<lparr>se_type = ty, se_direction = dir, se_level = lv, se_event_index = k,
     se_known_index = i, se_state = ''CONFIRMED_PIVOT'', se_pivot_kind = kd\<rparr>"

definition break_event :: "string \<Rightarrow> string \<Rightarrow> dec \<Rightarrow> nat \<Rightarrow> string \<Rightarrow> structure_event" where
  "break_event ty dir lv i kd = \<lparr>se_type = ty, se_direction = dir, se_level = lv, se_event_index = i,
     se_known_index = i, se_state = ''BROKEN'', se_pivot_kind = kd\<rparr>"

definition swing_pivot :: "nat \<Rightarrow> derived_candle list \<Rightarrow> swing_state \<Rightarrow> nat \<Rightarrow> swing_state result" where
  "swing_pivot sz cs st i =
     rbind (next_leg sz cs (sw_leg st) i) (\<lambda>leg.
     let k = i - sz; h = high_of (cs ! k); l = low_of (cs ! k) in
     if leg = sw_leg st then Inr st
     else if leg = 1 then
       let ty = (case sw_prev_low st of Some p \<Rightarrow> if dlt l p then ''LL'' else ''HL'' | None \<Rightarrow> ''HL'')
       in Inr (st\<lparr>sw_low := Some (new_pivot l k), sw_prev_low := Some l,
            sw_events := sw_events st @ [pivot_event ty ''BULLISH'' l k i ''LOW''], sw_leg := leg\<rparr>)
     else
       let ty = (case sw_prev_high st of Some p \<Rightarrow> if dlt p h then ''HH'' else ''LH'' | None \<Rightarrow> ''LH'')
       in Inr (st\<lparr>sw_high := Some (new_pivot h k), sw_prev_high := Some h,
            sw_events := sw_events st @ [pivot_event ty ''BEARISH'' h k i ''HIGH''], sw_leg := leg\<rparr>))"

definition previous_close :: "derived_candle list \<Rightarrow> nat \<Rightarrow> dec" where
  "previous_close cs i = (if i = 0 then close_of (cs ! i) else close_of (cs ! (i - 1)))"

definition crosses_up :: "pivot \<Rightarrow> derived_candle list \<Rightarrow> nat \<Rightarrow> bool" where
  "crosses_up p cs i \<longleftrightarrow> \<not> pt_crossed p \<and> dle (previous_close cs i) (pt_level p) \<and> dlt (pt_level p) (close_of (cs ! i))"

definition crosses_down :: "pivot \<Rightarrow> derived_candle list \<Rightarrow> nat \<Rightarrow> bool" where
  "crosses_down p cs i \<longleftrightarrow> \<not> pt_crossed p \<and> dle (pt_level p) (previous_close cs i) \<and> dlt (close_of (cs ! i)) (pt_level p)"

definition swing_break_high :: "derived_candle list \<Rightarrow> nat \<Rightarrow> swing_state \<Rightarrow> swing_state" where
  "swing_break_high cs i st =
     (case sw_high st of
        None \<Rightarrow> st
      | Some p \<Rightarrow>
          if crosses_up p cs i then
            st\<lparr>sw_high := Some (p\<lparr>pt_crossed := True\<rparr>), sw_trend := 1,
               sw_events := sw_events st @
                 [break_event (if sw_trend st = -1 then ''CHoCH'' else ''BOS'') ''BULLISH'' (pt_level p) i ''HIGH'']\<rparr>
          else st)"

definition swing_break_low :: "derived_candle list \<Rightarrow> nat \<Rightarrow> swing_state \<Rightarrow> swing_state" where
  "swing_break_low cs i st =
     (case sw_low st of
        None \<Rightarrow> st
      | Some p \<Rightarrow>
          if crosses_down p cs i then
            st\<lparr>sw_low := Some (p\<lparr>pt_crossed := True\<rparr>), sw_trend := -1,
               sw_events := sw_events st @
                 [break_event (if sw_trend st = 1 then ''CHoCH'' else ''BOS'') ''BEARISH'' (pt_level p) i ''LOW'']\<rparr>
          else st)"

definition swing_step :: "nat \<Rightarrow> derived_candle list \<Rightarrow> swing_state \<Rightarrow> nat \<Rightarrow> swing_state result" where
  "swing_step sz cs st i =
     rbind (if sz \<le> i then swing_pivot sz cs st i else Inr st) (\<lambda>st1.
     Inr (swing_break_low cs i (swing_break_high cs i st1)))"

definition swing_events :: "nat \<Rightarrow> derived_candle list \<Rightarrow> structure_event list result" where
  "swing_events sz cs =
     rbind (rfoldM (swing_step sz cs) swing_start [0..<length cs]) (\<lambda>st. Inr (sw_events st))"

definition smc_source :: "string list" where
  "smc_source = [''smc_luxalgo@7'']"

definition swing_spec :: plugin_spec where
  "swing_spec = \<lparr>sp_id = ''smc.swing_structure'', sp_role = ''regime'', sp_deps = [], sp_sources = smc_source\<rparr>"

definition swing_params :: "evidence \<Rightarrow> (nat \<times> bool) result" where
  "swing_params p =
     rbind (exact_int p ''swing_length'' 1 None) (\<lambda>sz.
     rbind (exact_bool p ''show_labels'') (\<lambda>labels.
     rbind (rguard (same_keys p [''swing_length'', ''show_labels'']) ValueError
              ''unexpected swing-structure parameters'') (\<lambda>_.
     Inr (nat sz, labels))))"

definition swing_evaluation :: "nat \<Rightarrow> bool \<Rightarrow> derived_candle list \<Rightarrow> structure_event list \<Rightarrow> evaluation" where
  "swing_evaluation sz labels cs events =
     (if events = [] then
        outcome ''FAIL'' ''no confirmed swing pivot or un-crossed pivot close-crossing'' ''NO_EVENT''
          [(''confirmation_bars'', PInt (int sz))]
      else let e = last events in
        (outcome ''PASS'' ''latest source-aligned swing event is confirmed'' (se_state e)
           [(''confirmation_bars'', PInt (int sz)), (''labels_enabled'', PBool labels),
            (''pivot_kind'', PStr (se_pivot_kind e))])
         \<lparr>ev_event_type := Some (se_type e), ev_direction := Some (se_direction e),
          ev_event_time := Some (dc_close_time_ms (cs ! se_event_index e)),
          ev_known_time := Some (dc_close_time_ms (cs ! se_known_index e)), ev_level := Some (se_level e)\<rparr>)"

definition swing_eval ::
    "nat \<times> bool \<Rightarrow> run_context \<Rightarrow> (string, observation) dict \<Rightarrow> (string \<times> evaluation) result" where
  "swing_eval sl cx deps = (case sl of (sz, labels) \<Rightarrow>
     rbind (rguard (deps = []) ValueError ''swing structure does not accept dependencies'') (\<lambda>_.
     rbind (closed_candles cx ''regime'' ''4h'') (\<lambda>cs.
     if length cs \<le> sz then
       Inr (''4h'', outcome ''UNAVAILABLE'' ''insufficient bars for first size-confirmed swing pivot'' ''UNAVAILABLE'' [])
     else rbind (swing_events sz cs) (\<lambda>events. Inr (''4h'', swing_evaluation sz labels cs events)))))"

definition make_swing :: "evidence \<Rightarrow> plugin result" where
  "make_swing p = rbind (swing_params p) (\<lambda>sl. Inr (observe swing_spec p (swing_eval sl)))"

section \<open>Equal highs and lows\<close>

definition strictly_equal :: "dec \<Rightarrow> dec \<Rightarrow> dec \<Rightarrow> dec \<Rightarrow> bool" where
  "strictly_equal previous current atr fraction = dlt (dabs (dsub previous current)) (dmul fraction atr)"

record equal_event =
  ee_type :: string
  ee_direction :: string
  ee_level :: dec
  ee_previous :: dec
  ee_event_index :: nat
  ee_known_index :: nat

record equal_state =
  eq_leg :: int
  eq_prev_high :: "dec option"
  eq_prev_low :: "dec option"
  eq_events :: "equal_event list"

definition equal_found ::
    "string \<Rightarrow> string \<Rightarrow> dec option \<Rightarrow> dec \<Rightarrow> dec option \<Rightarrow> dec \<Rightarrow> nat \<Rightarrow> nat \<Rightarrow> equal_event list" where
  "equal_found ty dir previous current atr threshold k i =
     (case (previous, atr) of
        (Some p, Some a) \<Rightarrow> if strictly_equal p current a threshold
          then [\<lparr>ee_type = ty, ee_direction = dir, ee_level = current, ee_previous = p,
                 ee_event_index = k, ee_known_index = i\<rparr>] else []
      | _ \<Rightarrow> [])"

definition equal_step ::
    "nat \<Rightarrow> dec \<Rightarrow> derived_candle list \<Rightarrow> dec option list \<Rightarrow> equal_state \<Rightarrow> nat \<Rightarrow> equal_state result" where
  "equal_step confirmation threshold cs atrs st i =
     rbind (next_leg confirmation cs (eq_leg st) i) (\<lambda>leg.
     let k = i - confirmation; h = high_of (cs ! k); l = low_of (cs ! k) in
     if leg = eq_leg st then Inr st
     else if leg = 1 then
       Inr (st\<lparr>eq_events := eq_events st @ equal_found ''EQL'' ''BULLISH'' (eq_prev_low st) l (atrs ! i) threshold k i,
               eq_prev_low := Some l, eq_leg := leg\<rparr>)
     else
       Inr (st\<lparr>eq_events := eq_events st @ equal_found ''EQH'' ''BEARISH'' (eq_prev_high st) h (atrs ! i) threshold k i,
               eq_prev_high := Some h, eq_leg := leg\<rparr>))"

definition equal_start :: equal_state where
  "equal_start = \<lparr>eq_leg = 0, eq_prev_high = None, eq_prev_low = None, eq_events = []\<rparr>"

definition equal_events :: "nat \<Rightarrow> dec \<Rightarrow> derived_candle list \<Rightarrow> equal_event list result" where
  "equal_events confirmation threshold cs =
     rbind (wilder_atr cs 200) (\<lambda>atrs.
     rbind (rfoldM (equal_step confirmation threshold cs atrs) equal_start [confirmation..<length cs]) (\<lambda>st.
     Inr (eq_events st)))"

definition equal_spec :: plugin_spec where
  "equal_spec = \<lparr>sp_id = ''smc.equal_high_low'', sp_role = ''context'', sp_deps = [''smc.swing_structure''],
     sp_sources = smc_source\<rparr>"

definition equal_params :: "evidence \<Rightarrow> (nat \<times> dec) result" where
  "equal_params p =
     rbind (exact_int p ''confirmation_bars'' 1 None) (\<lambda>n.
     rbind (exact_decimal p ''threshold_atr_fraction'' ''threshold_atr_fraction must be in 0..0.5'') (\<lambda>t.
     rbind (rguard (dle dzero t \<and> dle t (dec_of ''0.5'')) ValueError
              ''threshold_atr_fraction must be in 0..0.5'') (\<lambda>_.
     rbind (rguard (same_keys p [''confirmation_bars'', ''threshold_atr_fraction'']) ValueError
              ''unexpected equal-high-low parameters'') (\<lambda>_.
     Inr (nat n, t)))))"

definition equal_evaluation :: "nat \<Rightarrow> dec \<Rightarrow> derived_candle list \<Rightarrow> equal_event list \<Rightarrow> evaluation" where
  "equal_evaluation n threshold cs events =
     (if events = [] then
        outcome ''FAIL'' ''no latest confirmed pivot pair is strictly within the ATR threshold''
          ''NO_EQUAL_LEVEL'' [(''confirmation_bars'', PInt (int n))]
      else let e = last events in
        (outcome ''PASS'' ''confirmed equal high or low satisfies the strict source ATR threshold''
           ''CONFIRMED_EQUAL_LEVEL''
           [(''confirmation_bars'', PInt (int n)),
            (''previous_level_text'', PStr (plain_decimal (ee_previous e))),
            (''threshold_atr_fraction'', PStr (plain_decimal threshold))])
         \<lparr>ev_event_type := Some (ee_type e), ev_direction := Some (ee_direction e),
          ev_event_time := Some (dc_close_time_ms (cs ! ee_event_index e)),
          ev_known_time := Some (dc_close_time_ms (cs ! ee_known_index e)), ev_level := Some (ee_level e)\<rparr>)"

definition equal_eval ::
    "nat \<times> dec \<Rightarrow> run_context \<Rightarrow> (string, observation) dict \<Rightarrow> (string \<times> evaluation) result" where
  "equal_eval nt cx deps = (case nt of (n, threshold) \<Rightarrow>
     rbind (dependency_problem deps (sp_deps equal_spec) cx) (\<lambda>problem.
     rbind (closed_candles cx ''context'' ''1h'') (\<lambda>cs.
     case problem of Some ev \<Rightarrow> Inr (''1h'', ev) | None \<Rightarrow>
     if length cs < max 200 (n + 1) then
       Inr (''1h'', outcome ''UNAVAILABLE'' ''insufficient bars for ATR(200) and pivot confirmation'' ''UNAVAILABLE'' [])
     else rbind (equal_events n threshold cs) (\<lambda>events. Inr (''1h'', equal_evaluation n threshold cs events)))))"

definition make_equal :: "evidence \<Rightarrow> plugin result" where
  "make_equal p = rbind (equal_params p) (\<lambda>nt. Inr (observe equal_spec p (equal_eval nt)))"

section \<open>Order blocks\<close>

record order_block =
  bk_upper :: dec
  bk_lower :: dec
  bk_direction :: string
  bk_break_index :: nat
  bk_source_index :: nat

text \<open>The measure of volatility of one bar, from the true ranges up to it.\<close>

definition volatility_measure ::
    "string \<Rightarrow> dec option list \<Rightarrow> dec list \<Rightarrow> nat \<Rightarrow> dec option result" where
  "volatility_measure filter_name atrs ranges i =
     (if filter_name = ''atr'' then Inr (atrs ! i)
      else if i = 0 then Inr None
      else rbind (ddiv (dsum (take (i + 1) ranges)) (dec_of_int (int i))) (\<lambda>m. Inr (Some m)))"

definition parsed_extreme ::
    "string \<Rightarrow> dec option list \<Rightarrow> dec list \<Rightarrow> derived_candle list \<Rightarrow> nat \<Rightarrow> (dec \<times> dec) result" where
  "parsed_extreme filter_name atrs ranges cs i =
     (let h = high_of (cs ! i); l = low_of (cs ! i) in
      rbind (volatility_measure filter_name atrs ranges i) (\<lambda>measure.
      Inr (case measure of
             Some m \<Rightarrow> if dle (dmul (dec_of_int 2) m) (dsub h l) then (l, h) else (h, l)
           | None \<Rightarrow> (h, l))))"

definition parsed_extremes :: "string \<Rightarrow> derived_candle list \<Rightarrow> (dec \<times> dec) list result" where
  "parsed_extremes filter_name cs =
     rbind (wilder_atr cs 200) (\<lambda>atrs.
     rmapM (parsed_extreme filter_name atrs (true_ranges cs) cs) [0..<length cs])"

text \<open>The first index of a least, or of a greatest, key.\<close>

definition first_least :: "dec list \<Rightarrow> nat" where
  "first_least ks = foldl (\<lambda>b i. if dlt (ks ! i) (ks ! b) then i else b) 0 [1..<length ks]"

definition first_greatest :: "dec list \<Rightarrow> nat" where
  "first_greatest ks = foldl (\<lambda>b i. if dlt (ks ! b) (ks ! i) then i else b) 0 [1..<length ks]"

record block_state =
  bs_leg :: int
  bs_high :: "pivot option"
  bs_low :: "pivot option"
  bs_active :: "order_block list"

definition block_pivot :: "nat \<Rightarrow> derived_candle list \<Rightarrow> block_state \<Rightarrow> nat \<Rightarrow> block_state result" where
  "block_pivot sz cs st i =
     rbind (next_leg sz cs (bs_leg st) i) (\<lambda>leg.
     let k = i - sz in
     if leg = bs_leg st then Inr st
     else if leg = 1 then Inr (st\<lparr>bs_low := Some (new_pivot (low_of (cs ! k)) k), bs_leg := leg\<rparr>)
     else Inr (st\<lparr>bs_high := Some (new_pivot (high_of (cs ! k)) k), bs_leg := leg\<rparr>))"

definition block_from :: "(dec \<times> dec) list \<Rightarrow> string \<Rightarrow> (dec list \<Rightarrow> nat) \<Rightarrow> (dec \<times> dec \<Rightarrow> dec) \<Rightarrow> pivot \<Rightarrow> nat
    \<Rightarrow> order_block list" where
  "block_from parsed dir pick key p i =
     (let candidates = take (i - pt_index p) (drop (pt_index p) parsed) in
      if candidates = [] then []
      else let src = pt_index p + pick (map key candidates) in
        [\<lparr>bk_upper = fst (parsed ! src), bk_lower = snd (parsed ! src), bk_direction = dir,
          bk_break_index = i, bk_source_index = src\<rparr>])"

definition block_break_high ::
    "(dec \<times> dec) list \<Rightarrow> derived_candle list \<Rightarrow> nat \<Rightarrow> block_state \<Rightarrow> block_state" where
  "block_break_high parsed cs i st =
     (case bs_high st of
        None \<Rightarrow> st
      | Some p \<Rightarrow> if crosses_up p cs i then
          st\<lparr>bs_high := Some (p\<lparr>pt_crossed := True\<rparr>),
             bs_active := block_from parsed ''BULLISH'' first_least snd p i @ bs_active st\<rparr>
        else st)"

definition block_break_low ::
    "(dec \<times> dec) list \<Rightarrow> derived_candle list \<Rightarrow> nat \<Rightarrow> block_state \<Rightarrow> block_state" where
  "block_break_low parsed cs i st =
     (case bs_low st of
        None \<Rightarrow> st
      | Some p \<Rightarrow> if crosses_down p cs i then
          st\<lparr>bs_low := Some (p\<lparr>pt_crossed := True\<rparr>),
             bs_active := block_from parsed ''BEARISH'' first_greatest fst p i @ bs_active st\<rparr>
        else st)"

definition mitigated :: "string \<Rightarrow> derived_candle \<Rightarrow> order_block \<Rightarrow> bool" where
  "mitigated source c b \<longleftrightarrow>
     (bk_direction b = ''BEARISH'' \<and> dlt (bk_upper b) (if source = ''close'' then close_of c else high_of c))
     \<or> (bk_direction b = ''BULLISH'' \<and> dlt (if source = ''close'' then close_of c else low_of c) (bk_lower b))"

definition block_step ::
    "nat \<Rightarrow> string \<Rightarrow> nat \<Rightarrow> (dec \<times> dec) list \<Rightarrow> derived_candle list \<Rightarrow> block_state \<Rightarrow> nat \<Rightarrow> block_state result" where
  "block_step sz mitigation maximum parsed cs st i =
     rbind (if sz \<le> i then block_pivot sz cs st i else Inr st) (\<lambda>st1.
     let st2 = block_break_low parsed cs i (block_break_high parsed cs i st1) in
     Inr (st2\<lparr>bs_active := take maximum (filter (\<lambda>b. \<not> mitigated mitigation (cs ! i) b) (bs_active st2))\<rparr>))"

definition active_order_blocks ::
    "nat \<Rightarrow> string \<Rightarrow> string \<Rightarrow> nat \<Rightarrow> derived_candle list \<Rightarrow> order_block list result" where
  "active_order_blocks sz filter_name mitigation maximum cs =
     rbind (parsed_extremes filter_name cs) (\<lambda>parsed.
     rbind (rfoldM (block_step sz mitigation maximum parsed cs)
              \<lparr>bs_leg = 0, bs_high = None, bs_low = None, bs_active = []\<rparr> [0..<length cs]) (\<lambda>st.
     Inr (bs_active st)))"

definition block_spec :: plugin_spec where
  "block_spec = \<lparr>sp_id = ''smc.order_block'', sp_role = ''context'', sp_deps = [''smc.swing_structure''],
     sp_sources = smc_source\<rparr>"

record block_params =
  bp_scope :: string
  bp_filter :: string
  bp_mitigation :: string
  bp_maximum :: nat

definition choice_param :: "evidence \<Rightarrow> string \<Rightarrow> string list \<Rightarrow> string \<Rightarrow> string result" where
  "choice_param p name allowed msg =
     (case param_get p name of
        Some (EStr s) \<Rightarrow> if s \<in> set allowed then Inr s else raise ValueError msg
      | _ \<Rightarrow> raise ValueError msg)"

definition order_block_params :: "evidence \<Rightarrow> block_params result" where
  "order_block_params p =
     rbind (rguard (same_keys p [''scope'', ''volatility_filter'', ''mitigation_source'', ''maximum_blocks''])
              ValueError ''unexpected order-block parameters'') (\<lambda>_.
     rbind (choice_param p ''scope'' [''swing'', ''internal''] ''scope must be swing or internal'') (\<lambda>scope.
     rbind (choice_param p ''volatility_filter'' [''atr'', ''cumulative_range''] ''unknown volatility filter'') (\<lambda>f.
     rbind (choice_param p ''mitigation_source'' [''close'', ''high_low''] ''unknown mitigation source'') (\<lambda>m.
     rbind (exact_int p ''maximum_blocks'' 1 None) (\<lambda>n.
     Inr \<lparr>bp_scope = scope, bp_filter = f, bp_mitigation = m, bp_maximum = nat n\<rparr>)))))"

definition block_evaluation :: "string \<Rightarrow> derived_candle list \<Rightarrow> order_block list \<Rightarrow> evaluation" where
  "block_evaluation scope cs blocks =
     (case blocks of
        [] \<Rightarrow> outcome ''FAIL'' ''no unmitigated source-selected order block is active'' ''NO_ACTIVE_BLOCK''
                [(''active_block_count'', PInt 0)]
      | b # _ \<Rightarrow>
        (outcome ''PASS'' ''latest bounded source-selected order block remains unmitigated'' ''ACTIVE''
           [(''active_block_count'', PInt (int (length blocks))),
            (''source_candle_time_ms'', PInt (dc_close_time_ms (cs ! bk_source_index b))),
            (''scope'', PStr scope)])
         \<lparr>ev_event_type := Some ''ORDER_BLOCK'', ev_direction := Some (bk_direction b),
          ev_event_time := Some (dc_close_time_ms (cs ! bk_break_index b)),
          ev_known_time := Some (dc_close_time_ms (cs ! bk_break_index b)),
          ev_lower := Some (bk_lower b), ev_upper := Some (bk_upper b)\<rparr>)"

definition block_size :: "string \<Rightarrow> nat" where
  "block_size scope = (if scope = ''swing'' then 50 else 5)"

definition order_block_eval ::
    "block_params \<Rightarrow> run_context \<Rightarrow> (string, observation) dict \<Rightarrow> (string \<times> evaluation) result" where
  "order_block_eval bp cx deps =
     rbind (dependency_problem deps (sp_deps block_spec) cx) (\<lambda>problem.
     rbind (closed_candles cx ''context'' ''1h'') (\<lambda>cs.
     case problem of Some ev \<Rightarrow> Inr (''1h'', ev) | None \<Rightarrow>
     if length cs < max 200 (block_size (bp_scope bp) + 1) then
       Inr (''1h'', outcome ''UNAVAILABLE'' ''insufficient bars for source volatility and structure warmup''
         ''UNAVAILABLE'' [])
     else rbind (active_order_blocks (block_size (bp_scope bp)) (bp_filter bp) (bp_mitigation bp) (bp_maximum bp) cs)
       (\<lambda>blocks. Inr (''1h'', block_evaluation (bp_scope bp) cs blocks))))"

definition make_order_block :: "evidence \<Rightarrow> plugin result" where
  "make_order_block p = rbind (order_block_params p) (\<lambda>bp. Inr (observe block_spec p (order_block_eval bp)))"

section \<open>Pivots\<close>

lemma later_bars_take:
  "sz \<le> i \<Longrightarrow> i < n \<Longrightarrow> later_bars sz (take n cs) i = later_bars sz cs i"
  by (simp add: later_bars_def drop_take min_absorb1)

lemma later_bars_nonempty: "0 < sz \<Longrightarrow> sz \<le> i \<Longrightarrow> i < length cs \<Longrightarrow> later_bars sz cs i \<noteq> []"
  by (simp add: later_bars_def)

lemma later_bars_nth:
  assumes "sz \<le> i" "i < length cs" "i - sz < j" "j \<le> i"
  shows "cs ! j \<in> set (later_bars sz cs i)"
proof -
  let ?k = "i - sz + 1"
  have "later_bars sz cs i ! (j - ?k) = cs ! j" "j - ?k < length (later_bars sz cs i)"
    using assms by (simp_all add: later_bars_def)
  then show ?thesis by (metis nth_mem)
qed

lemma dmax_list_total: "xs \<noteq> [] \<Longrightarrow> \<exists>m. dmax_list xs = Inr m"
  by (cases xs) auto

lemma dmin_list_total: "xs \<noteq> [] \<Longrightarrow> \<exists>m. dmin_list xs = Inr m"
  by (cases xs) auto

lemma next_leg_total:
  assumes "0 < sz" "sz \<le> i" "i < length cs"
  shows "\<exists>leg'. next_leg sz cs leg i = Inr leg'"
proof -
  have "later_bars sz cs i \<noteq> []" using assms by (rule later_bars_nonempty)
  then obtain mx mn where "dmax_list (map high_of (later_bars sz cs i)) = Inr mx"
    "dmin_list (map low_of (later_bars sz cs i)) = Inr mn"
    using dmax_list_total dmin_list_total by (metis map_is_Nil_conv)
  then show ?thesis by (simp add: next_leg_def Let_def)
qed

lemma next_leg_take: "sz \<le> i \<Longrightarrow> i < n \<Longrightarrow> next_leg sz (take n cs) leg i = next_leg sz cs leg i"
  by (simp add: next_leg_def later_bars_take)

text \<open>Bar \<open>k\<close> is strictly above, or below, the \<open>sz\<close> bars that follow it.\<close>

definition top_of :: "nat \<Rightarrow> derived_candle list \<Rightarrow> nat \<Rightarrow> bool" where
  "top_of sz cs k \<longleftrightarrow> list_all (\<lambda>j. dval (high_of (cs ! j)) < dval (high_of (cs ! k))) [k + 1..<k + sz + 1]"

definition bottom_of :: "nat \<Rightarrow> derived_candle list \<Rightarrow> nat \<Rightarrow> bool" where
  "bottom_of sz cs k \<longleftrightarrow> list_all (\<lambda>j. dval (low_of (cs ! k)) < dval (low_of (cs ! j))) [k + 1..<k + sz + 1]"

lemma later_all:
  assumes "sz \<le> i" "\<And>j. i - sz < j \<Longrightarrow> j \<le> i \<Longrightarrow> P j"
  shows "list_all P [i - sz + 1..<i - sz + sz + 1]"
  unfolding list_all_iff
proof
  fix j assume "j \<in> set [i - sz + 1..<i - sz + sz + 1]"
  then have "i - sz < j" "j \<le> i" using assms(1) by auto
  then show "P j" by (rule assms(2))
qed

lemma next_leg_change:
  assumes "next_leg sz cs leg i = Inr leg'" "leg' \<noteq> leg" "sz \<le> i" "i < length cs"
  shows "leg' = 0 \<and> top_of sz cs (i - sz) \<or> leg' = 1 \<and> bottom_of sz cs (i - sz)"
proof -
  from assms(1) obtain mx mn where mx: "dmax_list (map high_of (later_bars sz cs i)) = Inr mx"
    and mn: "dmin_list (map low_of (later_bars sz cs i)) = Inr mn"
    and l: "leg' = (if dlt mx (high_of (cs ! (i - sz))) then 0 else if dlt (low_of (cs ! (i - sz))) mn then 1 else leg)"
    by (auto simp: next_leg_def Let_def)
  have hi: "dval (high_of (cs ! j)) \<le> dval mx" if "i - sz < j" "j \<le> i" for j
    using dmax_list_Inr [OF mx] later_bars_nth [OF assms(3,4) that] by auto
  have lo: "dval mn \<le> dval (low_of (cs ! j))" if "i - sz < j" "j \<le> i" for j
    using dmin_list_Inr [OF mn] later_bars_nth [OF assms(3,4) that] by auto
  from l assms(2) consider (top) "leg' = 0" "dlt mx (high_of (cs ! (i - sz)))"
    | (bottom) "leg' = 1" "dlt (low_of (cs ! (i - sz))) mn" by (auto split: if_splits)
  then show ?thesis
  proof cases
    case top
    then have "dval mx < dval (high_of (cs ! (i - sz)))" by (simp add: dlt_iff)
    then have "dval (high_of (cs ! j)) < dval (high_of (cs ! (i - sz)))" if "i - sz < j" "j \<le> i" for j
      using hi [OF that] by (rule le_less_trans [rotated])
    then have "top_of sz cs (i - sz)" unfolding top_of_def by (rule later_all [OF assms(3)])
    with top show ?thesis by simp
  next
    case bottom
    then have "dval (low_of (cs ! (i - sz))) < dval mn" by (simp add: dlt_iff)
    then have "dval (low_of (cs ! (i - sz))) < dval (low_of (cs ! j))" if "i - sz < j" "j \<le> i" for j
      using lo [OF that] by (rule less_le_trans)
    then have "bottom_of sz cs (i - sz)" unfolding bottom_of_def by (rule later_all [OF assms(3)])
    with bottom show ?thesis by simp
  qed
qed

section \<open>Swing events\<close>

definition broken_up :: "derived_candle list \<Rightarrow> dec \<Rightarrow> nat \<Rightarrow> bool" where
  "broken_up cs lv i \<longleftrightarrow> dval (previous_close cs i) \<le> dval lv \<and> dval lv < dval (close_of (cs ! i))"

definition broken_down :: "derived_candle list \<Rightarrow> dec \<Rightarrow> nat \<Rightarrow> bool" where
  "broken_down cs lv i \<longleftrightarrow> dval lv \<le> dval (previous_close cs i) \<and> dval (close_of (cs ! i)) < dval lv"

text \<open>What a swing event says of the series.\<close>

definition swing_sound :: "nat \<Rightarrow> derived_candle list \<Rightarrow> structure_event \<Rightarrow> bool" where
  "swing_sound sz cs e \<longleftrightarrow> se_event_index e \<le> se_known_index e \<and>
     (if se_state e = ''CONFIRMED_PIVOT'' then
        se_known_index e = se_event_index e + sz \<and>
        (if se_pivot_kind e = ''HIGH''
         then se_level e = high_of (cs ! se_event_index e) \<and> top_of sz cs (se_event_index e)
         else se_level e = low_of (cs ! se_event_index e) \<and> bottom_of sz cs (se_event_index e))
      else if se_direction e = ''BULLISH'' then broken_up cs (se_level e) (se_known_index e)
      else broken_down cs (se_level e) (se_known_index e))"

lemma previous_close_take: "i < n \<Longrightarrow> previous_close (take n cs) i = previous_close cs i"
  by (simp add: previous_close_def)

lemma crosses_take:
  "i < n \<Longrightarrow> crosses_up p (take n cs) i = crosses_up p cs i"
  "i < n \<Longrightarrow> crosses_down p (take n cs) i = crosses_down p cs i"
  by (simp_all add: crosses_up_def crosses_down_def previous_close_take)

lemma swing_pivot_take: "sz \<le> i \<Longrightarrow> i < n \<Longrightarrow> swing_pivot sz (take n cs) st i = swing_pivot sz cs st i"
  by (simp add: swing_pivot_def next_leg_take)

lemma swing_step_take: "i < n \<Longrightarrow> swing_step sz (take n cs) st i = swing_step sz cs st i"
  by (simp add: swing_step_def swing_pivot_take swing_break_high_def swing_break_low_def crosses_take
      cong: option.case_cong)

lemma swing_pivot_appends:
  assumes "swing_pivot sz cs st i = Inr st'" "sz \<le> i" "i < length cs"
  shows "\<exists>new. sw_events st' = sw_events st @ new \<and> (\<forall>e\<in>set new. se_known_index e = i \<and> swing_sound sz cs e)"
proof -
  from assms(1) obtain leg where leg: "next_leg sz cs (sw_leg st) i = Inr leg"
    by (auto simp: swing_pivot_def)
  show ?thesis
  proof (cases "leg = sw_leg st")
    case True
    with assms(1) leg show ?thesis by (simp add: swing_pivot_def Let_def)
  next
    case False
    from next_leg_change [OF leg False assms(2,3)]
    show ?thesis
    proof (elim disjE conjE)
      assume "leg = 0" "top_of sz cs (i - sz)"
      with assms leg False show ?thesis
        by (auto simp: swing_pivot_def Let_def pivot_event_def swing_sound_def split: option.splits)
    next
      assume "leg = 1" "bottom_of sz cs (i - sz)"
      with assms leg False show ?thesis
        by (auto simp: swing_pivot_def Let_def pivot_event_def swing_sound_def split: option.splits)
    qed
  qed
qed

lemma swing_break_appends:
  "\<exists>new. sw_events (swing_break_low cs i (swing_break_high cs i st)) = sw_events st @ new
     \<and> (\<forall>e\<in>set new. se_known_index e = i \<and> swing_sound sz cs e)"
proof -
  have hi: "\<exists>new. sw_events (swing_break_high cs i st) = sw_events st @ new
     \<and> (\<forall>e\<in>set new. se_known_index e = i \<and> swing_sound sz cs e)"
    by (auto simp: swing_break_high_def break_event_def swing_sound_def crosses_up_def broken_up_def
        dle_iff dlt_iff split: option.splits)
  have lo: "\<exists>new. sw_events (swing_break_low cs i st1) = sw_events st1 @ new
     \<and> (\<forall>e\<in>set new. se_known_index e = i \<and> swing_sound sz cs e)" for st1
    by (auto simp: swing_break_low_def break_event_def swing_sound_def crosses_down_def broken_down_def
        dle_iff dlt_iff split: option.splits)
  from hi obtain n1 where n1: "sw_events (swing_break_high cs i st) = sw_events st @ n1"
    "\<forall>e\<in>set n1. se_known_index e = i \<and> swing_sound sz cs e" by blast
  from lo [of "swing_break_high cs i st"] obtain n2 where
    n2: "sw_events (swing_break_low cs i (swing_break_high cs i st)) = sw_events (swing_break_high cs i st) @ n2"
    "\<forall>e\<in>set n2. se_known_index e = i \<and> swing_sound sz cs e" by blast
  from n1 n2 show ?thesis by (intro exI [of _ "n1 @ n2"]) auto
qed

lemma swing_step_appends:
  assumes "swing_step sz cs st i = Inr st'" "i < length cs"
  shows "\<exists>new. sw_events st' = sw_events st @ new \<and> (\<forall>e\<in>set new. se_known_index e = i \<and> swing_sound sz cs e)"
proof -
  from assms(1) obtain st1 where p: "(if sz \<le> i then swing_pivot sz cs st i else Inr st) = Inr st1"
    and st': "st' = swing_break_low cs i (swing_break_high cs i st1)" by (auto simp: swing_step_def)
  have "\<exists>n1. sw_events st1 = sw_events st @ n1 \<and> (\<forall>e\<in>set n1. se_known_index e = i \<and> swing_sound sz cs e)"
  proof (cases "sz \<le> i")
    case True
    with p assms(2) swing_pivot_appends show ?thesis by simp
  next
    case False
    with p show ?thesis by simp
  qed
  then obtain n1 where n1: "sw_events st1 = sw_events st @ n1"
    "\<forall>e\<in>set n1. se_known_index e = i \<and> swing_sound sz cs e" by blast
  from swing_break_appends [of cs i st1 sz] obtain n2 where n2: "sw_events st' = sw_events st1 @ n2"
    "\<forall>e\<in>set n2. se_known_index e = i \<and> swing_sound sz cs e" unfolding st' by blast
  from n1 n2 show ?thesis by (intro exI [of _ "n1 @ n2"]) auto
qed

lemma swing_step_total:
  assumes "0 < sz" "i < length cs"
  shows "\<exists>st'. swing_step sz cs st i = Inr st'"
proof (cases "sz \<le> i")
  case True
  from next_leg_total [OF assms(1) True assms(2)] obtain leg where "next_leg sz cs (sw_leg st) i = Inr leg" by blast
  with True show ?thesis by (simp add: swing_step_def swing_pivot_def Let_def)
next
  case False
  then show ?thesis by (simp add: swing_step_def)
qed

text \<open>The source requires a positive length; the interpretation carries it in its type of lengths.\<close>

interpretation swing: causal_scan "swing_step (Suc w)" swing_start sw_events se_known_index 0
    "swing_sound (Suc w)" for w
  by unfold_locales
    (auto simp: swing_start_def swing_step_take intro: swing_step_total dest: swing_step_appends)

lemma swing_scan: "swing_events sz cs = scan (swing_step sz) swing_start sw_events 0 cs"
  by (simp add: swing_events_def scan_def)

section \<open>Equal events\<close>

definition equal_sound :: "nat \<Rightarrow> dec \<Rightarrow> derived_candle list \<Rightarrow> equal_event \<Rightarrow> bool" where
  "equal_sound n threshold cs e \<longleftrightarrow> ee_known_index e = ee_event_index e + n \<and>
     (\<exists>atrs atr. wilder_atr cs 200 = Inr atrs \<and> atrs ! ee_known_index e = Some atr
        \<and> strictly_equal (ee_previous e) (ee_level e) atr threshold)
     \<and> (if ee_type e = ''EQH''
        then ee_level e = high_of (cs ! ee_event_index e) \<and> top_of n cs (ee_event_index e)
        else ee_level e = low_of (cs ! ee_event_index e) \<and> bottom_of n cs (ee_event_index e))"

definition equal_scan_step ::
    "nat \<Rightarrow> dec \<Rightarrow> derived_candle list \<Rightarrow> equal_state \<Rightarrow> nat \<Rightarrow> equal_state result" where
  "equal_scan_step n threshold cs st i =
     rbind (wilder_atr cs 200) (\<lambda>atrs. equal_step n threshold cs atrs st i)"

lemma equal_found_sound:
  "e \<in> set (equal_found ty dir previous current atr threshold k i) \<Longrightarrow>
   ee_type e = ty \<and> ee_event_index e = k \<and> ee_known_index e = i \<and> ee_level e = current
   \<and> (\<exists>a. atr = Some a \<and> strictly_equal (ee_previous e) current a threshold)"
  by (auto simp: equal_found_def split: option.splits if_splits)

lemma equal_step_appends:
  assumes "equal_scan_step n threshold cs st i = Inr st'" "n \<le> i" "i < length cs"
  shows "\<exists>new. eq_events st' = eq_events st @ new
    \<and> (\<forall>e\<in>set new. ee_known_index e = i \<and> equal_sound n threshold cs e)"
proof -
  from assms(1) obtain atrs leg where atrs: "wilder_atr cs 200 = Inr atrs"
    and leg: "next_leg n cs (eq_leg st) i = Inr leg" and st: "equal_step n threshold cs atrs st i = Inr st'"
    by (auto simp: equal_scan_step_def equal_step_def)
  show ?thesis
  proof (cases "leg = eq_leg st")
    case True
    with st leg show ?thesis by (simp add: equal_step_def Let_def)
  next
    case False
    have k: "i - n + n = i" using assms(2) by simp
    from next_leg_change [OF leg False assms(2,3)]
    show ?thesis
    proof (elim disjE conjE)
      assume l: "leg = 0" "top_of n cs (i - n)"
      with st leg False have "eq_events st' = eq_events st @
          equal_found ''EQH'' ''BEARISH'' (eq_prev_high st) (high_of (cs ! (i - n))) (atrs ! i) threshold (i - n) i"
        by (auto simp: equal_step_def Let_def)
      then show ?thesis using atrs l k by (auto simp: equal_sound_def dest!: equal_found_sound)
    next
      assume l: "leg = 1" "bottom_of n cs (i - n)"
      with st leg False have "eq_events st' = eq_events st @
          equal_found ''EQL'' ''BULLISH'' (eq_prev_low st) (low_of (cs ! (i - n))) (atrs ! i) threshold (i - n) i"
        by (auto simp: equal_step_def Let_def)
      then show ?thesis using atrs l k by (auto simp: equal_sound_def dest!: equal_found_sound)
    qed
  qed
qed

lemma equal_step_total:
  assumes "0 < n" "n \<le> i" "i < length cs"
  shows "\<exists>st'. equal_scan_step n threshold cs st i = Inr st'"
proof -
  obtain atrs where "wilder_atr cs 200 = Inr atrs" using wilder_atr_total [of 200 cs] by auto
  moreover obtain leg where "next_leg n cs (eq_leg st) i = Inr leg" using next_leg_total [OF assms] by blast
  ultimately show ?thesis by (simp add: equal_scan_step_def equal_step_def Let_def)
qed

lemma equal_step_take:
  assumes "n \<le> i" "i < m" "i < length cs"
  shows "equal_scan_step n threshold (take m cs) st i = equal_scan_step n threshold cs st i"
proof -
  obtain atrs where atrs: "wilder_atr cs 200 = Inr atrs" using wilder_atr_total [of 200 cs] by auto
  have nth: "take m atrs ! i = atrs ! i" "take m cs ! (i - n) = cs ! (i - n)" using assms by simp_all
  from wilder_atr_take [OF atrs, of m] atrs show ?thesis
    by (simp add: equal_scan_step_def equal_step_def next_leg_take [OF assms(1,2)] nth Let_def cong: if_cong)
qed

interpretation equal: causal_scan "equal_scan_step (Suc w) threshold" equal_start eq_events ee_known_index
    "Suc w" "equal_sound (Suc w) threshold" for w threshold
  by unfold_locales
    (auto simp: equal_start_def equal_step_take intro: equal_step_total equal_step_appends)

lemma equal_scan: "equal_events n threshold cs = scan (equal_scan_step n threshold) equal_start eq_events n cs"
proof -
  obtain atrs where "wilder_atr cs 200 = Inr atrs" using wilder_atr_total [of 200 cs] by auto
  moreover from this have "equal_step n threshold cs atrs = equal_scan_step n threshold cs"
    by (intro ext) (simp add: equal_scan_step_def)
  ultimately show ?thesis by (simp add: equal_events_def scan_def)
qed

section \<open>Order blocks are fresh\<close>

lemma fold_index_less:
  "b < n \<Longrightarrow> (\<forall>i\<in>set is. i < n) \<Longrightarrow> foldl (\<lambda>b i. if P b i then i else b) b is < (n::nat)"
  by (induction "is" arbitrary: b) auto

lemma first_least_less: "ks \<noteq> [] \<Longrightarrow> first_least ks < length ks"
  unfolding first_least_def by (rule fold_index_less) auto

lemma first_greatest_less: "ks \<noteq> [] \<Longrightarrow> first_greatest ks < length ks"
  unfolding first_greatest_def by (rule fold_index_less) auto

definition block_sound :: "(dec \<times> dec) list \<Rightarrow> nat \<Rightarrow> order_block \<Rightarrow> bool" where
  "block_sound parsed n b \<longleftrightarrow> bk_source_index b < bk_break_index b \<and> bk_break_index b < n
     \<and> parsed ! bk_source_index b = (bk_upper b, bk_lower b) \<and> bk_direction b \<in> {''BULLISH'', ''BEARISH''}"

lemma block_from_sound:
  assumes "b \<in> set (block_from parsed dir pick key p i)" "\<And>ks. ks \<noteq> [] \<Longrightarrow> pick ks < length ks"
    and "dir \<in> {''BULLISH'', ''BEARISH''}"
  shows "block_sound parsed (Suc i) b"
proof -
  let ?c = "take (i - pt_index p) (drop (pt_index p) parsed)"
  from assms(1) have ne: "?c \<noteq> []" by (auto simp: block_from_def Let_def split: if_splits)
  then have "pick (map key ?c) < length (map key ?c)" by (intro assms(2)) simp
  then have "pick (map key ?c) < i - pt_index p" by simp
  then have "pt_index p + pick (map key ?c) < i" by linarith
  with assms(1,3) ne show ?thesis
    by (auto simp: block_from_def Let_def block_sound_def simp del: take_eq_Nil split: if_splits)
qed

lemma block_sound_mono: "block_sound parsed n b \<Longrightarrow> n \<le> m \<Longrightarrow> block_sound parsed m b"
  by (auto simp: block_sound_def)

lemma block_pivot_active: "block_pivot sz cs st i = Inr st' \<Longrightarrow> bs_active st' = bs_active st"
  by (auto simp: block_pivot_def Let_def split: if_splits)

lemma block_break_sound:
  assumes "\<forall>b\<in>set (bs_active st). block_sound parsed i b"
  shows "\<forall>b\<in>set (bs_active (block_break_low parsed cs i (block_break_high parsed cs i st))). block_sound parsed (Suc i) b"
proof -
  have old: "\<forall>b\<in>set (bs_active st). block_sound parsed (Suc i) b" using assms block_sound_mono by fastforce
  have up: "b \<in> set (block_from parsed ''BULLISH'' first_least snd p i) \<Longrightarrow> block_sound parsed (Suc i) b" for b p
    using block_from_sound [of b parsed "''BULLISH''" first_least snd p i] first_least_less by simp
  have down: "b \<in> set (block_from parsed ''BEARISH'' first_greatest fst p i) \<Longrightarrow> block_sound parsed (Suc i) b" for b p
    using block_from_sound [of b parsed "''BEARISH''" first_greatest fst p i] first_greatest_less by simp
  from old have "\<forall>b\<in>set (bs_active (block_break_high parsed cs i st)). block_sound parsed (Suc i) b"
    by (auto simp: block_break_high_def split: option.splits dest: up)
  then show ?thesis
    by (auto simp: block_break_low_def split: option.splits dest: down)
qed

definition block_inv :: "nat \<Rightarrow> string \<Rightarrow> (dec \<times> dec) list \<Rightarrow> derived_candle list \<Rightarrow> nat \<Rightarrow> block_state \<Rightarrow> bool" where
  "block_inv maximum m parsed cs i st \<longleftrightarrow> length (bs_active st) \<le> maximum \<and>
     (\<forall>b\<in>set (bs_active st). block_sound parsed i b \<and> \<not> mitigated m (cs ! (i - 1)) b)"

lemma block_step_inv:
  assumes "block_inv maximum m parsed cs i st" "block_step sz m maximum parsed cs st i = Inr st'"
  shows "block_inv maximum m parsed cs (Suc i) st'"
proof -
  from assms(2) obtain st1 where st1: "(if sz \<le> i then block_pivot sz cs st i else Inr st) = Inr st1"
    and st': "st' = (let st2 = block_break_low parsed cs i (block_break_high parsed cs i st1) in
      st2\<lparr>bs_active := take maximum (filter (\<lambda>b. \<not> mitigated m (cs ! i) b) (bs_active st2))\<rparr>)"
    by (auto simp: block_step_def Let_def)
  have "bs_active st1 = bs_active st" using st1 block_pivot_active by (auto split: if_splits)
  with assms(1) have "\<forall>b\<in>set (bs_active st1). block_sound parsed i b" by (simp add: block_inv_def)
  from block_break_sound [OF this, of cs] show ?thesis
    unfolding st' block_inv_def Let_def by (auto dest!: in_set_takeD)
qed

lemma block_fold_inv:
  assumes "rfoldM (block_step sz m maximum parsed cs) st [a..<b] = Inr t" "block_inv maximum m parsed cs a st" "a \<le> b"
  shows "block_inv maximum m parsed cs b t"
  using assms
proof (induction "b - a" arbitrary: a st)
  case 0
  then show ?case by simp
next
  case (Suc k)
  then have "[a..<b] = a # [Suc a..<b]" by (simp add: upt_conv_Cons)
  with Suc.prems(1) obtain st1 where st1: "block_step sz m maximum parsed cs st a = Inr st1"
    and rest: "rfoldM (block_step sz m maximum parsed cs) st1 [Suc a..<b] = Inr t" by auto
  have k: "k = b - Suc a" "Suc a \<le> b" using Suc.hyps(2) by linarith+
  from Suc.hyps(1) [OF k(1) rest block_step_inv [OF Suc.prems(2) st1] k(2)] show ?case .
qed

lemma active_blocks_inv:
  assumes "active_order_blocks sz f m maximum cs = Inr bs"
  shows "\<exists>parsed. parsed_extremes f cs = Inr parsed \<and> length bs \<le> maximum \<and>
    (\<forall>b\<in>set bs. block_sound parsed (length cs) b \<and> \<not> mitigated m (last cs) b)"
proof -
  from assms obtain parsed st where parsed: "parsed_extremes f cs = Inr parsed"
    and run: "rfoldM (block_step sz m maximum parsed cs)
      \<lparr>bs_leg = 0, bs_high = None, bs_low = None, bs_active = []\<rparr> [0..<length cs] = Inr st"
    and bs: "bs = bs_active st"
    by (auto simp: active_order_blocks_def)
  have "block_inv maximum m parsed cs (length cs) st"
    by (rule block_fold_inv [OF run]) (simp_all add: block_inv_def)
  then have i: "length bs \<le> maximum"
    "\<forall>b\<in>set bs. block_sound parsed (length cs) b \<and> \<not> mitigated m (cs ! (length cs - 1)) b"
    by (simp_all add: block_inv_def bs)
  have "last cs = cs ! (length cs - 1)" if "b \<in> set bs" for b
    using i(2) that by (intro last_conv_nth) (auto simp: block_sound_def)
  with i parsed show ?thesis by metis
qed

section \<open>The plugins fulfil the contract\<close>

lemma exact_int_low: "exact_int p name lo hi = Inr v \<Longrightarrow> lo \<le> v"
  by (auto simp: exact_int_def split: option.splits evidence.splits if_splits)

lemma swing_timely:
  assumes "swing_params p = Inr sl" "swing_eval sl cx deps = Inr (tf, ev)"
  shows "timely cx ev"
proof -
  obtain sz labels where sl: "sl = (sz, labels)" by fastforce
  from assms(1) sl obtain w where w: "sz = Suc w"
    by (auto simp: swing_params_def dest!: exact_int_low intro: that [of "sz - 1"])
  from assms(2) sl obtain cs where cs: "closed_candles cx ''regime'' ''4h'' = Inr cs"
    and rest: "(if length cs \<le> sz then
       Inr (''4h'', outcome ''UNAVAILABLE'' ''insufficient bars for first size-confirmed swing pivot'' ''UNAVAILABLE'' [])
     else rbind (swing_events sz cs) (\<lambda>events. Inr (''4h'', swing_evaluation sz labels cs events))) = Inr (tf, ev)"
    by (auto simp: swing_eval_def)
  from rest show ?thesis
  proof (rule warmup_timely)
    assume "rbind (swing_events sz cs) (\<lambda>events. Inr (''4h'', swing_evaluation sz labels cs events)) = Inr (tf, ev)"
    then obtain events where e: "swing_events sz cs = Inr events" "ev = swing_evaluation sz labels cs events" by auto
    show "timely cx ev"
    proof (cases "events = []")
      case True
      then show ?thesis by (simp add: e(2) swing_evaluation_def)
    next
      case False
      from e(1) have "scan (swing_step (Suc w)) swing_start sw_events 0 cs = Inr events"
        by (simp add: swing_scan w)
      from swing.scan_range [OF this last_in_set [OF False]] have "se_known_index (last events) < length cs" by simp
      from timely_close [OF cs this] False show ?thesis
        by (simp add: e(2) swing_evaluation_def timely_def Let_def)
    qed
  qed
qed

interpretation swing_plugin: indicator swing_spec make_swing "with_params swing_params swing_eval"
  by (rule indicator_of_params) (auto simp: make_swing_def intro: swing_timely)

lemma equal_timely:
  assumes "equal_params p = Inr nt" "equal_eval nt cx deps = Inr (tf, ev)"
  shows "timely cx ev"
proof -
  obtain n t where nt: "nt = (n, t)" by fastforce
  from assms(1) nt obtain w where w: "n = Suc w"
    by (auto simp: equal_params_def dest!: exact_int_low intro: that [of "n - 1"])
  show ?thesis
  proof (rule checked_timely [OF assms(2) [unfolded equal_eval_def nt prod.case]], erule warmup_timely)
    fix cs
    assume cs: "closed_candles cx ''context'' ''1h'' = Inr cs"
      and "rbind (equal_events n t cs) (\<lambda>events. Inr (''1h'', equal_evaluation n t cs events)) = Inr (tf, ev)"
    then obtain events where e: "equal_events n t cs = Inr events" "ev = equal_evaluation n t cs events" by auto
    show "timely cx ev"
    proof (cases "events = []")
      case True
      then show ?thesis by (simp add: e(2) equal_evaluation_def)
    next
      case False
      from e(1) have "scan (equal_scan_step (Suc w) t) equal_start eq_events (Suc w) cs = Inr events"
        by (simp add: equal_scan w)
      from equal.scan_range [OF this last_in_set [OF False]] have "ee_known_index (last events) < length cs" by simp
      from timely_close [OF cs this] False show ?thesis
        by (simp add: e(2) equal_evaluation_def timely_def Let_def)
    qed
  qed
qed

interpretation equal_plugin: indicator equal_spec make_equal "with_params equal_params equal_eval"
  by (rule indicator_of_params) (auto simp: make_equal_def intro: equal_timely)

lemma order_block_timely:
  assumes "order_block_eval bp cx deps = Inr (tf, ev)"
  shows "timely cx ev"
proof (rule checked_timely [OF assms [unfolded order_block_eval_def]], erule warmup_timely)
  fix cs
  let ?blocks = "active_order_blocks (block_size (bp_scope bp)) (bp_filter bp) (bp_mitigation bp) (bp_maximum bp) cs"
  assume cs: "closed_candles cx ''context'' ''1h'' = Inr cs"
    and "rbind ?blocks (\<lambda>blocks. Inr (''1h'', block_evaluation (bp_scope bp) cs blocks)) = Inr (tf, ev)"
  then obtain blocks where e: "?blocks = Inr blocks" "ev = block_evaluation (bp_scope bp) cs blocks" by auto
  show "timely cx ev"
  proof (cases blocks)
    case Nil
    then show ?thesis by (simp add: e(2) block_evaluation_def)
  next
    case (Cons b more)
    with active_blocks_inv [OF e(1)] have "bk_break_index b < length cs" by (auto simp: block_sound_def)
    from timely_close [OF cs this] Cons show ?thesis by (simp add: e(2) block_evaluation_def timely_def)
  qed
qed

interpretation order_block_plugin: indicator block_spec make_order_block "with_params order_block_params order_block_eval"
  by (rule indicator_of_params) (auto simp: make_order_block_def intro: order_block_timely)

section \<open>Properties\<close>

text \<open>Four bars with a low pivot, a high pivot and a break above it.\<close>

definition sample_bar :: "int \<Rightarrow> string \<Rightarrow> string \<Rightarrow> string \<Rightarrow> string \<Rightarrow> derived_candle" where
  "sample_bar i op hi lo cl = \<lparr>dc_instrument_id = ''CRYPTO-BTC-USDT-PERP'', dc_interval = ''1h'',
     dc_open_time_ms = i * 3600000, dc_close_time_ms = i * 3600000 + 3599999, dc_open = op, dc_high = hi,
     dc_low = lo, dc_close = cl, dc_base_volume = ''1'', dc_quote_volume = None\<rparr>"

definition sample_bars :: "derived_candle list" where
  "sample_bars = [sample_bar 0 ''10'' ''11'' ''9'' ''10'', sample_bar 1 ''10'' ''13'' ''10'' ''12'',
     sample_bar 2 ''12'' ''12.5'' ''11'' ''11.5'', sample_bar 3 ''11.5'' ''15'' ''11.4'' ''14'']"

text \<open>C17:
  The swing scan returns for every series and every positive length, and the events it finds on the
  first \<open>n\<close> bars are exactly the events of the whole series that are known before bar \<open>n\<close>: a later
  bar never changes or removes an event.\<close>

theorem swing_never_repaints:
  "\<exists>es. swing_events (Suc w) cs = Inr es
     \<and> swing_events (Suc w) (take n cs) = Inr (filter (\<lambda>e. se_known_index e < n) es)"
  using swing.scan_total swing.no_repaint unfolding swing_scan by blast

text \<open>C18:
  Every swing event says the truth about the series: a confirmed pivot is strictly above (below) the
  \<open>size\<close> bars after it and is known exactly \<open>size\<close> bars later; a break is a close beyond the level
  whose previous close was not; no event is known before it happened.\<close>

theorem swing_events_sound:
  "swing_events (Suc w) cs = Inr es \<Longrightarrow> e \<in> set es \<Longrightarrow>
   swing_sound (Suc w) cs e \<and> se_event_index e \<le> se_known_index e \<and> se_known_index e < length cs"
  using swing.scan_range unfolding swing_scan swing_sound_def by blast

theorem swing_events_sound_witness:
  "\<exists>es e. swing_events 1 sample_bars = Inr es \<and> e \<in> set es \<and> swing_sound 1 sample_bars e"
proof -
  have "case swing_events (Suc 0) sample_bars of Inr es \<Rightarrow> es \<noteq> [] | _ \<Rightarrow> False" by code_simp
  then obtain es where es: "swing_events (Suc 0) sample_bars = Inr es" "es \<noteq> []" by (auto split: sum.splits)
  from swing_events_sound [OF es(1) hd_in_set [OF es(2)]] es show ?thesis by force
qed

text \<open>The equal-level scan returns for every series, never repaints, and each event pairs two pivots of
  one side whose distance is strictly below the configured fraction of the ATR(200) at the bar that
  confirms the second one.\<close>

theorem equal_levels_sound:
  "\<exists>es. equal_events (Suc w) threshold cs = Inr es \<and> list_all (equal_sound (Suc w) threshold cs) es
     \<and> equal_events (Suc w) threshold (take n cs) = Inr (filter (\<lambda>e. ee_known_index e < n) es)"
proof -
  obtain es where es: "equal_events (Suc w) threshold cs = Inr es"
    using equal.scan_total unfolding equal_scan by blast
  then have "list_all (equal_sound (Suc w) threshold cs) es"
    using equal.scan_range unfolding equal_scan list_all_iff by blast
  with es show ?thesis using equal.no_repaint unfolding equal_scan by blast
qed

text \<open>The active order blocks are at most the configured number; each comes from a bar before
  the bar that broke its pivot, and is not mitigated by the last bar.\<close>

theorem order_blocks_fresh:
  "active_order_blocks sz f m maximum cs = Inr bs \<Longrightarrow>
   length bs \<le> maximum \<and> list_all (\<lambda>b. bk_source_index b < bk_break_index b \<and> bk_break_index b < length cs
     \<and> \<not> mitigated m (last cs) b) bs"
  using active_blocks_inv [of sz f m maximum cs bs] by (auto simp: list_all_iff block_sound_def)

theorem order_blocks_fresh_witness:
  "\<exists>b. active_order_blocks 1 ''cumulative_range'' ''close'' 3 sample_bars = Inr [b] \<and> bk_source_index b < bk_break_index b"
proof -
  have "case active_order_blocks 1 ''cumulative_range'' ''close'' 3 sample_bars of Inr es \<Rightarrow> length es = 1 | _ \<Rightarrow> False"
    by code_simp
  then obtain b where "active_order_blocks 1 ''cumulative_range'' ''close'' 3 sample_bars = Inr [b]"
    by (auto simp: length_Suc_conv split: sum.splits)
  from order_blocks_fresh [OF this] this show ?thesis by simp
qed

end
