(* ===== verification/Ict.thy ===== *)
theory Ict
  imports Indicators
begin

text \<open>
  The ICT plugins (\<^verbatim>\<open>indicators/ict.py\<close>): clustered liquidity, market structure, fair value gaps.
  Pivots are confirmed by one bar on the right and kept in a zigzag, newest first. Zones and gaps are
  objects the code updates in place; here a list is rebuilt with the element replaced.
\<close>

section \<open>Pivots and the zigzag\<close>

definition ict_source :: "string list" where
  "ict_source = [''ict_luxalgo@1'']"

record zigzag_point =
  zz_direction :: int
  zz_index :: nat
  zz_level :: dec

definition pivot_at :: "derived_candle list \<Rightarrow> nat \<Rightarrow> nat \<Rightarrow> (nat \<times> int) list result" where
  "pivot_at cs left i =
     (let k = i - 1; h = high_of (cs ! k); l = low_of (cs ! k);
          prior = take left (drop (k - left) cs) in
      rbind (dmax_list (map high_of prior)) (\<lambda>mx.
      rbind (dmin_list (map low_of prior)) (\<lambda>mn.
      Inr ((if dlt mx h \<and> dlt (high_of (cs ! i)) h then [(i, 1)] else [])
           @ (if dlt l mn \<and> dlt l (low_of (cs ! i)) then [(i, -1)] else [])))))"

definition pivot_candidates :: "derived_candle list \<Rightarrow> nat \<Rightarrow> (nat \<times> int) list result" where
  "pivot_candidates cs left =
     rbind (rmapM (pivot_at cs left) [left + 1..<length cs]) (\<lambda>xss. Inr (concat xss))"

text \<open>The directions of the candidates confirmed at bar \<open>i\<close>, in order.\<close>

definition directions_at :: "(nat \<times> int) list \<Rightarrow> nat \<Rightarrow> int list" where
  "directions_at cands i = map snd (filter (\<lambda>c. fst c = i) cands)"

definition update_zigzag :: "zigzag_point list \<Rightarrow> zigzag_point \<Rightarrow> zigzag_point list \<times> bool" where
  "update_zigzag points p =
     (case points of
        [] \<Rightarrow> ([p], True)
      | current # rest \<Rightarrow>
          if zz_direction current \<noteq> zz_direction p then (p # points, True)
          else if (zz_direction p = 1 \<and> dlt (zz_level current) (zz_level p))
                  \<or> (zz_direction p = -1 \<and> dlt (zz_level p) (zz_level current))
          then (p # rest, True)
          else (points, False))"

definition candidate_point :: "derived_candle list \<Rightarrow> nat \<Rightarrow> int \<Rightarrow> zigzag_point" where
  "candidate_point cs i dir = \<lparr>zz_direction = dir, zz_index = i - 1,
     zz_level = (if dir = 1 then high_of (cs ! (i - 1)) else low_of (cs ! (i - 1)))\<rparr>"

section \<open>Clustered liquidity\<close>

record liquidity_zone =
  lz_side :: string
  lz_lower :: dec
  lz_upper :: dec
  lz_level :: dec
  lz_event :: nat
  lz_known :: nat
  lz_anchor :: nat
  lz_state :: string
  lz_opposing :: "dec option"
  lz_swept :: "dec option"

fun scan_matching :: "int \<Rightarrow> dec \<Rightarrow> dec \<Rightarrow> zigzag_point list \<Rightarrow> zigzag_point list" where
  "scan_matching dir level margin [] = []"
| "scan_matching dir level margin (p # ps) =
     (if zz_direction p \<noteq> dir then scan_matching dir level margin ps
      else if (dir = 1 \<and> dlt (dadd level margin) (zz_level p))
              \<or> (dir = -1 \<and> dlt (zz_level p) (dsub level margin)) then []
      else if dlt (dsub level margin) (zz_level p) \<and> dlt (zz_level p) (dadd level margin)
      then p # scan_matching dir level margin ps
      else scan_matching dir level margin ps)"

definition matching_points :: "zigzag_point list \<Rightarrow> int \<Rightarrow> dec \<Rightarrow> dec \<Rightarrow> zigzag_point list" where
  "matching_points points dir level margin = scan_matching dir level margin (take 50 points)"

fun update_first :: "('a \<Rightarrow> bool) \<Rightarrow> ('a \<Rightarrow> 'a) \<Rightarrow> 'a list \<Rightarrow> 'a list" where
  "update_first P f [] = []"
| "update_first P f (x # xs) = (if P x then f x # xs else x # update_first P f xs)"

record zone_state =
  zs_points :: "zigzag_point list"
  zs_zones :: "liquidity_zone list"
  zs_seen :: "(string \<times> nat list) list"

definition side_of :: "int \<Rightarrow> string" where
  "side_of dir = (if dir = 1 then ''BUYSIDE'' else ''SELLSIDE'')"

definition place_zone ::
    "string \<Rightarrow> dec \<Rightarrow> dec \<Rightarrow> zigzag_point \<Rightarrow> nat \<Rightarrow> liquidity_zone list \<Rightarrow> liquidity_zone list" where
  "place_zone side center margin anchor i zones =
     (case List.find (\<lambda>z. lz_side z = side) zones of
        Some z \<Rightarrow>
          if lz_state z \<noteq> ''FULL'' \<and> lz_anchor z = zz_index anchor then
            update_first (\<lambda>z. lz_side z = side)
              (\<lambda>z. z\<lparr>lz_lower := dsub center margin, lz_upper := dadd center margin,
                     lz_event := i - 1, lz_known := i\<rparr>) zones
          else \<lparr>lz_side = side, lz_lower = dsub center margin, lz_upper = dadd center margin,
                 lz_level = zz_level anchor, lz_event = i - 1, lz_known = i, lz_anchor = zz_index anchor,
                 lz_state = ''ACTIVE'', lz_opposing = None, lz_swept = None\<rparr> # zones
      | None \<Rightarrow> \<lparr>lz_side = side, lz_lower = dsub center margin, lz_upper = dadd center margin,
                 lz_level = zz_level anchor, lz_event = i - 1, lz_known = i, lz_anchor = zz_index anchor,
                 lz_state = ''ACTIVE'', lz_opposing = None, lz_swept = None\<rparr> # zones)"

definition cluster_zone ::
    "nat \<Rightarrow> dec \<Rightarrow> dec \<Rightarrow> zigzag_point \<Rightarrow> nat \<Rightarrow> zone_state \<Rightarrow> zone_state result" where
  "cluster_zone minimum fraction atr p i st =
     (let margin = dmul atr fraction; dir = zz_direction p;
          matching = matching_points (zs_points st) dir (zz_level p) margin;
          key = (side_of dir, map zz_index matching) in
      if length matching < minimum then Inr st
      else if key \<in> set (zs_seen st) then Inr st
      else rbind (dmin_list (map zz_level matching)) (\<lambda>mn.
           rbind (dmax_list (map zz_level matching)) (\<lambda>mx.
           rbind (ddiv (dadd mn mx) (dec_of_int 2)) (\<lambda>center.
           Inr (st\<lparr>zs_seen := key # zs_seen st,
                   zs_zones := place_zone (side_of dir) center margin (last matching) i (zs_zones st)\<rparr>)))))"

definition zone_candidate ::
    "derived_candle list \<Rightarrow> dec option list \<Rightarrow> nat \<Rightarrow> dec \<Rightarrow> nat \<Rightarrow> zone_state \<Rightarrow> int \<Rightarrow> zone_state result" where
  "zone_candidate cs atrs minimum fraction i st dir =
     (let p = candidate_point cs i dir in
      case update_zigzag (zs_points st) p of (points, changed) \<Rightarrow>
        let st1 = st\<lparr>zs_points := points\<rparr> in
        if \<not> changed then Inr st1
        else (case atrs ! i of
            None \<Rightarrow> Inr st1
          | Some atr \<Rightarrow> cluster_zone minimum fraction atr p i st1))"

text \<open>The traversal of the zones by the close of bar \<open>i\<close>.\<close>

definition traverse_zone :: "derived_candle \<Rightarrow> nat \<Rightarrow> liquidity_zone list \<Rightarrow> liquidity_zone \<Rightarrow> liquidity_zone" where
  "traverse_zone c i zones z =
     (let buy = (lz_side z = ''BUYSIDE''); cl = close_of c;
          partial = (if buy then dlt (lz_lower z) cl else dlt cl (lz_upper z));
          full = (if buy then dlt (lz_upper z) cl else dlt cl (lz_lower z)) in
      if lz_state z = ''FULL'' then z
      else if full then
        z\<lparr>lz_state := ''FULL'', lz_known := i, lz_swept := Some (if buy then high_of c else low_of c),
          lz_opposing := map_option lz_level (List.find (\<lambda>y. lz_side y \<noteq> lz_side z) zones)\<rparr>
      else if partial \<and> lz_state z = ''ACTIVE'' then z\<lparr>lz_state := ''PARTIAL'', lz_known := i\<rparr>
      else z)"

definition zone_step ::
    "derived_candle list \<Rightarrow> dec option list \<Rightarrow> (nat \<times> int) list \<Rightarrow> nat \<Rightarrow> dec \<Rightarrow> zone_state \<Rightarrow> nat \<Rightarrow> zone_state result" where
  "zone_step cs atrs cands minimum fraction st i =
     rbind (rfoldM (zone_candidate cs atrs minimum fraction i) st (directions_at cands i)) (\<lambda>st1.
     Inr (st1\<lparr>zs_zones := map (traverse_zone (cs ! i) i (zs_zones st1)) (zs_zones st1)\<rparr>))"

text \<open>\<^verbatim>\<open>sorted(xs, key=k, reverse=True)\<close> keeps the order of equal keys.\<close>

definition sort_desc :: "('a \<Rightarrow> 'k::linorder) \<Rightarrow> 'a list \<Rightarrow> 'a list" where
  "sort_desc k xs = rev (sort_key k (rev xs))"

definition zone_start :: zone_state where
  "zone_start = \<lparr>zs_points = [], zs_zones = [], zs_seen = []\<rparr>"

definition liquidity_zones ::
    "derived_candle list \<Rightarrow> nat \<Rightarrow> nat \<Rightarrow> dec \<Rightarrow> liquidity_zone list result" where
  "liquidity_zones cs left minimum fraction =
     rbind (wilder_atr cs 10) (\<lambda>atrs.
     rbind (pivot_candidates cs left) (\<lambda>cands.
     rbind (rfoldM (zone_step cs atrs cands minimum fraction) zone_start [0..<length cs]) (\<lambda>st.
     Inr (sort_desc (\<lambda>z. (lz_known z, lz_event z)) (zs_zones st)))))"

definition liquidity_spec :: plugin_spec where
  "liquidity_spec = \<lparr>sp_id = ''ict.clustered_liquidity'', sp_role = ''execution'',
     sp_deps = [''smc.equal_high_low''], sp_sources = ict_source\<rparr>"

definition liquidity_params :: "evidence \<Rightarrow> (nat \<times> nat \<times> dec) result" where
  "liquidity_params p =
     rbind (rguard (same_keys p [''pivot_width'', ''minimum_pivots'', ''margin_atr_fraction'']) ValueError
              ''unexpected clustered-liquidity parameters'') (\<lambda>_.
     rbind (exact_int p ''pivot_width'' 3 (Some 10)) (\<lambda>left.
     rbind (exact_int p ''minimum_pivots'' 3 None) (\<lambda>minimum.
     rbind (exact_decimal p ''margin_atr_fraction''
              ''margin_atr_fraction must be a source-representable tenth in 0.2..0.7'') (\<lambda>fraction.
     rbind (rmapM (\<lambda>v. ddiv (dec_of_int v) (dec_of_int 10)) [2, 3, 4, 5, 6, 7]) (\<lambda>tenths.
     rbind (rguard (list_ex (deq fraction) tenths) ValueError
              ''margin_atr_fraction must be a source-representable tenth in 0.2..0.7'') (\<lambda>_.
     Inr (nat left, nat minimum, fraction)))))))"

definition zone_evaluation :: "derived_candle list \<Rightarrow> liquidity_zone list \<Rightarrow> evaluation" where
  "zone_evaluation cs zones =
     (case zones of
        [] \<Rightarrow> outcome ''FAIL'' ''fewer than the configured same-side pivots are strictly clustered'' ''NO_CLUSTER''
                [(''cluster_count'', PInt 0)]
      | z # _ \<Rightarrow>
          let opposing = List.find (\<lambda>y. lz_side y \<noteq> lz_side z) zones;
              opposing_level = (case lz_opposing z of
                  Some l \<Rightarrow> Some l
                | None \<Rightarrow> if lz_state z \<noteq> ''FULL'' then map_option lz_level opposing else None)
          in (outcome ''PASS'' ''latest same-side pivot cluster has deterministic traversal state'' (lz_state z)
               ([(''cluster_count'', PInt (int (length zones))), (''liquidity_side'', PStr (lz_side z))]
                @ (case lz_swept z of None \<Rightarrow> [] | Some s \<Rightarrow> [(''swept_extreme_text'', PStr (plain_decimal s))])
                @ (case opposing_level of None \<Rightarrow> [] | Some l \<Rightarrow> [(''opposing_level_text'', PStr (plain_decimal l))])))
             \<lparr>ev_event_type := Some ''CLUSTERED_LIQUIDITY'',
              ev_direction := Some (if lz_side z = ''BUYSIDE'' then ''SHORT'' else ''LONG''),
              ev_event_time := Some (dc_close_time_ms (cs ! lz_event z)),
              ev_known_time := Some (dc_close_time_ms (cs ! lz_known z)),
              ev_level := Some (lz_level z), ev_lower := Some (lz_lower z), ev_upper := Some (lz_upper z)\<rparr>)"

definition liquidity_eval ::
    "nat \<times> nat \<times> dec \<Rightarrow> run_context \<Rightarrow> (string, observation) dict \<Rightarrow> (string \<times> evaluation) result" where
  "liquidity_eval lmf cx deps = (case lmf of (left, minimum, fraction) \<Rightarrow>
     rbind (configured_timeframe cx ''execution'') (\<lambda>tf.
     rbind (dependency_problem deps (sp_deps liquidity_spec) cx) (\<lambda>problem.
     rbind (closed_candles cx ''execution'' tf) (\<lambda>cs.
     case problem of Some ev \<Rightarrow> Inr (tf, ev) | None \<Rightarrow>
     if length cs < max 10 (left + 2) then
       Inr (tf, outcome ''UNAVAILABLE'' ''insufficient bars for ATR(10) and one-right-bar pivots'' ''UNAVAILABLE'' [])
     else rbind (liquidity_zones cs left minimum fraction) (\<lambda>zones.
     Inr (tf, zone_evaluation cs zones))))))"

definition make_liquidity :: "evidence \<Rightarrow> plugin result" where
  "make_liquidity p = rbind (liquidity_params p) (\<lambda>x. Inr (observe liquidity_spec p (liquidity_eval x)))"

section \<open>Market structure\<close>

record market_event =
  me_type :: string
  me_direction :: string
  me_level :: dec
  me_index :: nat

definition selected_structure_points ::
    "zigzag_point list \<Rightarrow> zigzag_point option \<times> zigzag_point option" where
  "selected_structure_points points =
     (if length points < 3 then (None, None)
      else let h = points ! (if zz_direction (points ! 2) = 1 then 2 else 1);
               l = points ! (if zz_direction (points ! 2) = -1 then 2 else 1)
        in (if zz_direction h = 1 then Some h else None, if zz_direction l = -1 then Some l else None))"

record market_state =
  ms_points :: "zigzag_point list"
  ms_trend :: int
  ms_mss :: "int \<rightharpoonup> dec"
  ms_bos :: "int \<rightharpoonup> dec"
  ms_events :: "market_event list"

definition market_start :: market_state where
  "market_start = \<lparr>ms_points = [], ms_trend = 0, ms_mss = Map.empty, ms_bos = Map.empty, ms_events = []\<rparr>"

definition differs :: "dec \<Rightarrow> dec option \<Rightarrow> bool" where
  "differs x y = (case y of None \<Rightarrow> True | Some d \<Rightarrow> \<not> deq x d)"

definition emit :: "string \<Rightarrow> string \<Rightarrow> dec \<Rightarrow> nat \<Rightarrow> market_state \<Rightarrow> market_state" where
  "emit ty dir lv i st = st\<lparr>ms_events := ms_events st @
     [\<lparr>me_type = ty, me_direction = dir, me_level = lv, me_index = i\<rparr>]\<rparr>"

definition above :: "dec \<Rightarrow> zigzag_point option \<Rightarrow> dec option" where
  "above cl p = (case p of Some z \<Rightarrow> if dlt (zz_level z) cl then Some (zz_level z) else None | None \<Rightarrow> None)"

definition below :: "dec \<Rightarrow> zigzag_point option \<Rightarrow> dec option" where
  "below cl p = (case p of Some z \<Rightarrow> if dlt cl (zz_level z) then Some (zz_level z) else None | None \<Rightarrow> None)"

definition structure_break :: "derived_candle list \<Rightarrow> nat \<Rightarrow> market_state \<Rightarrow> market_state" where
  "structure_break cs i st =
     (case selected_structure_points (ms_points st) of (h, l) \<Rightarrow>
      let cl = close_of (cs ! i); up = above cl h; down = below cl l in
      if up \<noteq> None \<and> ms_trend st < 1 then
        emit ''MSS'' ''BULLISH'' (the up) i (st\<lparr>ms_trend := 1, ms_mss := (ms_mss st)(1 \<mapsto> the up)\<rparr>)
      else if down \<noteq> None \<and> ms_trend st > -1 then
        emit ''MSS'' ''BEARISH'' (the down) i (st\<lparr>ms_trend := -1, ms_mss := (ms_mss st)(-1 \<mapsto> the down)\<rparr>)
      else if ms_trend st = 1 \<and> up \<noteq> None \<and> differs (the up) (ms_mss st 1) \<and> differs (the up) (ms_bos st 1) then
        emit ''BOS'' ''BULLISH'' (the up) i (st\<lparr>ms_bos := (ms_bos st)(1 \<mapsto> the up)\<rparr>)
      else if ms_trend st = -1 \<and> down \<noteq> None \<and> differs (the down) (ms_mss st (-1)) \<and> differs (the down) (ms_bos st (-1)) then
        emit ''BOS'' ''BEARISH'' (the down) i (st\<lparr>ms_bos := (ms_bos st)(-1 \<mapsto> the down)\<rparr>)
      else st)"

definition market_step ::
    "derived_candle list \<Rightarrow> (nat \<times> int) list \<Rightarrow> market_state \<Rightarrow> nat \<Rightarrow> market_state" where
  "market_step cs cands st i =
     structure_break cs i
       (foldl (\<lambda>st dir. st\<lparr>ms_points := fst (update_zigzag (ms_points st) (candidate_point cs i dir))\<rparr>)
         st (directions_at cands i))"

definition market_events :: "derived_candle list \<Rightarrow> nat \<Rightarrow> market_event list result" where
  "market_events cs left =
     rbind (pivot_candidates cs left) (\<lambda>cands.
     Inr (ms_events (foldl (market_step cs cands) market_start [0..<length cs])))"

definition structure_spec :: plugin_spec where
  "structure_spec = \<lparr>sp_id = ''ict.market_structure'', sp_role = ''execution'',
     sp_deps = [''ict.clustered_liquidity''], sp_sources = ict_source\<rparr>"

definition structure_params :: "evidence \<Rightarrow> (nat \<times> bool \<times> bool) result" where
  "structure_params p =
     rbind (rguard (same_keys p [''pivot_width'', ''emit_mss'', ''emit_bos'']) ValueError
              ''unexpected market-structure parameters'') (\<lambda>_.
     rbind (exact_int p ''pivot_width'' 3 (Some 10)) (\<lambda>left.
     rbind (exact_bool p ''emit_mss'') (\<lambda>mss.
     rbind (exact_bool p ''emit_bos'') (\<lambda>bos.
     rbind (rguard (\<not> (\<not> mss \<and> \<not> bos)) ValueError ''at least one structure event must be enabled'') (\<lambda>_.
     Inr (nat left, mss, bos))))))"

definition enabled_event :: "bool \<Rightarrow> bool \<Rightarrow> market_event \<Rightarrow> bool" where
  "enabled_event mss bos e \<longleftrightarrow> (me_type e = ''MSS'' \<and> mss) \<or> (me_type e = ''BOS'' \<and> bos)"

definition structure_evaluation :: "derived_candle list \<Rightarrow> market_event list \<Rightarrow> evaluation" where
  "structure_evaluation cs events =
     (if events = [] then outcome ''FAIL'' ''no enabled close-confirmed zigzag structure break'' ''NO_BREAK'' []
      else let e = last events in
        (outcome ''PASS'' ''latest unique zigzag level has an enabled closed-bar structure break''
           ''CONFIRMED_BREAK'' [(''pivot_confirmation_bars'', PInt 1)])
         \<lparr>ev_event_type := Some (me_type e), ev_direction := Some (me_direction e),
          ev_event_time := Some (dc_close_time_ms (cs ! me_index e)),
          ev_known_time := Some (dc_close_time_ms (cs ! me_index e)), ev_level := Some (me_level e)\<rparr>)"

definition structure_eval ::
    "nat \<times> bool \<times> bool \<Rightarrow> run_context \<Rightarrow> (string, observation) dict \<Rightarrow> (string \<times> evaluation) result" where
  "structure_eval lmb cx deps = (case lmb of (left, mss, bos) \<Rightarrow>
     rbind (configured_timeframe cx ''execution'') (\<lambda>tf.
     rbind (dependency_problem deps (sp_deps structure_spec) cx) (\<lambda>problem.
     rbind (closed_candles cx ''execution'' tf) (\<lambda>cs.
     case problem of Some ev \<Rightarrow> Inr (tf, ev) | None \<Rightarrow>
     if length cs < left + 2 then
       Inr (tf, outcome ''UNAVAILABLE'' ''insufficient bars for one-right-bar zigzag confirmation'' ''UNAVAILABLE'' [])
     else rbind (market_events cs left) (\<lambda>es.
       Inr (tf, structure_evaluation cs (filter (enabled_event mss bos) es)))))))"

definition make_structure :: "evidence \<Rightarrow> plugin result" where
  "make_structure p = rbind (structure_params p) (\<lambda>x. Inr (observe structure_spec p (structure_eval x)))"

section \<open>Fair value gaps\<close>

record gap =
  gp_direction :: string
  gp_lower :: dec
  gp_upper :: dec
  gp_event :: nat
  gp_known :: nat
  gp_state :: string

record gap_state =
  gs_gaps :: "gap list"
  gs_bullish :: bool
  gs_bearish :: bool

definition body_of :: "derived_candle \<Rightarrow> dec" where
  "body_of c = dabs (dsub (close_of c) (open_of c))"

definition large_body :: "derived_candle \<Rightarrow> dec option \<Rightarrow> bool" where
  "large_body middle mean_body =
     (let wick_limit = dmul (body_of middle) (dec_of ''0.36'');
          high_wick = dsub (high_of middle) (dmax2 (close_of middle) (open_of middle));
          low_wick = dsub (dmin2 (close_of middle) (open_of middle)) (low_of middle)
      in case mean_body of None \<Rightarrow> False
         | Some m \<Rightarrow> dlt m (body_of middle) \<and> dlt high_wick wick_limit \<and> dlt low_wick wick_limit)"

definition bullish_gap :: "derived_candle list \<Rightarrow> dec option list \<Rightarrow> bool \<Rightarrow> nat \<Rightarrow> bool" where
  "bullish_gap cs means require_displacement i \<longleftrightarrow>
     (let middle = cs ! (i - 1); old = cs ! (i - 2);
          displacement = (large_body middle (means ! (i - 1)) \<and> dlt (open_of middle) (close_of middle))
      in dlt (high_of old) (low_of (cs ! i)) \<and> (displacement \<or> \<not> require_displacement))"

definition bearish_gap :: "derived_candle list \<Rightarrow> dec option list \<Rightarrow> bool \<Rightarrow> nat \<Rightarrow> bool" where
  "bearish_gap cs means require_displacement i \<longleftrightarrow>
     (let middle = cs ! (i - 1); old = cs ! (i - 2);
          displacement = (large_body middle (means ! (i - 1)) \<and> dlt (close_of middle) (open_of middle))
      in dlt (high_of (cs ! i)) (low_of old) \<and> (displacement \<or> \<not> require_displacement))"

text \<open>A gap that follows a gap of its direction bar by bar extends it; otherwise it is a new one.\<close>

definition place_gap :: "string \<Rightarrow> dec \<Rightarrow> dec \<Rightarrow> nat \<Rightarrow> bool \<Rightarrow> gap list \<Rightarrow> gap list" where
  "place_gap dir lo hi i follows gaps =
     (if follows \<and> list_ex (\<lambda>g. gp_direction g = dir) gaps then
        update_first (\<lambda>g. gp_direction g = dir)
          (\<lambda>g. g\<lparr>gp_lower := lo, gp_upper := hi, gp_event := i, gp_known := i\<rparr>) gaps
      else \<lparr>gp_direction = dir, gp_lower = lo, gp_upper = hi, gp_event = i, gp_known = i, gp_state = ''ACTIVE''\<rparr> # gaps)"

definition detect_gap ::
    "derived_candle list \<Rightarrow> dec option list \<Rightarrow> bool \<Rightarrow> gap_state \<Rightarrow> nat \<Rightarrow> gap_state" where
  "detect_gap cs means req st i =
     (let bull = bullish_gap cs means req i; bear = bearish_gap cs means req i; old = cs ! (i - 2); c = cs ! i;
          gaps1 = (if bull then place_gap ''BULLISH'' (high_of old) (low_of c) i (gs_bullish st) (gs_gaps st)
                   else gs_gaps st);
          gaps2 = (if bear then place_gap ''BEARISH'' (high_of c) (low_of old) i (gs_bearish st) gaps1 else gaps1)
      in \<lparr>gs_gaps = gaps2, gs_bullish = bull, gs_bearish = bear\<rparr>)"

definition traverse_gap :: "derived_candle \<Rightarrow> nat \<Rightarrow> gap \<Rightarrow> gap" where
  "traverse_gap c i g =
     (if gp_state g = ''FULL'' then g
      else if gp_direction g = ''BULLISH'' then
        (if dlt (low_of c) (gp_lower g) then g\<lparr>gp_state := ''FULL'', gp_known := i\<rparr>
         else if dlt (low_of c) (gp_upper g) \<and> gp_state g = ''ACTIVE'' then g\<lparr>gp_state := ''PARTIAL'', gp_known := i\<rparr>
         else g)
      else
        (if dlt (gp_upper g) (high_of c) then g\<lparr>gp_state := ''FULL'', gp_known := i\<rparr>
         else if dlt (gp_lower g) (high_of c) \<and> gp_state g = ''ACTIVE'' then g\<lparr>gp_state := ''PARTIAL'', gp_known := i\<rparr>
         else g))"

definition gap_step :: "derived_candle list \<Rightarrow> dec option list \<Rightarrow> bool \<Rightarrow> gap_state \<Rightarrow> nat \<Rightarrow> gap_state" where
  "gap_step cs means req st i =
     (let st1 = (if 2 \<le> i then detect_gap cs means req st i else st)
      in st1\<lparr>gs_gaps := map (traverse_gap (cs ! i) i) (gs_gaps st1)\<rparr>)"

definition gap_start :: gap_state where
  "gap_start = \<lparr>gs_gaps = [], gs_bullish = False, gs_bearish = False\<rparr>"

definition active_gaps :: "derived_candle list \<Rightarrow> nat \<Rightarrow> bool \<Rightarrow> gap list result" where
  "active_gaps cs n req =
     rbind (simple_moving_average (map body_of cs) n) (\<lambda>means.
     Inr (sort_desc (\<lambda>g. (gp_known g, gp_event g))
       (filter (\<lambda>g. gp_state g \<noteq> ''FULL'') (gs_gaps (foldl (gap_step cs means req) gap_start [0..<length cs])))))"

definition gap_spec :: plugin_spec where
  "gap_spec = \<lparr>sp_id = ''ict.fair_value_gap'', sp_role = ''execution'', sp_deps = [''ict.market_structure''],
     sp_sources = ict_source\<rparr>"

definition gap_params :: "evidence \<Rightarrow> (bool \<times> nat) result" where
  "gap_params p =
     rbind (rguard (same_keys p [''kind'', ''require_displacement'', ''displacement_length'', ''mitigation'']) ValueError
              ''unexpected fair-value-gap parameters'') (\<lambda>_.
     rbind (rguard (param_get p ''kind'' = Some (EStr ''ordinary'')
              \<and> param_get p ''mitigation'' = Some (EStr ''full_traversal'')) ValueError
              ''only ordinary full-traversal FVG is supported'') (\<lambda>_.
     rbind (exact_bool p ''require_displacement'') (\<lambda>req.
     rbind (exact_int p ''displacement_length'' 1 None) (\<lambda>n.
     Inr (req, nat n)))))"

definition gap_evaluation ::
    "derived_candle list \<Rightarrow> gap list \<Rightarrow> observation \<Rightarrow> evaluation result" where
  "gap_evaluation cs gaps ms =
     (case gaps of
        [] \<Rightarrow> Inr (outcome ''FAIL'' ''no ordinary displacement FVG remains before full traversal'' ''NO_ACTIVE_GAP''
                [(''active_gap_count'', PInt 0)])
      | g # _ \<Rightarrow>
          (case known_time_ms ms of
             None \<Rightarrow> Inr (outcome ''FAIL'' ''FVG direction contradicts market-structure dependency''
                       ''CONTRADICTORY_EVIDENCE'' [])
           | Some ms_known \<Rightarrow>
               if ob_direction ms \<noteq> Some (gp_direction g) then
                 Inr (outcome ''FAIL'' ''FVG direction contradicts market-structure dependency''
                        ''CONTRADICTORY_EVIDENCE'' [])
               else rbind (ddiv (dadd (gp_lower g) (gp_upper g)) (dec_of_int 2)) (\<lambda>midpoint.
                 Inr ((outcome ''PASS'' ''latest ordinary displacement FVG remains before full traversal'' (gp_state g)
                   [(''active_gap_count'', PInt (int (length gaps))),
                    (''midpoint_text'', PStr (plain_decimal midpoint)),
                    (''market_structure_direction'', PStr (gp_direction g)),
                    (''market_structure_known_time_ms'', PInt ms_known)])
                   \<lparr>ev_event_type := Some ''FAIR_VALUE_GAP'', ev_direction := Some (gp_direction g),
                    ev_event_time := Some (dc_close_time_ms (cs ! gp_event g)),
                    ev_known_time := Some (max (dc_close_time_ms (cs ! gp_known g)) ms_known),
                    ev_level := Some midpoint, ev_lower := Some (gp_lower g), ev_upper := Some (gp_upper g)\<rparr>))))"

definition gap_eval ::
    "bool \<times> nat \<Rightarrow> run_context \<Rightarrow> (string, observation) dict \<Rightarrow> (string \<times> evaluation) result" where
  "gap_eval rn cx deps = (case rn of (req, n) \<Rightarrow>
     rbind (configured_timeframe cx ''execution'') (\<lambda>tf.
     rbind (dependency_problem deps (sp_deps gap_spec) cx) (\<lambda>problem.
     rbind (closed_candles cx ''execution'' tf) (\<lambda>cs.
     case problem of Some ev \<Rightarrow> Inr (tf, ev) | None \<Rightarrow>
     if length cs < (if req then n + 1 else 3) then
       Inr (tf, outcome ''UNAVAILABLE'' ''insufficient bars for displacement and three-candle FVG'' ''UNAVAILABLE'' [])
     else rbind (active_gaps cs n req) (\<lambda>gaps.
     rbind (dict_index deps ''ict.market_structure'') (\<lambda>ms.
     rbind (gap_evaluation cs gaps ms) (\<lambda>ev. Inr (tf, ev))))))))"

definition make_gap :: "evidence \<Rightarrow> plugin result" where
  "make_gap p = rbind (gap_params p) (\<lambda>x. Inr (observe gap_spec p (gap_eval x)))"

section \<open>Zones\<close>

text \<open>What holds of every zone after \<open>n\<close> bars.\<close>

definition zone_sound :: "nat \<Rightarrow> liquidity_zone \<Rightarrow> bool" where
  "zone_sound n z \<longleftrightarrow> lz_event z < n \<and> lz_known z < n \<and> lz_side z \<in> {''BUYSIDE'', ''SELLSIDE''}
     \<and> lz_state z \<in> {''ACTIVE'', ''PARTIAL'', ''FULL''} \<and> (lz_state z = ''FULL'' \<longleftrightarrow> lz_swept z \<noteq> None)
     \<and> (lz_opposing z \<noteq> None \<longrightarrow> lz_state z = ''FULL'')"

lemma zone_sound_mono: "zone_sound n z \<Longrightarrow> n \<le> m \<Longrightarrow> zone_sound m z"
  by (auto simp: zone_sound_def)

lemma set_update_first: "x \<in> set (update_first P f xs) \<Longrightarrow> x \<in> set xs \<or> (\<exists>y\<in>set xs. P y \<and> x = f y)"
  by (induction xs) (auto split: if_splits)

lemma place_zone_sound:
  assumes "\<forall>z\<in>set zones. zone_sound (Suc i) z" "side \<in> {''BUYSIDE'', ''SELLSIDE''}"
  shows "\<forall>z\<in>set (place_zone side center margin anchor i zones). zone_sound (Suc i) z"
proof
  fix z assume "z \<in> set (place_zone side center margin anchor i zones)"
  then consider (old) "z \<in> set zones"
    | (changed) y where "y \<in> set zones"
        "z = y\<lparr>lz_lower := dsub center margin, lz_upper := dadd center margin, lz_event := i - 1, lz_known := i\<rparr>"
    | (new) "lz_side z = side" "lz_event z = i - 1" "lz_known z = i" "lz_state z = ''ACTIVE''"
        "lz_opposing z = None" "lz_swept z = None"
    by (auto simp: place_zone_def split: option.splits if_splits dest!: set_update_first)
  then show "zone_sound (Suc i) z"
    using assms by cases (auto simp: zone_sound_def)
qed

lemma cluster_zone_sound:
  assumes "cluster_zone minimum fraction atr p i st = Inr st'" "\<forall>z\<in>set (zs_zones st). zone_sound (Suc i) z"
  shows "\<forall>z\<in>set (zs_zones st'). zone_sound (Suc i) z"
  using assms place_zone_sound [OF assms(2), of "side_of (zz_direction p)"]
  by (auto simp: cluster_zone_def Let_def side_of_def split: if_splits)

lemma zone_candidate_sound:
  assumes "zone_candidate cs atrs minimum fraction i st dir = Inr st'" "\<forall>z\<in>set (zs_zones st). zone_sound (Suc i) z"
  shows "\<forall>z\<in>set (zs_zones st'). zone_sound (Suc i) z"
proof -
  obtain points ch where u: "update_zigzag (zs_points st) (candidate_point cs i dir) = (points, ch)" by fastforce
  have z: "\<forall>z\<in>set (zs_zones (st\<lparr>zs_points := points\<rparr>)). zone_sound (Suc i) z" using assms(2) by simp
  from assms(1) u have "st' = st\<lparr>zs_points := points\<rparr> \<or>
      (\<exists>atr. cluster_zone minimum fraction atr (candidate_point cs i dir) i (st\<lparr>zs_points := points\<rparr>) = Inr st')"
    by (auto simp: zone_candidate_def Let_def split: if_splits option.splits)
  with z cluster_zone_sound show ?thesis by blast
qed

lemma traverse_zone_sound: "zone_sound (Suc i) z \<Longrightarrow> zone_sound (Suc i) (traverse_zone c i zones z)"
  by (auto simp: traverse_zone_def Let_def zone_sound_def)

lemma zone_step_sound:
  assumes "zone_step cs atrs cands minimum fraction st i = Inr st'" "\<forall>z\<in>set (zs_zones st). zone_sound i z"
  shows "\<forall>z\<in>set (zs_zones st'). zone_sound (Suc i) z"
proof -
  from assms(1) obtain st1 where st1: "rfoldM (zone_candidate cs atrs minimum fraction i) st (directions_at cands i) = Inr st1"
    and st': "zs_zones st' = map (traverse_zone (cs ! i) i (zs_zones st1)) (zs_zones st1)"
    by (auto simp: zone_step_def)
  have "\<forall>z\<in>set (zs_zones st1). zone_sound (Suc i) z"
    by (rule rfoldM_invariant [OF st1, where P = "\<lambda>st. \<forall>z\<in>set (zs_zones st). zone_sound (Suc i) z"])
      (use assms(2) zone_sound_mono zone_candidate_sound in \<open>fastforce+\<close>)
  then show ?thesis by (auto simp: st' traverse_zone_sound)
qed

lemma sort_desc_set [simp]: "set (sort_desc k xs) = set xs"
  by (simp add: sort_desc_def)

lemma liquidity_zones_sound:
  assumes "liquidity_zones cs left minimum fraction = Inr zones" "z \<in> set zones"
  shows "zone_sound (length cs) z"
proof -
  from assms obtain atrs cands st where
    run: "rfoldM (zone_step cs atrs cands minimum fraction) zone_start [0..<length cs] = Inr st"
    and z: "z \<in> set (zs_zones st)"
    by (auto simp: liquidity_zones_def)
  have "\<forall>z\<in>set (zs_zones st). zone_sound (length cs) z"
    by (rule rfoldM_upt_inv [OF run, where P = "\<lambda>i st. \<forall>z\<in>set (zs_zones st). zone_sound i z"])
      (auto simp: zone_start_def dest: zone_step_sound)
  with z show ?thesis by blast
qed

lemma sort_desc_sorted: "sorted_wrt (\<lambda>a b. k b \<le> k a) (sort_desc k xs)"
proof -
  have "sorted (map k (sort_key k (rev xs)))" by simp
  then show ?thesis by (simp add: sort_desc_def sorted_wrt_rev sorted_wrt_map)
qed

section \<open>Market structure does not repaint\<close>

definition bar_directions :: "derived_candle list \<Rightarrow> nat \<Rightarrow> nat \<Rightarrow> int list result" where
  "bar_directions cs left i =
     (if left + 1 \<le> i then rbind (pivot_at cs left i) (\<lambda>xs. Inr (map snd xs)) else Inr [])"

lemma pivot_at_index: "pivot_at cs left i = Inr xs \<Longrightarrow> x \<in> set xs \<Longrightarrow> fst x = i"
  by (auto simp: pivot_at_def Let_def split: if_splits)

lemma rmapM_defined: "rmapM f xs = Inr ys \<Longrightarrow> x \<in> set xs \<Longrightarrow> \<exists>y. f x = Inr y"
  by (induction xs arbitrary: ys) auto

lemma directions_of_candidates:
  assumes "pivot_candidates cs left = Inr cands" "i < length cs"
  shows "bar_directions cs left i = Inr (directions_at cands i)"
proof -
  from assms(1) obtain xss where r: "rmapM (pivot_at cs left) [left + 1..<length cs] = Inr xss"
    and c: "cands = concat xss" by (auto simp: pivot_candidates_def)
  have gen: "filter (\<lambda>c. fst c = i) (concat xss) = (if i \<in> set is then (case pivot_at cs left i of Inr xs \<Rightarrow> xs | _ \<Rightarrow> []) else [])"
    if "rmapM (pivot_at cs left) is = Inr xss" "distinct is" for "is" xss
    using that
  proof (induction "is" arbitrary: xss)
    case (Cons j js)
    then obtain ys yss where y: "pivot_at cs left j = Inr ys" "rmapM (pivot_at cs left) js = Inr yss" "xss = ys # yss"
      by auto
    have "filter (\<lambda>c. fst c = i) ys = (if i = j then ys else [])"
      using pivot_at_index [OF y(1)] by (auto simp: filter_id_conv filter_empty_conv)
    with Cons y show ?case by auto
  qed simp
  show ?thesis
  proof (cases "left + 1 \<le> i")
    case True
    with assms(2) have "i \<in> set [left + 1..<length cs]" by auto
    moreover from rmapM_defined [OF r this] obtain xs where "pivot_at cs left i = Inr xs" ..
    ultimately show ?thesis using gen [OF r] True by (simp add: bar_directions_def directions_at_def c)
  next
    case False
    then have "i \<notin> set [left + 1..<length cs]" by auto
    with gen [OF r] False show ?thesis by (simp add: bar_directions_def directions_at_def c)
  qed
qed

lemma prior_bars:
  assumes "left + 1 \<le> i" "i < length cs" "0 < left"
  shows "take left (drop (i - 1 - left) cs) \<noteq> []"
  using assms by simp

lemma pivot_at_total:
  assumes "left + 1 \<le> i" "i < length cs" "0 < left"
  shows "\<exists>xs. pivot_at cs left i = Inr xs"
proof -
  note ne = prior_bars [OF assms]
  then obtain mx mn where "dmax_list (map high_of (take left (drop (i - 1 - left) cs))) = Inr mx"
    "dmin_list (map low_of (take left (drop (i - 1 - left) cs))) = Inr mn"
    by (cases "take left (drop (i - 1 - left) cs)") auto
  then show ?thesis by (simp add: pivot_at_def Let_def)
qed

lemma bar_directions_total:
  "i < length cs \<Longrightarrow> 0 < left \<Longrightarrow> \<exists>ds. bar_directions cs left i = Inr ds"
  using pivot_at_total [of left i cs] by (auto simp: bar_directions_def)

lemma pivot_candidates_total:
  assumes "0 < left"
  shows "\<exists>cands. pivot_candidates cs left = Inr cands"
proof -
  have "\<exists>xss. rmapM (pivot_at cs left) is = Inr xss" if "\<forall>i\<in>set is. left + 1 \<le> i \<and> i < length cs" for "is"
    using that
  proof (induction "is")
    case (Cons i js)
    from pivot_at_total [of left i cs] Cons.prems assms obtain xs where "pivot_at cs left i = Inr xs" by auto
    moreover from Cons obtain xss where "rmapM (pivot_at cs left) js = Inr xss" by auto
    ultimately show ?case by simp
  qed simp
  from this [of "[left + 1..<length cs]"] show ?thesis by (auto simp: pivot_candidates_def)
qed

lemma bar_directions_take:
  assumes "i < n" "i < length cs"
  shows "bar_directions (take n cs) left i = bar_directions cs left i"
proof (cases "left + 1 \<le> i")
  case True
  have "take left (drop (i - 1 - left) (take n cs)) = take left (drop (i - 1 - left) cs)"
    using True assms by (simp add: drop_take min_absorb1)
  moreover have "take n cs ! (i - 1) = cs ! (i - 1)" "take n cs ! i = cs ! i" using assms by simp_all
  ultimately show ?thesis using True by (simp add: bar_directions_def pivot_at_def Let_def)
next
  case False
  then show ?thesis by (simp add: bar_directions_def)
qed

definition market_scan_step ::
    "nat \<Rightarrow> derived_candle list \<Rightarrow> market_state \<Rightarrow> nat \<Rightarrow> market_state result" where
  "market_scan_step left cs st i = rbind (bar_directions cs left i) (\<lambda>ds.
     Inr (structure_break cs i
       (foldl (\<lambda>st dir. st\<lparr>ms_points := fst (update_zigzag (ms_points st) (candidate_point cs i dir))\<rparr>) st ds)))"

definition break_sound :: "derived_candle list \<Rightarrow> market_event \<Rightarrow> bool" where
  "break_sound cs e \<longleftrightarrow> me_type e \<in> {''MSS'', ''BOS''} \<and>
     (if me_direction e = ''BULLISH'' then dval (me_level e) < dval (close_of (cs ! me_index e))
      else dval (close_of (cs ! me_index e)) < dval (me_level e))"

lemma above_some: "above cl p \<noteq> None \<Longrightarrow> dval (the (above cl p)) < dval cl"
  by (auto simp: above_def dlt_iff split: option.splits if_splits)

lemma below_some: "below cl p \<noteq> None \<Longrightarrow> dval cl < dval (the (below cl p))"
  by (auto simp: below_def dlt_iff split: option.splits if_splits)

lemma structure_break_appends:
  "\<exists>new. ms_events (structure_break cs i st) = ms_events st @ new \<and> (\<forall>e\<in>set new. me_index e = i \<and> break_sound cs e)"
proof -
  obtain h l where hl: "selected_structure_points (ms_points st) = (h, l)" by fastforce
  let ?cl = "close_of (cs ! i)"
  have em: "ms_events (emit ty dir lv i st2) = ms_events st2 @ [\<lparr>me_type = ty, me_direction = dir, me_level = lv, me_index = i\<rparr>]"
    for ty dir lv st2 by (simp add: emit_def)
  have up: "break_sound cs \<lparr>me_type = ty, me_direction = ''BULLISH'', me_level = the (above ?cl h), me_index = i\<rparr>"
    if "above ?cl h \<noteq> None" "ty \<in> {''MSS'', ''BOS''}" for ty
    using above_some [OF that(1)] that(2) by (simp add: break_sound_def)
  have down: "break_sound cs \<lparr>me_type = ty, me_direction = ''BEARISH'', me_level = the (below ?cl l), me_index = i\<rparr>"
    if "below ?cl l \<noteq> None" "ty \<in> {''MSS'', ''BOS''}" for ty
    using below_some [OF that(1)] that(2) by (simp add: break_sound_def)
  show ?thesis
    unfolding structure_break_def hl prod.case Let_def
    using up down by (auto simp: em simp del: not_None_eq)
qed

lemma points_fold_events:
  "ms_events (foldl (\<lambda>st dir. st\<lparr>ms_points := fst (update_zigzag (ms_points st) (candidate_point cs i dir))\<rparr>) st ds)
   = ms_events st"
  by (induction ds arbitrary: st) auto

interpretation market: causal_scan "market_scan_step (Suc w)" market_start ms_events me_index 0 break_sound for w
proof unfold_locales
  show "ms_events market_start = []" by (simp add: market_start_def)
next
  fix i n :: nat and cs :: "derived_candle list" and st
  assume "i < n" "i < length cs"
  moreover from this have "candidate_point (take n cs) i dir = candidate_point cs i dir" for dir
    by (simp add: candidate_point_def)
  ultimately show "market_scan_step (Suc w) (take n cs) st i = market_scan_step (Suc w) cs st i"
    by (simp add: market_scan_step_def bar_directions_take structure_break_def)
next
  fix i :: nat and cs :: "derived_candle list" and st assume "i < length cs"
  then obtain ds where "bar_directions cs (Suc w) i = Inr ds" using bar_directions_total by blast
  then show "\<exists>st'. market_scan_step (Suc w) cs st i = Inr st'" by (simp add: market_scan_step_def)
next
  fix i :: nat and cs :: "derived_candle list" and st st'
  assume "market_scan_step (Suc w) cs st i = Inr st'"
  then obtain ds where st': "st' = structure_break cs i
       (foldl (\<lambda>st dir. st\<lparr>ms_points := fst (update_zigzag (ms_points st) (candidate_point cs i dir))\<rparr>) st ds)"
    by (auto simp: market_scan_step_def)
  show "\<exists>new. ms_events st' = ms_events st @ new \<and> (\<forall>e\<in>set new. me_index e = i \<and> break_sound cs e)"
    unfolding st' using structure_break_appends [of cs i "foldl (\<lambda>st dir. st\<lparr>ms_points :=
      fst (update_zigzag (ms_points st) (candidate_point cs i dir))\<rparr>) st ds"]
    by (simp only: points_fold_events)
qed

lemma market_scan:
  assumes "0 < left"
  shows "market_events cs left = scan (market_scan_step left) market_start ms_events 0 cs"
proof -
  obtain cands where cands: "pivot_candidates cs left = Inr cands" using pivot_candidates_total assms by blast
  have "rfoldM (market_scan_step left cs) st is = Inr (foldl (market_step cs cands) st is)"
    if "\<forall>i\<in>set is. i < length cs" for "is" st
    using that
    by (induction "is" arbitrary: st)
      (auto simp: market_scan_step_def market_step_def directions_of_candidates [OF cands])
  then show ?thesis by (simp add: market_events_def scan_def cands)
qed

section \<open>Gaps\<close>

text \<open>What holds of every gap after \<open>n\<close> bars: an open gap has not been traversed since it appeared.\<close>

definition untraversed :: "derived_candle list \<Rightarrow> nat \<Rightarrow> gap \<Rightarrow> bool" where
  "untraversed cs n g \<longleftrightarrow> (\<forall>j. gp_event g < j \<longrightarrow> j < n \<longrightarrow>
     (if gp_direction g = ''BULLISH'' then dval (gp_lower g) \<le> dval (low_of (cs ! j))
      else dval (high_of (cs ! j)) \<le> dval (gp_upper g)))"

definition gap_sound :: "derived_candle list \<Rightarrow> nat \<Rightarrow> gap \<Rightarrow> bool" where
  "gap_sound cs n g \<longleftrightarrow> gp_event g \<le> gp_known g \<and> gp_known g < n \<and> dval (gp_lower g) < dval (gp_upper g)
     \<and> gp_direction g \<in> {''BULLISH'', ''BEARISH''} \<and> (gp_state g \<noteq> ''FULL'' \<longrightarrow> untraversed cs n g)"

definition gap_fresh :: "derived_candle list \<Rightarrow> nat \<Rightarrow> gap \<Rightarrow> bool" where
  "gap_fresh cs i g \<longleftrightarrow> gap_sound cs i g \<or>
     (gp_event g = i \<and> gp_known g = i \<and> dval (gp_lower g) < dval (gp_upper g)
      \<and> gp_direction g \<in> {''BULLISH'', ''BEARISH''})"

lemma place_gap_fresh:
  assumes "\<forall>g\<in>set gaps. gap_fresh cs i g" "dval lo < dval hi" "dir \<in> {''BULLISH'', ''BEARISH''}"
  shows "\<forall>g\<in>set (place_gap dir lo hi i follows gaps). gap_fresh cs i g"
proof
  fix g assume "g \<in> set (place_gap dir lo hi i follows gaps)"
  then consider (old) "g \<in> set gaps"
    | (changed) y where "y \<in> set gaps" "gp_direction y = dir"
        "g = y\<lparr>gp_lower := lo, gp_upper := hi, gp_event := i, gp_known := i\<rparr>"
    | (new) "gp_direction g = dir" "gp_lower g = lo" "gp_upper g = hi" "gp_event g = i" "gp_known g = i"
    by (auto simp: place_gap_def split: if_splits dest!: set_update_first)
  then show "gap_fresh cs i g"
    using assms by cases (auto simp: gap_fresh_def)
qed

lemma traverse_gap_sound:
  assumes "gap_fresh cs i g"
  shows "gap_sound cs (Suc i) (traverse_gap (cs ! i) i g)"
proof -
  let ?h = "traverse_gap (cs ! i) i g"
  have same: "gp_event ?h = gp_event g" "gp_lower ?h = gp_lower g" "gp_upper ?h = gp_upper g"
    "gp_direction ?h = gp_direction g" by (auto simp: traverse_gap_def)
  have known: "gp_known ?h \<in> {gp_known g, i}" by (auto simp: traverse_gap_def)
  have ev: "gp_event g \<le> gp_known g" "gp_known g \<le> i" "dval (gp_lower g) < dval (gp_upper g)"
    "gp_direction g \<in> {''BULLISH'', ''BEARISH''}"
    using assms by (auto simp: gap_fresh_def gap_sound_def)
  have now: "if gp_direction g = ''BULLISH'' then dval (gp_lower g) \<le> dval (low_of (cs ! i))
      else dval (high_of (cs ! i)) \<le> dval (gp_upper g)" if "gp_state ?h \<noteq> ''FULL''"
    using that by (auto simp: traverse_gap_def dlt_iff not_less split: if_splits)
  have "untraversed cs (Suc i) ?h" if open': "gp_state ?h \<noteq> ''FULL''"
    unfolding untraversed_def same
  proof (intro allI impI)
    fix j assume j: "gp_event g < j" "j < Suc i"
    have st: "gp_state g \<noteq> ''FULL''" using open' by (auto simp: traverse_gap_def split: if_splits)
    show "if gp_direction g = ''BULLISH'' then dval (gp_lower g) \<le> dval (low_of (cs ! j))
      else dval (high_of (cs ! j)) \<le> dval (gp_upper g)"
    proof (cases "j = i")
      case True
      with now [OF open'] show ?thesis by simp
    next
      case False
      with j assms st have "untraversed cs i g" by (auto simp: gap_fresh_def gap_sound_def)
      with j False show ?thesis by (simp add: untraversed_def)
    qed
  qed
  with known ev show ?thesis by (auto simp: gap_sound_def same)
qed

lemma gap_step_sound:
  assumes "\<forall>g\<in>set (gs_gaps st). gap_sound cs i g"
  shows "\<forall>g\<in>set (gs_gaps (gap_step cs means req st i)). gap_sound cs (Suc i) g"
proof -
  have old: "\<forall>g\<in>set (gs_gaps st). gap_fresh cs i g" using assms by (simp add: gap_fresh_def)
  have "\<forall>g\<in>set (gs_gaps (if 2 \<le> i then detect_gap cs means req st i else st)). gap_fresh cs i g"
  proof (cases "2 \<le> i")
    case True
    let ?b = "bullish_gap cs means req i" and ?r = "bearish_gap cs means req i"
    define gaps1 where "gaps1 = (if ?b then place_gap ''BULLISH'' (high_of (cs ! (i - 2))) (low_of (cs ! i)) i (gs_bullish st) (gs_gaps st)
                   else gs_gaps st)"
    have g1: "\<forall>g\<in>set gaps1. gap_fresh cs i g"
    proof (cases ?b)
      case True
      then have "dval (high_of (cs ! (i - 2))) < dval (low_of (cs ! i))" by (simp add: bullish_gap_def Let_def dlt_iff)
      from place_gap_fresh [OF old this, of "''BULLISH''"] show ?thesis using True by (simp add: gaps1_def)
    next
      case False
      with old show ?thesis by (simp add: gaps1_def)
    qed
    have "\<forall>g\<in>set (if ?r then place_gap ''BEARISH'' (high_of (cs ! i)) (low_of (cs ! (i - 2))) i (gs_bearish st) gaps1 else gaps1).
        gap_fresh cs i g"
    proof (cases ?r)
      case True
      then have "dval (high_of (cs ! i)) < dval (low_of (cs ! (i - 2)))" by (simp add: bearish_gap_def Let_def dlt_iff)
      from place_gap_fresh [OF g1 this, of "''BEARISH''"] show ?thesis using True by simp
    next
      case False
      with g1 show ?thesis by simp
    qed
    with True show ?thesis by (simp add: detect_gap_def Let_def gaps1_def)
  next
    case False
    with old show ?thesis by simp
  qed
  then show ?thesis by (auto simp: gap_step_def Let_def traverse_gap_sound)
qed

lemma active_gaps_sound:
  assumes "active_gaps cs n req = Inr gaps" "g \<in> set gaps"
  shows "gap_sound cs (length cs) g \<and> gp_state g \<noteq> ''FULL''"
proof -
  from assms obtain means where g: "g \<in> set (gs_gaps (foldl (gap_step cs means req) gap_start [0..<length cs]))"
    "gp_state g \<noteq> ''FULL''"
    by (auto simp: active_gaps_def)
  have "\<forall>g\<in>set (gs_gaps (foldl (gap_step cs means req) gap_start [0..<length cs])). gap_sound cs (length cs) g"
    by (rule foldl_upt_inv [where P = "\<lambda>i st. \<forall>g\<in>set (gs_gaps st). gap_sound cs i g"])
      (simp_all add: gap_start_def gap_step_sound)
  with g show ?thesis by blast
qed

section \<open>The plugins fulfil the contract\<close>

lemma liquidity_timely:
  assumes "liquidity_eval lmf cx deps = Inr (tf, ev)"
  shows "timely cx ev"
proof -
  obtain left minimum fraction where lmf: "lmf = (left, minimum, fraction)" by (cases lmf)
  from assms obtain t where
    r: "rbind (dependency_problem deps (sp_deps liquidity_spec) cx) (\<lambda>problem.
     rbind (closed_candles cx ''execution'' t) (\<lambda>cs.
     case problem of Some ev \<Rightarrow> Inr (t, ev) | None \<Rightarrow>
     if length cs < max 10 (left + 2) then
       Inr (t, outcome ''UNAVAILABLE'' ''insufficient bars for ATR(10) and one-right-bar pivots'' ''UNAVAILABLE'' [])
     else rbind (liquidity_zones cs left minimum fraction) (\<lambda>zones. Inr (t, zone_evaluation cs zones)))) = Inr (tf, ev)"
    unfolding liquidity_eval_def lmf prod.case rbind_eq_Inr [of "configured_timeframe cx ''execution''"] by blast
  show ?thesis
  proof (rule checked_timely [OF r], erule warmup_timely)
    fix cs
    assume cs: "closed_candles cx ''execution'' t = Inr cs"
      and "rbind (liquidity_zones cs left minimum fraction) (\<lambda>zones. Inr (t, zone_evaluation cs zones)) = Inr (tf, ev)"
    then obtain zones where e: "liquidity_zones cs left minimum fraction = Inr zones" "ev = zone_evaluation cs zones"
      by auto
    show "timely cx ev"
    proof (cases zones)
      case Nil
      then show ?thesis by (simp add: e(2) zone_evaluation_def)
    next
      case (Cons z more)
      with liquidity_zones_sound [OF e(1)] have "lz_known z < length cs" by (auto simp: zone_sound_def)
      from timely_close [OF cs this] Cons show ?thesis
        by (simp add: e(2) zone_evaluation_def timely_def Let_def)
    qed
  qed
qed

interpretation liquidity_plugin: indicator liquidity_spec make_liquidity "with_params liquidity_params liquidity_eval"
  by (rule indicator_of_params) (auto simp: make_liquidity_def intro: liquidity_timely)

lemma structure_timely:
  assumes "structure_params p = Inr lmb" "structure_eval lmb cx deps = Inr (tf, ev)"
  shows "timely cx ev"
proof -
  obtain left mss bos where lmb: "lmb = (left, mss, bos)" by (cases lmb)
  from assms(1) lmb obtain w where w: "left = Suc w"
    by (auto simp: structure_params_def exact_int_def split: option.splits evidence.splits if_splits
        intro: that [of "left - 1"])
  from assms(2) obtain t where
    r: "rbind (dependency_problem deps (sp_deps structure_spec) cx) (\<lambda>problem.
     rbind (closed_candles cx ''execution'' t) (\<lambda>cs.
     case problem of Some ev \<Rightarrow> Inr (t, ev) | None \<Rightarrow>
     if length cs < left + 2 then
       Inr (t, outcome ''UNAVAILABLE'' ''insufficient bars for one-right-bar zigzag confirmation'' ''UNAVAILABLE'' [])
     else rbind (market_events cs left) (\<lambda>es. Inr (t, structure_evaluation cs (filter (enabled_event mss bos) es))))) = Inr (tf, ev)"
    unfolding structure_eval_def lmb prod.case rbind_eq_Inr [of "configured_timeframe cx ''execution''"] by blast
  show ?thesis
  proof (rule checked_timely [OF r], erule warmup_timely)
    fix cs
    assume cs: "closed_candles cx ''execution'' t = Inr cs"
      and "rbind (market_events cs left) (\<lambda>es. Inr (t, structure_evaluation cs (filter (enabled_event mss bos) es))) = Inr (tf, ev)"
    then obtain es where e: "market_events cs left = Inr es"
      "ev = structure_evaluation cs (filter (enabled_event mss bos) es)" by auto
    show "timely cx ev"
    proof (cases "filter (enabled_event mss bos) es = []")
      case True
      then show ?thesis by (simp add: e(2) structure_evaluation_def)
    next
      case False
      from last_in_set [OF False] have "last (filter (enabled_event mss bos) es) \<in> set es" by auto
      moreover from e(1) have "scan (market_scan_step (Suc w)) market_start ms_events 0 cs = Inr es"
        by (simp add: market_scan w)
      ultimately have "me_index (last (filter (enabled_event mss bos) es)) < length cs"
        using market.scan_range by blast
      from timely_close [OF cs this] False show ?thesis
        by (simp add: e(2) structure_evaluation_def timely_def Let_def)
    qed
  qed
qed

interpretation structure_plugin: indicator structure_spec make_structure "with_params structure_params structure_eval"
  by (rule indicator_of_params) (auto simp: make_structure_def intro: structure_timely)

lemma gap_timely:
  assumes "gap_eval rn cx deps = Inr (tf, ev)"
  shows "timely cx ev"
proof -
  obtain req n where rn: "rn = (req, n)" by (cases rn)
  from assms obtain t where
    r: "rbind (dependency_problem deps (sp_deps gap_spec) cx) (\<lambda>problem.
     rbind (closed_candles cx ''execution'' t) (\<lambda>cs.
     case problem of Some ev \<Rightarrow> Inr (t, ev) | None \<Rightarrow>
     if length cs < (if req then n + 1 else 3) then
       Inr (t, outcome ''UNAVAILABLE'' ''insufficient bars for displacement and three-candle FVG'' ''UNAVAILABLE'' [])
     else rbind (active_gaps cs n req) (\<lambda>gaps.
       rbind (dict_index deps ''ict.market_structure'') (\<lambda>ms.
       rbind (gap_evaluation cs gaps ms) (\<lambda>ev. Inr (t, ev)))))) = Inr (tf, ev)"
    unfolding gap_eval_def rn prod.case rbind_eq_Inr [of "configured_timeframe cx ''execution''"] by blast
  show ?thesis
  proof (rule checked_timely [OF r], erule warmup_timely)
    fix cs
    assume cs: "closed_candles cx ''execution'' t = Inr cs"
      and none: "dependency_problem deps (sp_deps gap_spec) cx = Inr None"
      and "rbind (active_gaps cs n req) (\<lambda>gaps. rbind (dict_index deps ''ict.market_structure'') (\<lambda>ms.
       rbind (gap_evaluation cs gaps ms) (\<lambda>ev. Inr (t, ev)))) = Inr (tf, ev)"
    then obtain gaps ms where g: "active_gaps cs n req = Inr gaps"
      and ms: "dict_index deps ''ict.market_structure'' = Inr ms" and ev: "gap_evaluation cs gaps ms = Inr ev" by auto
    have known: "\<forall>k\<in>set_option (known_time_ms ms). k \<le> evaluation_time_ms cx"
      using dependency_problem_None [OF none dict_index_member [OF ms]] by blast
    show "timely cx ev"
    proof (cases gaps)
      case Nil
      with ev show ?thesis by (auto simp: gap_evaluation_def)
    next
      case (Cons x more)
      with active_gaps_sound [OF g] have "gp_known x < length cs" by (auto simp: gap_sound_def)
      from timely_close [OF cs this] Cons ev known show ?thesis
        by (auto simp: gap_evaluation_def timely_def outcome_def split: option.splits if_splits)
    qed
  qed
qed

interpretation gap_plugin: indicator gap_spec make_gap "with_params gap_params gap_eval"
  by (rule indicator_of_params) (auto simp: make_gap_def intro: gap_timely)

section \<open>Properties\<close>

text \<open>C19:
  The market-structure scan returns for every series and every positive width, every event is a
  close strictly beyond its level at the bar of the event, and the events of the first \<open>n\<close> bars are
  the events of the whole series before bar \<open>n\<close>.\<close>

theorem market_structure_never_repaints:
  "\<exists>es. market_events cs (Suc w) = Inr es \<and> list_all (break_sound cs) es
     \<and> market_events (take n cs) (Suc w) = Inr (filter (\<lambda>e. me_index e < n) es)"
proof -
  have sc: "market_events ds (Suc w) = scan (market_scan_step (Suc w)) market_start ms_events 0 ds" for ds
    by (rule market_scan) simp
  obtain es where es: "market_events cs (Suc w) = Inr es" using market.scan_total unfolding sc by blast
  then have "list_all (break_sound cs) es" using market.scan_range unfolding sc list_all_iff by blast
  with es show ?thesis using market.no_repaint unfolding sc by blast
qed

text \<open>Every fair value gap the scan reports is a proper interval that appeared at a bar of the series, is
  not fully traversed, and no bar after its appearance has crossed it completely; the reported gaps
  are ordered by the bar of their latest change, newest first.\<close>

theorem gaps_untraversed:
  "active_gaps cs n req = Inr gaps \<Longrightarrow>
   sorted_wrt (\<lambda>a b. (gp_known b, gp_event b) \<le> (gp_known a, gp_event a)) gaps \<and>
   list_all (\<lambda>g. gp_event g \<le> gp_known g \<and> gp_known g < length cs \<and> dval (gp_lower g) < dval (gp_upper g)
     \<and> gp_state g \<noteq> ''FULL'' \<and> untraversed cs (length cs) g) gaps"
proof -
  assume a: "active_gaps cs n req = Inr gaps"
  then have "sorted_wrt (\<lambda>a b. (gp_known b, gp_event b) \<le> (gp_known a, gp_event a)) gaps"
    using sort_desc_sorted [of "\<lambda>g. (gp_known g, gp_event g)"] by (auto simp: active_gaps_def)
  with active_gaps_sound [OF a] show ?thesis by (auto simp: list_all_iff gap_sound_def)
qed

text \<open>Three bars with a bullish gap between the first and the last.\<close>

definition gap_bars :: "derived_candle list" where
  "gap_bars = map (\<lambda>(i, op, hi, lo, cl). \<lparr>dc_instrument_id = ''CRYPTO-BTC-USDT-PERP'', dc_interval = ''15m'',
     dc_open_time_ms = i * 900000, dc_close_time_ms = i * 900000 + 899999, dc_open = op, dc_high = hi,
     dc_low = lo, dc_close = cl, dc_base_volume = ''1'', dc_quote_volume = None\<rparr>)
    [(0, ''10'', ''11'', ''9'', ''10''), (1, ''10'', ''13'', ''10'', ''12.9''), (2, ''13'', ''14'', ''12'', ''13.5'')]"

theorem gaps_untraversed_witness:
  "\<exists>g. active_gaps gap_bars 1 False = Inr [g] \<and> dval (gp_lower g) < dval (gp_upper g)"
proof -
  have "case active_gaps gap_bars 1 False of Inr gs \<Rightarrow> length gs = 1 | _ \<Rightarrow> False" by code_simp
  then obtain g where "active_gaps gap_bars 1 False = Inr [g]"
    by (auto simp: length_Suc_conv split: sum.splits)
  from gaps_untraversed [OF this] this show ?thesis by simp
qed

end
