(* ===== verification/Risk.thy ===== *)
theory Risk
  imports Smc Ict
begin

text \<open>
  The risk plugin (\<^verbatim>\<open>indicators/risk.py\<close>), which composes entry, stop and target from the liquidity
  sweep and the fair value gap, and the closed registry of the seven plugins
  (\<^verbatim>\<open>composition/registries.py\<close>). The lemmas show that confirmed levels are in the order of their
  direction and that the graph accepts whatever a registered plugin observes.
\<close>

section \<open>Risk levels\<close>

definition payload_decimal :: "observation \<Rightarrow> string \<Rightarrow> dec option" where
  "payload_decimal ob field =
     (case param_get (ob_payload ob) field of
        Some (EStr s) \<Rightarrow> (case parse_decimal s of
            Finite d \<Rightarrow> if dle dzero d then Some d else None
          | _ \<Rightarrow> None)
      | _ \<Rightarrow> None)"

definition risk_spec :: plugin_spec where
  "risk_spec = \<lparr>sp_id = ''project.risk_levels'', sp_role = ''execution'',
     sp_deps = [''ict.clustered_liquidity'', ''ict.fair_value_gap''], sp_sources = [''project_strategy@1'']\<rparr>"

definition risk_params :: "evidence \<Rightarrow> dec result" where
  "risk_params p =
     rbind (rguard (same_keys p [''minimum_reward_risk'']) ValueError ''unexpected risk-level parameters'') (\<lambda>_.
     rbind (exact_decimal p ''minimum_reward_risk'' ''minimum_reward_risk must be positive'') (\<lambda>m.
     rbind (rguard (dlt dzero m) ValueError ''minimum_reward_risk must be positive'') (\<lambda>_.
     Inr m)))"

definition expected_gap_direction :: "string option \<Rightarrow> string option" where
  "expected_gap_direction d =
     (if d = Some ''LONG'' then Some ''BULLISH'' else if d = Some ''SHORT'' then Some ''BEARISH'' else None)"

text \<open>The checks in the order of the code; the first that fails names the contradiction.\<close>

definition levels_problem :: "observation \<Rightarrow> observation \<Rightarrow> string option result" where
  "levels_problem liq g =
     (case (level_text g, lower_text g, upper_text g) of
        (Some lv, Some lo, Some up) \<Rightarrow>
          rbind (ddiv (dadd (dec_of lo) (dec_of up)) (dec_of_int 2)) (\<lambda>mid.
          Inr (if \<not> deq (dec_of lv) mid then Some ''FVG entry is not its exact midpoint''
               else if payload_decimal liq ''swept_extreme_text'' = None
                       \<or> payload_decimal liq ''opposing_level_text'' = None
               then Some ''liquidity evidence omits swept or frozen opposing level''
               else None))
      | _ \<Rightarrow> Inr (Some ''FVG evidence omits canonical levels''))"

definition chain_problem :: "observation \<Rightarrow> observation \<Rightarrow> string option result" where
  "chain_problem liq g =
     (case (event_time_ms liq, known_time_ms liq, event_time_ms g, known_time_ms g) of
        (Some _, Some lk, Some _, Some gk) \<Rightarrow>
          if lk \<ge> gk then Inr (Some ''liquidity sweep is not known strictly before the FVG'')
          else if dependency_ids g \<noteq> [''ict.market_structure''] then
            Inr (Some ''FVG evidence does not retain its market-structure dependency'')
          else if expected_gap_direction (ob_direction liq) = None
                  \<or> ob_direction g \<noteq> expected_gap_direction (ob_direction liq) then
            Inr (Some ''liquidity and FVG directions contradict the execution chain'')
          else if param_get (ob_payload g) ''market_structure_direction'' \<noteq> map_option EStr (ob_direction g) then
            Inr (Some ''FVG evidence contradicts its retained market-structure direction'')
          else if (case param_get (ob_payload g) ''market_structure_known_time_ms'' of
                     Some (EInt t) \<Rightarrow> t > gk | _ \<Rightarrow> True) then
            Inr (Some ''FVG evidence omits compatible market-structure knowledge time'')
          else if ob_state liq \<noteq> ''FULL'' then
            Inr (Some ''liquidity evidence does not contain a completed sweep'')
          else levels_problem liq g
      | _ \<Rightarrow> Inr (Some ''execution chain dependencies omit event or knowledge time''))"

definition validated_inputs :: "observation \<Rightarrow> observation \<Rightarrow> string option result" where
  "validated_inputs liq g =
     (if ob_status liq \<noteq> ''PASS'' \<or> ob_status g \<noteq> ''PASS'' then
        Inr (Some ''execution chain dependencies are not satisfied'')
      else chain_problem liq g)"

text \<open>The levels of the trade and the evaluation they give.\<close>

record risk_levels =
  rl_entry :: dec
  rl_stop :: dec
  rl_target :: dec
  rl_risk :: dec
  rl_reward :: dec

definition compose_levels :: "string \<Rightarrow> dec \<Rightarrow> dec \<Rightarrow> dec \<Rightarrow> dec \<Rightarrow> risk_levels" where
  "compose_levels direction entry swept target atr =
     (let offset = dmul atr (dec_of ''0.1''); long = (direction = ''LONG'');
          stop = (if long then dsub swept offset else dadd swept offset)
      in \<lparr>rl_entry = entry, rl_stop = stop, rl_target = target,
          rl_risk = (if long then dsub entry stop else dsub stop entry),
          rl_reward = (if long then dsub target entry else dsub entry target)\<rparr>)"

definition risk_evaluation ::
    "dec \<Rightarrow> string \<Rightarrow> risk_levels \<Rightarrow> observation \<Rightarrow> observation \<Rightarrow> evaluation result" where
  "risk_evaluation minimum direction rl liq g =
     (if dle (rl_risk rl) dzero \<or> dle (rl_reward rl) dzero then
        Inr (outcome ''FAIL'' ''composed stop or opposing target is not directional'' ''INVALID_LEVEL_ORDER'' [])
      else rbind (ddiv (rl_reward rl) (rl_risk rl)) (\<lambda>rr.
        let ok = dle minimum rr;
            newest = (\<lambda>x y. case (x, y) of (Some a, Some b) \<Rightarrow> Some (max a b) | (Some a, None) \<Rightarrow> Some a | (None, z) \<Rightarrow> z)
        in Inr ((outcome (if ok then ''PASS'' else ''FAIL'')
             (if ok then ''exact reward/risk satisfies the configured minimum''
              else ''exact reward/risk is below the configured minimum'')
             (if ok then ''LEVELS_CONFIRMED'' else ''BELOW_MINIMUM_REWARD_RISK'')
             [(''direction'', PStr direction), (''entry_text'', PStr (plain_decimal (rl_entry rl))),
              (''stop_text'', PStr (plain_decimal (rl_stop rl))), (''target_text'', PStr (plain_decimal (rl_target rl))),
              (''reward_risk_text'', PStr (plain_decimal rr))])
           \<lparr>ev_event_type := Some ''RISK_LEVELS'', ev_direction := Some direction,
            ev_event_time := newest (event_time_ms liq) (event_time_ms g),
            ev_known_time := newest (known_time_ms liq) (known_time_ms g),
            ev_level := Some (rl_entry rl), ev_lower := Some (dmin2 (rl_stop rl) (rl_target rl)),
            ev_upper := Some (dmax2 (rl_stop rl) (rl_target rl))\<rparr>)))"

definition composed_evaluation ::
    "dec \<Rightarrow> derived_candle list \<Rightarrow> observation \<Rightarrow> observation \<Rightarrow> evaluation result" where
  "composed_evaluation minimum cs liq g =
     rbind (validated_inputs liq g) (\<lambda>contradiction.
     case contradiction of
       Some reason \<Rightarrow> Inr (outcome ''FAIL'' reason ''CONTRADICTORY_EVIDENCE'' [])
     | None \<Rightarrow>
         rbind (wilder_atr cs 14) (\<lambda>atrs.
         case (ob_direction liq, level_text g, payload_decimal liq ''swept_extreme_text'',
               payload_decimal liq ''opposing_level_text'', last atrs) of
           (Some direction, Some lv, Some swept, Some target, Some atr) \<Rightarrow>
             risk_evaluation minimum direction (compose_levels direction (dec_of lv) swept target atr) liq g
         | _ \<Rightarrow> raise AssertionError ''''))"

definition risk_eval ::
    "dec \<Rightarrow> run_context \<Rightarrow> (string, observation) dict \<Rightarrow> (string \<times> evaluation) result" where
  "risk_eval minimum cx deps =
     rbind (configured_timeframe cx ''execution'') (\<lambda>tf.
     rbind (dependency_problem deps (sp_deps risk_spec) cx) (\<lambda>problem.
     rbind (closed_candles cx ''execution'' tf) (\<lambda>cs.
     case problem of Some ev \<Rightarrow> Inr (tf, ev) | None \<Rightarrow>
     if length cs < 14 then
       Inr (tf, outcome ''UNAVAILABLE'' ''insufficient execution bars for ATR(14)'' ''UNAVAILABLE'' [])
     else rbind (dict_index deps ''ict.clustered_liquidity'') (\<lambda>liq.
       rbind (dict_index deps ''ict.fair_value_gap'') (\<lambda>g.
       rbind (composed_evaluation minimum cs liq g) (\<lambda>ev. Inr (tf, ev)))))))"

definition make_risk :: "evidence \<Rightarrow> plugin result" where
  "make_risk p = rbind (risk_params p) (\<lambda>m. Inr (observe risk_spec p (risk_eval m)))"

section \<open>The registry of plugins\<close>

datatype 'f registry_entry = Available 'f | Unavailable string

record 'f closed_registry =
  cr_kind :: string
  cr_entries :: "(string, 'f registry_entry) dict"

definition registry_ids :: "'f closed_registry \<Rightarrow> string list" where
  "registry_ids r = sort (dict_keys (cr_entries r))"

definition py_tuple :: "string list \<Rightarrow> string" where
  "py_tuple xs = ''('' @ join_with '', '' (map py_repr xs) @ (if length xs = 1 then '','' else '''') @ '')''"

definition resolve :: "'f closed_registry \<Rightarrow> string \<Rightarrow> 'f result" where
  "resolve r cid =
     (case dict_get (cr_entries r) cid of
        None \<Rightarrow> raise LookupError (''unknown '' @ cr_kind r @ '' ID '' @ py_repr cid
          @ ''; allowed IDs are '' @ py_tuple (registry_ids r))
      | Some (Unavailable reason) \<Rightarrow>
          raise RuntimeError (cr_kind r @ '' '' @ py_repr cid @ '' is unavailable: '' @
            (if reason = [] then ''component is unavailable'' else reason))
      | Some (Available f) \<Rightarrow> Inr f)"

definition unavailable_entries :: "string list \<Rightarrow> string \<Rightarrow> (string, 'f registry_entry) dict" where
  "unavailable_entries ids reason = dict_of (map (\<lambda>i. (i, Unavailable reason)) ids)"

definition plugin_entries :: "(plugin_spec \<times> (evidence \<Rightarrow> plugin result)) list" where
  "plugin_entries = [(swing_spec, make_swing), (equal_spec, make_equal), (block_spec, make_order_block),
     (liquidity_spec, make_liquidity), (structure_spec, make_structure), (gap_spec, make_gap),
     (risk_spec, make_risk)]"

definition plugin_registry :: "(evidence \<Rightarrow> plugin result) closed_registry" where
  "plugin_registry = \<lparr>cr_kind = ''plugin'',
     cr_entries = map (\<lambda>(sp, mk). (sp_id sp, Available mk)) plugin_entries\<rparr>"

definition builtin_factories :: factories where
  "builtin_factories = map (\<lambda>(sp, mk). (sp_id sp, mk)) plugin_entries"

section \<open>The risk plugin fulfils the contract\<close>

lemma risk_evaluation_timely:
  assumes "risk_evaluation minimum direction rl liq g = Inr ev"
    and "\<forall>k\<in>set_option (known_time_ms liq). k \<le> evaluation_time_ms cx"
    and "\<forall>k\<in>set_option (known_time_ms g). k \<le> evaluation_time_ms cx"
  shows "timely cx ev"
  using assms
  by (auto simp: risk_evaluation_def timely_def outcome_def Let_def split: if_splits option.splits)

lemma composed_evaluation_cases:
  assumes "composed_evaluation minimum cs liq g = Inr ev"
  obtains (contradiction) reason where "ev = outcome ''FAIL'' reason ''CONTRADICTORY_EVIDENCE'' []"
  | (composed) direction lv swept target atr where
      "risk_evaluation minimum direction (compose_levels direction (dec_of lv) swept target atr) liq g = Inr ev"
proof -
  from assms obtain q where q: "validated_inputs liq g = Inr q" by (auto simp: composed_evaluation_def)
  show ?thesis
  proof (cases q)
    case (Some reason)
    with assms q show ?thesis
      by (intro contradiction [of reason]) (simp add: composed_evaluation_def)
  next
    case None
    with assms q obtain atrs where a: "(case (ob_direction liq, level_text g, payload_decimal liq ''swept_extreme_text'',
               payload_decimal liq ''opposing_level_text'', last atrs) of
           (Some direction, Some lv, Some swept, Some target, Some atr) \<Rightarrow>
             risk_evaluation minimum direction (compose_levels direction (dec_of lv) swept target atr) liq g
         | _ \<Rightarrow> raise AssertionError '''') = Inr ev"
      by (auto simp: composed_evaluation_def)
    show ?thesis
      by (rule composed [of "the (ob_direction liq)" "the (level_text g)" "the (payload_decimal liq ''swept_extreme_text'')"
            "the (payload_decimal liq ''opposing_level_text'')" "the (last atrs)"])
        (use a in \<open>simp split: option.splits\<close>)
  qed
qed

lemma risk_timely:
  assumes "risk_eval m cx deps = Inr (tf, ev)"
  shows "timely cx ev"
proof -
  from assms obtain t where
    r: "rbind (dependency_problem deps (sp_deps risk_spec) cx) (\<lambda>problem.
     rbind (closed_candles cx ''execution'' t) (\<lambda>cs.
     case problem of Some ev \<Rightarrow> Inr (t, ev) | None \<Rightarrow>
     if length cs < 14 then
       Inr (t, outcome ''UNAVAILABLE'' ''insufficient execution bars for ATR(14)'' ''UNAVAILABLE'' [])
     else rbind (dict_index deps ''ict.clustered_liquidity'') (\<lambda>liq.
       rbind (dict_index deps ''ict.fair_value_gap'') (\<lambda>g.
       rbind (composed_evaluation m cs liq g) (\<lambda>ev. Inr (t, ev)))))) = Inr (tf, ev)"
    unfolding risk_eval_def rbind_eq_Inr [of "configured_timeframe cx ''execution''"] by blast
  show ?thesis
  proof (rule checked_timely [OF r], erule warmup_timely)
    fix cs
    assume none: "dependency_problem deps (sp_deps risk_spec) cx = Inr None"
      and "rbind (dict_index deps ''ict.clustered_liquidity'') (\<lambda>liq.
       rbind (dict_index deps ''ict.fair_value_gap'') (\<lambda>g.
       rbind (composed_evaluation m cs liq g) (\<lambda>ev. Inr (t, ev)))) = Inr (tf, ev)"
    then obtain liq g where d: "dict_index deps ''ict.clustered_liquidity'' = Inr liq"
      "dict_index deps ''ict.fair_value_gap'' = Inr g" and ev: "composed_evaluation m cs liq g = Inr ev" by auto
    note known = dependency_problem_None [OF none dict_index_member]
    from ev show "timely cx ev"
    proof (cases rule: composed_evaluation_cases)
      case contradiction
      then show ?thesis by simp
    next
      case composed
      then show ?thesis using risk_evaluation_timely known [OF d(1)] known [OF d(2)] by blast
    qed
  qed
qed

interpretation risk_plugin: indicator risk_spec make_risk "with_params risk_params risk_eval"
  by (rule indicator_of_params) (auto simp: make_risk_def intro: risk_timely)

section \<open>Properties\<close>

text \<open>Whatever a plugin of the registry observes for a node that names it passes every check of the graph
  on identity, instrument, dependencies, parameter hash and knowledge time; only the timeframe of the
  node can still disagree.\<close>

theorem registered_plugins_accepted:
  "(sp, mk) \<in> set plugin_entries \<Longrightarrow> mk (parameters n) = Inr plug \<Longrightarrow> pl_evaluate plug cx deps = Inr ob \<Longrightarrow>
   instance_id n = sp_id sp \<Longrightarrow> depends_on n = sp_deps sp \<Longrightarrow>
   \<forall>tf\<in>set_option (nd_timeframe n). ob_timeframe ob = tf \<Longrightarrow> valid_output cx n ob"
proof -
  assume mem: "(sp, mk) \<in> set plugin_entries" and mk: "mk (parameters n) = Inr plug"
    and ev: "pl_evaluate plug cx deps = Inr ob" and n: "instance_id n = sp_id sp" "depends_on n = sp_deps sp"
    and tf: "\<forall>tf\<in>set_option (nd_timeframe n). ob_timeframe ob = tf"
  from mem consider "sp = swing_spec" "mk = make_swing" | "sp = equal_spec" "mk = make_equal"
    | "sp = block_spec" "mk = make_order_block" | "sp = liquidity_spec" "mk = make_liquidity"
    | "sp = structure_spec" "mk = make_structure" | "sp = gap_spec" "mk = make_gap"
    | "sp = risk_spec" "mk = make_risk"
    unfolding plugin_entries_def list.set insert_iff empty_iff prod.inject by blast
  then show ?thesis
  proof cases
    case 1 with mk ev n tf show ?thesis by (intro swing_plugin.accepted [of n plug cx deps ob]) simp_all
  next
    case 2 with mk ev n tf show ?thesis by (intro equal_plugin.accepted [of n plug cx deps ob]) simp_all
  next
    case 3 with mk ev n tf show ?thesis by (intro order_block_plugin.accepted [of n plug cx deps ob]) simp_all
  next
    case 4 with mk ev n tf show ?thesis by (intro liquidity_plugin.accepted [of n plug cx deps ob]) simp_all
  next
    case 5 with mk ev n tf show ?thesis by (intro structure_plugin.accepted [of n plug cx deps ob]) simp_all
  next
    case 6 with mk ev n tf show ?thesis by (intro gap_plugin.accepted [of n plug cx deps ob]) simp_all
  next
    case 7 with mk ev n tf show ?thesis by (intro risk_plugin.accepted [of n plug cx deps ob]) simp_all
  qed
qed

text \<open>A swing node over a series that is still too short.\<close>

definition swing_node :: configured_node where
  "swing_node = \<lparr>instance_id = ''smc.swing_structure'', plugin_id = ''smc.swing_structure'', nd_role = ''regime'',
     depends_on = [], parameters = EMap [(''show_labels'', EBool True), (''swing_length'', EInt 50)],
     nd_order = 0, nd_timeframe = Some ''4h''\<rparr>"

definition short_context :: run_context where
  "short_context = \<lparr>cx_instrument_id = ''CRYPTO-BTC-USDT-PERP'', evaluation_time_ms = 14399999,
     candles_by_role = [(''regime'', [])], timeframes_by_role = []\<rparr>"

theorem registered_plugins_accepted_witness:
  "\<exists>plug ob. make_swing (parameters swing_node) = Inr plug \<and> pl_evaluate plug short_context [] = Inr ob
     \<and> valid_output short_context swing_node ob"
proof -
  have p: "swing_params (parameters swing_node) = Inr (50, True)" by code_simp
  then have mk: "make_swing (parameters swing_node)
      = Inr (observe swing_spec (parameters swing_node) (swing_eval (50, True)))" by (simp add: make_swing_def)
  have e: "swing_eval (50, True) short_context [] = Inr (''4h'', outcome ''UNAVAILABLE''
      ''insufficient bars for first size-confirmed swing pivot'' ''UNAVAILABLE'' [])" by code_simp
  obtain ob where ob: "pl_evaluate (observe swing_spec (parameters swing_node) (swing_eval (50, True))) short_context [] = Inr ob"
    "ob_timeframe ob = ''4h''"
  proof -
    have i: "instrument_id ''CRYPTO-BTC-USDT-PERP'' = Inr ''CRYPTO-BTC-USDT-PERP''" by code_simp
    have t: "timeframe ''4h'' = Inr ''4h''" by code_simp
    have cx: "cx_instrument_id short_context = ''CRYPTO-BTC-USDT-PERP''" by (simp add: short_context_def)
    show ?thesis
      by (rule that, simp add: observe_def e indicator_observation_def mk_observation_def outcome_def
        parameter_hash_params params_hash_def cx i t times_ok_def opt_decimal_text_def) simp
  qed
  have mem: "(swing_spec, make_swing) \<in> set plugin_entries" by (simp add: plugin_entries_def)
  have "valid_output short_context swing_node ob"
    by (rule registered_plugins_accepted [OF mem mk ob(1)]) (simp_all add: swing_node_def swing_spec_def ob(2))
  with mk ob show ?thesis by blast
qed

text \<open>C20:
  Levels that the risk plugin does not reject as undirected are in the order of the trade: a long
  trade has its stop strictly below the entry and its target strictly above it, a short trade the
  other way round; rounding to 28 digits never hides a wrong order.\<close>

theorem risk_levels_ordered:
  "risk_evaluation minimum direction (compose_levels direction entry swept target atr) liq g = Inr ev \<Longrightarrow>
   ev_state ev \<noteq> ''INVALID_LEVEL_ORDER'' \<Longrightarrow>
   (let rl = compose_levels direction entry swept target atr in
    if direction = ''LONG'' then dval (rl_stop rl) < dval entry \<and> dval entry < dval target
    else dval entry < dval (rl_stop rl) \<and> dval target < dval entry)"
proof -
  let ?rl = "compose_levels direction entry swept target atr"
  assume r: "risk_evaluation minimum direction ?rl liq g = Inr ev" and s: "ev_state ev \<noteq> ''INVALID_LEVEL_ORDER''"
  then have "\<not> (dle (rl_risk ?rl) dzero \<or> dle (rl_reward ?rl) dzero)"
    by (auto simp: risk_evaluation_def outcome_def)
  then have "dlt dzero (rl_risk ?rl)" "dlt dzero (rl_reward ?rl)" by (simp_all add: dle_iff dlt_iff not_le)
  then show ?thesis by (auto simp: compose_levels_def Let_def dsub_pos_iff split: if_splits)
qed

text \<open>Evidence of a completed sell-side sweep followed by a bullish gap.\<close>

definition sample_evidence :: "int \<Rightarrow> observation" where
  "sample_evidence t = (sample_observation ''a'' [])\<lparr>event_time_ms := Some t, known_time_ms := Some t\<rparr>"

theorem risk_levels_ordered_witness:
  "dval (rl_stop (compose_levels ''LONG'' (dec_of ''100'') (dec_of ''95'') (dec_of ''120'') (dec_of ''10''))) < dval (dec_of ''100'')"
proof -
  let ?rl = "compose_levels ''LONG'' (dec_of ''100'') (dec_of ''95'') (dec_of ''120'') (dec_of ''10'')"
  have "\<not> dle (rl_risk ?rl) dzero" "\<not> dle (rl_reward ?rl) dzero" "\<not> is_zero (rl_risk ?rl)" by code_simp+
  then obtain rr where "ddiv (rl_reward ?rl) (rl_risk ?rl) = Inr rr" using ddiv_Inr by blast
  then obtain ev where ev: "risk_evaluation (dec_of ''2'') ''LONG'' ?rl (sample_evidence 1) (sample_evidence 2) = Inr ev"
    "ev_state ev \<noteq> ''INVALID_LEVEL_ORDER''"
    using \<open>\<not> dle (rl_risk ?rl) dzero\<close> \<open>\<not> dle (rl_reward ?rl) dzero\<close>
    by (auto simp: risk_evaluation_def outcome_def Let_def)
  from risk_levels_ordered [OF ev] show ?thesis by (simp add: Let_def)
qed

end
