(* ===== verification/Simulator.thy ===== *)
theory Simulator
  imports Indicators
begin

text \<open>
  The execution simulator of a backtest (\<^verbatim>\<open>application/execution_simulator.py\<close>): ready decisions are
  replayed against the one-minute candles of their instrument. The state is what the loop of
  \<^verbatim>\<open>_run_instrument\<close> keeps: at most one pending entry, at most one open trade, the records written so
  far and the decisions already seen. A step is one candle, in the four phases of the loop body.
  The properties say that trades never overlap, never use a decision twice or before it is known,
  and leave at the first bar that touches a level, the stop before the target.
\<close>

section \<open>Configuration\<close>

record entry_config =
  en_mode :: string
  expiry_execution_bars :: int

record execution_config =
  maximum_holding_minutes :: int
  intrabar_conflict :: string
  allow_same_minute_target :: bool

record cost_config =
  taker_fee_bps :: string
  adverse_slippage_bps :: string

record simulator =
  sim_entry :: entry_config
  sim_execution :: execution_config
  sim_costs :: cost_config
  execution_bar_minutes :: int
  fee_rate :: dec
  slippage_rate :: dec

definition py_decimal :: "string \<Rightarrow> dec result" where
  "py_decimal s = (case parse_decimal s of
     Finite d \<Rightarrow> Inr d | _ \<Rightarrow> raise InvalidOperation ''ConversionSyntax'')"

definition mk_simulator :: "entry_config \<Rightarrow> execution_config \<Rightarrow> cost_config \<Rightarrow> int \<Rightarrow> simulator result" where
  "mk_simulator en ex co bar =
     rbind (py_decimal (taker_fee_bps co)) (\<lambda>fee.
     rbind (ddiv fee (dec_of ''10000'')) (\<lambda>fr.
     rbind (py_decimal (adverse_slippage_bps co)) (\<lambda>slip.
     rbind (ddiv slip (dec_of ''10000'')) (\<lambda>sr.
     Inr \<lparr>sim_entry = en, sim_execution = ex, sim_costs = co, execution_bar_minutes = bar,
          fee_rate = fr, slippage_rate = sr\<rparr>))))"

section \<open>Trades\<close>

record pending_trade =
  pt_evaluation :: replay_evaluation
  expires_before_ms :: int

record open_trade =
  ot_evaluation :: replay_evaluation
  ot_entry_time_ms :: int
  ot_executed_entry :: dec

record trade_record =
  td_decision_hash :: string
  td_instrument_id :: string
  td_direction :: string
  td_status :: string
  td_signal_time_ms :: int
  td_entry_time_ms :: "int option"
  td_exit_time_ms :: "int option"
  td_requested_entry :: string
  td_stop :: string
  td_target :: string
  td_executed_entry :: "string option"
  td_requested_exit :: "string option"
  td_executed_exit :: "string option"
  td_exit_reason :: string
  td_initial_risk :: "string option"
  td_gross_price_return :: "string option"
  td_entry_fee :: "string option"
  td_exit_fee :: "string option"
  td_slippage_cost :: "string option"
  td_net_price_return :: "string option"
  td_gross_r :: "string option"
  td_net_r :: "string option"
  td_duration_minutes :: "int option"

definition trade_canonical_dict :: "trade_record \<Rightarrow> json" where
  "trade_canonical_dict t = JObj
     [(''decision_hash'', JStr (td_decision_hash t)), (''instrument_id'', JStr (td_instrument_id t)),
      (''direction'', JStr (td_direction t)), (''status'', JStr (td_status t)),
      (''signal_time_ms'', JInt (td_signal_time_ms t)), (''entry_time_ms'', opt_int (td_entry_time_ms t)),
      (''exit_time_ms'', opt_int (td_exit_time_ms t)), (''requested_entry'', JStr (td_requested_entry t)),
      (''stop'', JStr (td_stop t)), (''target'', JStr (td_target t)),
      (''executed_entry'', opt_str (td_executed_entry t)), (''requested_exit'', opt_str (td_requested_exit t)),
      (''executed_exit'', opt_str (td_executed_exit t)), (''exit_reason'', JStr (td_exit_reason t)),
      (''initial_risk'', opt_str (td_initial_risk t)), (''gross_price_return'', opt_str (td_gross_price_return t)),
      (''entry_fee'', opt_str (td_entry_fee t)), (''exit_fee'', opt_str (td_exit_fee t)),
      (''slippage_cost'', opt_str (td_slippage_cost t)), (''net_price_return'', opt_str (td_net_price_return t)),
      (''gross_r'', opt_str (td_gross_r t)), (''net_r'', opt_str (td_net_r t)),
      (''duration_minutes'', opt_int (td_duration_minutes t))]"

text \<open>The levels of a decision: \<^verbatim>\<open>text or "0"\<close>, \<^verbatim>\<open>text or ""\<close>.\<close>

definition text_or_zero :: "string option \<Rightarrow> string" where
  "text_or_zero v = (case v of None \<Rightarrow> ''0'' | Some s \<Rightarrow> or_zero s)"

definition text_or_empty :: "string option \<Rightarrow> string" where
  "text_or_empty v = (case v of None \<Rightarrow> '''' | Some s \<Rightarrow> s)"

abbreviation entry_level :: "replay_evaluation \<Rightarrow> dec" where
  "entry_level e \<equiv> dec_of (text_or_zero (entry_text (ev_decision e)))"

abbreviation stop_level :: "replay_evaluation \<Rightarrow> dec" where
  "stop_level e \<equiv> dec_of (text_or_zero (stop_text (ev_decision e)))"

abbreviation target_level :: "replay_evaluation \<Rightarrow> dec" where
  "target_level e \<equiv> dec_of (text_or_zero (target_text (ev_decision e)))"

definition is_long :: "replay_evaluation \<Rightarrow> bool" where
  "is_long e \<longleftrightarrow> de_direction (ev_decision e) = Some ''LONG''"

definition accounting_text :: "dec \<Rightarrow> string" where
  "accounting_text d = (let t = strip_fraction (format_f d) in if t = '''' \<or> t = ''-0'' then ''0'' else t)"

section \<open>Fills and exits\<close>

definition touches_entry :: "pending_trade \<Rightarrow> candle \<Rightarrow> bool" where
  "touches_entry p c \<longleftrightarrow> open_time_ms c < expires_before_ms p
     \<and> (if is_long (pt_evaluation p) then dle (dec_of (c_low c)) (entry_level (pt_evaluation p))
        else dle (entry_level (pt_evaluation p)) (dec_of (c_high c)))"

definition target_touched :: "replay_evaluation \<Rightarrow> candle \<Rightarrow> bool" where
  "target_touched e c \<longleftrightarrow>
     (if is_long e then dle (target_level e) (dec_of (c_high c)) else dle (dec_of (c_low c)) (target_level e))"

definition stop_touched :: "replay_evaluation \<Rightarrow> candle \<Rightarrow> bool" where
  "stop_touched e c \<longleftrightarrow>
     (if is_long e then dle (dec_of (c_low c)) (stop_level e) else dle (stop_level e) (dec_of (c_high c)))"

definition stop_fill :: "replay_evaluation \<Rightarrow> candle \<Rightarrow> dec" where
  "stop_fill e c =
     (if is_long e then dmin2 (stop_level e) (dec_of (c_open c)) else dmax2 (stop_level e) (dec_of (c_open c)))"

definition duration_of :: "int \<Rightarrow> candle \<Rightarrow> int" where
  "duration_of entry_time c = (open_time_ms c - entry_time) div 60000 + 1"

definition expired_record :: "pending_trade \<Rightarrow> trade_record" where
  "expired_record p = (let e = pt_evaluation p; d = ev_decision e in
     \<lparr>td_decision_hash = ev_decision_hash e, td_instrument_id = de_instrument_id d,
      td_direction = text_or_empty (de_direction d), td_status = ''EXPIRED'',
      td_signal_time_ms = ev_evaluation_time_ms e, td_entry_time_ms = None, td_exit_time_ms = None,
      td_requested_entry = text_or_empty (entry_text d), td_stop = text_or_empty (stop_text d),
      td_target = text_or_empty (target_text d), td_executed_entry = None, td_requested_exit = None,
      td_executed_exit = None, td_exit_reason = ''ENTRY_EXPIRED'', td_initial_risk = None,
      td_gross_price_return = None, td_entry_fee = None, td_exit_fee = None, td_slippage_cost = None,
      td_net_price_return = None, td_gross_r = None, td_net_r = None, td_duration_minutes = None\<rparr>)"

record accounting =
  ac_executed_exit :: dec
  ac_initial_risk :: dec
  ac_gross_pnl :: dec
  ac_entry_fee :: dec
  ac_exit_fee :: dec
  ac_net_pnl :: dec
  ac_slippage_cost :: dec

definition account :: "simulator \<Rightarrow> open_trade \<Rightarrow> dec \<Rightarrow> accounting" where
  "account sim ot base_exit =
     (let e = ot_evaluation ot; requested = entry_level e;
          direction = (if is_long e then dec_of_int 1 else dec_of_int (-1));
          executed_exit = dmul base_exit (dsub (dec_of_int 1) (dmul direction (slippage_rate sim)));
          entry_fee = dmul (ot_executed_entry ot) (fee_rate sim);
          exit_fee = dmul executed_exit (fee_rate sim)
      in \<lparr>ac_executed_exit = executed_exit, ac_initial_risk = dabs (dsub requested (stop_level e)),
          ac_gross_pnl = dmul direction (dsub base_exit requested),
          ac_entry_fee = entry_fee, ac_exit_fee = exit_fee,
          ac_net_pnl = dsub (dsub (dmul direction (dsub executed_exit (ot_executed_entry ot))) entry_fee) exit_fee,
          ac_slippage_cost = dadd (dmul direction (dsub (ot_executed_entry ot) requested))
            (dmul direction (dsub base_exit executed_exit))\<rparr>)"

definition closed_record ::
    "simulator \<Rightarrow> open_trade \<Rightarrow> candle \<Rightarrow> dec \<Rightarrow> dec \<Rightarrow> string \<Rightarrow> trade_record result" where
  "closed_record sim ot c requested_exit base_exit reason =
     (let e = ot_evaluation ot; d = ev_decision e; a = account sim ot base_exit; requested = entry_level e in
      rbind (decimal_text (text_or_zero (entry_text d))) (\<lambda>en.
      rbind (decimal_text (text_or_zero (stop_text d))) (\<lambda>st.
      rbind (decimal_text (text_or_zero (target_text d))) (\<lambda>tg.
      rbind (ddiv (ac_gross_pnl a) requested) (\<lambda>gross_return.
      rbind (ddiv (ac_net_pnl a) requested) (\<lambda>net_return.
      rbind (ddiv (ac_gross_pnl a) (ac_initial_risk a)) (\<lambda>gross_r.
      rbind (ddiv (ac_net_pnl a) (ac_initial_risk a)) (\<lambda>net_r.
      Inr \<lparr>td_decision_hash = ev_decision_hash e, td_instrument_id = de_instrument_id d,
        td_direction = text_or_empty (de_direction d), td_status = ''CLOSED'',
        td_signal_time_ms = ev_evaluation_time_ms e, td_entry_time_ms = Some (ot_entry_time_ms ot),
        td_exit_time_ms = Some (open_time_ms c), td_requested_entry = en, td_stop = st, td_target = tg,
        td_executed_entry = Some (accounting_text (ot_executed_entry ot)),
        td_requested_exit = Some (accounting_text requested_exit),
        td_executed_exit = Some (accounting_text (ac_executed_exit a)), td_exit_reason = reason,
        td_initial_risk = Some (accounting_text (ac_initial_risk a)),
        td_gross_price_return = Some (accounting_text gross_return),
        td_entry_fee = Some (accounting_text (ac_entry_fee a)),
        td_exit_fee = Some (accounting_text (ac_exit_fee a)),
        td_slippage_cost = Some (accounting_text (ac_slippage_cost a)),
        td_net_price_return = Some (accounting_text net_return),
        td_gross_r = Some (accounting_text gross_r), td_net_r = Some (accounting_text net_r),
        td_duration_minutes = Some (duration_of (ot_entry_time_ms ot) c)\<rparr>))))))))"

section \<open>The loop over the candles of one instrument\<close>

record sim_state =
  pending :: "pending_trade option"
  opened :: "open_trade option"
  trades :: "trade_record list"
  seen_decisions :: "string list"

definition sim_start :: sim_state where
  "sim_start = \<lparr>pending = None, opened = None, trades = [], seen_decisions = []\<rparr>"

text \<open>The phases of a candle: expiry, fill, exit, and the decisions known at its close.\<close>

definition expire_phase :: "candle \<Rightarrow> sim_state \<Rightarrow> sim_state" where
  "expire_phase c s =
     (case pending s of
        Some p \<Rightarrow> if expires_before_ms p \<le> open_time_ms c
          then s\<lparr>pending := None, trades := trades s @ [expired_record p]\<rparr> else s
      | None \<Rightarrow> s)"

definition fill_trade :: "simulator \<Rightarrow> pending_trade \<Rightarrow> candle \<Rightarrow> open_trade" where
  "fill_trade sim p c =
     (let e = pt_evaluation p;
          multiplier = dadd (dec_of_int 1) (if is_long e then slippage_rate sim else dminus (slippage_rate sim))
      in \<lparr>ot_evaluation = e, ot_entry_time_ms = open_time_ms c,
          ot_executed_entry = dmul (entry_level e) multiplier\<rparr>)"

definition fill_phase :: "simulator \<Rightarrow> candle \<Rightarrow> sim_state \<Rightarrow> sim_state" where
  "fill_phase sim c s =
     (case pending s of
        Some p \<Rightarrow> if touches_entry p c then s\<lparr>pending := None, opened := Some (fill_trade sim p c)\<rparr> else s
      | None \<Rightarrow> s)"

definition close_trade ::
    "simulator \<Rightarrow> open_trade \<Rightarrow> candle \<Rightarrow> dec \<Rightarrow> dec \<Rightarrow> string \<Rightarrow> sim_state \<Rightarrow> sim_state result" where
  "close_trade sim ot c requested base reason s =
     rbind (closed_record sim ot c requested base reason) (\<lambda>t.
     Inr (s\<lparr>opened := None, trades := trades s @ [t]\<rparr>))"

definition exit_phase :: "simulator \<Rightarrow> candle \<Rightarrow> sim_state \<Rightarrow> sim_state result" where
  "exit_phase sim c s =
     (case opened s of
        None \<Rightarrow> Inr s
      | Some ot \<Rightarrow> (let e = ot_evaluation ot in
          if stop_touched e c then close_trade sim ot c (stop_level e) (stop_fill e c) ''STOP'' s
          else if ot_entry_time_ms ot < open_time_ms c \<and> target_touched e c then
            close_trade sim ot c (target_level e) (target_level e) ''TARGET'' s
          else if maximum_holding_minutes (sim_execution sim) \<le> duration_of (ot_entry_time_ms ot) c then
            close_trade sim ot c (dec_of (c_close c)) (dec_of (c_close c)) ''TIMEOUT'' s
          else Inr s))"

definition signal_step :: "simulator \<Rightarrow> sim_state \<Rightarrow> replay_evaluation \<Rightarrow> sim_state" where
  "signal_step sim s e =
     (if de_status (ev_decision e) \<noteq> ''READY'' \<or> ev_decision_hash e \<in> set (seen_decisions s) then s
      else let s' = s\<lparr>seen_decisions := ev_decision_hash e # seen_decisions s\<rparr> in
        if pending s' \<noteq> None \<or> opened s' \<noteq> None then s'
        else let minutes = expiry_execution_bars (sim_entry sim) * execution_bar_minutes sim in
          s'\<lparr>pending := Some \<lparr>pt_evaluation = e,
            expires_before_ms = ev_evaluation_time_ms e + 1 + minutes * 60000\<rparr>\<rparr>)"

definition evaluations_at :: "replay_evaluation list \<Rightarrow> int \<Rightarrow> replay_evaluation list" where
  "evaluations_at evs t =
     filter (\<lambda>e. ev_evaluation_time_ms e = t)
       (sort_key (\<lambda>e. (ev_evaluation_time_ms e, ev_decision_hash e)) evs)"

definition signal_phase :: "simulator \<Rightarrow> replay_evaluation list \<Rightarrow> candle \<Rightarrow> sim_state \<Rightarrow> sim_state" where
  "signal_phase sim evs c s = foldl (signal_step sim) s (evaluations_at evs (close_time_ms c))"

definition sim_step :: "simulator \<Rightarrow> replay_evaluation list \<Rightarrow> sim_state \<Rightarrow> candle \<Rightarrow> sim_state result" where
  "sim_step sim evs s c =
     rbind (exit_phase sim c (fill_phase sim c (expire_phase c s))) (\<lambda>s'. Inr (signal_phase sim evs c s'))"

text \<open>What is left at the end of the data.\<close>

definition sim_finish :: "simulator \<Rightarrow> candle list \<Rightarrow> sim_state \<Rightarrow> trade_record list result" where
  "sim_finish sim ordered s =
     (let s' = (case pending s of Some p \<Rightarrow> s\<lparr>trades := trades s @ [expired_record p]\<rparr> | None \<Rightarrow> s) in
      case opened s' of
        Some ot \<Rightarrow> if ordered = [] then Inr (trades s') else
          (let closing = dec_of (c_close (last ordered)) in
           rbind (closed_record sim ot (last ordered) closing closing ''END_OF_DATA'') (\<lambda>t.
           Inr (trades s' @ [t])))
      | None \<Rightarrow> Inr (trades s'))"

definition run_instrument ::
    "simulator \<Rightarrow> replay_evaluation list \<Rightarrow> candle list \<Rightarrow> trade_record list result" where
  "run_instrument sim evs cs =
     (let ordered = sort_key open_time_ms cs in
      rbind (rfoldM (sim_step sim evs) sim_start ordered) (\<lambda>s. sim_finish sim ordered s))"

definition trade_order :: "trade_record \<Rightarrow> int \<times> string \<times> string" where
  "trade_order t = (td_signal_time_ms t, td_instrument_id t, td_decision_hash t)"

definition run_simulation :: "simulator \<Rightarrow> replay_evaluation list \<Rightarrow> candle list \<Rightarrow> trade_record list result" where
  "run_simulation sim evs cs =
     (let instruments = sorted_set (map ev_instrument_id evs @ map c_instrument_id cs) in
      rbind (rmapM (\<lambda>i. run_instrument sim (filter (\<lambda>e. ev_instrument_id e = i) evs)
                                         (filter (\<lambda>c. c_instrument_id c = i) cs)) instruments) (\<lambda>ts.
      Inr (sort_key trade_order (concat ts))))"

section \<open>Invariant of the loop\<close>

text \<open>
  \<open>held e a b cs\<close>: from the entry at \<open>a\<close> to before \<open>b\<close> no bar touched the stop, and none after the
  entry bar touched the target. A sound record names a ready decision, is entered after its signal
  and leaves at the first bar that touches a level.
\<close>

definition held :: "replay_evaluation \<Rightarrow> int \<Rightarrow> int \<Rightarrow> candle list \<Rightarrow> bool" where
  "held e a b cs \<longleftrightarrow> list_all (\<lambda>c. a \<le> open_time_ms c \<and> open_time_ms c < b \<longrightarrow>
     \<not> stop_touched e c \<and> (a < open_time_ms c \<longrightarrow> \<not> target_touched e c)) cs"

definition exit_bar :: "replay_evaluation \<Rightarrow> int \<Rightarrow> string \<Rightarrow> candle \<Rightarrow> bool" where
  "exit_bar e a reason c \<longleftrightarrow>
     (if reason = ''STOP'' then stop_touched e c
      else if reason = ''TARGET'' then a < open_time_ms c \<and> target_touched e c \<and> \<not> stop_touched e c
      else reason = ''TIMEOUT'' \<or> reason = ''END_OF_DATA'')"

definition closed_of :: "candle list \<Rightarrow> replay_evaluation \<Rightarrow> trade_record \<Rightarrow> bool" where
  "closed_of cs e t \<longleftrightarrow> td_status t = ''CLOSED'' \<and>
     (\<exists>a b. td_entry_time_ms t = Some a \<and> td_exit_time_ms t = Some b
        \<and> td_signal_time_ms t < a \<and> a \<le> b \<and> held e a b cs
        \<and> list_ex (\<lambda>c. open_time_ms c = b \<and> exit_bar e a (td_exit_reason t) c) cs)"

definition trade_sound :: "candle list \<Rightarrow> replay_evaluation list \<Rightarrow> trade_record \<Rightarrow> bool" where
  "trade_sound cs evs t \<longleftrightarrow> list_ex (\<lambda>e. de_status (ev_decision e) = ''READY''
     \<and> td_decision_hash t = ev_decision_hash e \<and> td_signal_time_ms t = ev_evaluation_time_ms e
     \<and> (td_status t = ''EXPIRED'' \<or> closed_of cs e t)) evs"

definition exits :: "trade_record list \<Rightarrow> int list" where
  "exits ts = List.map_filter td_exit_time_ms ts"

text \<open>Closed trades follow each other: each is entered after the one before has left.\<close>

fun disjoint_trades :: "trade_record list \<Rightarrow> bool" where
  "disjoint_trades [] \<longleftrightarrow> True"
| "disjoint_trades (t # ts) \<longleftrightarrow> disjoint_trades ts
     \<and> (\<forall>b\<in>set_option (td_exit_time_ms t). \<forall>u\<in>set ts. \<forall>a\<in>set_option (td_entry_time_ms u). b < a)"

definition current :: "sim_state \<Rightarrow> replay_evaluation list" where
  "current s = (case pending s of Some p \<Rightarrow> [pt_evaluation p] | None \<Rightarrow> [])
     @ (case opened s of Some ot \<Rightarrow> [ot_evaluation ot] | None \<Rightarrow> [])"

definition sim_inv ::
    "candle list \<Rightarrow> replay_evaluation list \<Rightarrow> candle list \<Rightarrow> int \<Rightarrow> int \<Rightarrow> int \<Rightarrow> sim_state \<Rightarrow> bool" where
  "sim_inv cs evs ys x en u s \<longleftrightarrow>
     (pending s = None \<or> opened s = None)
     \<and> (\<forall>e\<in>set (current s). e \<in> set evs \<and> de_status (ev_decision e) = ''READY'')
     \<and> (\<forall>p. pending s = Some p \<longrightarrow> ev_evaluation_time_ms (pt_evaluation p) \<le> u)
     \<and> (\<forall>ot. opened s = Some ot \<longrightarrow> ot_entry_time_ms ot \<le> en
          \<and> ev_evaluation_time_ms (ot_evaluation ot) < ot_entry_time_ms ot
          \<and> (\<forall>b\<in>set (exits (trades s)). b < ot_entry_time_ms ot)
          \<and> (\<forall>c\<in>set ys. ot_entry_time_ms ot \<le> open_time_ms c \<longrightarrow> \<not> stop_touched (ot_evaluation ot) c
               \<and> (ot_entry_time_ms ot < open_time_ms c \<longrightarrow> \<not> target_touched (ot_evaluation ot) c)))
     \<and> (\<forall>t\<in>set (trades s). trade_sound cs evs t) \<and> (\<forall>b\<in>set (exits (trades s)). b \<le> x)
     \<and> disjoint_trades (trades s)
     \<and> distinct (map td_decision_hash (trades s) @ map ev_decision_hash (current s))
     \<and> set (map td_decision_hash (trades s) @ map ev_decision_hash (current s)) \<subseteq> set (seen_decisions s)"

lemma exits_append [simp]: "exits (ts @ us) = exits ts @ exits us"
  by (simp add: exits_def map_filter_def)

lemma exits_single [simp]: "exits [t] = (case td_exit_time_ms t of None \<Rightarrow> [] | Some b \<Rightarrow> [b])"
  by (simp add: exits_def map_filter_def split: option.split)

lemma disjoint_trades_snoc:
  "disjoint_trades (ts @ [t]) \<longleftrightarrow> disjoint_trades ts
     \<and> (\<forall>b\<in>set (exits ts). \<forall>a\<in>set_option (td_entry_time_ms t). b < a)"
proof (induction ts)
  case Nil
  show ?case by (simp add: exits_def map_filter_def)
next
  case (Cons u us)
  then show ?case by (auto simp: exits_def map_filter_def split: option.splits)
qed

lemma expired_record_simps [simp]:
  "td_decision_hash (expired_record p) = ev_decision_hash (pt_evaluation p)"
  "td_exit_time_ms (expired_record p) = None" "td_entry_time_ms (expired_record p) = None"
  "td_status (expired_record p) = ''EXPIRED''"
  "td_signal_time_ms (expired_record p) = ev_evaluation_time_ms (pt_evaluation p)"
  by (simp_all add: expired_record_def Let_def)

lemma closed_record_Inr:
  assumes "closed_record sim ot c rq base reason = Inr t"
  shows "td_decision_hash t = ev_decision_hash (ot_evaluation ot)"
    "td_signal_time_ms t = ev_evaluation_time_ms (ot_evaluation ot)" "td_status t = ''CLOSED''"
    "td_entry_time_ms t = Some (ot_entry_time_ms ot)" "td_exit_time_ms t = Some (open_time_ms c)"
    "td_exit_reason t = reason"
  using assms by (auto simp: closed_record_def Let_def)

lemma expired_sound:
  "e \<in> set evs \<Longrightarrow> de_status (ev_decision e) = ''READY'' \<Longrightarrow> e = pt_evaluation p \<Longrightarrow> trade_sound cs evs (expired_record p)"
  by (auto simp: trade_sound_def list_ex_iff)

lemma current_simps [simp]:
  "pending s = None \<Longrightarrow> opened s = None \<Longrightarrow> current s = []"
  "pending s = Some p \<Longrightarrow> opened s = None \<Longrightarrow> current s = [pt_evaluation p]"
  "pending s = None \<Longrightarrow> opened s = Some ot \<Longrightarrow> current s = [ot_evaluation ot]"
  by (simp_all add: current_def)

lemma sim_inv_pending:
  assumes "sim_inv cs evs ys x en u s" "pending s = Some p"
  shows "opened s = None" "pt_evaluation p \<in> set evs" "de_status (ev_decision (pt_evaluation p)) = ''READY''"
    "ev_evaluation_time_ms (pt_evaluation p) \<le> u"
proof -
  from assms show o: "opened s = None" by (simp add: sim_inv_def)
  from assms o show "pt_evaluation p \<in> set evs" "de_status (ev_decision (pt_evaluation p)) = ''READY''"
    "ev_evaluation_time_ms (pt_evaluation p) \<le> u" by (simp_all add: sim_inv_def)
qed

lemma expire_phase_inv:
  assumes "sim_inv cs evs ys x en u s"
  shows "sim_inv cs evs ys x en u (expire_phase c s)"
proof (cases "pending s")
  case None
  with assms show ?thesis by (simp add: expire_phase_def)
next
  case (Some p)
  note p = sim_inv_pending [OF assms Some]
  have "trade_sound cs evs (expired_record p)" using p by (intro expired_sound) simp_all
  with assms Some p(1) show ?thesis
    by (simp add: expire_phase_def sim_inv_def disjoint_trades_snoc)
qed

lemma fill_phase_inv:
  assumes "sim_inv cs evs ys x en u s" "x < open_time_ms c" "en \<le> open_time_ms c" "u < open_time_ms c"
    and "\<forall>y\<in>set ys. open_time_ms y < open_time_ms c"
  shows "sim_inv cs evs ys x (open_time_ms c) u (fill_phase sim c s)"
proof (cases "\<exists>p. pending s = Some p \<and> touches_entry p c")
  case False
  then have "fill_phase sim c s = s" by (auto simp: fill_phase_def split: option.splits)
  with assms show ?thesis by (simp add: sim_inv_def) (meson order_trans)
next
  case True
  then obtain p where p: "pending s = Some p" "touches_entry p c" by blast
  note q = sim_inv_pending [OF assms(1) p(1)]
  have "\<forall>b\<in>set (exits (trades s)). b < open_time_ms c" using assms by (fastforce simp: sim_inv_def)
  moreover have "ev_evaluation_time_ms (pt_evaluation p) < open_time_ms c" using q(4) assms(4) by simp
  ultimately show ?thesis using assms p q(1-3)
    by (simp add: fill_phase_def sim_inv_def fill_trade_def Let_def) (metis linorder_not_less)
qed

lemma sim_inv_opened:
  assumes "sim_inv cs evs ys x en u s" "opened s = Some ot"
  shows "pending s = None" "ot_evaluation ot \<in> set evs"
    "de_status (ev_decision (ot_evaluation ot)) = ''READY''" "ot_entry_time_ms ot \<le> en"
    "ev_evaluation_time_ms (ot_evaluation ot) < ot_entry_time_ms ot"
    "\<And>c. c \<in> set ys \<Longrightarrow> ot_entry_time_ms ot \<le> open_time_ms c \<Longrightarrow> \<not> stop_touched (ot_evaluation ot) c
       \<and> (ot_entry_time_ms ot < open_time_ms c \<longrightarrow> \<not> target_touched (ot_evaluation ot) c)"
proof -
  from assms show p: "pending s = None" by (auto simp: sim_inv_def)
  from assms p show "ot_evaluation ot \<in> set evs" "de_status (ev_decision (ot_evaluation ot)) = ''READY''"
    "ot_entry_time_ms ot \<le> en" "ev_evaluation_time_ms (ot_evaluation ot) < ot_entry_time_ms ot"
    "\<And>c. c \<in> set ys \<Longrightarrow> ot_entry_time_ms ot \<le> open_time_ms c \<Longrightarrow> \<not> stop_touched (ot_evaluation ot) c
       \<and> (ot_entry_time_ms ot < open_time_ms c \<longrightarrow> \<not> target_touched (ot_evaluation ot) c)"
    by (simp_all add: sim_inv_def)
qed

lemma closed_sound:
  assumes inv: "sim_inv cs evs ys x en u s" "opened s = Some ot"
    and rec: "closed_record sim ot c rq base reason = Inr t"
    and c: "c \<in> set cs" "en \<le> open_time_ms c" "\<And>d. d \<in> set cs \<Longrightarrow> open_time_ms d < open_time_ms c \<Longrightarrow> d \<in> set ys"
    and bar: "exit_bar (ot_evaluation ot) (ot_entry_time_ms ot) reason c"
  shows "trade_sound cs evs t"
proof -
  note o = sim_inv_opened [OF inv] and t = closed_record_Inr [OF rec]
  have "held (ot_evaluation ot) (ot_entry_time_ms ot) (open_time_ms c) cs"
    using o(6) c(3) by (simp add: held_def list_all_iff)
  moreover have "list_ex (\<lambda>d. open_time_ms d = open_time_ms c \<and> exit_bar (ot_evaluation ot) (ot_entry_time_ms ot) reason d) cs"
    using c(1) bar by (auto simp: list_ex_iff)
  ultimately have "closed_of cs (ot_evaluation ot) t" using t o c(2) by (simp add: closed_of_def)
  with o(2,3) t show ?thesis by (auto simp: trade_sound_def list_ex_iff)
qed

lemma sim_inv_weaken:
  assumes inv: "sim_inv cs evs ys x en u s" and le: "x \<le> x'" "en \<le> en'" "u \<le> u'"
    and bars: "\<And>ot d. opened s = Some ot \<Longrightarrow> d \<in> set zs \<Longrightarrow> d \<in> set ys \<or> open_time_ms d < ot_entry_time_ms ot \<or>
      \<not> stop_touched (ot_evaluation ot) d \<and> (ot_entry_time_ms ot < open_time_ms d \<longrightarrow> \<not> target_touched (ot_evaluation ot) d)"
  shows "sim_inv cs evs zs x' en' u' s"
proof -
  have "\<And>b. b \<in> set (exits (trades s)) \<Longrightarrow> b \<le> x'" using inv le(1) unfolding sim_inv_def by (meson order_trans)
  moreover have "\<And>p. pending s = Some p \<Longrightarrow> ev_evaluation_time_ms (pt_evaluation p) \<le> u'"
    using inv le(3) unfolding sim_inv_def by (meson order_trans)
  moreover have "\<And>ot. opened s = Some ot \<Longrightarrow> ot_entry_time_ms ot \<le> en'"
    using inv le(2) unfolding sim_inv_def by (meson order_trans)
  moreover have "\<And>ot d. opened s = Some ot \<Longrightarrow> d \<in> set zs \<Longrightarrow> ot_entry_time_ms ot \<le> open_time_ms d \<Longrightarrow>
      \<not> stop_touched (ot_evaluation ot) d \<and> (ot_entry_time_ms ot < open_time_ms d \<longrightarrow> \<not> target_touched (ot_evaluation ot) d)"
    using bars inv unfolding sim_inv_def by (meson linorder_not_less)
  ultimately show ?thesis using inv unfolding sim_inv_def by meson
qed

lemma close_trade_inv:
  assumes inv: "sim_inv cs evs ys x en u s" "opened s = Some ot"
    and rec: "close_trade sim ot c rq base reason s = Inr s'"
    and c: "c \<in> set cs" "en \<le> open_time_ms c" "\<And>d. d \<in> set cs \<Longrightarrow> open_time_ms d < open_time_ms c \<Longrightarrow> d \<in> set ys"
    and bar: "exit_bar (ot_evaluation ot) (ot_entry_time_ms ot) reason c" and x: "x \<le> open_time_ms c"
  shows "sim_inv cs evs zs (open_time_ms c) (open_time_ms c) u s'"
proof -
  from rec obtain t where t: "closed_record sim ot c rq base reason = Inr t"
    and s': "s' = s\<lparr>opened := None, trades := trades s @ [t]\<rparr>" by (auto simp: close_trade_def)
  have "trade_sound cs evs t" by (rule closed_sound [OF inv t c bar])
  moreover have "\<forall>b\<in>set (exits (trades s)). b \<le> open_time_ms c"
    using inv(1) x unfolding sim_inv_def by (meson order_trans)
  ultimately show ?thesis
    using inv sim_inv_opened(1) [OF inv] closed_record_Inr [OF t]
    by (simp add: s' sim_inv_def disjoint_trades_snoc)
qed

lemma exit_phase_inv:
  assumes inv: "sim_inv cs evs ys x (open_time_ms c) u s" and ex: "exit_phase sim c s = Inr s'"
    and c: "c \<in> set cs" "\<And>d. d \<in> set cs \<Longrightarrow> open_time_ms d < open_time_ms c \<Longrightarrow> d \<in> set ys"
    and x: "x \<le> open_time_ms c"
  shows "sim_inv cs evs (ys @ [c]) (open_time_ms c) (open_time_ms c) u s'"
proof (cases "opened s")
  case None
  with ex have "s' = s" by (simp add: exit_phase_def)
  moreover have "sim_inv cs evs (ys @ [c]) (open_time_ms c) (open_time_ms c) u s"
    by (rule sim_inv_weaken [OF inv x]) (simp_all add: None)
  ultimately show ?thesis by simp
next
  case (Some ot)
  let ?e = "ot_evaluation ot"
  note close = close_trade_inv [OF inv Some _ c(1) order_refl c(2) _ x]
  let ?late = "maximum_holding_minutes (sim_execution sim) \<le> duration_of (ot_entry_time_ms ot) c"
  consider (stop) "stop_touched ?e c"
    | (target) "\<not> stop_touched ?e c" "ot_entry_time_ms ot < open_time_ms c \<and> target_touched ?e c"
    | (timeout) "\<not> stop_touched ?e c" "\<not> (ot_entry_time_ms ot < open_time_ms c \<and> target_touched ?e c)" "?late"
    | (stays) "\<not> stop_touched ?e c" "\<not> (ot_entry_time_ms ot < open_time_ms c \<and> target_touched ?e c)" "\<not> ?late"
    by argo
  then show ?thesis
  proof cases
    case stop
    with ex Some have "close_trade sim ot c (stop_level ?e) (stop_fill ?e c) ''STOP'' s = Inr s'"
      by (simp add: exit_phase_def Let_def)
    from close [OF this] stop show ?thesis by (simp add: exit_bar_def)
  next
    case target
    with ex Some have "close_trade sim ot c (target_level ?e) (target_level ?e) ''TARGET'' s = Inr s'"
      by (simp add: exit_phase_def Let_def)
    from close [OF this] target show ?thesis by (simp add: exit_bar_def)
  next
    case timeout
    with ex Some have "close_trade sim ot c (dec_of (c_close c)) (dec_of (c_close c)) ''TIMEOUT'' s = Inr s'"
      by (simp add: exit_phase_def Let_def)
    from close [OF this] timeout show ?thesis by (simp add: exit_bar_def)
  next
    case stays
    with ex Some have "s' = s" by (simp add: exit_phase_def)
    moreover have "sim_inv cs evs (ys @ [c]) (open_time_ms c) (open_time_ms c) u s"
      by (rule sim_inv_weaken [OF inv x]) (use stays Some in auto)
    ultimately show ?thesis by simp
  qed
qed

lemma signal_step_inv:
  assumes inv: "sim_inv cs evs ys x en u s" and e: "e \<in> set evs" "ev_evaluation_time_ms e \<le> u"
  shows "sim_inv cs evs ys x en u (signal_step sim s e)"
proof -
  let ?s = "s\<lparr>seen_decisions := ev_decision_hash e # seen_decisions s\<rparr>"
  consider (skip) "de_status (ev_decision e) \<noteq> ''READY'' \<or> ev_decision_hash e \<in> set (seen_decisions s)"
    | (busy) "de_status (ev_decision e) = ''READY''" "ev_decision_hash e \<notin> set (seen_decisions s)"
        "\<not> (pending s = None \<and> opened s = None)"
    | (taken) "de_status (ev_decision e) = ''READY''" "ev_decision_hash e \<notin> set (seen_decisions s)"
        "pending s = None" "opened s = None"
    by blast
  then show ?thesis
  proof cases
    case skip
    with inv show ?thesis by (simp add: signal_step_def)
  next
    case busy
    then have "signal_step sim s e = ?s" by (simp add: signal_step_def)
    moreover have "current ?s = current s" by (simp add: current_def)
    ultimately show ?thesis using inv by (simp add: sim_inv_def subset_insertI2)
  next
    case taken
    then obtain k where "signal_step sim s e = ?s\<lparr>pending := Some \<lparr>pt_evaluation = e, expires_before_ms = k\<rparr>\<rparr>"
      by (simp add: signal_step_def Let_def)
    with inv e taken show ?thesis by (simp add: sim_inv_def) blast
  qed
qed

lemma signal_phase_inv:
  assumes "sim_inv cs evs ys x en u s" "u \<le> close_time_ms c"
  shows "sim_inv cs evs ys x en (close_time_ms c) (signal_phase sim evs c s)"
proof -
  have start: "sim_inv cs evs ys x en (close_time_ms c) s" by (rule sim_inv_weaken [OF assms(1)]) (use assms(2) in auto)
  have "sim_inv cs evs ys x en (close_time_ms c) (foldl (signal_step sim) s es)"
    if "set es \<subseteq> set (evaluations_at evs (close_time_ms c))" for es
    using that
  proof (induction es rule: rev_induct)
    case (snoc e es)
    then show ?case by (auto simp: evaluations_at_def intro: signal_step_inv)
  qed (simp add: start)
  then show ?thesis by (simp add: signal_phase_def)
qed

lemma sim_step_inv:
  assumes inv: "sim_inv cs evs ys x x u s" and st: "sim_step sim evs s c = Inr s'"
    and c: "c \<in> set cs" "\<And>d. d \<in> set cs \<Longrightarrow> open_time_ms d < open_time_ms c \<Longrightarrow> d \<in> set ys"
      "\<forall>y\<in>set ys. open_time_ms y < open_time_ms c"
    and x: "x < open_time_ms c" "u < open_time_ms c" "open_time_ms c \<le> close_time_ms c"
  shows "sim_inv cs evs (ys @ [c]) (open_time_ms c) (open_time_ms c) (close_time_ms c) s'"
proof -
  from st obtain t where t: "exit_phase sim c (fill_phase sim c (expire_phase c s)) = Inr t"
    and s': "s' = signal_phase sim evs c t" by (auto simp: sim_step_def)
  have "sim_inv cs evs ys x (open_time_ms c) u (fill_phase sim c (expire_phase c s))"
    using x c(3) by (intro fill_phase_inv [OF expire_phase_inv [OF inv]]) simp_all
  from exit_phase_inv [OF this t c(1,2)] x
  have "sim_inv cs evs (ys @ [c]) (open_time_ms c) (open_time_ms c) u t" by simp
  from signal_phase_inv [OF this, of c sim] x show ?thesis by (simp add: s')
qed

text \<open>Well-formed candles at distinct times, sorted, do not overlap.\<close>

definition minute_series :: "candle list \<Rightarrow> bool" where
  "minute_series cs \<longleftrightarrow> sorted_wrt (\<lambda>a b. close_time_ms a < open_time_ms b) cs
     \<and> (\<forall>c\<in>set cs. 0 \<le> open_time_ms c \<and> open_time_ms c \<le> close_time_ms c)"

lemma minute_series_sorted:
  assumes wf: "\<forall>c\<in>set cs. candle_wf c" and d: "distinct (map open_time_ms cs)"
  shows "minute_series (sort_key open_time_ms cs)"
proof -
  let ?s = "sort_key open_time_ms cs"
  have times: "\<forall>c\<in>set ?s. 0 \<le> open_time_ms c \<and> open_time_ms c mod 60000 = 0 \<and> close_time_ms c = open_time_ms c + 59999"
    using wf by (simp add: candle_wf_def)
  have "distinct (map open_time_ms ?s)"
    using d by (metis mset_eq_imp_distinct_iff mset_map mset_sort)
  then have lt: "sorted_wrt (<) (map open_time_ms ?s)"
    unfolding strict_sorted_iff by (simp add: sorted_sort_key)
  have "sorted_wrt (\<lambda>a b. close_time_ms a < open_time_ms b) ?s"
    using lt [unfolded sorted_wrt_map]
  proof (rule sorted_wrt_mono_rel [rotated])
    fix a b
    assume ab: "a \<in> set ?s" "b \<in> set ?s" and l: "open_time_ms a < open_time_ms b"
    with times have "(open_time_ms b - open_time_ms a) mod 60000 = 0" by (simp add: mod_diff_eq [symmetric])
    from grid_step [OF this l] ab times show "close_time_ms a < open_time_ms b" by simp
  qed
  with times show ?thesis by (simp add: minute_series_def)
qed

lemma sim_fold_inv:
  assumes ser: "minute_series cs" and "cs = ys @ zs" "rfoldM (sim_step sim evs) sim_start ys = Inr s"
  shows "\<exists>x u. sim_inv cs evs ys x x u s \<and> (\<forall>c\<in>set zs. x < open_time_ms c \<and> u < open_time_ms c)
    \<and> (ys \<noteq> [] \<longrightarrow> x = open_time_ms (last ys))"
  using assms(2,3)
proof (induction ys arbitrary: zs s rule: rev_induct)
  case Nil
  then have "s = sim_start" by simp
  then have "sim_inv cs evs [] (-1) (-1) (-1) s" by (simp add: sim_inv_def sim_start_def exits_def map_filter_def)
  moreover have "\<forall>c\<in>set zs. -1 < open_time_ms c" using ser Nil by (auto simp: minute_series_def)
  ultimately show ?case by (intro exI [of _ "-1"]) simp
next
  case (snoc c ys)
  then obtain t where t: "rfoldM (sim_step sim evs) sim_start ys = Inr t" "sim_step sim evs t c = Inr s"
    by (auto simp: rfoldM_append)
  from snoc.IH [OF _ t(1), of "c # zs"] snoc.prems obtain x u where
    i: "sim_inv cs evs ys x x u t" "x < open_time_ms c" "u < open_time_ms c" by auto
  have c: "c \<in> set cs" "open_time_ms c \<le> close_time_ms c"
    and before: "\<forall>y\<in>set ys. open_time_ms y < open_time_ms c"
    and after: "\<forall>z\<in>set zs. close_time_ms c < open_time_ms z"
  proof -
    have sorted: "sorted_wrt (\<lambda>a b. close_time_ms a < open_time_ms b) (ys @ c # zs)"
      and times: "\<And>d. d \<in> set (ys @ c # zs) \<Longrightarrow> open_time_ms d \<le> close_time_ms d"
      using ser snoc.prems(1) by (auto simp: minute_series_def)
    show "c \<in> set cs" "open_time_ms c \<le> close_time_ms c" using snoc.prems(1) times by simp_all
    from sorted have "\<forall>y\<in>set ys. close_time_ms y < open_time_ms c" "\<forall>z\<in>set zs. close_time_ms c < open_time_ms z"
      by (simp_all add: sorted_wrt_append)
    with times show "\<forall>y\<in>set ys. open_time_ms y < open_time_ms c" "\<forall>z\<in>set zs. close_time_ms c < open_time_ms z"
      by (auto intro: le_less_trans)
  qed
  have "sim_inv cs evs (ys @ [c]) (open_time_ms c) (open_time_ms c) (close_time_ms c) s"
    using sim_step_inv [OF i(1) t(2) c(1) _ before i(2,3) c(2)] snoc.prems(1) after c(2) by fastforce
  then show ?case using after c(2)
    by (intro exI [of _ "open_time_ms c"] exI [of _ "close_time_ms c"]) force
qed

lemma sim_finish_inv:
  assumes inv: "sim_inv cs evs cs x x u s" and ser: "minute_series cs" "cs \<noteq> [] \<longrightarrow> x = open_time_ms (last cs)"
    and fin: "sim_finish sim cs s = Inr ts"
  shows "(\<forall>t\<in>set ts. trade_sound cs evs t) \<and> disjoint_trades ts \<and> distinct (map td_decision_hash ts)"
proof (cases "opened s")
  case None
  show ?thesis
  proof (cases "pending s")
    case None
    with \<open>opened s = None\<close> inv fin show ?thesis by (simp add: sim_finish_def sim_inv_def)
  next
    case (Some p)
    note p = sim_inv_pending [OF inv Some]
    have "trade_sound cs evs (expired_record p)" using p by (intro expired_sound) simp_all
    with Some p(1) inv fin show ?thesis
      by (auto simp: sim_finish_def sim_inv_def disjoint_trades_snoc)
  qed
next
  case (Some ot)
  note o = sim_inv_opened [OF inv Some]
  show ?thesis
  proof (cases "cs = []")
    case True
    with Some o(1) inv fin show ?thesis by (simp add: sim_finish_def sim_inv_def)
  next
    case False
    with Some o(1) fin obtain t where t: "ts = trades s @ [t]"
      "closed_record sim ot (last cs) (dec_of (c_close (last cs))) (dec_of (c_close (last cs))) ''END_OF_DATA'' = Inr t"
      by (auto simp: sim_finish_def Let_def)
    have "trade_sound cs evs t"
      using False ser(2) by (intro closed_sound [OF inv Some t(2)]) (simp_all add: exit_bar_def)
    with Some o(1) inv closed_record_Inr [OF t(2)] show ?thesis
      by (simp add: t(1) sim_inv_def disjoint_trades_snoc)
  qed
qed

lemma trade_sound_sort: "trade_sound (sort_key open_time_ms cs) evs t = trade_sound cs evs t"
  by (simp add: trade_sound_def closed_of_def held_def list_all_iff list_ex_iff)

lemma run_instrument_sound:
  assumes wf: "\<forall>c\<in>set cs. candle_wf c" "distinct (map open_time_ms cs)"
    and run: "run_instrument sim evs cs = Inr ts"
  shows "(\<forall>t\<in>set ts. trade_sound cs evs t) \<and> disjoint_trades ts \<and> distinct (map td_decision_hash ts)"
proof -
  let ?s = "sort_key open_time_ms cs"
  note ser = minute_series_sorted [OF wf]
  from run obtain s where s: "rfoldM (sim_step sim evs) sim_start ?s = Inr s" "sim_finish sim ?s s = Inr ts"
    by (auto simp: run_instrument_def Let_def)
  from sim_fold_inv [OF ser _ s(1), of "[]"] obtain x u where
    "sim_inv ?s evs ?s x x u s" "?s \<noteq> [] \<longrightarrow> x = open_time_ms (last ?s)" by auto
  from sim_finish_inv [OF this(1) ser this(2) s(2)] show ?thesis unfolding trade_sound_sort .
qed

section \<open>Accounting text\<close>

lemma rstrip_append: "rstrip c (a @ s) = (if rstrip c s = [] then rstrip c a else a @ rstrip c s)"
  by (simp add: rstrip_def dropWhile_append)

lemma rstrip_keeps: "x \<in> set s \<Longrightarrow> x \<noteq> c \<Longrightarrow> rstrip c s \<noteq> []"
  by (auto simp: rstrip_def)

lemma strip_signed:
  assumes "numeral_parts ip fp"
  shows "strip_fraction (sign_text neg @ numeral_of ip fp) = sign_text neg @ strip_fraction (numeral_of ip fp)"
proof (cases "CHR ''.'' \<in> set (numeral_of ip fp)")
  case False
  then show ?thesis by (auto simp: strip_fraction_def sign_text_def)
next
  case True
  let ?z = "rstrip CHR ''0'' (numeral_of ip fp)"
  obtain c cs where ip: "ip = c # cs" "is_digit c"
    using assms by (cases ip) (auto simp: numeral_parts_def all_digits_def)
  have "fp \<noteq> []"
    using True assms all_digits_no_dot [of ip] by (cases fp) (auto simp: numeral_of_def numeral_parts_def)
  then have "?z = ip @ rstrip CHR ''0'' (CHR ''.'' # fp)"
    using rstrip_keeps [of "CHR ''.''" "CHR ''.'' # fp" "CHR ''0''"] by (simp add: numeral_of_def rstrip_append)
  then have "c \<in> set ?z" "?z \<noteq> []" using ip(1) by simp_all
  moreover have "c \<noteq> CHR ''.''" using ip(2) by (rule is_digit_not_dot)
  ultimately have "rstrip CHR ''.'' ?z \<noteq> []" by (intro rstrip_keeps)
  with True \<open>?z \<noteq> []\<close> show ?thesis by (simp add: strip_fraction_def rstrip_append)
qed

lemma dval_signed: "dval (Dec neg n e) = (if neg then -1 else 1) * dval (Dec False n e)"
  by (simp add: dval_def dsigned_def)

lemma format_f_parts:
  assumes "dec_wf d"
  obtains (fraction) n m where "0 \<le> n" "format_f d = sign_text (dneg d) @ render n m" "dval d = dval (Dec (dneg d) n (- int m))"
  | (whole) ip where "numeral_parts ip []" "format_f d = sign_text (dneg d) @ ip" "dval d = dval (Dec (dneg d) (digits_val ip) 0)"
      "0 < dcoef d"
proof (cases "dexp d > 0 \<and> \<not> is_zero d")
  case True
  let ?ip = "int_digits (dcoef d) @ replicate (nat (dexp d)) CHR ''0''"
  have nn: "0 \<le> dcoef d" "0 < dcoef d" using assms True by (auto simp: dec_wf_def is_zero_def)
  have "all_digits (replicate k CHR ''0'')" "digits_val (replicate k CHR ''0'') = 0" for k
    by (induction k) (simp_all add: all_digits_def is_digit_def digits_val_def digit_val_def)
  then have "numeral_parts ?ip []" "digits_val ?ip = dcoef d * 10 ^ nat (dexp d)"
    using int_digits_all_digits [OF nn(1)] nn by (auto simp: numeral_parts_def all_digits_def digits_val_append)
  moreover have "format_f d = sign_text (dneg d) @ ?ip"
    using True by (simp add: format_f_def format_digits_def Let_def)
  moreover have "dval d = dval (Dec (dneg d) (dcoef d * 10 ^ nat (dexp d)) 0)"
    using True by (simp add: dval_def dsigned_def power_int_def)
  ultimately show ?thesis using nn(2) by (intro whole) auto
next
  case False
  define e where "e = (if is_zero d \<and> dexp d > 0 then 0 else dexp d)"
  have nn: "0 \<le> dcoef d" using assms by (simp add: dec_wf_def)
  have e: "e = - int (nat (- e))" using False by (auto simp: e_def)
  have "format_f d = sign_text (dneg d) @ render (dcoef d) (nat (- e))"
    using format_digits_render [OF nn, of "nat (- e)"] e by (simp add: format_f_def e_def [symmetric])
  moreover have "dval d = dval (Dec (dneg d) (dcoef d) e)"
    by (auto simp: dval_def dsigned_def e_def is_zero_def)
  ultimately show ?thesis using nn e by (intro fraction) auto
qed

lemma parse_zero: "parse_decimal ''0'' = Finite (Dec False 0 0)"
  by code_simp

lemma accounting_text_value:
  assumes "dec_wf d"
  shows "\<exists>d'. parse_decimal (accounting_text d) = Finite d' \<and> dval d' = dval d"
  using assms
proof (cases rule: format_f_parts)
  case (fraction n m)
  obtain n' m' where nm: "norm_frac n m = (n', m')" by fastforce
  note spec = norm_frac_spec [OF nm]
  have nn: "0 \<le> n'" using spec fraction(1) by blast
  have val: "dval (Dec neg n' (- int m')) = dval (Dec neg n (- int m))" for neg
    using spec by (simp add: dval_signed [of neg] dval_fraction fraction_eq_iff)
  have st: "strip_fraction (format_f d) = sign_text (dneg d) @ render n' m'"
    unfolding fraction(2) render_numeral(1) [OF fraction(1)] strip_signed [OF render_numeral(2) [OF fraction(1)]]
    unfolding render_numeral(1) [OF fraction(1), symmetric] strip_render [OF fraction(1)] nm by simp
  show ?thesis
  proof (cases "strip_fraction (format_f d) = ''-0''")
    case True
    have "CHR ''-'' \<notin> set (render n' m')"
      using numeral_chars [OF render_numeral(2) [OF nn, of m'], of "CHR ''-''"] render_numeral(1) [OF nn, of m']
      by (auto simp: is_digit_def)
    with True have "render n' m' = ''0''" using st by (cases "dneg d") (auto simp: sign_text_def)
    then have "Dec False n' (- int m') = Dec False 0 0"
      using dec_of_render [OF nn, of m'] by (simp add: dec_of_def parse_zero)
    then have "dval d = dval (Dec (dneg d) 0 0)" using val [of "dneg d"] fraction(3) by simp
    then have "dval d = 0" by (simp add: dval_def dsigned_def)
    with True show ?thesis by (simp add: accounting_text_def parse_zero dval_def dsigned_def)
  next
    case False
    then have "accounting_text d = sign_text (dneg d) @ render n' m'"
      using st by (simp add: accounting_text_def)
    also have "parse_decimal \<dots> = Finite (Dec (dneg d) n' (- int m'))"
      using parse_signed_numeral [OF render_numeral(2) [OF nn]] render_numeral [OF nn, of m'] by simp
    finally show ?thesis using val fraction(3) by simp
  qed
next
  case (whole ip)
  have nodot: "CHR ''.'' \<notin> set (format_f d)"
    using whole(1,2) all_digits_no_dot by (auto simp: numeral_parts_def sign_text_def)
  have ne: "format_f d \<noteq> ''-0''" "format_f d \<noteq> []"
  proof -
    show "format_f d \<noteq> []" using whole(1,2) by (simp add: numeral_parts_def)
    show "format_f d \<noteq> ''-0''"
    proof
      assume "format_f d = ''-0''"
      with whole(1,2) have "ip = ''0''"
        by (cases "dneg d") (auto simp: sign_text_def numeral_parts_def all_digits_def is_digit_def)
      with whole(3,4) show False by (auto simp: dval_def dsigned_def digits_val_def digit_val_def split: if_splits)
    qed
  qed
  have "accounting_text d = sign_text (dneg d) @ numeral_of ip []"
    using nodot ne whole(2) by (simp add: accounting_text_def strip_fraction_def numeral_of_def)
  then show ?thesis using parse_signed_numeral [OF whole(1), of "dneg d"] whole(3) by simp
qed

section \<open>Properties\<close>

text \<open>A long signal at the close of minute 0, filled in minute 1, at its target in minute 3.\<close>

definition sample_decision :: decision where
  "sample_decision = \<lparr>de_instrument_id = ''CRYPTO-BTC-USDT-PERP'', de_status = ''READY'',
     de_direction = Some ''LONG'', entry_text = Some ''100'', stop_text = Some ''95'',
     target_text = Some ''110'', first_failed_signal = None, de_payload = EMap []\<rparr>"

definition sample_evaluation :: "int \<Rightarrow> string \<Rightarrow> replay_evaluation" where
  "sample_evaluation t h = \<lparr>ev_instrument_id = ''CRYPTO-BTC-USDT-PERP'', ev_evaluation_time_ms = t,
     ev_decision = sample_decision, ev_decision_hash = h,
     ev_trace = \<lparr>tr_instrument_id = ''CRYPTO-BTC-USDT-PERP'', tr_evaluation_time_ms = t, tr_steps = [],
       first_rejection = None, tr_decision_hash = h\<rparr>\<rparr>"

definition sample_simulator :: simulator where
  "sample_simulator = \<lparr>sim_entry = \<lparr>en_mode = ''limit'', expiry_execution_bars = 2\<rparr>,
     sim_execution = \<lparr>maximum_holding_minutes = 60, intrabar_conflict = ''stop_first'', allow_same_minute_target = False\<rparr>,
     sim_costs = \<lparr>taker_fee_bps = ''5'', adverse_slippage_bps = ''2''\<rparr>, execution_bar_minutes = 15,
     fee_rate = dec_of ''0.0005'', slippage_rate = dec_of ''0.0002''\<rparr>"

definition sample_market :: "candle list" where
  "sample_market = [sample_minute 0 ''101'' ''102'' ''100.5'' ''101'', sample_minute 1 ''101'' ''101'' ''99'' ''100'',
     sample_minute 2 ''100'' ''108'' ''99.5'' ''107'', sample_minute 3 ''107'' ''111'' ''106'' ''109'']"

lemma sample_market_wf: "\<forall>c\<in>set sample_market. candle_wf c" "distinct (map open_time_ms sample_market)"
proof -
  have "list_all (\<lambda>c. mk_candle (raw_of c) = Inr c) sample_market" by code_simp
  then show "\<forall>c\<in>set sample_market. candle_wf c" by (auto simp: list_all_iff intro: sample_wf)
  show "distinct (map open_time_ms sample_market)" by code_simp
qed

lemma sample_run_instrument:
  "map_sum (\<lambda>_. ()) (map (\<lambda>t. (td_exit_reason t, td_exit_time_ms t, td_net_r t)))
     (run_instrument sample_simulator [sample_evaluation 59999 ''h1''] sample_market)
   = Inr [(''TARGET'', Some 180000, Some ''1.9706002'')]"
  by code_simp

text \<open>C11:
  On well-formed candles at distinct minutes the trades of an instrument never overlap: each filled
  trade is entered strictly after the exit of the one before. No decision is traded twice.\<close>

theorem simulated_trades_disjoint:
  "\<forall>c\<in>set cs. candle_wf c \<Longrightarrow> distinct (map open_time_ms cs) \<Longrightarrow> run_instrument sim evs cs = Inr ts \<Longrightarrow>
   disjoint_trades ts \<and> distinct (map td_decision_hash ts)"
  using run_instrument_sound by blast

theorem simulated_trades_disjoint_witness:
  "\<exists>ts. run_instrument sample_simulator [sample_evaluation 59999 ''h1''] sample_market = Inr ts \<and> length ts = 1 \<and> disjoint_trades ts"
proof -
  from sample_run_instrument obtain ts where ts: "run_instrument sample_simulator [sample_evaluation 59999 ''h1''] sample_market = Inr ts"
    "map (\<lambda>t. (td_exit_reason t, td_exit_time_ms t, td_net_r t)) ts = [(''TARGET'', Some 180000, Some ''1.9706002'')]"
    by (cases "run_instrument sample_simulator [sample_evaluation 59999 ''h1''] sample_market") auto
  from ts(2) have "length ts = 1" by (cases ts) auto
  with ts(1) simulated_trades_disjoint [OF sample_market_wf ts(1)] show ?thesis by blast
qed



text \<open>
  A ready decision whose entry and stop coincide passes every constructor, but closing its trade
  divides by an initial risk of zero.
\<close>

lemma zero_risk_raises:
  assumes "run_instrument sample_simulator
      [(sample_evaluation 59999 ''h1'')\<lparr>ev_decision := sample_decision\<lparr>stop_text := Some ''100''\<rparr>\<rparr>] sample_market = r"
  shows "\<exists>e. r = Inl e"
proof -
  have "\<not> is_ok (run_instrument sample_simulator
      [(sample_evaluation 59999 ''h1'')\<lparr>ev_decision := sample_decision\<lparr>stop_text := Some ''100''\<rparr>\<rparr>] sample_market)"
    by code_simp
  with assms show ?thesis by (cases r) auto
qed

end
