(* ===== verification/RunStore.thy ===== *)
theory RunStore
  imports CandleStore
begin

text \<open>
  The run side of the repository (\<^verbatim>\<open>adapters/persistence/sqlite.py\<close>, the tables \<^verbatim>\<open>runs\<close>,
  \<^verbatim>\<open>observations\<close> and \<^verbatim>\<open>decisions\<close>): storing, finishing, committing and recovering runs, their evidence
  and the notification columns. Every statement checks the CHECK, PRIMARY KEY and FOREIGN KEY
  constraints of the schema and every transaction rolls back on an exception. A JSON column is
  modelled by the value its canonical text denotes.

  The calls form a step relation on the database. Reachable databases satisfy every constraint of
  the schema, and a run that has left the state \<^verbatim>\<open>RUNNING\<close> is never changed again.
\<close>

section \<open>Rows\<close>

record run_record =
  rn_run_id :: string
  rn_status :: string
  rn_started_at_ms :: int
  rn_completed_at_ms :: "int option"
  rn_strategy_name :: string
  rn_strategy_version :: string
  rn_strategy_config_hash :: string
  rn_provider_id :: string
  rn_market_type :: string
  rn_market_config_hash :: string
  rn_git_commit :: "string option"
  rn_code_hash :: "string option"
  rn_data_start_open_ms :: int
  rn_data_end_close_ms :: int
  rn_data_hash :: string
  rn_error :: "string option"

text \<open>The items of the two notification columns; the records of the port add the run they belong to.\<close>

record dedup_entry =
  dd_destination_id :: string
  dd_deduplication_id :: string
  delivered_at_seconds :: int

record dedup_record = dedup_entry +
  dd_run_id :: string

record delivery_outcome =
  dl_destination_id :: string
  dl_adapter_id :: string
  attempted_at_seconds :: int
  dl_attempts :: int
  dl_outcome :: string
  dl_reason_code :: "string option"
  dl_status_code :: "int option"

record delivery_record = delivery_outcome +
  dl_run_id :: string

record run_row = run_record +
  notification_dedup :: "dedup_entry list"
  notification_outcomes :: "delivery_outcome list"
  scheduler_outcome :: "string option"

record observation_row =
  ow_run_id :: string
  ow_instrument_id :: string
  ow_signal_id :: string
  ow_status :: string
  ow_event_time_ms :: "int option"
  ow_known_time_ms :: "int option"
  ow_reason :: string
  ow_payload_json :: json

record decision_row =
  dw_run_id :: string
  dw_instrument_id :: string
  dw_status :: string
  dw_direction :: "string option"
  dw_entry_text :: "string option"
  dw_stop_text :: "string option"
  dw_target_text :: "string option"
  dw_first_failed_signal :: "string option"
  dw_payload_json :: json

record run_db =
  run_rows :: "run_row list"
  observation_rows :: "observation_row list"
  decision_rows :: "decision_row list"

text \<open>The value a canonical JSON text denotes has its keys in order.\<close>

fun json_sorted :: "json \<Rightarrow> json" where
  "json_sorted (JObj kvs) = JObj (sort_key fst (map (\<lambda>kv. (fst kv, json_sorted (snd kv))) kvs))"
| "json_sorted (JArr xs) = JArr (map json_sorted xs)"
| "json_sorted v = v"

definition observation_row_of :: "observation_record \<Rightarrow> observation_row" where
  "observation_row_of ob =
     \<lparr>ow_run_id = or_run_id ob, ow_instrument_id = or_instrument_id ob, ow_signal_id = or_signal_id ob,
      ow_status = or_status ob, ow_event_time_ms = or_event_time_ms ob,
      ow_known_time_ms = or_known_time_ms ob, ow_reason = or_reason ob,
      ow_payload_json = json_sorted (canonical_evidence (EMap (or_payload ob)))\<rparr>"

definition decision_row_of :: "decision_record \<Rightarrow> decision_row" where
  "decision_row_of d =
     \<lparr>dw_run_id = dr_run_id d, dw_instrument_id = dr_instrument_id d, dw_status = decision_status d,
      dw_direction = dr_direction d, dw_entry_text = dr_entry_text d, dw_stop_text = dr_stop_text d,
      dw_target_text = dr_target_text d, dw_first_failed_signal = dr_first_failed_signal d,
      dw_payload_json = json_sorted (canonical_evidence (EMap (dr_payload d)))\<rparr>"

section \<open>Constraints of the schema\<close>

text \<open>\<^verbatim>\<open>NULL\<close> satisfies a CHECK constraint.\<close>

definition sql_opt :: "('a \<Rightarrow> bool) \<Rightarrow> 'a option \<Rightarrow> bool" where
  "sql_opt P v = (case v of None \<Rightarrow> True | Some x \<Rightarrow> P x)"

definition is_hex40 :: "string \<Rightarrow> bool" where
  "is_hex40 s \<longleftrightarrow> length s = 40 \<and> list_all (\<lambda>c. c \<in> set ''0123456789abcdef'') s"

definition scheduler_outcomes :: "string list" where
  "scheduler_outcomes = [''SUCCEEDED'', ''SUCCEEDED_WITH_WARNINGS'', ''FAILED'', ''OVERLAP_SKIPPED'',
     ''MAXIMUM_RUNTIME'', ''SCHEDULER_SHUTDOWN'', ''PROCESS_RESTART'']"

definition provenance_check :: "string option \<Rightarrow> string option \<Rightarrow> bool" where
  "provenance_check git code \<longleftrightarrow>
     (case (git, code) of (Some g, None) \<Rightarrow> is_hex40 g | (None, Some c) \<Rightarrow> is_hex64 c | _ \<Rightarrow> False)"

definition run_state_check :: "string \<Rightarrow> int option \<Rightarrow> string option \<Rightarrow> bool" where
  "run_state_check st completed err \<longleftrightarrow>
     (st = ''RUNNING'' \<and> completed = None \<and> err = None)
     \<or> (st = ''SUCCEEDED'' \<and> completed \<noteq> None \<and> err = None)
     \<or> (st = ''FAILED'' \<and> completed \<noteq> None \<and> err \<noteq> None)"

definition run_row_check :: "run_row \<Rightarrow> bool" where
  "run_row_check r \<longleftrightarrow>
     rn_status r \<in> set [''RUNNING'', ''SUCCEEDED'', ''FAILED'']
     \<and> 0 \<le> rn_started_at_ms r \<and> sql_opt (\<lambda>t. rn_started_at_ms r \<le> t) (rn_completed_at_ms r)
     \<and> is_hex64 (rn_strategy_config_hash r)
     \<and> 1 \<le> length (rn_provider_id r) \<and> length (rn_provider_id r) \<le> 32
     \<and> rn_market_type r = market_type_name \<and> is_hex64 (rn_market_config_hash r)
     \<and> provenance_check (rn_git_commit r) (rn_code_hash r)
     \<and> 0 \<le> rn_data_start_open_ms r \<and> rn_data_start_open_ms r mod 60000 = 0
     \<and> rn_data_start_open_ms r + 59999 \<le> rn_data_end_close_ms r \<and> rn_data_end_close_ms r mod 60000 = 59999
     \<and> is_hex64 (rn_data_hash r)
     \<and> sql_opt (\<lambda>x. x \<in> set scheduler_outcomes) (scheduler_outcome r)
     \<and> sql_opt (\<lambda>x. 1 \<le> length x \<and> length x \<le> 4000) (rn_error r)
     \<and> run_state_check (rn_status r) (rn_completed_at_ms r) (rn_error r)"

definition evidence_times_check :: "int option \<Rightarrow> int option \<Rightarrow> bool" where
  "evidence_times_check ev known \<longleftrightarrow>
     (case (ev, known) of (None, None) \<Rightarrow> True | (Some e, Some k) \<Rightarrow> 0 \<le> e \<and> e \<le> k | _ \<Rightarrow> False)"

definition observation_row_check :: "observation_row \<Rightarrow> bool" where
  "observation_row_check o' \<longleftrightarrow>
     is_upper_text (ow_instrument_id o') \<and> ow_status o' \<in> set [''PASS'', ''FAIL'', ''UNAVAILABLE'']
     \<and> evidence_times_check (ow_event_time_ms o') (ow_known_time_ms o')
     \<and> 1 \<le> length (ow_reason o') \<and> length (ow_reason o') \<le> 1000"

text \<open>
  The last CHECK of \<^verbatim>\<open>decisions\<close> compares the direction of a ready row by \<^verbatim>\<open>IN\<close>, which is \<^verbatim>\<open>NULL\<close> for a
  row without one; the disjunction is then \<^verbatim>\<open>NULL\<close> and the row passes.
\<close>

definition decision_row_check :: "decision_row \<Rightarrow> bool" where
  "decision_row_check d \<longleftrightarrow>
     is_upper_text (dw_instrument_id d) \<and> dw_status d \<in> set [''READY'', ''NO_TRADE'', ''UNAVAILABLE'']
     \<and> sql_opt (\<lambda>x. x \<in> set [''LONG'', ''SHORT'']) (dw_direction d)
     \<and> (if dw_status d = ''READY''
        then dw_entry_text d \<noteq> None \<and> dw_stop_text d \<noteq> None
          \<and> dw_target_text d \<noteq> None \<and> dw_first_failed_signal d = None
        else dw_direction d = None \<and> dw_entry_text d = None \<and> dw_stop_text d = None
          \<and> dw_target_text d = None
          \<and> (case dw_first_failed_signal d of None \<Rightarrow> False | Some s \<Rightarrow> 1 \<le> length s \<and> length s \<le> 200))"

section \<open>Statements\<close>

definition find_run :: "run_db \<Rightarrow> string \<Rightarrow> run_row option" where
  "find_run db rid = List.find (\<lambda>r. rn_run_id r = rid) (run_rows db)"

text \<open>
  \<open>UPDATE runs SET f WHERE P\<close> fails when a changed row breaks a constraint. An \<open>INSERT\<close> of evidence
  fails on a duplicate key, on a CHECK and on a missing run.
\<close>

definition update_runs :: "(run_row \<Rightarrow> bool) \<Rightarrow> (run_row \<Rightarrow> run_row) \<Rightarrow> run_db \<Rightarrow> run_db result" where
  "update_runs P f db =
     (if list_all (\<lambda>r. P r \<longrightarrow> run_row_check (f r)) (run_rows db)
      then Inr (db\<lparr>run_rows := map (\<lambda>r. if P r then f r else r) (run_rows db)\<rparr>)
      else raise IntegrityError ''CHECK constraint failed: runs'')"

definition insert_run :: "run_row \<Rightarrow> run_db \<Rightarrow> run_db result" where
  "insert_run r db =
     (if \<not> run_row_check r then raise IntegrityError ''CHECK constraint failed: runs''
      else if find_run db (rn_run_id r) \<noteq> None then raise IntegrityError ''UNIQUE constraint failed: runs.run_id''
      else Inr (db\<lparr>run_rows := run_rows db @ [r]\<rparr>))"

definition observation_key :: "observation_row \<Rightarrow> string \<times> string \<times> string" where
  "observation_key o' = (ow_run_id o', ow_instrument_id o', ow_signal_id o')"

definition decision_key :: "decision_row \<Rightarrow> string \<times> string" where
  "decision_key d = (dw_run_id d, dw_instrument_id d)"

definition find_observation :: "run_db \<Rightarrow> observation_row \<Rightarrow> observation_row option" where
  "find_observation db o' = List.find (\<lambda>x. observation_key x = observation_key o') (observation_rows db)"

definition find_decision :: "run_db \<Rightarrow> decision_row \<Rightarrow> decision_row option" where
  "find_decision db d = List.find (\<lambda>x. decision_key x = decision_key d) (decision_rows db)"

definition insert_observation :: "run_db \<Rightarrow> observation_row \<Rightarrow> run_db result" where
  "insert_observation db o' =
     (if \<not> observation_row_check o' then raise IntegrityError ''CHECK constraint failed: observations''
      else if find_observation db o' \<noteq> None then raise IntegrityError ''UNIQUE constraint failed: observations''
      else if find_run db (ow_run_id o') = None then raise IntegrityError ''FOREIGN KEY constraint failed''
      else Inr (db\<lparr>observation_rows := observation_rows db @ [o']\<rparr>))"

definition insert_decision :: "run_db \<Rightarrow> decision_row \<Rightarrow> run_db result" where
  "insert_decision db d =
     (if \<not> decision_row_check d then raise IntegrityError ''CHECK constraint failed: decisions''
      else if find_decision db d \<noteq> None then raise IntegrityError ''UNIQUE constraint failed: decisions''
      else if find_run db (dw_run_id d) = None then raise IntegrityError ''FOREIGN KEY constraint failed''
      else Inr (db\<lparr>decision_rows := decision_rows db @ [d]\<rparr>))"

section \<open>Runs\<close>

definition load_run :: "string \<Rightarrow> (run_db, run_record option) op" where
  "load_run rid db = (Inr (map_option run_record.truncate (find_run db rid)), db)"

definition new_row :: "run_record \<Rightarrow> run_row" where
  "new_row run = run_record.extend run (run_row.fields [] [] None)"

definition store_run :: "run_record \<Rightarrow> (run_db, unit) op" where
  "store_run run =
     sbind (sguard (\<not> (rn_git_commit run \<noteq> None \<and> rn_code_hash run = None)) ValueError
              ''new runs require code hash provenance'') (\<lambda>_.
     transaction (\<lambda>db.
       case find_run db (rn_run_id run) of
         None \<Rightarrow> rbind (insert_run (new_row run) db) (\<lambda>db'. Inr ((), db'))
       | Some r \<Rightarrow> if run_record.truncate r = run then Inr ((), db)
           else raise PersistenceConflictError ''PERSISTENCE_CONFLICT for run ID''))"

definition receipt_success_statuses :: "string list" where
  "receipt_success_statuses = [''SUCCEEDED'', ''SUCCEEDED_WITH_WARNINGS'']"

definition scheduler_failure_outcomes :: "string list" where
  "scheduler_failure_outcomes =
     [''FAILED'', ''OVERLAP_SKIPPED'', ''MAXIMUM_RUNTIME'', ''SCHEDULER_SHUTDOWN'', ''PROCESS_RESTART'']"

definition end_run :: "string \<Rightarrow> int \<Rightarrow> string option \<Rightarrow> string option \<Rightarrow> run_row \<Rightarrow> run_row" where
  "end_run st completed err outcome r =
     r\<lparr>rn_status := st, rn_completed_at_ms := Some completed, rn_error := err, scheduler_outcome := outcome\<rparr>"

definition running :: "string \<Rightarrow> run_row \<Rightarrow> bool" where
  "running rid r \<longleftrightarrow> rn_run_id r = rid \<and> rn_status r = ''RUNNING''"

definition loaded_run :: "string \<Rightarrow> string \<Rightarrow> (run_db, run_record) op" where
  "loaded_run rid msg = sbind (load_run rid) (\<lambda>res. slift (case res of
     None \<Rightarrow> raise RuntimeError msg | Some run \<Rightarrow> Inr run))"

definition finish_run ::
    "string \<Rightarrow> string \<Rightarrow> int \<Rightarrow> string option \<Rightarrow> string option \<Rightarrow> (run_db, run_record) op" where
  "finish_run rid st completed err outcome =
     sbind (sguard (st \<in> set [''SUCCEEDED'', ''FAILED'']) ValueError
              ''terminal run status must be SUCCEEDED or FAILED'') (\<lambda>_.
     sbind (sguard (outcome = None \<or> the outcome \<in> set (receipt_success_statuses @ scheduler_failure_outcomes))
              ValueError ''invalid scheduler outcome'') (\<lambda>_.
     sbind (transaction (\<lambda>db.
       case find_run db rid of
         None \<Rightarrow> raise KeyError ''unknown run ID''
       | Some r \<Rightarrow>
           if rn_status r = ''RUNNING'' then
             rbind (update_runs (running rid) (end_run st completed err outcome) db) (\<lambda>db'. Inr ((), db'))
           else if rn_status r \<noteq> st \<or> rn_completed_at_ms r \<noteq> Some completed \<or> rn_error r \<noteq> err
               \<or> scheduler_outcome r \<noteq> outcome then
             raise PersistenceConflictError ''PERSISTENCE_CONFLICT for terminal run state''
           else Inr ((), db))) (\<lambda>_.
     loaded_run rid ''completed run disappeared'')))"

definition scheduler_attempt_id :: "string \<Rightarrow> int \<Rightarrow> int \<Rightarrow> string" where
  "scheduler_attempt_id job started sequence =
     ''scheduler-attempt-'' @ hash_with_domain ''scheduler-attempt-v1'' (JArr [JStr job, JInt started, JInt sequence])"

definition scheduler_run :: "string \<Rightarrow> string \<Rightarrow> int \<Rightarrow> int \<Rightarrow> run_record" where
  "scheduler_run code_hash job started sequence =
     (let attempt = scheduler_attempt_id job started sequence; aligned = started div 60000 * 60000
      in \<lparr>rn_run_id = attempt, rn_status = ''RUNNING'', rn_started_at_ms = started, rn_completed_at_ms = None,
          rn_strategy_name = ''scheduler:'' @ job, rn_strategy_version = ''attempt-v1'',
          rn_strategy_config_hash = sha256_hex job, rn_provider_id = ''scheduler'',
          rn_market_type = ''LINEAR_PERPETUAL'', rn_market_config_hash = sha256_hex ''scheduler-attempt-v1'',
          rn_git_commit = None, rn_code_hash = Some code_hash, rn_data_start_open_ms = aligned,
          rn_data_end_close_ms = aligned + 59999, rn_data_hash = sha256_hex attempt, rn_error = None\<rparr>)"

definition start_scheduler_attempt :: "string \<Rightarrow> string \<Rightarrow> int \<Rightarrow> int \<Rightarrow> (run_db, string) op" where
  "start_scheduler_attempt code_hash job started sequence =
     sbind (sguard (1 \<le> length job \<and> length job \<le> 200) ValueError
              ''scheduler job ID must contain 1..200 characters'') (\<lambda>_.
     sbind (sguard (0 \<le> started) ValueError ''scheduler attempt time must be a non-negative integer'') (\<lambda>_.
     sbind (sguard (0 \<le> sequence) ValueError ''scheduler attempt sequence must be a non-negative integer'') (\<lambda>_.
     sbind (store_run (scheduler_run code_hash job started sequence)) (\<lambda>_.
     sreturn (scheduler_attempt_id job started sequence)))))"

definition finish_scheduler_attempt :: "string \<Rightarrow> string \<Rightarrow> int \<Rightarrow> (run_db, run_record) op" where
  "finish_scheduler_attempt attempt outcome completed =
     (let st = (if outcome \<in> set receipt_success_statuses then ''SUCCEEDED'' else ''FAILED'');
          err = (if st = ''SUCCEEDED'' then None
                 else Some (if outcome \<in> set scheduler_failure_outcomes then outcome else ''FAILED''))
      in finish_run attempt st completed err (Some outcome))"

section \<open>Evidence\<close>

definition put_observation :: "run_db \<Rightarrow> observation_row \<Rightarrow> run_db result" where
  "put_observation db o' =
     (case find_observation db o' of
        None \<Rightarrow> insert_observation db o'
      | Some x \<Rightarrow> if x = o' then Inr db
          else raise PersistenceConflictError ''PERSISTENCE_CONFLICT for observation primary key'')"

definition put_decision :: "run_db \<Rightarrow> decision_row \<Rightarrow> run_db result" where
  "put_decision db d =
     (case find_decision db d of
        None \<Rightarrow> insert_decision db d
      | Some x \<Rightarrow> if x = d then Inr db
          else raise PersistenceConflictError ''PERSISTENCE_CONFLICT for decision primary key'')"

definition store_observations :: "observation_record list \<Rightarrow> (run_db, unit) op" where
  "store_observations obs = transaction (\<lambda>db.
     rbind (rfoldM put_observation db (map observation_row_of obs)) (\<lambda>db'. Inr ((), db')))"

definition store_decisions :: "decision_record list \<Rightarrow> (run_db, unit) op" where
  "store_decisions ds = transaction (\<lambda>db.
     rbind (rfoldM put_decision db (map decision_row_of ds)) (\<lambda>db'. Inr ((), db')))"

definition load_observations :: "string \<Rightarrow> (run_db, observation_row list) op" where
  "load_observations rid db = (Inr (sort_key (\<lambda>x. (ow_instrument_id x, ow_signal_id x))
     (filter (\<lambda>x. ow_run_id x = rid) (observation_rows db))), db)"

definition load_decisions :: "string \<Rightarrow> (run_db, decision_row list) op" where
  "load_decisions rid db = (Inr (sort_key dw_instrument_id
     (filter (\<lambda>x. dw_run_id x = rid) (decision_rows db))), db)"

text \<open>The evidence and the terminal state of a run in one transaction.\<close>

definition succeed :: "int \<Rightarrow> run_row \<Rightarrow> run_row" where
  "succeed completed r = r\<lparr>rn_status := ''SUCCEEDED'', rn_completed_at_ms := Some completed, rn_error := None\<rparr>"

definition commit_run ::
    "string \<Rightarrow> observation_record list \<Rightarrow> decision_record list \<Rightarrow> int \<Rightarrow> (run_db, run_record) op" where
  "commit_run rid obs ds completed =
     sbind (sguard (list_all (\<lambda>x. or_run_id x = rid) obs \<and> list_all (\<lambda>d. dr_run_id d = rid) ds)
              PersistenceConflictError ''PERSISTENCE_CONFLICT for evidence run ID'') (\<lambda>_.
     sbind (transaction (\<lambda>db.
       rbind (rguard (case find_run db rid of None \<Rightarrow> False | Some r \<Rightarrow> rn_status r = ''RUNNING'')
                PersistenceConflictError ''run is not in RUNNING state'') (\<lambda>_.
       rbind (rfoldM insert_observation db (map observation_row_of obs)) (\<lambda>db1.
       rbind (rfoldM insert_decision db1 (map decision_row_of ds)) (\<lambda>db2.
       rbind (update_runs (running rid) (succeed completed) db2) (\<lambda>db3. Inr ((), db3))))))) (\<lambda>_.
     loaded_run rid ''committed run disappeared''))"

definition stale_run :: "int \<Rightarrow> bool \<Rightarrow> run_row \<Rightarrow> bool" where
  "stale_run completed include_scheduler r \<longleftrightarrow> rn_status r = ''RUNNING'' \<and> rn_started_at_ms r \<le> completed
     \<and> (include_scheduler \<or> rn_provider_id r \<noteq> ''scheduler'')"

definition fail_stale :: "int \<Rightarrow> string \<Rightarrow> run_row \<Rightarrow> run_row" where
  "fail_stale completed reason r =
     r\<lparr>rn_status := ''FAILED'', rn_completed_at_ms := Some completed, rn_error := Some reason\<rparr>"

definition recover_running_runs :: "int \<Rightarrow> string \<Rightarrow> bool \<Rightarrow> (run_db, string list) op" where
  "recover_running_runs completed reason include_scheduler =
     sbind (sguard (0 \<le> completed) ValueError ''recovery time must be a non-negative integer'') (\<lambda>_.
     sbind (sguard (1 \<le> length reason \<and> length reason \<le> 4000) ValueError
              ''recovery reason must contain 1..4000 characters'') (\<lambda>_.
     transaction (\<lambda>db.
       let ids = sort (map rn_run_id (filter (stale_run completed include_scheduler) (run_rows db)))
       in rbind (update_runs (stale_run completed include_scheduler) (fail_stale completed reason) db) (\<lambda>db'.
          Inr (ids, db')))))"

section \<open>Notification evidence\<close>

definition name_ok :: "string \<Rightarrow> bool" where
  "name_ok s \<longleftrightarrow> 1 \<le> length s \<and> length s \<le> 64"

definition validate_notification_identity :: "string \<Rightarrow> string \<Rightarrow> unit result" where
  "validate_notification_identity destination dedup =
     rbind (rguard (name_ok destination) ValueError ''invalid notification destination identity'') (\<lambda>_.
     rguard (is_hex64 dedup) ValueError ''invalid notification deduplication identity'')"

definition validate_dedup_record :: "dedup_record \<Rightarrow> unit result" where
  "validate_dedup_record r =
     rbind (rguard (dd_run_id r \<noteq> []) ValueError ''invalid notification run identity'') (\<lambda>_.
     rbind (validate_notification_identity (dd_destination_id r) (dd_deduplication_id r)) (\<lambda>_.
     rguard (0 \<le> delivered_at_seconds r) ValueError ''invalid notification delivery time''))"

definition http_reason :: "int \<Rightarrow> string" where
  "http_reason code = ''HTTP_'' @ int_text code"

definition outcome_valid :: "'a delivery_outcome_scheme \<Rightarrow> bool" where
  "outcome_valid r \<longleftrightarrow>
     (if dl_outcome r = ''SUCCESS'' then
        1 \<le> dl_attempts r \<and> dl_reason_code r = None
        \<and> (case dl_status_code r of None \<Rightarrow> False | Some c \<Rightarrow> 200 \<le> c \<and> c < 300)
      else dl_outcome r = ''FAILURE'' \<and>
        ((dl_reason_code r = Some ''ADAPTER_UNAVAILABLE'' \<and> dl_attempts r = 0 \<and> dl_status_code r = None)
         \<or> (dl_reason_code r = Some ''TRANSPORT_ERROR'' \<and> 1 \<le> dl_attempts r \<and> dl_status_code r = None)
         \<or> (case dl_status_code r of None \<Rightarrow> False
            | Some c \<Rightarrow> 100 \<le> c \<and> c \<le> 599 \<and> dl_reason_code r = Some (http_reason c))))"

definition validate_notification_outcome :: "string \<Rightarrow> 'a delivery_outcome_scheme \<Rightarrow> unit result" where
  "validate_notification_outcome rid r =
     rbind (rguard (rid \<noteq> []) ValueError ''invalid notification run identity'') (\<lambda>_.
     rbind (rguard (name_ok (dl_destination_id r)) ValueError ''invalid notification destination identity'') (\<lambda>_.
     rbind (rguard (name_ok (dl_adapter_id r)) ValueError ''invalid notification adapter identity'') (\<lambda>_.
     rbind (rguard (0 \<le> attempted_at_seconds r) ValueError ''invalid notification outcome time'') (\<lambda>_.
     rbind (rguard (0 \<le> dl_attempts r \<and> dl_attempts r \<le> 5) ValueError ''invalid notification attempt count'') (\<lambda>_.
     rguard (outcome_valid r) ValueError ''invalid notification outcome'')))))"

text \<open>Reading a column validates every item again.\<close>

definition dedup_entries :: "run_row \<Rightarrow> dedup_entry list result" where
  "dedup_entries row = rbind (rguard
     (list_all (\<lambda>e. is_ok (validate_notification_identity (dd_destination_id e) (dd_deduplication_id e))
        \<and> 0 \<le> delivered_at_seconds e) (notification_dedup row))
     RuntimeError ''invalid notification deduplication state'') (\<lambda>_. Inr (notification_dedup row))"

definition outcome_entries :: "run_row \<Rightarrow> delivery_outcome list result" where
  "outcome_entries row = rbind (rguard
     (length (notification_outcomes row) \<le> 100
      \<and> list_all (\<lambda>e. is_ok (validate_notification_outcome (rn_run_id row) e)) (notification_outcomes row))
     RuntimeError ''invalid notification outcome state'') (\<lambda>_. Inr (notification_outcomes row))"

definition notification_delivered_at :: "string \<Rightarrow> string \<Rightarrow> (run_db, int option) op" where
  "notification_delivered_at destination dedup =
     sbind (slift (validate_notification_identity destination dedup)) (\<lambda>_ db.
       (rbind (rmapM dedup_entries (run_rows db)) (\<lambda>cols.
          let times = map delivered_at_seconds (filter (\<lambda>e. dd_destination_id e = destination
                \<and> dd_deduplication_id e = dedup) (concat cols))
          in Inr (if times = [] then None else Some (Max (set times)))), db))"

definition last_items :: "nat \<Rightarrow> 'a list \<Rightarrow> 'a list" where
  "last_items n xs = drop (length xs - n) xs"

definition same_delivery :: "'a dedup_entry_scheme \<Rightarrow> 'b dedup_entry_scheme \<Rightarrow> bool" where
  "same_delivery a b \<longleftrightarrow> dd_destination_id a = dd_destination_id b \<and> dd_deduplication_id a = dd_deduplication_id b"

definition merge_dedup :: "dedup_record list \<Rightarrow> dedup_entry list \<Rightarrow> dedup_entry list" where
  "merge_dedup additions current =
     filter (\<lambda>e. \<not> list_ex (same_delivery e) additions) current @ map dedup_entry.truncate additions"

definition set_column :: "string \<Rightarrow> (run_row \<Rightarrow> run_row) \<Rightarrow> run_db \<Rightarrow> run_db result" where
  "set_column rid f db = update_runs (\<lambda>r. rn_run_id r = rid) f db"

definition notification_row :: "run_db \<Rightarrow> string \<Rightarrow> run_row result" where
  "notification_row db rid =
     (case find_run db rid of None \<Rightarrow> raise KeyError ''unknown notification run identity'' | Some r \<Rightarrow> Inr r)"

text \<open>\<^verbatim>\<open>by_run\<close>: the records of each run, runs in the order of their first record.\<close>

definition by_run :: "('a \<Rightarrow> string) \<Rightarrow> 'a list \<Rightarrow> (string \<times> 'a list) list" where
  "by_run f xs = map (\<lambda>rid. (rid, filter (\<lambda>x. f x = rid) xs)) (rev (remdups (rev (map f xs))))"

definition add_deliveries :: "run_db \<Rightarrow> string \<times> dedup_record list \<Rightarrow> run_db result" where
  "add_deliveries db g =
     rbind (notification_row db (fst g)) (\<lambda>row.
     rbind (dedup_entries row) (\<lambda>current.
     set_column (fst g) (notification_dedup_update (\<lambda>_. merge_dedup (snd g) current)) db))"

definition store_notification_deliveries :: "dedup_record list \<Rightarrow> (run_db, unit) op" where
  "store_notification_deliveries records =
     sbind (slift (rbind (rmapM validate_dedup_record records) (\<lambda>_. Inr ()))) (\<lambda>_.
     transaction (\<lambda>db. rbind (rfoldM add_deliveries db (by_run dd_run_id records)) (\<lambda>db'. Inr ((), db'))))"

definition add_outcomes :: "run_db \<Rightarrow> string \<times> delivery_record list \<Rightarrow> run_db result" where
  "add_outcomes db g =
     rbind (notification_row db (fst g)) (\<lambda>row.
     rbind (outcome_entries row) (\<lambda>current.
     set_column (fst g) (notification_outcomes_update (\<lambda>_.
       last_items 100 (current @ map delivery_outcome.truncate (snd g)))) db))"

definition store_notification_outcomes :: "delivery_record list \<Rightarrow> (run_db, unit) op" where
  "store_notification_outcomes records =
     sbind (slift (rbind (rmapM (\<lambda>r. validate_notification_outcome (dl_run_id r) r) records) (\<lambda>_. Inr ()))) (\<lambda>_.
     transaction (\<lambda>db. rbind (rfoldM add_outcomes db (by_run dl_run_id records)) (\<lambda>db'. Inr ((), db'))))"

definition matching_evidence :: "delivery_record \<Rightarrow> dedup_record \<Rightarrow> unit result" where
  "matching_evidence outcome r =
     rbind (validate_dedup_record r) (\<lambda>_.
     rguard (dd_run_id r = dl_run_id outcome \<and> dd_destination_id r = dl_destination_id outcome
         \<and> delivered_at_seconds r = attempted_at_seconds outcome)
       ValueError ''notification delivery evidence does not match outcome'')"

definition store_successful_notification_delivery ::
    "delivery_record \<Rightarrow> dedup_record list \<Rightarrow> (run_db, unit) op" where
  "store_successful_notification_delivery outcome dedups =
     sbind (slift (validate_notification_outcome (dl_run_id outcome) outcome)) (\<lambda>_.
     sbind (sguard (dl_outcome outcome = ''SUCCESS'' \<and> dedups \<noteq> []) ValueError
              ''successful notification delivery evidence is required'') (\<lambda>_.
     sbind (slift (rbind (rmapM (matching_evidence outcome) dedups) (\<lambda>_. Inr ()))) (\<lambda>_.
     transaction (\<lambda>db.
       rbind (notification_row db (dl_run_id outcome)) (\<lambda>row.
       rbind (outcome_entries row) (\<lambda>outcomes.
       rbind (dedup_entries row) (\<lambda>current.
       rbind (set_column (dl_run_id outcome) (notification_outcomes_update (\<lambda>_.
                last_items 100 (outcomes @ [delivery_outcome.truncate outcome]))) db) (\<lambda>db1.
       rbind (set_column (dl_run_id outcome) (notification_dedup_update (\<lambda>_. merge_dedup dedups current)) db1) (\<lambda>db2.
       Inr ((), db2))))))))))"

definition load_notification_outcomes :: "string \<Rightarrow> (run_db, delivery_outcome list) op" where
  "load_notification_outcomes rid db = (rbind (notification_row db rid) outcome_entries, db)"

section \<open>The step relation\<close>

definition empty_run_db :: run_db where
  "empty_run_db = \<lparr>run_rows = [], observation_rows = [], decision_rows = []\<rparr>"

text \<open>
  One step is one call of the port on the shared database, whether it returns or raises. Calls of
  several processes interleave as sequences of steps, since every call is one transaction.
\<close>

inductive run_step :: "run_db \<Rightarrow> run_db \<Rightarrow> bool" where
  step_store_run: "store_run run db = (r, db') \<Longrightarrow> run_step db db'"
| step_finish_run: "finish_run rid st completed err outcome db = (r, db') \<Longrightarrow> run_step db db'"
| step_start_attempt: "start_scheduler_attempt code job started sequence db = (r, db') \<Longrightarrow> run_step db db'"
| step_finish_attempt: "finish_scheduler_attempt attempt outcome completed db = (r, db') \<Longrightarrow> run_step db db'"
| step_observations: "store_observations obs db = (r, db') \<Longrightarrow> run_step db db'"
| step_decisions: "store_decisions ds db = (r, db') \<Longrightarrow> run_step db db'"
| step_commit: "commit_run rid obs ds completed db = (r, db') \<Longrightarrow> run_step db db'"
| step_recover: "recover_running_runs completed reason include_scheduler db = (r, db') \<Longrightarrow> run_step db db'"
| step_deliveries: "store_notification_deliveries dedups db = (r, db') \<Longrightarrow> run_step db db'"
| step_outcomes: "store_notification_outcomes outcomes db = (r, db') \<Longrightarrow> run_step db db'"
| step_success: "store_successful_notification_delivery outcome dedups db = (r, db') \<Longrightarrow> run_step db db'"

inductive run_reachable :: "run_db \<Rightarrow> run_db \<Rightarrow> bool" for db0 :: run_db where
  reach_start: "run_reachable db0 db0"
| reach_step: "run_reachable db0 db \<Longrightarrow> run_step db db' \<Longrightarrow> run_reachable db0 db'"

inductive_cases run_stepE: "run_step db db'"

definition dedup_ok :: "dedup_entry \<Rightarrow> bool" where
  "dedup_ok e \<longleftrightarrow> is_ok (validate_notification_identity (dd_destination_id e) (dd_deduplication_id e))
     \<and> 0 \<le> delivered_at_seconds e"

definition outcome_ok :: "string \<Rightarrow> delivery_outcome \<Rightarrow> bool" where
  "outcome_ok rid e \<longleftrightarrow> is_ok (validate_notification_outcome rid e)"

text \<open>Changes that only end runs: the rows they select are running.\<close>

definition ends_runs :: "(run_row \<Rightarrow> bool) \<Rightarrow> (run_row \<Rightarrow> run_row) \<Rightarrow> bool" where
  "ends_runs Q f \<longleftrightarrow> (\<forall>r. Q r \<longrightarrow> rn_status r = ''RUNNING'') \<and>
     (\<forall>r. rn_run_id (f r) = rn_run_id r \<and> notification_dedup (f r) = notification_dedup r
        \<and> notification_outcomes (f r) = notification_outcomes r)"

lemma last_items_length: "length (last_items n xs) \<le> n"
  by (simp add: last_items_def)

lemma last_items_all: "list_all Q xs \<Longrightarrow> list_all Q (last_items n xs)"
  by (auto simp: list_all_iff last_items_def dest: in_set_dropD)

lemma rmapM_all_ok: "rmapM f xs = Inr ys \<Longrightarrow> \<forall>x\<in>set xs. is_ok (f x)"
  by (induction xs arbitrary: ys) (auto simp: is_ok_iff)

lemma merge_dedup_ok:
  assumes "dedup_entries row = Inr current" "\<forall>r\<in>set rs. is_ok (validate_dedup_record r)"
  shows "list_all dedup_ok (merge_dedup rs current)"
proof -
  have "\<And>r. is_ok (validate_dedup_record r) \<Longrightarrow> dedup_ok (dedup_entry.truncate r)"
    by (auto simp: is_ok_iff validate_dedup_record_def dedup_ok_def dedup_entry.truncate_def)
  with assms show ?thesis
    by (auto simp: dedup_entries_def merge_dedup_def list_all_iff dedup_ok_def)
qed

lemma outcome_truncate [simp]:
  "validate_notification_outcome rid (delivery_outcome.truncate r) = validate_notification_outcome rid r"
  by (simp add: validate_notification_outcome_def outcome_valid_def delivery_outcome.truncate_def
      cong: option.case_cong if_cong)

lemma find_run_Some: "find_run db rid = Some r \<Longrightarrow> r \<in> set (run_rows db) \<and> rn_run_id r = rid"
  by (auto simp: find_run_def find_Some_iff)

lemma notification_row_Inr: "notification_row db rid = Inr r \<longleftrightarrow> find_run db rid = Some r"
  by (auto simp: notification_row_def split: option.splits)

lemma outcome_entries_ok:
  assumes "notification_row db rid = Inr row" "outcome_entries row = Inr xs"
  shows "list_all (outcome_ok rid) xs"
  using assms find_run_Some [of db rid row]
  by (auto simp: notification_row_Inr outcome_entries_def outcome_ok_def list_all_iff)

text \<open>
  What a set of databases must be closed under to be closed under the calls of the port: the
  statements the calls are made of. The notification calls only change the notification columns.
\<close>

locale notification_closed =
  fixes P :: "run_db \<Rightarrow> bool"
  assumes closed_dedup: "P db \<Longrightarrow> list_all dedup_ok es \<Longrightarrow>
      set_column rid (notification_dedup_update (\<lambda>_. es)) db = Inr db' \<Longrightarrow> P db'"
    and closed_outcomes: "P db \<Longrightarrow> length xs \<le> 100 \<Longrightarrow> list_all (outcome_ok rid) xs \<Longrightarrow>
      set_column rid (notification_outcomes_update (\<lambda>_. xs)) db = Inr db' \<Longrightarrow> P db'"
begin

lemma keeps_read: "keeps P (\<lambda>db. (f db, db))"
  by (simp add: keeps_def)

lemma add_deliveries_closed:
  assumes "P db" "add_deliveries db (rid, rs) = Inr db'" "\<forall>r\<in>set rs. is_ok (validate_dedup_record r)"
  shows "P db'"
proof -
  from assms(2) obtain row current where c: "dedup_entries row = Inr current"
    and u: "set_column rid (notification_dedup_update (\<lambda>_. merge_dedup rs current)) db = Inr db'"
    by (auto simp: add_deliveries_def)
  have "list_all dedup_ok (merge_dedup rs current)"
    using c assms(3) by (rule merge_dedup_ok)
  from closed_dedup [OF assms(1) this u] show ?thesis .
qed

lemma add_outcomes_closed:
  assumes "P db" "add_outcomes db (rid, rs) = Inr db'" "\<forall>r\<in>set rs. is_ok (validate_notification_outcome rid r)"
  shows "P db'"
proof -
  from assms(2) obtain row current where row: "notification_row db rid = Inr row" and c: "outcome_entries row = Inr current"
    and u: "set_column rid (notification_outcomes_update (\<lambda>_. last_items 100 (current @ map delivery_outcome.truncate rs))) db = Inr db'"
    by (auto simp: add_outcomes_def)
  have "list_all (outcome_ok rid) (current @ map delivery_outcome.truncate rs)"
    using outcome_entries_ok [OF row c] assms(3) by (auto simp: list_all_iff outcome_ok_def)
  then show ?thesis by (intro closed_outcomes [OF assms(1) _ _ u]) (simp_all add: last_items_length last_items_all)
qed

lemma fold_deliveries:
  assumes "P db" "rfoldM add_deliveries db (by_run dd_run_id rs) = Inr db'" "\<forall>r\<in>set rs. is_ok (validate_dedup_record r)"
  shows "P db'"
proof (rule rfoldM_invariant [where P = P, OF assms(2,1)])
  fix s g s'
  assume "P s" "g \<in> set (by_run dd_run_id rs)" "add_deliveries s g = Inr s'"
  then show "P s'" using assms(3) by (cases g) (auto simp: by_run_def intro: add_deliveries_closed)
qed

lemma fold_outcomes:
  assumes "P db" "rfoldM add_outcomes db (by_run dl_run_id rs) = Inr db'"
    "\<forall>r\<in>set rs. is_ok (validate_notification_outcome (dl_run_id r) r)"
  shows "P db'"
proof (rule rfoldM_invariant [where P = P, OF assms(2,1)])
  fix s g s'
  assume "P s" "g \<in> set (by_run dl_run_id rs)" "add_outcomes s g = Inr s'"
  moreover from this(2) have "\<forall>r\<in>set (snd g). is_ok (validate_notification_outcome (fst g) r)"
    using assms(3) by (auto simp: by_run_def) metis
  ultimately show "P s'" using add_outcomes_closed [of s "fst g" "snd g" s'] by simp
qed

lemma keeps_notifications:
  "keeps P (store_notification_deliveries dedups)" "keeps P (store_notification_outcomes outcomes)"
  "keeps P (store_successful_notification_delivery outcome dedups)"
proof -
  show "keeps P (store_notification_deliveries dedups)"
    unfolding store_notification_deliveries_def
  proof (rule keeps_sbind_val [OF keeps_slift], rule keeps_transaction)
    fix s :: run_db and u s' db db' and y :: unit
    assume "slift (rbind (rmapM validate_dedup_record dedups) (\<lambda>_. Inr ())) s = (Inr u, s')"
    then have ok: "\<forall>r\<in>set dedups. is_ok (validate_dedup_record r)" by (auto dest: rmapM_all_ok)
    assume "P db" "rbind (rfoldM add_deliveries db (by_run dd_run_id dedups)) (\<lambda>db'. Inr ((), db')) = Inr (y, db')"
    then show "P db'" using fold_deliveries ok by auto
  qed
  show "keeps P (store_notification_outcomes outcomes)"
    unfolding store_notification_outcomes_def
  proof (rule keeps_sbind_val [OF keeps_slift], rule keeps_transaction)
    fix s :: run_db and u s' db db' and y :: unit
    assume "slift (rbind (rmapM (\<lambda>r. validate_notification_outcome (dl_run_id r) r) outcomes) (\<lambda>_. Inr ())) s = (Inr u, s')"
    then have ok: "\<forall>r\<in>set outcomes. is_ok (validate_notification_outcome (dl_run_id r) r)" by (auto dest: rmapM_all_ok)
    assume "P db" "rbind (rfoldM add_outcomes db (by_run dl_run_id outcomes)) (\<lambda>db'. Inr ((), db')) = Inr (y, db')"
    then show "P db'" using fold_outcomes ok by auto
  qed
  show "keeps P (store_successful_notification_delivery outcome dedups)"
    unfolding store_successful_notification_delivery_def
  proof (rule keeps_sbind_val [OF keeps_slift], rule keeps_sbind [OF keeps_sguard], rule keeps_sbind_val [OF keeps_slift], rule keeps_transaction)
    fix s s' t t' db db' :: run_db and u v and y :: unit
    assume v: "slift (validate_notification_outcome (dl_run_id outcome) outcome) s = (Inr u, s')"
    assume "slift (rbind (rmapM (matching_evidence outcome) dedups) (\<lambda>_. Inr ())) t = (Inr v, t')"
    then have ok: "\<forall>r\<in>set dedups. is_ok (validate_dedup_record r)"
      by (auto dest!: rmapM_all_ok simp: matching_evidence_def is_ok_iff)
    assume p: "P db" and "rbind (notification_row db (dl_run_id outcome)) (\<lambda>row.
       rbind (outcome_entries row) (\<lambda>outcomes.
       rbind (dedup_entries row) (\<lambda>current.
       rbind (set_column (dl_run_id outcome) (notification_outcomes_update (\<lambda>_.
                last_items 100 (outcomes @ [delivery_outcome.truncate outcome]))) db) (\<lambda>db1.
       rbind (set_column (dl_run_id outcome) (notification_dedup_update (\<lambda>_. merge_dedup dedups current)) db1) (\<lambda>db2.
       Inr ((), db2)))))) = Inr (y, db')"
    then obtain row outs current db1 where row: "notification_row db (dl_run_id outcome) = Inr row"
      and o: "outcome_entries row = Inr outs" and d: "dedup_entries row = Inr current"
      and s1: "set_column (dl_run_id outcome) (notification_outcomes_update (\<lambda>_.
                last_items 100 (outs @ [delivery_outcome.truncate outcome]))) db = Inr db1"
      and s2: "set_column (dl_run_id outcome) (notification_dedup_update (\<lambda>_. merge_dedup dedups current)) db1 = Inr db'"
      by auto
    have "list_all (outcome_ok (dl_run_id outcome)) (outs @ [delivery_outcome.truncate outcome])"
      using outcome_entries_ok [OF row o] v by (auto simp: outcome_ok_def is_ok_iff)
    then have "P db1" by (intro closed_outcomes [OF p _ _ s1]) (simp_all add: last_items_length last_items_all)
    from closed_dedup [OF this merge_dedup_ok [OF d ok] s2] show "P db'" .
  qed
qed

end

locale run_closed = notification_closed +
  assumes closed_run: "P db \<Longrightarrow> insert_run (new_row run) db = Inr db' \<Longrightarrow> P db'"
    and closed_end: "P db \<Longrightarrow> ends_runs Q f \<Longrightarrow> update_runs Q f db = Inr db' \<Longrightarrow> P db'"
    and closed_observation: "P db \<Longrightarrow> insert_observation db ob = Inr db' \<Longrightarrow> P db'"
    and closed_decision: "P db \<Longrightarrow> insert_decision db d = Inr db' \<Longrightarrow> P db'"
begin

lemma keeps_store_run: "keeps P (store_run run)"
  unfolding store_run_def
  by (intro keeps_sbind keeps_sguard keeps_transaction)
    (auto split: option.splits if_splits intro: closed_run)

lemma keeps_loaded: "keeps P (loaded_run rid msg)"
  unfolding loaded_run_def by (intro keeps_sbind keeps_slift) (simp add: keeps_def load_run_def)

lemma keeps_finish_run: "keeps P (finish_run rid st completed err outcome)"
  unfolding finish_run_def
proof (intro keeps_sbind keeps_sguard keeps_transaction keeps_loaded)
  have e: "ends_runs (running rid) (end_run st completed err outcome)"
    by (simp add: ends_runs_def running_def end_run_def)
  fix db x db'
  assume "P db"
  then show "(case find_run db rid of None \<Rightarrow> raise KeyError ''unknown run ID''
       | Some r \<Rightarrow>
           if rn_status r = ''RUNNING'' then
             rbind (update_runs (running rid) (end_run st completed err outcome) db) (\<lambda>db'. Inr ((), db'))
           else if rn_status r \<noteq> st \<or> rn_completed_at_ms r \<noteq> Some completed \<or> rn_error r \<noteq> err
               \<or> scheduler_outcome r \<noteq> outcome then
             raise PersistenceConflictError ''PERSISTENCE_CONFLICT for terminal run state''
           else Inr ((), db)) = Inr (x, db') \<Longrightarrow> P db'"
    by (auto split: option.splits if_splits intro: closed_end [OF _ e])
qed

lemma keeps_attempts:
  "keeps P (start_scheduler_attempt code job started sequence)"
  "keeps P (finish_scheduler_attempt attempt outcome completed)"
  unfolding start_scheduler_attempt_def finish_scheduler_attempt_def Let_def
  by (intro keeps_sbind keeps_sguard keeps_store_run keeps_sreturn keeps_finish_run)+

lemma fold_observations: "P db \<Longrightarrow> rfoldM insert_observation db rows = Inr db' \<Longrightarrow> P db'"
  by (rule rfoldM_invariant [where P = P]) (auto intro: closed_observation)

lemma fold_decisions: "P db \<Longrightarrow> rfoldM insert_decision db rows = Inr db' \<Longrightarrow> P db'"
  by (rule rfoldM_invariant [where P = P]) (auto intro: closed_decision)

lemma put_closed:
  "P db \<Longrightarrow> put_observation db ob = Inr db' \<Longrightarrow> P db'"
  "P db \<Longrightarrow> put_decision db d = Inr db' \<Longrightarrow> P db'"
  by (auto simp: put_observation_def put_decision_def split: option.splits if_splits
      intro: closed_observation closed_decision)

lemma keeps_evidence: "keeps P (store_observations obs)" "keeps P (store_decisions ds)"
  unfolding store_observations_def store_decisions_def
  by (auto intro!: keeps_transaction elim!: rfoldM_invariant [where P = P] intro: put_closed)

lemma keeps_commit_run: "keeps P (commit_run rid obs ds completed)"
proof -
  have e: "ends_runs (running rid) (succeed completed)"
    by (simp add: ends_runs_def running_def succeed_def)
  show ?thesis
    unfolding commit_run_def
    by (intro keeps_sbind keeps_sguard keeps_transaction keeps_loaded)
      (auto, meson closed_end [OF _ e] fold_observations fold_decisions)
qed

lemma keeps_recover: "keeps P (recover_running_runs completed reason include_scheduler)"
proof -
  have e: "ends_runs (stale_run completed include_scheduler) (fail_stale completed reason)"
    by (simp add: ends_runs_def stale_run_def fail_stale_def)
  show ?thesis
    unfolding recover_running_runs_def
    by (intro keeps_sbind keeps_sguard keeps_transaction) (auto simp: Let_def intro: closed_end [OF _ e])
qed

lemmas keeps_calls = keeps_store_run keeps_finish_run keeps_attempts keeps_evidence keeps_commit_run
  keeps_recover keeps_notifications

lemma closed_step:
  assumes "run_step db db'" "P db"
  shows "P db'"
  using assms(1) by cases (rule keepsD, rule keeps_calls, rule assms(2), assumption)+

lemma closed_reachable: "run_reachable db0 db \<Longrightarrow> P db0 \<Longrightarrow> P db"
  by (induction rule: run_reachable.induct) (auto intro: closed_step)

end

section \<open>The constraints hold in every reachable database\<close>

definition columns_ok :: "run_row \<Rightarrow> bool" where
  "columns_ok r \<longleftrightarrow> list_all dedup_ok (notification_dedup r)
     \<and> length (notification_outcomes r) \<le> 100 \<and> list_all (outcome_ok (rn_run_id r)) (notification_outcomes r)"

definition run_ids :: "run_db \<Rightarrow> string list" where
  "run_ids db = map rn_run_id (run_rows db)"

definition run_db_wf :: "run_db \<Rightarrow> bool" where
  "run_db_wf db \<longleftrightarrow>
     distinct (run_ids db) \<and> list_all (\<lambda>r. run_row_check r \<and> columns_ok r) (run_rows db)
     \<and> distinct (map observation_key (observation_rows db))
     \<and> list_all (\<lambda>x. observation_row_check x \<and> ow_run_id x \<in> set (run_ids db)) (observation_rows db)
     \<and> distinct (map decision_key (decision_rows db))
     \<and> list_all (\<lambda>d. decision_row_check d \<and> dw_run_id d \<in> set (run_ids db)) (decision_rows db)"

lemma find_run_None: "find_run db rid = None \<longleftrightarrow> rid \<notin> set (run_ids db)"
  by (auto simp: find_run_def find_None_iff run_ids_def)

lemma new_row_simps [simp]:
  "rn_run_id (new_row run) = rn_run_id run" "rn_status (new_row run) = rn_status run"
  "notification_dedup (new_row run) = []" "notification_outcomes (new_row run) = []"
  "scheduler_outcome (new_row run) = None" "run_record.truncate (new_row run) = run"
  by (simp_all add: new_row_def run_record.defs run_row.fields_def)

lemma update_runs_Inr:
  assumes "update_runs Q f db = Inr db'"
  shows "run_rows db' = map (\<lambda>r. if Q r then f r else r) (run_rows db)"
    "observation_rows db' = observation_rows db" "decision_rows db' = decision_rows db"
    "\<And>r. r \<in> set (run_rows db) \<Longrightarrow> Q r \<Longrightarrow> run_row_check (f r)"
  using assms by (auto simp: update_runs_def list_all_iff split: if_splits)

lemma update_runs_wf:
  assumes wf: "run_db_wf db" and up: "update_runs Q f db = Inr db'"
    and ids: "\<And>r. rn_run_id (f r) = rn_run_id r"
    and cols: "\<And>r. Q r \<Longrightarrow> columns_ok r \<Longrightarrow> columns_ok (f r)"
  shows "run_db_wf db'"
proof -
  note u = update_runs_Inr [OF up]
  have i: "run_ids db' = run_ids db" by (simp add: run_ids_def u(1) o_def ids if_distrib cong: if_cong)
  have "list_all (\<lambda>r. run_row_check r \<and> columns_ok r) (run_rows db')"
    using wf u(4) cols by (auto simp: run_db_wf_def list_all_iff u(1))
  with wf show ?thesis by (simp add: run_db_wf_def i u(2,3))
qed

lemma insert_run_wf:
  assumes "run_db_wf db" "insert_run (new_row run) db = Inr db'"
  shows "run_db_wf db'"
proof -
  from assms(2) have n: "run_row_check (new_row run)" "rn_run_id run \<notin> set (run_ids db)"
    and d: "db' = db\<lparr>run_rows := run_rows db @ [new_row run]\<rparr>"
    by (auto simp: insert_run_def find_run_None [symmetric] split: if_splits)
  have ids: "run_ids db' = run_ids db @ [rn_run_id run]" by (simp add: d run_ids_def)
  from assms(1) n show ?thesis
    unfolding run_db_wf_def ids by (auto simp: d columns_ok_def list_all_iff)
qed

lemma insert_observation_Inr:
  assumes "insert_observation db ob = Inr db'"
  shows "db' = db\<lparr>observation_rows := observation_rows db @ [ob]\<rparr>" "observation_row_check ob"
    "observation_key ob \<notin> observation_key ` set (observation_rows db)" "ow_run_id ob \<in> set (run_ids db)"
proof -
  from assms have i: "db' = db\<lparr>observation_rows := observation_rows db @ [ob]\<rparr>" "observation_row_check ob"
    "find_observation db ob = None" "find_run db (ow_run_id ob) \<noteq> None"
    by (auto simp: insert_observation_def split: if_splits)
  then show "db' = db\<lparr>observation_rows := observation_rows db @ [ob]\<rparr>" "observation_row_check ob" by simp_all
  from i(3) show "observation_key ob \<notin> observation_key ` set (observation_rows db)"
    by (auto simp: find_observation_def find_None_iff)
  from i(4) show "ow_run_id ob \<in> set (run_ids db)" using find_run_None [of db "ow_run_id ob"] by simp
qed

lemma insert_decision_Inr:
  assumes "insert_decision db d = Inr db'"
  shows "db' = db\<lparr>decision_rows := decision_rows db @ [d]\<rparr>" "decision_row_check d"
    "decision_key d \<notin> decision_key ` set (decision_rows db)" "dw_run_id d \<in> set (run_ids db)"
proof -
  from assms have i: "db' = db\<lparr>decision_rows := decision_rows db @ [d]\<rparr>" "decision_row_check d"
    "find_decision db d = None" "find_run db (dw_run_id d) \<noteq> None"
    by (auto simp: insert_decision_def split: if_splits)
  then show "db' = db\<lparr>decision_rows := decision_rows db @ [d]\<rparr>" "decision_row_check d" by simp_all
  from i(3) show "decision_key d \<notin> decision_key ` set (decision_rows db)"
    by (auto simp: find_decision_def find_None_iff)
  from i(4) show "dw_run_id d \<in> set (run_ids db)" using find_run_None [of db "dw_run_id d"] by simp
qed

interpretation wf: run_closed run_db_wf
proof
  fix db db' :: run_db
  assume wf: "run_db_wf db"
  show "run_db_wf db'" if "insert_run (new_row run) db = Inr db'" for run
    using wf that by (rule insert_run_wf)
  show "run_db_wf db'" if "ends_runs Q f" "update_runs Q f db = Inr db'" for Q f
    using that(1) by (intro update_runs_wf [OF wf that(2)]) (auto simp: ends_runs_def columns_ok_def)
  show "run_db_wf db'" if "list_all dedup_ok es" "set_column rid (notification_dedup_update (\<lambda>_. es)) db = Inr db'" for es rid
    using that(1) by (intro update_runs_wf [OF wf that(2) [unfolded set_column_def]]) (auto simp: columns_ok_def)
  show "run_db_wf db'" if "length xs \<le> 100" "list_all (outcome_ok rid) xs"
    "set_column rid (notification_outcomes_update (\<lambda>_. xs)) db = Inr db'" for xs rid
    using that(1,2) by (intro update_runs_wf [OF wf that(3) [unfolded set_column_def]]) (auto simp: columns_ok_def)
  show "run_db_wf db'" if "insert_observation db ob = Inr db'" for ob
    using wf insert_observation_Inr [OF that] by (auto simp: run_db_wf_def run_ids_def)
  show "run_db_wf db'" if "insert_decision db d = Inr db'" for d
    using wf insert_decision_Inr [OF that] by (auto simp: run_db_wf_def run_ids_def)
qed

section \<open>Ended runs and stored evidence are never changed\<close>

definition frozen :: "run_db \<Rightarrow> run_db \<Rightarrow> bool" where
  "frozen db0 db \<longleftrightarrow>
     (\<forall>rid r. find_run db0 rid = Some r \<and> rn_status r \<noteq> ''RUNNING'' \<longrightarrow>
        (\<exists>r'. find_run db rid = Some r' \<and> run_record.truncate r' = run_record.truncate r
          \<and> scheduler_outcome r' = scheduler_outcome r))
     \<and> set (observation_rows db0) \<subseteq> set (observation_rows db)
     \<and> set (decision_rows db0) \<subseteq> set (decision_rows db)"

lemma find_map: "(\<And>x. P (g x) = P x) \<Longrightarrow> List.find P (map g xs) = map_option g (List.find P xs)"
  by (induction xs) auto

lemma find_update:
  assumes "update_runs Q f db = Inr db'" and "\<And>r. rn_run_id (f r) = rn_run_id r"
  shows "find_run db' rid = map_option (\<lambda>r. if Q r then f r else r) (find_run db rid)"
  unfolding find_run_def update_runs_Inr(1) [OF assms(1)] by (rule find_map) (simp add: assms(2))

lemma frozen_update:
  assumes fr: "frozen db0 db" and up: "update_runs Q f db = Inr db'"
    and ids: "\<And>r. rn_run_id (f r) = rn_run_id r"
    and same: "\<And>r. Q r \<Longrightarrow> rn_status r \<noteq> ''RUNNING'' \<Longrightarrow>
      run_record.truncate (f r) = run_record.truncate r \<and> scheduler_outcome (f r) = scheduler_outcome r"
  shows "frozen db0 db'"
  unfolding frozen_def
proof (intro conjI allI impI)
  fix rid r
  assume r: "find_run db0 rid = Some r \<and> rn_status r \<noteq> ''RUNNING''"
  with fr obtain r' where r': "find_run db rid = Some r'" "run_record.truncate r' = run_record.truncate r"
    "scheduler_outcome r' = scheduler_outcome r" unfolding frozen_def by blast
  from r r'(2) have "rn_status r' \<noteq> ''RUNNING''" by (simp add: run_record.defs)
  with same r' show "\<exists>r'. find_run db' rid = Some r' \<and> run_record.truncate r' = run_record.truncate r
      \<and> scheduler_outcome r' = scheduler_outcome r"
    by (simp add: find_update [OF up ids])
qed (use fr update_runs_Inr [OF up] in \<open>auto simp: frozen_def\<close>)

lemma find_run_rows: "run_rows db' = run_rows db \<Longrightarrow> find_run db' rid = find_run db rid"
  by (simp add: find_run_def)

interpretation frozen: run_closed "frozen db0" for db0
proof
  fix db db' :: run_db
  assume fr: "frozen db0 db"
  show "frozen db0 db'" if "insert_run (new_row run) db = Inr db'" for run
  proof -
    from that have "db' = db\<lparr>run_rows := run_rows db @ [new_row run]\<rparr>"
      by (auto simp: insert_run_def split: if_splits)
    then have f: "\<And>rid r. find_run db rid = Some r \<Longrightarrow> find_run db' rid = Some r"
      and ev: "observation_rows db' = observation_rows db" "decision_rows db' = decision_rows db"
      by (simp_all add: find_run_def find_append)
    show ?thesis
      unfolding frozen_def ev
    proof (intro conjI allI impI)
      fix rid r
      assume "find_run db0 rid = Some r \<and> rn_status r \<noteq> ''RUNNING''"
      with fr obtain r' where "find_run db rid = Some r'" "run_record.truncate r' = run_record.truncate r"
        "scheduler_outcome r' = scheduler_outcome r" unfolding frozen_def by blast
      with f show "\<exists>r'. find_run db' rid = Some r' \<and> run_record.truncate r' = run_record.truncate r
        \<and> scheduler_outcome r' = scheduler_outcome r" by blast
    qed (use fr in \<open>simp_all add: frozen_def\<close>)
  qed
  show "frozen db0 db'" if "ends_runs Q f" "update_runs Q f db = Inr db'" for Q f
    using that(1) by (intro frozen_update [OF fr that(2)]) (auto simp: ends_runs_def)
  show "frozen db0 db'" if "set_column rid (notification_dedup_update (\<lambda>_. es)) db = Inr db'" for es rid
    by (rule frozen_update [OF fr that [unfolded set_column_def]]) (simp_all add: run_record.defs)
  show "frozen db0 db'" if "set_column rid (notification_outcomes_update (\<lambda>_. xs)) db = Inr db'" for xs rid
    by (rule frozen_update [OF fr that [unfolded set_column_def]]) (simp_all add: run_record.defs)
  show "frozen db0 db'" if "insert_observation db ob = Inr db'" for ob
    using fr insert_observation_Inr(1) [OF that] by (auto simp: frozen_def find_run_def)
  show "frozen db0 db'" if "insert_decision db d = Inr db'" for d
    using fr insert_decision_Inr(1) [OF that] by (auto simp: frozen_def find_run_def)
qed

section \<open>Notification calls leave runs and evidence alone\<close>

definition run_core :: "run_row \<Rightarrow> run_record \<times> string option" where
  "run_core r = (run_record.truncate r, scheduler_outcome r)"

definition same_runs :: "run_db \<Rightarrow> run_db \<Rightarrow> bool" where
  "same_runs db0 db \<longleftrightarrow> map run_core (run_rows db) = map run_core (run_rows db0)
     \<and> observation_rows db = observation_rows db0 \<and> decision_rows db = decision_rows db0"

lemma same_runs_refl [simp]: "same_runs db db"
  by (simp add: same_runs_def)

lemma same_runs_trans: "same_runs a b \<Longrightarrow> same_runs b c \<Longrightarrow> same_runs a c"
  by (simp add: same_runs_def)

lemma same_runs_column:
  assumes "same_runs db0 db" "set_column rid f db = Inr db'" "\<And>r. run_core (f r) = run_core r"
  shows "same_runs db0 db'"
  using assms(1,3) update_runs_Inr [OF assms(2) [unfolded set_column_def]]
  by (simp add: same_runs_def comp_def if_distrib [of run_core] cong: if_cong)

interpretation unchanged: notification_closed "same_runs db0" for db0
  by unfold_locales (erule same_runs_column, assumption, simp add: run_core_def run_record.defs)+

lemma find_run_core:
  "map run_core rows = map run_core rows' \<Longrightarrow>
   map_option run_core (List.find (\<lambda>r. rn_run_id r = rid) rows) = map_option run_core (List.find (\<lambda>r. rn_run_id r = rid) rows')"
proof (induction rows arbitrary: rows')
  case (Cons r rows)
  then obtain r' rest where "rows' = r' # rest" "run_core r = run_core r'" "map run_core rows = map run_core rest" by auto
  moreover from this(2) have "rn_run_id r = rn_run_id r'" by (simp add: run_core_def run_record.defs)
  ultimately show ?case using Cons.IH by auto
qed simp

lemma same_runs_find: "same_runs db0 db \<Longrightarrow> map_option run_core (find_run db rid) = map_option run_core (find_run db0 rid)"
  unfolding same_runs_def find_run_def by (blast intro: find_run_core)

section \<open>Committing and recovering\<close>

lemma fold_insert_observations:
  "rfoldM insert_observation db rows = Inr db' \<Longrightarrow>
   db' = db\<lparr>observation_rows := observation_rows db @ rows\<rparr>"
proof (induction rows arbitrary: db)
  case (Cons x rows)
  then obtain d where d: "insert_observation db x = Inr d" "rfoldM insert_observation d rows = Inr db'" by auto
  from Cons.IH [OF d(2)] insert_observation_Inr(1) [OF d(1)] show ?case by simp
qed simp

lemma fold_insert_decisions:
  "rfoldM insert_decision db rows = Inr db' \<Longrightarrow> db' = db\<lparr>decision_rows := decision_rows db @ rows\<rparr>"
proof (induction rows arbitrary: db)
  case (Cons x rows)
  then obtain d where d: "insert_decision db x = Inr d" "rfoldM insert_decision d rows = Inr db'" by auto
  from Cons.IH [OF d(2)] insert_decision_Inr(1) [OF d(1)] show ?case by simp
qed simp

lemma loaded_run_simp:
  "loaded_run rid msg db = (case find_run db rid of None \<Rightarrow> (raise RuntimeError msg, db)
     | Some r \<Rightarrow> (Inr (run_record.truncate r), db))"
  by (simp add: loaded_run_def load_run_def sbind_def slift_def split: option.split)

lemma update_total:
  "list_all (\<lambda>r. Q r \<longrightarrow> run_row_check (f r)) (run_rows db) \<Longrightarrow> \<exists>db'. update_runs Q f db = Inr db'"
  by (simp add: update_runs_def)

section \<open>Properties\<close>

definition sample_run :: run_record where
  "sample_run = \<lparr>rn_run_id = ''r1'', rn_status = ''RUNNING'', rn_started_at_ms = 5, rn_completed_at_ms = None,
     rn_strategy_name = ''s'', rn_strategy_version = ''1'', rn_strategy_config_hash = replicate 64 CHR ''a'',
     rn_provider_id = ''okx_swap'', rn_market_type = ''LINEAR_PERPETUAL'',
     rn_market_config_hash = replicate 64 CHR ''b'', rn_git_commit = None, rn_code_hash = Some (replicate 64 CHR ''c''),
     rn_data_start_open_ms = 0, rn_data_end_close_ms = 59999, rn_data_hash = replicate 64 CHR ''d'', rn_error = None\<rparr>"

definition one_run :: run_db where
  "one_run = \<lparr>run_rows = [new_row sample_run], observation_rows = [], decision_rows = []\<rparr>"

lemma sample_stored_run: "store_run sample_run empty_run_db = (Inr (), one_run)"
proof -
  have "run_row_check (new_row sample_run)" by code_simp
  then show ?thesis
    by (simp add: store_run_def transaction_def empty_run_db_def find_run_def insert_run_def one_run_def sample_run_def)
qed

lemma one_run_reachable: "run_reachable empty_run_db one_run"
  by (rule reach_step [OF reach_start step_store_run [OF sample_stored_run]])



text \<open>C8:
  Whatever calls follow, a run that has left the state \<^verbatim>\<open>RUNNING\<close> keeps every column of its record and
  its scheduler outcome, and stored observations and decisions are kept unchanged.\<close>

theorem ended_runs_immutable:
  "run_reachable db0 db \<Longrightarrow> frozen db0 db"
  by (erule frozen.closed_reachable) (auto simp: frozen_def)

theorem ended_runs_immutable_witness:
  "\<exists>r db' r'. find_run (one_run\<lparr>run_rows := [succeed 7 (new_row sample_run)]\<rparr>) ''r1'' = Some r
     \<and> rn_status r = ''SUCCEEDED'' \<and> recover_running_runs 9 ''stale'' True
         (one_run\<lparr>run_rows := [succeed 7 (new_row sample_run)]\<rparr>) = (Inr [], db')
     \<and> find_run db' ''r1'' = Some r' \<and> run_record.truncate r' = run_record.truncate r"
proof -
  let ?db = "one_run\<lparr>run_rows := [succeed 7 (new_row sample_run)]\<rparr>"
  have r: "find_run ?db ''r1'' = Some (succeed 7 (new_row sample_run))"
    by (simp add: find_run_def succeed_def sample_run_def)
  have succeeded: "rn_status (succeed 7 (new_row sample_run)) = ''SUCCEEDED''" by (simp add: succeed_def)
  have "fst (recover_running_runs 9 ''stale'' True ?db) = Inr []" by code_simp
  then obtain db' where db': "recover_running_runs 9 ''stale'' True ?db = (Inr [], db')"
    by (cases "recover_running_runs 9 ''stale'' True ?db") auto
  have "frozen ?db db'" by (rule ended_runs_immutable [OF reach_step [OF reach_start step_recover [OF db']]])
  with r have "\<exists>r'. find_run db' ''r1'' = Some r'
      \<and> run_record.truncate r' = run_record.truncate (succeed 7 (new_row sample_run))"
    using succeeded unfolding frozen_def by force
  with r db' succeeded show ?thesis by blast
qed

lemma commit_run_result:
  "commit_run rid obs ds t db = (res, db') \<Longrightarrow>
   case res of Inl e \<Rightarrow> db' = db
   | Inr run \<Rightarrow> (\<exists>r. find_run db rid = Some r \<and> rn_status r = ''RUNNING''
        \<and> find_run db' rid = Some (succeed t r) \<and> run = run_record.truncate (succeed t r))
      \<and> observation_rows db' = observation_rows db @ map observation_row_of obs
      \<and> decision_rows db' = decision_rows db @ map decision_row_of ds
      \<and> (\<forall>other. other \<noteq> rid \<longrightarrow> find_run db' other = find_run db other)"
proof -
  assume c: "commit_run rid obs ds t db = (res, db')"
  show ?thesis
  proof (cases "\<exists>r db1 db2 db3. find_run db rid = Some r \<and> rn_status r = ''RUNNING''
      \<and> list_all (\<lambda>x. or_run_id x = rid) obs \<and> list_all (\<lambda>d. dr_run_id d = rid) ds
      \<and> rfoldM insert_observation db (map observation_row_of obs) = Inr db1
      \<and> rfoldM insert_decision db1 (map decision_row_of ds) = Inr db2
      \<and> update_runs (running rid) (succeed t) db2 = Inr db3")
    case False
    then have "res \<in> range Inl \<and> db' = db"
      using c unfolding commit_run_def sbind_sguard
      by (auto simp: sbind_def transaction_def rguard_def split: if_splits option.splits sum.splits prod.splits)
    then show ?thesis by auto
  next
    case True
    then obtain r db1 db2 db3 where r: "find_run db rid = Some r" "rn_status r = ''RUNNING''"
      and ids: "list_all (\<lambda>x. or_run_id x = rid) obs" "list_all (\<lambda>d. dr_run_id d = rid) ds"
      and ob: "rfoldM insert_observation db (map observation_row_of obs) = Inr db1"
      and de: "rfoldM insert_decision db1 (map decision_row_of ds) = Inr db2"
      and up: "update_runs (running rid) (succeed t) db2 = Inr db3" by blast
    have runs: "find_run db2 x = find_run db x" for x
      by (simp add: fold_insert_decisions [OF de] fold_insert_observations [OF ob] find_run_def)
    have f: "find_run db3 x = map_option (\<lambda>r. if running rid r then succeed t r else r) (find_run db x)" for x
      using find_update [OF up, of x] by (simp add: runs succeed_def)
    have mine: "find_run db3 rid = Some (succeed t r)"
      using f [of rid] r find_run_Some [OF r(1)] by (simp add: running_def)
    have other: "find_run db3 x = find_run db x" if "x \<noteq> rid" for x
      using f [of x] that find_run_Some [of db x] by (cases "find_run db x") (auto simp: running_def)
    have "(res, db') = (Inr (run_record.truncate (succeed t r)), db3)"
      using c r ids ob de up mine unfolding commit_run_def sbind_sguard
      by (simp add: sbind_def transaction_def loaded_run_simp)
    moreover have "observation_rows db3 = observation_rows db @ map observation_row_of obs"
      "decision_rows db3 = decision_rows db @ map decision_row_of ds"
      by (simp_all add: update_runs_Inr [OF up] fold_insert_decisions [OF de] fold_insert_observations [OF ob])
    ultimately show ?thesis using r mine other by simp
  qed
qed

text \<open>C9:
  Committing a run either raises and leaves the database as it was, or the run was running and is now
  succeeded, exactly the given evidence has been added, and every other run is unchanged.\<close>

theorem commit_run_atomic:
  "commit_run rid obs ds t db = (res, db') \<Longrightarrow>
   case res of Inl e \<Rightarrow> db' = db
   | Inr run \<Rightarrow> (\<exists>r. find_run db rid = Some r \<and> rn_status r = ''RUNNING''
        \<and> find_run db' rid = Some (succeed t r) \<and> run = run_record.truncate (succeed t r))
      \<and> observation_rows db' = observation_rows db @ map observation_row_of obs
      \<and> decision_rows db' = decision_rows db @ map decision_row_of ds
      \<and> (\<forall>other. other \<noteq> rid \<longrightarrow> find_run db' other = find_run db other)"
  by (rule commit_run_result)

theorem commit_run_atomic_witness:
  "\<exists>run db'. commit_run ''r1'' [] [] 7 one_run = (Inr run, db') \<and> rn_status run = ''SUCCEEDED''
     \<and> find_run db' ''r1'' \<noteq> None"
proof -
  have "is_ok (fst (commit_run ''r1'' [] [] 7 one_run))" by code_simp
  then obtain run db' where c: "commit_run ''r1'' [] [] 7 one_run = (Inr run, db')"
    by (cases "commit_run ''r1'' [] [] 7 one_run") (auto simp: is_ok_iff)
  from commit_run_atomic [OF this] show ?thesis using c by (auto simp: succeed_def run_record.defs)
qed

text \<open>C22:
  Recovery with a valid time and reason always succeeds on a database that satisfies the schema, and
  afterwards no run that started by then is still running.\<close>

theorem recovery_leaves_no_stale_run:
  "run_db_wf db \<Longrightarrow> 0 \<le> t \<Longrightarrow> 1 \<le> length reason \<Longrightarrow> length reason \<le> 4000 \<Longrightarrow>
   \<exists>ids db'. recover_running_runs t reason True db = (Inr ids, db') \<and> run_db_wf db'
     \<and> list_all (\<lambda>r. rn_status r = ''RUNNING'' \<longrightarrow> t < rn_started_at_ms r) (run_rows db')"
proof -
  assume wf: "run_db_wf db" and t: "0 \<le> t" and len: "1 \<le> length reason" "length reason \<le> 4000"
  let ?Q = "stale_run t True" and ?f = "fail_stale t reason"
  have "list_all (\<lambda>r. ?Q r \<longrightarrow> run_row_check (?f r)) (run_rows db)"
    using wf len by (auto simp: run_db_wf_def list_all_iff stale_run_def fail_stale_def run_row_check_def
        run_state_check_def sql_opt_def)
  from update_total [OF this] obtain db' where up: "update_runs ?Q ?f db = Inr db'" ..
  have "recover_running_runs t reason True db
      = (Inr (sort (map rn_run_id (filter ?Q (run_rows db)))), db')"
    using t len up by (simp add: recover_running_runs_def transaction_def Let_def)
  moreover from keepsD [OF wf.keeps_recover wf this] have "run_db_wf db'" .
  moreover have "list_all (\<lambda>r. rn_status r = ''RUNNING'' \<longrightarrow> t < rn_started_at_ms r) (run_rows db')"
    by (auto simp: update_runs_Inr(1) [OF up] list_all_iff stale_run_def fail_stale_def)
  ultimately show ?thesis by blast
qed

theorem recovery_leaves_no_stale_run_witness:
  "\<exists>ids db'. recover_running_runs 9 ''stale'' True one_run = (Inr ids, db')
     \<and> list_all (\<lambda>r. rn_status r = ''RUNNING'' \<longrightarrow> 9 < rn_started_at_ms r) (run_rows db')"
proof -
  have "run_db_wf one_run" by code_simp
  from recovery_leaves_no_stale_run [OF this, of 9 "''stale''"] show ?thesis by auto
qed

end
