(* ===== verification/Configuration.thy ===== *)
theory Configuration
  imports Values
begin

text \<open>
  The strict configuration models (\<^verbatim>\<open>configuration/models.py\<close>) as functions from the value that the
  YAML loader returns to a validated record: market data, schedule and notifications. The models
  are declarations for pydantic, a library; what the declarations rely on is its documented strict
  validation: the fields of a model in their order, no conversion between types, a validator of a
  field after the field's type, forbidden extra fields after the declared ones, the validator of
  the model last, and the first error reported. An error is the location the loader reports
  (\<^verbatim>\<open>configuration/loaders.py\<close>); the wording of the messages is not modelled.
\<close>

section \<open>Locations\<close>

definition cfail :: "string \<Rightarrow> 'a result" where
  "cfail loc = raise StrictConfigurationError (if loc = [] then ''$'' else loc)"

definition sub_loc :: "string \<Rightarrow> string \<Rightarrow> string" where
  "sub_loc loc name = (if loc = [] then name else loc @ CHR ''.'' # name)"

definition item_loc :: "string \<Rightarrow> nat \<Rightarrow> string" where
  "item_loc loc i = loc @ ''['' @ int_text (int i) @ '']''"

section \<open>Field types\<close>

text \<open>The check of a value at a location.\<close>

type_synonym 'a check = "string \<Rightarrow> pyobj \<Rightarrow> 'a result"

definition cguard :: "bool \<Rightarrow> string \<Rightarrow> unit result" where
  "cguard ok loc = (if ok then Inr () else cfail loc)"

definition check_str :: "string check" where
  "check_str loc v = (case v of PStr s \<Rightarrow> Inr s | _ \<Rightarrow> cfail loc)"

definition check_text :: "(string \<Rightarrow> bool) \<Rightarrow> string check" where
  "check_text ok loc v = rbind (check_str loc v) (\<lambda>s. rbind (cguard (ok s) loc) (\<lambda>_. Inr s))"

definition check_bool :: "bool check" where
  "check_bool loc v = (case v of PBool b \<Rightarrow> Inr b | _ \<Rightarrow> cfail loc)"

definition check_int :: "int \<Rightarrow> int \<Rightarrow> int check" where
  "check_int lo hi loc v = (case v of PInt i \<Rightarrow> if lo \<le> i \<and> i \<le> hi then Inr i else cfail loc | _ \<Rightarrow> cfail loc)"

definition check_choice :: "string list \<Rightarrow> string check" where
  "check_choice allowed = check_text (\<lambda>s. s \<in> set allowed)"

text \<open>A sequence of YAML is turned into a tuple before its elements are checked.\<close>

fun check_items :: "'a check \<Rightarrow> string \<Rightarrow> nat \<Rightarrow> pyobj list \<Rightarrow> 'a list result" where
  "check_items f loc i [] = Inr []"
| "check_items f loc i (x # xs) =
     rbind (f (item_loc loc i) x) (\<lambda>y. rbind (check_items f loc (Suc i) xs) (\<lambda>ys. Inr (y # ys)))"

definition check_tuple :: "'a check \<Rightarrow> 'a list check" where
  "check_tuple f loc v =
     (case v of PList xs \<Rightarrow> check_items f loc 0 xs | PTuple xs \<Rightarrow> check_items f loc 0 xs | _ \<Rightarrow> cfail loc)"

fun check_entries :: "(string \<Rightarrow> bool) \<Rightarrow> 'a check \<Rightarrow> string \<Rightarrow> (pyobj \<times> pyobj) list \<Rightarrow> (string, 'a) dict result" where
  "check_entries key f loc [] = Inr []"
| "check_entries key f loc (kv # kvs) =
     (case fst kv of
        PStr k \<Rightarrow>
          if key k then
            rbind (f (sub_loc loc k) (snd kv)) (\<lambda>y. rbind (check_entries key f loc kvs) (\<lambda>ys. Inr ((k, y) # ys)))
          else cfail (sub_loc (sub_loc loc k) ''[key]'')
      | _ \<Rightarrow> cfail loc)"

definition check_mapping :: "(string \<Rightarrow> bool) \<Rightarrow> 'a check \<Rightarrow> (string, 'a) dict check" where
  "check_mapping key f loc v =
     (case v of PDict kvs \<Rightarrow> check_entries key f loc kvs | PProxy kvs \<Rightarrow> check_entries key f loc kvs | _ \<Rightarrow> cfail loc)"

text \<open>The fields of a model.\<close>

type_synonym fields = "(pyobj \<times> pyobj) list"

definition check_model :: "string list \<Rightarrow> (string \<Rightarrow> fields \<Rightarrow> 'a result) \<Rightarrow> 'a check" where
  "check_model names build loc v =
     (case v of
        PDict kvs \<Rightarrow>
          rbind (build loc kvs) (\<lambda>r.
          case filter (\<lambda>k. k \<notin> set (map PStr names)) (map fst kvs) of
            [] \<Rightarrow> Inr r
          | k # _ \<Rightarrow> cfail (case k of PStr s \<Rightarrow> sub_loc loc s | _ \<Rightarrow> loc))
      | _ \<Rightarrow> cfail loc)"

definition field :: "string \<Rightarrow> fields \<Rightarrow> string \<Rightarrow> 'a check \<Rightarrow> 'a result" where
  "field loc kvs name f = (case dict_get kvs (PStr name) of None \<Rightarrow> cfail (sub_loc loc name) | Some v \<Rightarrow> f (sub_loc loc name) v)"

text \<open>A validator that runs after a check.\<close>

definition also_check :: "'a check \<Rightarrow> ('a \<Rightarrow> bool) \<Rightarrow> 'a check" where
  "also_check f ok loc v = rbind (f loc v) (\<lambda>x. rbind (cguard (ok x) loc) (\<lambda>_. Inr x))"

definition unique_values :: "bool \<Rightarrow> string list \<Rightarrow> bool" where
  "unique_values may_be_empty xs \<longleftrightarrow> (may_be_empty \<or> xs \<noteq> []) \<and> distinct xs"

section \<open>Text formats\<close>

definition is_lower :: "char \<Rightarrow> bool" where
  "is_lower c \<longleftrightarrow> 97 \<le> (of_char c :: int) \<and> (of_char c :: int) \<le> 122"

definition is_upper :: "char \<Rightarrow> bool" where
  "is_upper c \<longleftrightarrow> 65 \<le> (of_char c :: int) \<and> (of_char c :: int) \<le> 90"

text \<open>\<^verbatim>\<open>^[a-z][a-z0-9-]{0,62}[a-z0-9]$\<close>\<close>

definition identifier_syntax :: "string \<Rightarrow> bool" where
  "identifier_syntax s \<longleftrightarrow> 2 \<le> length s \<and> length s \<le> 64 \<and> is_lower (hd s)
     \<and> (is_lower (last s) \<or> is_digit (last s))
     \<and> list_all (\<lambda>c. is_lower c \<or> is_digit c \<or> c = CHR ''-'') s"

text \<open>\<^verbatim>\<open>^[a-z][a-z0-9_]{0,31}$\<close>\<close>

definition role_syntax :: "string \<Rightarrow> bool" where
  "role_syntax s \<longleftrightarrow> s \<noteq> [] \<and> length s \<le> 32 \<and> is_lower (hd s)
     \<and> list_all (\<lambda>c. is_lower c \<or> is_digit c \<or> c = CHR ''_'') s"

definition instrument_key :: "string \<Rightarrow> bool" where
  "instrument_key s \<longleftrightarrow> 1 \<le> length s \<and> length s \<le> 64 \<and> instrument_syntax s"

text \<open>\<^verbatim>\<open>^[A-Z0-9-]+$\<close>\<close>

definition symbol_syntax :: "string \<Rightarrow> bool" where
  "symbol_syntax s \<longleftrightarrow> 1 \<le> length s \<and> length s \<le> 64 \<and> list_all (\<lambda>c. is_upper_digit c \<or> c = CHR ''-'') s"

text \<open>No environment expansion.\<close>

fun has_expansion :: "string \<Rightarrow> bool" where
  "has_expansion (a # b # cs) \<longleftrightarrow> (a = CHR ''$'' \<and> b = CHR ''{'') \<or> has_expansion (b # cs)"
| "has_expansion _ \<longleftrightarrow> False"

definition plain_string :: "string \<Rightarrow> bool" where
  "plain_string s \<longleftrightarrow> \<not> has_expansion s"

subsection \<open>Canonical decimals\<close>

text \<open>\<^verbatim>\<open>(0|[1-9][0-9]*)(\.[0-9]+)?\<close>: the numerals of the domain without superfluous leading zeros.\<close>

definition strict_decimal :: "string \<Rightarrow> bool" where
  "strict_decimal s \<longleftrightarrow> decimal_syntax s
     \<and> (let ip = takeWhile is_digit s in ip = ''0'' \<or> hd ip \<noteq> CHR ''0'')"

definition bounded_decimal :: "dec \<Rightarrow> dec option \<Rightarrow> bool \<Rightarrow> string check" where
  "bounded_decimal minimum maximum positive loc v =
     rbind (check_str loc v) (\<lambda>s.
     rbind (cguard (\<not> (64 < length s \<or> \<not> strict_decimal s)) loc) (\<lambda>_.
     case parse_decimal s of
       Finite n \<Rightarrow>
         rbind (cguard (\<not> (dlt n minimum \<or> (positive \<and> dle n dzero))) loc) (\<lambda>_.
         rbind (cguard (case maximum of None \<Rightarrow> True | Some m \<Rightarrow> \<not> dlt m n) loc) (\<lambda>_.
         Inr (or_zero (strip_fraction (format_f n)))))
     | _ \<Rightarrow> cfail loc))"

subsection \<open>Cron expressions\<close>

text \<open>\<^verbatim>\<open>value.split()\<close> and \<^verbatim>\<open>text.partition(c)\<close>.\<close>

definition split_words :: "string \<Rightarrow> string list" where
  "split_words s = filter (\<lambda>w. w \<noteq> []) (split_on CHR '' '' (map (\<lambda>c. if is_space c then CHR '' '' else c) s))"

definition partition_at :: "char \<Rightarrow> string \<Rightarrow> string \<times> bool \<times> string" where
  "partition_at c s = (takeWhile (\<lambda>x. x \<noteq> c) s, c \<in> set s, drop 1 (dropWhile (\<lambda>x. x \<noteq> c) s))"

definition numeral_text :: "string \<Rightarrow> bool" where
  "numeral_text s \<longleftrightarrow> s \<noteq> [] \<and> all_digits s"

text \<open>
  A member of a field: a star, a number or an ascending range, with an optional step. The digits
  of a range are those of the ASCII range; see the finding about other scripts.
\<close>

definition cron_atom :: "int \<Rightarrow> int \<Rightarrow> string \<Rightarrow> bool" where
  "cron_atom lo hi atom \<longleftrightarrow>
     (let (base, slash, step) = partition_at CHR ''/'' atom in
      (slash \<longrightarrow> numeral_text step \<and> 1 \<le> digits_val step \<and> digits_val step \<le> hi - lo + 1)
      \<and> (base = ''*'' \<or>
         (if CHR ''-'' \<in> set base then
            (let (a, _, b) = partition_at CHR ''-'' base in
             numeral_text a \<and> numeral_text b \<and> digits_val a < digits_val b
             \<and> lo \<le> digits_val a \<and> digits_val a \<le> hi \<and> lo \<le> digits_val b \<and> digits_val b \<le> hi)
          else numeral_text base \<and> lo \<le> digits_val base \<and> digits_val base \<le> hi)))"

definition cron_bounds :: "(int \<times> int) list" where
  "cron_bounds = [(0, 59), (0, 23), (1, 31), (1, 12), (0, 6)]"

definition cron_syntax :: "string \<Rightarrow> bool" where
  "cron_syntax v \<longleftrightarrow> (let fs = split_words v in
     length fs = 5 \<and> list_all2 (\<lambda>f (lo, hi). list_all (\<lambda>m. m \<noteq> [] \<and> cron_atom lo hi m) (split_on CHR '','' f)) fs cron_bounds)"

subsection \<open>Configuration paths\<close>

text \<open>
  The parts of \<^verbatim>\<open>PurePosixPath(value)\<close>: a root of one slash (two slashes are kept, three or more
  count as one), then the components without empty and dot components.
\<close>

definition path_root :: "string \<Rightarrow> string" where
  "path_root s = (if take 1 s \<noteq> ''/'' then '''' else if take 2 s = ''//'' \<and> take 3 s \<noteq> ''///'' then ''//'' else ''/'')"

definition path_components :: "string \<Rightarrow> string list" where
  "path_components s = filter (\<lambda>p. p \<noteq> '''' \<and> p \<noteq> ''.'') (split_on CHR ''/'' s)"

definition path_text :: "string \<Rightarrow> string" where
  "path_text s = (let t = path_root s @ join_with ''/'' (path_components s) in if t = '''' then ''.'' else t)"

definition path_name :: "string \<Rightarrow> string" where
  "path_name s = (if path_components s = [] then '''' else last (path_components s))"

text \<open>The suffix of the last component: from its last dot, unless that is its first or last character.\<close>

definition path_suffix :: "string \<Rightarrow> string" where
  "path_suffix s = (let n = path_name s; tail = rev (takeWhile (\<lambda>c. c \<noteq> CHR ''.'') (rev n))
     in if CHR ''.'' \<in> set n \<and> tail \<noteq> [] \<and> Suc (length tail) < length n then CHR ''.'' # tail else '''')"

definition config_path :: "string \<Rightarrow> bool" where
  "config_path s \<longleftrightarrow> path_root s \<noteq> '''' \<and> path_suffix s \<in> {''.yaml'', ''.yml''}
     \<and> ''..'' \<notin> set (path_components s)
     \<and> path_root s = ''/'' \<and> take 1 (path_components s) \<in> {[''config''], [''strategies'']}
     \<and> path_text s = s"

section \<open>Market data\<close>

record market_data_config =
  md_provider :: string
  md_market_type :: string
  md_instruments :: "(string, string) dict"

definition check_market_data :: "market_data_config check" where
  "check_market_data = check_model [''provider'', ''market_type'', ''instruments''] (\<lambda>loc kvs.
     rbind (field loc kvs ''provider'' (check_choice [''binance_usdm'', ''okx_swap''])) (\<lambda>p.
     rbind (field loc kvs ''market_type'' (check_choice [''LINEAR_PERPETUAL''])) (\<lambda>m.
     rbind (field loc kvs ''instruments''
              (also_check (check_mapping instrument_key (check_text symbol_syntax)) (\<lambda>is. is \<noteq> []))) (\<lambda>is.
     Inr \<lparr>md_provider = p, md_market_type = m, md_instruments = is\<rparr>))))"

definition market_data_canonical_dict :: "market_data_config \<Rightarrow> json" where
  "market_data_canonical_dict c = JObj
     [(''provider'', JStr (md_provider c)), (''market_type'', JStr (md_market_type c)),
      (''instruments'', JObj (map (\<lambda>(k, v). (k, JStr v)) (md_instruments c)))]"

section \<open>Schedule\<close>

record schedule_job =
  sj_id :: string
  sj_cron :: string
  sj_strategy :: string
  sj_market_data :: string
  sj_notifications :: string
  sj_misfire_policy :: string
  sj_misfire_grace_seconds :: int
  sj_overlap_policy :: string
  sj_maximum_runtime_seconds :: int
  sj_startup_delay_seconds :: int

definition check_job :: "schedule_job check" where
  "check_job = check_model [''id'', ''cron'', ''strategy'', ''market_data'', ''notifications'', ''misfire_policy'',
       ''misfire_grace_seconds'', ''overlap_policy'', ''maximum_runtime_seconds'', ''startup_delay_seconds''] (\<lambda>loc kvs.
     rbind (field loc kvs ''id'' (check_text identifier_syntax)) (\<lambda>i.
     rbind (field loc kvs ''cron'' (check_text cron_syntax)) (\<lambda>c.
     rbind (field loc kvs ''strategy'' (check_text config_path)) (\<lambda>s.
     rbind (field loc kvs ''market_data'' (check_text config_path)) (\<lambda>m.
     rbind (field loc kvs ''notifications'' (check_text config_path)) (\<lambda>n.
     rbind (field loc kvs ''misfire_policy'' (check_choice [''skip''])) (\<lambda>mp.
     rbind (field loc kvs ''misfire_grace_seconds'' (check_int 1 3600)) (\<lambda>mg.
     rbind (field loc kvs ''overlap_policy'' (check_choice [''skip''])) (\<lambda>ov.
     rbind (field loc kvs ''maximum_runtime_seconds'' (check_int 1 86400)) (\<lambda>mr.
     rbind (field loc kvs ''startup_delay_seconds'' (check_int 0 300)) (\<lambda>sd.
     Inr \<lparr>sj_id = i, sj_cron = c, sj_strategy = s, sj_market_data = m, sj_notifications = n,
          sj_misfire_policy = mp, sj_misfire_grace_seconds = mg, sj_overlap_policy = ov,
          sj_maximum_runtime_seconds = mr, sj_startup_delay_seconds = sd\<rparr>)))))))))))"

definition job_canonical_dict :: "schedule_job \<Rightarrow> json" where
  "job_canonical_dict j = JObj
     [(''id'', JStr (sj_id j)), (''cron'', JStr (sj_cron j)), (''strategy'', JStr (sj_strategy j)),
      (''market_data'', JStr (sj_market_data j)), (''notifications'', JStr (sj_notifications j)),
      (''misfire_policy'', JStr (sj_misfire_policy j)),
      (''misfire_grace_seconds'', JInt (sj_misfire_grace_seconds j)),
      (''overlap_policy'', JStr (sj_overlap_policy j)),
      (''maximum_runtime_seconds'', JInt (sj_maximum_runtime_seconds j)),
      (''startup_delay_seconds'', JInt (sj_startup_delay_seconds j))]"

record schedule_config =
  sc_enabled :: bool
  sc_timezone :: string
  sc_jobs :: "schedule_job list"

text \<open>At most \<open>n\<close> elements.\<close>

definition at_most :: "nat \<Rightarrow> 'a check \<Rightarrow> 'a check" where
  "at_most n f loc v =
     (case v of PList xs \<Rightarrow> if n < length xs then cfail loc else f loc v
      | PTuple xs \<Rightarrow> if n < length xs then cfail loc else f loc v
      | _ \<Rightarrow> f loc v)"

definition check_schedule :: "schedule_config check" where
  "check_schedule = also_check (check_model [''enabled'', ''timezone'', ''jobs''] (\<lambda>loc kvs.
     rbind (field loc kvs ''enabled'' check_bool) (\<lambda>en.
     rbind (field loc kvs ''timezone'' (check_choice [''UTC''])) (\<lambda>tz.
     rbind (field loc kvs ''jobs'' (at_most 32 (check_tuple check_job))) (\<lambda>js.
     Inr \<lparr>sc_enabled = en, sc_timezone = tz, sc_jobs = js\<rparr>)))))
     (\<lambda>c. (sc_enabled c \<longrightarrow> sc_jobs c \<noteq> []) \<and> distinct (map sj_id (sc_jobs c)))"

definition schedule_canonical_dict :: "schedule_config \<Rightarrow> json" where
  "schedule_canonical_dict c = JObj
     [(''enabled'', JBool (sc_enabled c)), (''timezone'', JStr (sc_timezone c)),
      (''jobs'', JArr (map job_canonical_dict (sc_jobs c)))]"

section \<open>Notifications\<close>

record secret_ref =
  sr_kind :: string
  sr_name :: string

text \<open>A reference of the form \<^verbatim>\<open>{env: NAME}\<close> or \<^verbatim>\<open>{file: PATH}\<close> is expanded first.\<close>

definition expand_reference :: "pyobj \<Rightarrow> pyobj" where
  "expand_reference v = (case v of
     PDict [(PStr k, name)] \<Rightarrow>
       if k = ''env'' \<or> k = ''file'' then PDict [(PStr ''kind'', PStr k), (PStr ''name'', name)] else v
   | _ \<Rightarrow> v)"

definition env_name :: "string \<Rightarrow> bool" where
  "env_name s \<longleftrightarrow> s \<noteq> [] \<and> length s \<le> 128 \<and> is_upper (hd s)
     \<and> list_all (\<lambda>c. is_upper c \<or> is_digit c \<or> c = CHR ''_'') s"

definition secrets_root :: string where
  "secrets_root = ''/run/secrets/''"

definition secret_file :: "string \<Rightarrow> bool" where
  "secret_file s \<longleftrightarrow> (let n = length secrets_root; leaf = drop n s in
     take n s = secrets_root \<and> leaf \<noteq> [] \<and> length leaf \<le> 128
     \<and> list_all (\<lambda>c. is_upper c \<or> is_lower c \<or> is_digit c \<or> c \<in> set ''_.-'') leaf)"

definition check_secret :: "secret_ref check" where
  "check_secret loc v =
     also_check (check_model [''kind'', ''name''] (\<lambda>loc kvs.
       rbind (field loc kvs ''kind'' (check_choice [''env'', ''file''])) (\<lambda>k.
       rbind (field loc kvs ''name'' check_str) (\<lambda>n.
       Inr \<lparr>sr_kind = k, sr_name = n\<rparr>))))
       (\<lambda>r. if sr_kind r = ''env'' then env_name (sr_name r) else secret_file (sr_name r))
     loc (expand_reference v)"

record retry_config =
  re_maximum_attempts :: int
  re_backoff_seconds :: "int list"

definition check_retries :: "retry_config check" where
  "check_retries = also_check (check_model [''maximum_attempts'', ''backoff_seconds''] (\<lambda>loc kvs.
     rbind (field loc kvs ''maximum_attempts'' (check_int 1 5)) (\<lambda>m.
     rbind (field loc kvs ''backoff_seconds'' (check_tuple (check_int 0 300))) (\<lambda>bs.
     Inr \<lparr>re_maximum_attempts = m, re_backoff_seconds = bs\<rparr>))))
     (\<lambda>r. \<not> (int (length (re_backoff_seconds r)) \<noteq> re_maximum_attempts r - 1
             \<or> sorted_set (re_backoff_seconds r) \<noteq> re_backoff_seconds r))"

record dedup_config =
  dd_window_seconds :: int
  dd_key_fields :: "string list"

definition check_dedup :: "dedup_config check" where
  "check_dedup = also_check (check_model [''window_seconds'', ''key_fields''] (\<lambda>loc kvs.
     rbind (field loc kvs ''window_seconds'' (check_int 1 86400)) (\<lambda>w.
     rbind (field loc kvs ''key_fields''
              (check_tuple (check_choice [''event_type'', ''run_id'', ''instrument_id'', ''strategy_id'']))) (\<lambda>ks.
     Inr \<lparr>dd_window_seconds = w, dd_key_fields = ks\<rparr>))))
     (\<lambda>d. unique_values False (dd_key_fields d) \<and> {''event_type'', ''run_id''} \<subseteq> set (dd_key_fields d))"

record batching_config =
  bt_maximum_events :: int
  bt_flush_seconds :: int

definition check_batching :: "batching_config check" where
  "check_batching = check_model [''maximum_events'', ''flush_seconds''] (\<lambda>loc kvs.
     rbind (field loc kvs ''maximum_events'' (check_int 1 1000)) (\<lambda>m.
     rbind (field loc kvs ''flush_seconds'' (check_int 1 300)) (\<lambda>f.
     Inr \<lparr>bt_maximum_events = m, bt_flush_seconds = f\<rparr>)))"

record redaction_config =
  rd_headers :: "string list"
  rd_query_parameters :: "string list"

definition check_redaction :: "redaction_config check" where
  "check_redaction = check_model [''headers'', ''query_parameters''] (\<lambda>loc kvs.
     rbind (field loc kvs ''headers'' (also_check (check_tuple
              (check_choice [''authorization'', ''cookie'', ''set-cookie'', ''proxy-authorization''])) (unique_values True))) (\<lambda>hs.
     rbind (field loc kvs ''query_parameters'' (also_check (check_tuple
              (check_choice [''token'', ''key'', ''signature'', ''secret''])) (unique_values True))) (\<lambda>qs.
     Inr \<lparr>rd_headers = hs, rd_query_parameters = qs\<rparr>)))"

record destination =
  dn_adapter :: string
  dn_enabled :: bool
  dn_enabled_events :: "string list"
  dn_endpoint :: secret_ref
  dn_timeout_seconds :: int
  dn_retries :: retry_config
  dn_deduplication :: dedup_config
  dn_batching :: batching_config
  dn_redaction :: redaction_config
  dn_failure_policy :: string

text \<open>The validator of a destination; the loader extends the location of a batch that is too large.\<close>

definition destination_limit :: "destination \<Rightarrow> int" where
  "destination_limit d = (if dn_adapter d = ''discord_webhook'' then 8 else 1000)"

definition validate_destination :: "string \<Rightarrow> destination \<Rightarrow> destination result" where
  "validate_destination loc d =
     rbind (cguard (unique_values (\<not> dn_enabled d) (dn_enabled_events d)) loc) (\<lambda>_.
     rbind (cguard (\<not> (dn_enabled d \<and> dn_enabled_events d = [])) loc) (\<lambda>_.
     rbind (cguard (\<not> (\<not> dn_enabled d \<and> dn_enabled_events d \<noteq> [])) loc) (\<lambda>_.
     rbind (cguard (\<not> destination_limit d < bt_maximum_events (dn_batching d))
              ((if loc = [] then ''$'' else loc) @ ''.batching.maximum_events'')) (\<lambda>_.
     Inr d))))"

definition check_destination :: "destination check" where
  "check_destination loc v =
     rbind (check_model [''adapter'', ''enabled'', ''enabled_events'', ''endpoint'', ''timeout_seconds'', ''retries'',
         ''deduplication'', ''batching'', ''redaction'', ''failure_policy''] (\<lambda>loc kvs.
       rbind (field loc kvs ''adapter'' (check_choice [''discord_webhook'', ''generic_webhook''])) (\<lambda>a.
       rbind (field loc kvs ''enabled'' check_bool) (\<lambda>en.
       rbind (field loc kvs ''enabled_events'' (check_tuple
                (check_choice [''run_started'', ''run_succeeded'', ''run_failed'', ''decision_found'', ''no_decision'']))) (\<lambda>evs.
       rbind (field loc kvs ''endpoint'' check_secret) (\<lambda>ep.
       rbind (field loc kvs ''timeout_seconds'' (check_int 1 60)) (\<lambda>tm.
       rbind (field loc kvs ''retries'' check_retries) (\<lambda>rt.
       rbind (field loc kvs ''deduplication'' check_dedup) (\<lambda>dd.
       rbind (field loc kvs ''batching'' check_batching) (\<lambda>bt.
       rbind (field loc kvs ''redaction'' check_redaction) (\<lambda>rd.
       rbind (field loc kvs ''failure_policy'' (check_choice [''warning''])) (\<lambda>fp.
       Inr \<lparr>dn_adapter = a, dn_enabled = en, dn_enabled_events = evs, dn_endpoint = ep, dn_timeout_seconds = tm,
            dn_retries = rt, dn_deduplication = dd, dn_batching = bt, dn_redaction = rd, dn_failure_policy = fp\<rparr>)))))))))))
       loc v) (validate_destination loc)"

definition redacted_destination :: "destination \<Rightarrow> json" where
  "redacted_destination d = JObj
     [(''adapter'', JStr (dn_adapter d)), (''enabled'', JBool (dn_enabled d)),
      (''enabled_events'', JArr (map JStr (dn_enabled_events d))),
      (''endpoint'', JObj [(sr_kind (dn_endpoint d), JStr (sr_name (dn_endpoint d)))]),
      (''timeout_seconds'', JInt (dn_timeout_seconds d)),
      (''retries'', JObj [(''maximum_attempts'', JInt (re_maximum_attempts (dn_retries d))),
         (''backoff_seconds'', JArr (map JInt (re_backoff_seconds (dn_retries d))))]),
      (''deduplication'', JObj [(''window_seconds'', JInt (dd_window_seconds (dn_deduplication d))),
         (''key_fields'', JArr (map JStr (dd_key_fields (dn_deduplication d))))]),
      (''batching'', JObj [(''maximum_events'', JInt (bt_maximum_events (dn_batching d))),
         (''flush_seconds'', JInt (bt_flush_seconds (dn_batching d)))]),
      (''redaction'', JObj [(''headers'', JArr (map JStr (rd_headers (dn_redaction d)))),
         (''query_parameters'', JArr (map JStr (rd_query_parameters (dn_redaction d))))]),
      (''failure_policy'', JStr (dn_failure_policy d))]"

record notification_config =
  nc_enabled :: bool
  nc_destinations :: "(string, destination) dict"

definition check_notifications :: "notification_config check" where
  "check_notifications = also_check (check_model [''enabled'', ''destinations''] (\<lambda>loc kvs.
     rbind (field loc kvs ''enabled'' check_bool) (\<lambda>en.
     rbind (field loc kvs ''destinations'' (check_mapping role_syntax check_destination)) (\<lambda>ds.
     Inr \<lparr>nc_enabled = en, nc_destinations = ds\<rparr>))))
     (\<lambda>c. \<not> (nc_enabled c \<and> \<not> (1 \<le> length (nc_destinations c) \<and> length (nc_destinations c) \<le> 16))
        \<and> \<not> (\<not> nc_enabled c \<and> nc_destinations c \<noteq> []))"

definition redacted_notifications :: "notification_config \<Rightarrow> json" where
  "redacted_notifications c = JObj
     [(''enabled'', JBool (nc_enabled c)),
      (''destinations'', JObj (map (\<lambda>(k, d). (k, redacted_destination d)) (nc_destinations c)))]"

section \<open>Documents and hashes\<close>

text \<open>The YAML loader, a library call behind \<^verbatim>\<open>yaml_loader.py\<close>, is the parameter \<open>yaml\<close>.\<close>

definition document :: "string \<Rightarrow> 'a check \<Rightarrow> 'a check" where
  "document name f = check_model [name] (\<lambda>loc kvs. field loc kvs name f)"

definition load_market_data_text :: "(string \<Rightarrow> pyobj result) \<Rightarrow> string \<Rightarrow> market_data_config result" where
  "load_market_data_text yaml text = rbind (yaml text) (document ''market_data'' check_market_data [])"

definition load_schedule_text :: "(string \<Rightarrow> pyobj result) \<Rightarrow> string \<Rightarrow> schedule_config result" where
  "load_schedule_text yaml text = rbind (yaml text) (document ''schedule'' check_schedule [])"

definition external_destination :: "destination \<Rightarrow> bool" where
  "external_destination d \<longleftrightarrow>
     \<not> (rd_headers (dn_redaction d) = [] \<or> rd_query_parameters (dn_redaction d) = [])
     \<and> list_all (\<lambda>b. \<not> b < 1) (re_backoff_seconds (dn_retries d))"

definition load_notifications_text :: "(string \<Rightarrow> pyobj result) \<Rightarrow> string \<Rightarrow> notification_config result" where
  "load_notifications_text yaml text = rbind (yaml text)
     (also_check (document ''notifications'' check_notifications)
        (\<lambda>c. list_all (\<lambda>kd. external_destination (snd kd)) (nc_destinations c)) [])"

definition hash_market_data :: "market_data_config \<Rightarrow> string" where
  "hash_market_data c = hash_with_domain ''market-config-v1'' (market_data_canonical_dict c)"

definition hash_schedule :: "schedule_config \<Rightarrow> string" where
  "hash_schedule c = hash_with_domain ''schedule-v1'' (schedule_canonical_dict c)"

definition hash_notifications :: "notification_config \<Rightarrow> string" where
  "hash_notifications c = hash_with_domain ''notification-v1'' (redacted_notifications c)"

section \<open>What an accepted value satisfies\<close>

lemma cguard_eq_Inr [simp]: "cguard b loc = Inr u \<longleftrightarrow> b"
  by (simp add: cguard_def cfail_def)

lemma cfail_not_Inr [simp]: "cfail loc \<noteq> Inr x" "Inr x \<noteq> cfail loc"
  by (simp_all add: cfail_def)

lemma field_Inr: "field loc kvs name f = Inr x \<longleftrightarrow> (\<exists>v. dict_get kvs (PStr name) = Some v \<and> f (sub_loc loc name) v = Inr x)"
  by (simp add: field_def split: option.split)

lemma check_model_Inr: "check_model names build loc v = Inr r \<Longrightarrow> \<exists>kvs. v = PDict kvs \<and> build loc kvs = Inr r"
  by (auto simp: check_model_def neq_Nil_conv split: pyobj.splits list.splits)

lemma check_int_Inr: "check_int lo hi loc v = Inr i \<Longrightarrow> lo \<le> i \<and> i \<le> hi"
  by (auto simp: check_int_def split: pyobj.splits if_splits)

lemma check_items_nth: "check_items f loc i xs = Inr ys \<Longrightarrow> y \<in> set ys \<Longrightarrow> \<exists>l x. f l x = Inr y"
  by (induction f loc i xs arbitrary: ys rule: check_items.induct) (auto, blast)

lemma check_tuple_in: "check_tuple f loc v = Inr ys \<Longrightarrow> y \<in> set ys \<Longrightarrow> \<exists>l x. f l x = Inr y"
  by (auto simp: check_tuple_def dest: check_items_nth split: pyobj.splits)

lemma also_check_Inr [simp]: "also_check f ok loc v = Inr x \<longleftrightarrow> f loc v = Inr x \<and> ok x"
  by (auto simp: also_check_def)

lemma bounded_decimal_text:
  assumes "bounded_decimal minimum maximum positive loc v = Inr t"
  shows "\<exists>s. decimal_text s = Inr t \<and> \<not> dlt (dec_of s) minimum \<and> (positive \<longrightarrow> \<not> dle (dec_of s) dzero)
    \<and> (\<forall>m. maximum = Some m \<longrightarrow> \<not> dlt m (dec_of s))"
proof -
  from assms obtain s where s: "\<not> (64 < length s \<or> \<not> strict_decimal s)"
    and rest: "(case parse_decimal s of
       Finite n \<Rightarrow>
         rbind (cguard (\<not> (dlt n minimum \<or> (positive \<and> dle n dzero))) loc) (\<lambda>_.
         rbind (cguard (case maximum of None \<Rightarrow> True | Some m \<Rightarrow> \<not> dlt m n) loc) (\<lambda>_.
         Inr (or_zero (strip_fraction (format_f n)))))
     | _ \<Rightarrow> cfail loc) = Inr t"
    by (auto simp: bounded_decimal_def)
  from rest obtain n where n: "parse_decimal s = Finite n" by (cases "parse_decimal s") auto
  with rest s have "decimal_text s = Inr t" by (auto simp: decimal_text_def strict_decimal_def)
  moreover have "dec_of s = n" using n by (simp add: dec_of_def)
  ultimately show ?thesis using rest n by (intro exI [of _ s]) (auto split: option.splits)
qed

lemma bounded_decimal_canonical:
  assumes "bounded_decimal minimum maximum positive loc v = Inr t"
  shows "parse_decimal t = Finite (dec_of t) \<and> \<not> dlt (dec_of t) minimum \<and> (positive \<longrightarrow> dlt dzero (dec_of t))
    \<and> (\<forall>m. maximum = Some m \<longrightarrow> dle (dec_of t) m)"
proof -
  from bounded_decimal_text [OF assms] obtain s where s: "decimal_text s = Inr t" "\<not> dlt (dec_of s) minimum"
    "positive \<longrightarrow> \<not> dle (dec_of s) dzero" "\<forall>m. maximum = Some m \<longrightarrow> \<not> dlt m (dec_of s)" by blast
  have v: "dval (dec_of t) = dval (dec_of s)" using s(1) by (rule decimal_text_value)
  obtain n' m' where t: "t = render n' m'" "0 \<le> n'" using s(1) by (rule decimal_textE)
  have "\<exists>d. parse_decimal t = Finite d"
    using parse_numeral [OF render_numeral(2) [OF t(2), of m']] by (simp add: t render_numeral(1) [OF t(2)])
  then have "parse_decimal t = Finite (dec_of t)" by (auto simp: dec_of_def)
  with s v show ?thesis by (simp add: dlt_iff dle_iff not_le not_less)
qed

end
