(* ===== verification/Metrics.thy ===== *)
theory Metrics
  imports Simulator
begin

text \<open>
  The normalised summary of simulated trades (\<^verbatim>\<open>application/metrics.py\<close>): counts, win rate, mean and
  median return in units of risk, profit factor, drawdown and cost, overall and by group, in the
  28-digit context. A trade whose text is no number ends the summary with the error of the
  \<^verbatim>\<open>Decimal\<close> constructor. The lemmas show that the report does not depend on the order in which
  trades are handed over, that the groups partition the trades, and when the drawdown is zero.
\<close>

section \<open>Reports\<close>

type_synonym tally = "(string \<times> int) list"

record trade_metrics =
  tm_trade_count :: int
  win_rate :: "string option"
  mean_net_r :: "string option"
  median_net_r :: "string option"
  gross_profit_r :: string
  gross_loss_r :: string
  profit_factor :: "string option"
  cumulative_net_r :: string
  maximum_drawdown_r :: string
  total_cost :: string
  status_counts :: tally
  exit_reason_counts :: tally

definition tally_json :: "tally \<Rightarrow> json" where
  "tally_json t = JArr (map (\<lambda>(k, n). JArr [JStr k, JInt n]) t)"

definition trade_metrics_canonical_dict :: "trade_metrics \<Rightarrow> json" where
  "trade_metrics_canonical_dict m = JObj
     [(''trade_count'', JInt (tm_trade_count m)), (''win_rate'', opt_str (win_rate m)),
      (''mean_net_r'', opt_str (mean_net_r m)), (''median_net_r'', opt_str (median_net_r m)),
      (''gross_profit_r'', JStr (gross_profit_r m)), (''gross_loss_r'', JStr (gross_loss_r m)),
      (''profit_factor'', opt_str (profit_factor m)), (''cumulative_net_r'', JStr (cumulative_net_r m)),
      (''maximum_drawdown_r'', JStr (maximum_drawdown_r m)), (''total_cost'', JStr (total_cost m)),
      (''status_counts'', tally_json (status_counts m)),
      (''exit_reason_counts'', tally_json (exit_reason_counts m))]"

record metrics_report =
  overall :: trade_metrics
  by_instrument :: "(string \<times> trade_metrics) list"
  by_direction :: "(string \<times> trade_metrics) list"
  decision_status_counts :: tally
  unavailable_reason_counts :: tally

definition metrics_canonical_dict :: "metrics_report \<Rightarrow> json" where
  "metrics_canonical_dict r =
     (let groups = (\<lambda>g. JArr (map (\<lambda>(k, m). JArr [JStr k, trade_metrics_canonical_dict m]) g))
      in JObj [(''overall'', trade_metrics_canonical_dict (overall r)),
               (''by_instrument'', groups (by_instrument r)), (''by_direction'', groups (by_direction r)),
               (''decision_status_counts'', tally_json (decision_status_counts r)),
               (''unavailable_reason_counts'', tally_json (unavailable_reason_counts r))])"

section \<open>Summaries\<close>

text \<open>\<^verbatim>\<open>collections.Counter\<close>: a dictionary of counts in order of first occurrence.\<close>

definition counter :: "string list \<Rightarrow> (string, int) dict" where
  "counter ks = foldl (\<lambda>d k. dict_set k ((case dict_get d k of None \<Rightarrow> 0 | Some n \<Rightarrow> n) + 1) d) [] ks"

definition sorted_counter :: "string list \<Rightarrow> tally" where
  "sorted_counter ks = sort_key fst (counter ks)"

text \<open>\<^verbatim>\<open>sorted\<close> on decimals: stable, comparing by value.\<close>

fun insert_dec :: "dec \<Rightarrow> dec list \<Rightarrow> dec list" where
  "insert_dec x [] = [x]"
| "insert_dec x (y # ys) = (if dle x y then x # y # ys else y # insert_dec x ys)"

definition sort_decs :: "dec list \<Rightarrow> dec list" where
  "sort_decs ds = foldr insert_dec ds []"

text \<open>\<^verbatim>\<open>statistics.median\<close> of a non-empty sequence.\<close>

definition median_of :: "dec list \<Rightarrow> dec result" where
  "median_of ds = (let s = sort_decs ds; n = length s; i = n div 2
     in if odd n then Inr (s ! i) else ddiv (dadd (s ! (i - 1)) (s ! i)) (dec_of_int 2))"

definition drawdown_step :: "dec \<times> dec \<times> dec \<Rightarrow> dec \<Rightarrow> dec \<times> dec \<times> dec" where
  "drawdown_step s v = (case s of (cumulative, peak, drawdown) \<Rightarrow>
     (let cumulative' = dadd cumulative v; peak' = dmax2 peak cumulative'
      in (cumulative', peak', dmax2 drawdown (dsub peak' cumulative'))))"

definition maximum_drawdown :: "dec list \<Rightarrow> dec" where
  "maximum_drawdown vs = snd (snd (foldl drawdown_step (dzero, dzero, dzero) vs))"

definition opt_number :: "string option \<Rightarrow> dec result" where
  "opt_number v = py_decimal (text_or_zero v)"

definition trade_cost :: "trade_record \<Rightarrow> dec result" where
  "trade_cost t =
     rbind (opt_number (td_entry_fee t)) (\<lambda>a.
     rbind (opt_number (td_exit_fee t)) (\<lambda>b.
     rbind (opt_number (td_slippage_cost t)) (\<lambda>c. Inr (dadd (dadd a b) c))))"

text \<open>A division that is skipped when there is nothing to divide by.\<close>

definition text_unless :: "bool \<Rightarrow> dec result \<Rightarrow> string option result" where
  "text_unless b r = (if b then Inr None else rbind r (\<lambda>d. Inr (Some (accounting_text d))))"

definition summarize :: "trade_record list \<Rightarrow> trade_metrics result" where
  "summarize ts =
     (let closed = filter (\<lambda>t. td_status t = ''CLOSED'') ts in
      rbind (rmapM (\<lambda>t. opt_number (td_net_r t)) closed) (\<lambda>vs.
      (let profits = dsum (filter (dlt dzero) vs);
           losses = dminus (dsum (filter (\<lambda>v. dlt v dzero) vs)) in
      rbind (rmapM trade_cost closed) (\<lambda>costs.
      (let count = int (length closed); none = (count = 0) in
      rbind (text_unless none (ddiv (dec_of_int (int (length (filter (dlt dzero) vs)))) (dec_of_int count))) (\<lambda>rate.
      rbind (text_unless none (ddiv (dsum vs) (dec_of_int count))) (\<lambda>mean.
      rbind (text_unless (is_zero losses) (ddiv profits losses)) (\<lambda>factor.
      rbind (text_unless none (median_of vs)) (\<lambda>med.
      Inr \<lparr>tm_trade_count = count, win_rate = rate, mean_net_r = mean, median_net_r = med,
           gross_profit_r = accounting_text profits, gross_loss_r = accounting_text losses,
           profit_factor = factor, cumulative_net_r = accounting_text (dsum vs),
           maximum_drawdown_r = accounting_text (maximum_drawdown vs),
           total_cost = accounting_text (dsum costs), status_counts = sorted_counter (map td_status ts),
           exit_reason_counts = sorted_counter (map td_exit_reason ts)\<rparr>)))))))))"

definition summarize_groups ::
    "(trade_record \<Rightarrow> string) \<Rightarrow> trade_record list \<Rightarrow> (string \<times> trade_metrics) list result" where
  "summarize_groups f ts =
     rmapM (\<lambda>k. rbind (summarize (filter (\<lambda>t. f t = k) ts)) (\<lambda>m. Inr (k, m))) (sorted_set (map f ts))"

definition summarize_trades :: "trade_record list \<Rightarrow> metrics_report result" where
  "summarize_trades ts =
     (let ordered = sort_key trade_order ts in
      rbind (summarize ordered) (\<lambda>m.
      rbind (summarize_groups td_instrument_id ordered) (\<lambda>gi.
      rbind (summarize_groups td_direction ordered) (\<lambda>gd.
      Inr \<lparr>overall = m, by_instrument = gi, by_direction = gd,
           decision_status_counts = [], unavailable_reason_counts = []\<rparr>))))"

definition unavailable_reasons :: "replay_evaluation list \<Rightarrow> string list" where
  "unavailable_reasons evs =
     concat (map (\<lambda>e. let d = ev_decision e in
       if de_status d = ''UNAVAILABLE''
       then (case first_failed_signal d of None \<Rightarrow> [] | Some s \<Rightarrow> [s]) else []) evs)"

definition summarize_backtest :: "replay_evaluation list \<Rightarrow> trade_record list \<Rightarrow> metrics_report result" where
  "summarize_backtest evs ts =
     rbind (summarize_trades ts) (\<lambda>r.
     Inr (r\<lparr>decision_status_counts := sorted_counter (map (\<lambda>e. de_status (ev_decision e)) evs),
            unavailable_reason_counts := sorted_counter (unavailable_reasons evs)\<rparr>))"

section \<open>Counts\<close>

lemma sort_decs_eq: "sort_decs ds = sort_key dval ds"
proof -
  have ins: "insert_dec x ys = insort_key dval x ys" for x ys
    by (induction ys) (simp_all add: dle_iff)
  then have "insert_dec = insort_key dval" by (intro ext)
  then show ?thesis by (simp add: sort_decs_def sort_key_def)
qed

lemma counter_snoc:
  "counter (ks @ [k]) = dict_set k ((case dict_get (counter ks) k of None \<Rightarrow> 0 | Some n \<Rightarrow> n) + 1) (counter ks)"
  by (simp add: counter_def)

lemma counter_get: "dict_get (counter ks) k = (if k \<in> set ks then Some (int (count_list ks k)) else None)"
proof (induction ks arbitrary: k rule: rev_induct)
  case Nil
  show ?case by (simp add: counter_def)
next
  case (snoc x ks)
  show ?case by (auto simp: counter_snoc dict_set_conv snoc count_list_append)
qed

lemma counter_distinct: "distinct (dict_keys (counter ks))"
  by (induction ks rule: rev_induct) (simp_all add: counter_snoc distinct_update, simp add: counter_def)

lemma counter_keys: "set (dict_keys (counter ks)) = set ks"
  by (induction ks rule: rev_induct) (simp_all add: counter_snoc, simp add: counter_def)

lemma sorted_counter_eq: "sorted_counter ks = map (\<lambda>k. (k, int (count_list ks k))) (sorted_set ks)"
proof -
  let ?c = "sorted_counter ks"
  have keys: "map fst ?c = sorted_set ks"
  proof (rule sorted_distinct_set_unique)
    show "sorted (map fst ?c)" by (simp add: sorted_counter_def)
    show "distinct (map fst ?c)"
      using counter_distinct [of ks] by (simp add: sorted_counter_def distinct_map)
    show "set (map fst ?c) = set (sorted_set ks)" using counter_keys [of ks] by (simp add: sorted_counter_def)
  qed simp_all
  have "snd kv = int (count_list ks (fst kv))" if "kv \<in> set ?c" for kv
  proof -
    from that have "kv \<in> set (counter ks)" by (simp add: sorted_counter_def)
    then have "dict_get (counter ks) (fst kv) = Some (snd kv)"
      using counter_distinct by (simp add: map_of_is_SomeI)
    then show ?thesis by (simp add: counter_get split: if_splits)
  qed
  then have "?c = map (\<lambda>kv. (fst kv, int (count_list ks (fst kv)))) ?c"
    by (intro map_idI [symmetric]) (metis prod.collapse)
  also have "\<dots> = map (\<lambda>k. (k, int (count_list ks k))) (map fst ?c)" by simp
  finally show ?thesis by (simp only: keys)
qed

text \<open>Splitting a list by a key, group by group, loses nothing and counts nothing twice.\<close>

lemma sum_groups:
  "(\<Sum>k\<leftarrow>sorted_set (map f xs). int (length (filter P (filter (\<lambda>x. f x = k) xs)))) = int (length (filter P xs))"
proof -
  have "(\<Sum>k\<leftarrow>sorted_set (map f xs). int (length (filter P (filter (\<lambda>x. f x = k) xs))))
      = (\<Sum>k\<in>f ` set xs. int (length (filter P (filter (\<lambda>x. f x = k) xs))))"
    by (simp add: sum_list_distinct_conv_sum_set)
  also have "\<dots> = int (length (filter P xs))"
  proof (induction xs)
    case Nil
    show ?case by simp
  next
    case (Cons x xs)
    let ?g = "\<lambda>k ys. int (length (filter P (filter (\<lambda>x. f x = k) ys)))"
    have ext: "(\<Sum>k\<in>f ` set xs. ?g k xs) = (\<Sum>k\<in>f ` set (x # xs). ?g k xs)"
      by (intro sum.mono_neutral_left) (auto simp: filter_empty_conv)
    have "(\<Sum>k\<in>f ` set (x # xs). ?g k (x # xs))
        = (\<Sum>k\<in>f ` set (x # xs). ?g k xs + (if f x = k then (if P x then 1 else 0) else 0))"
      by (intro sum.cong) auto
    also have "\<dots> = (\<Sum>k\<in>f ` set (x # xs). ?g k xs) + (if P x then 1 else 0)"
      by (simp add: sum.distrib)
    finally show ?case using Cons ext by simp
  qed
  finally show ?thesis .
qed

lemma sum_tally: "(\<Sum>kn\<leftarrow>sorted_counter ks. snd kn) = int (length ks)"
proof -
  have "count_list ks k = length (filter (\<lambda>_. True) (filter (\<lambda>x. id x = k) ks))" for k
    by (induction ks) simp_all
  then show ?thesis using sum_groups [where f = id and xs = ks and P = "\<lambda>_. True"] by (simp add: sorted_counter_eq comp_def)
qed

section \<open>The report\<close>

lemma text_unless_None: "text_unless b r = Inr v \<Longrightarrow> v = None \<longleftrightarrow> b"
  by (auto simp: text_unless_def split: if_splits)

lemma is_zero_dminus: "is_zero (dminus d) \<longleftrightarrow> dval d = 0" if "dec_wf d"
proof (cases "is_zero d")
  case True
  have "ndigits 0 \<le> dec_prec" by code_simp
  with True show ?thesis by (simp add: dminus_def dval_zero_iff dfix_exact is_zero_def)
next
  case False
  then have "0 < dcoef (copy_negate d)" using that by (simp add: dec_wf_def is_zero_def copy_negate_def)
  then have "0 < dcoef (dminus d)" using False by (simp add: dminus_def dfix_coef_pos)
  then show ?thesis using False by (simp add: dval_zero_iff is_zero_def)
qed

lemma dadd_wf: "dec_wf (dadd a b)"
proof -
  have w: "dec_wf (dfix (Dec s \<bar>v\<bar> e))" for s v e by (rule dfix_wf) (simp add: dec_wf_def)
  show ?thesis by (simp add: dadd_def Let_def w) (simp add: dec_wf_def)
qed

lemma sum_negative: "\<forall>v\<in>set vs. dval v < 0 \<Longrightarrow> dval s \<le> 0 \<Longrightarrow>
    (dval (foldl dadd s vs) = 0 \<longleftrightarrow> vs = [] \<and> dval s = 0) \<and> dval (foldl dadd s vs) \<le> 0"
proof (induction vs arbitrary: s)
  case Nil
  then show ?case by simp
next
  case (Cons v vs)
  have "dval (dadd s v) < 0" using Cons.prems by (simp add: dadd_neg_iff)
  with Cons.IH [of "dadd s v"] Cons.prems show ?case by auto
qed

lemma losses_zero_iff: "is_zero (dminus (dsum (filter (\<lambda>v. dlt v dzero) vs))) \<longleftrightarrow> (\<forall>v\<in>set vs. 0 \<le> dval v)"
proof -
  let ?ls = "filter (\<lambda>v. dlt v dzero) vs"
  have wf: "dec_wf (foldl dadd dzero ?ls)"
    by (cases ?ls rule: rev_cases) (simp_all add: dadd_wf, simp add: dec_wf_def dzero_def)
  have "dval (foldl dadd dzero ?ls) = 0 \<longleftrightarrow> ?ls = []"
    using sum_negative [of ?ls dzero] by (simp add: dlt_iff)
  then show ?thesis
    unfolding dsum_def is_zero_dminus [OF wf] by (simp add: filter_empty_conv dlt_iff not_less)
qed

definition closed_trades :: "trade_record list \<Rightarrow> trade_record list" where
  "closed_trades ts = filter (\<lambda>t. td_status t = ''CLOSED'') ts"

lemma summarize_facts:
  assumes "summarize ts = Inr m"
  shows "tm_trade_count m = int (length (closed_trades ts))"
    "status_counts m = sorted_counter (map td_status ts)"
    "exit_reason_counts m = sorted_counter (map td_exit_reason ts)"
    "win_rate m = None \<longleftrightarrow> closed_trades ts = []"
    "\<exists>vs. rmapM (\<lambda>t. opt_number (td_net_r t)) (closed_trades ts) = Inr vs
      \<and> (profit_factor m = None \<longleftrightarrow> (\<forall>v\<in>set vs. 0 \<le> dval v))
      \<and> maximum_drawdown_r m = accounting_text (maximum_drawdown vs)"
  using assms
  by (auto simp: summarize_def Let_def closed_trades_def losses_zero_iff dest!: text_unless_None)

lemma summarize_groups_Inr:
  assumes "summarize_groups f ts = Inr gs"
  shows "map fst gs = sorted_set (map f ts)"
    and "(k, m) \<in> set gs \<Longrightarrow> summarize (filter (\<lambda>t. f t = k) ts) = Inr m"
proof -
  have el: "rbind (summarize (filter (\<lambda>t. f t = k) ts)) (\<lambda>m. Inr (k, m)) = Inr y \<Longrightarrow>
      fst y = k \<and> summarize (filter (\<lambda>t. f t = k) ts) = Inr (snd y)" for k y
    by auto
  show "map fst gs = sorted_set (map f ts)"
    using assms unfolding summarize_groups_def by (rule rmapM_keys) (use el in blast)
  show "(k, m) \<in> set gs \<Longrightarrow> summarize (filter (\<lambda>t. f t = k) ts) = Inr m"
    using rmapM_in_set [OF assms [unfolded summarize_groups_def]] el by fastforce
qed

lemma summarize_groups_sum:
  assumes "summarize_groups f ts = Inr gs"
  shows "(\<Sum>km\<leftarrow>gs. tm_trade_count (snd km)) = int (length (closed_trades ts))"
proof -
  have "tm_trade_count (snd km) = int (length (closed_trades (filter (\<lambda>t. f t = fst km) ts)))" if "km \<in> set gs" for km
    using summarize_facts(1) [OF summarize_groups_Inr(2) [OF assms, of "fst km" "snd km"]] that by simp
  then have "(\<Sum>km\<leftarrow>gs. tm_trade_count (snd km))
      = (\<Sum>km\<leftarrow>gs. int (length (closed_trades (filter (\<lambda>t. f t = fst km) ts))))"
    by (simp cong: map_cong)
  also have "\<dots> = (\<Sum>k\<leftarrow>map fst gs. int (length (closed_trades (filter (\<lambda>t. f t = k) ts))))" by (simp add: comp_def)
  finally show ?thesis unfolding summarize_groups_Inr(1) [OF assms] closed_trades_def sum_groups .
qed

lemma closed_trades_sort [simp]: "length (closed_trades (sort_key f ts)) = length (closed_trades ts)"
proof -
  have "mset (closed_trades (sort_key f ts)) = mset (closed_trades ts)" by (simp add: closed_trades_def)
  then show ?thesis by (rule mset_eq_length)
qed

lemma summarize_trades_Inr:
  assumes "summarize_trades ts = Inr r"
  defines "os \<equiv> sort_key trade_order ts"
  shows "summarize os = Inr (overall r)" "summarize_groups td_instrument_id os = Inr (by_instrument r)"
    "summarize_groups td_direction os = Inr (by_direction r)"
  using assms by (auto simp: summarize_trades_def Let_def)

lemma sorted_counter_cong: "mset ks = mset ls \<Longrightarrow> sorted_counter ks = sorted_counter ls"
proof -
  assume m: "mset ks = mset ls"
  have "sorted_set ks = sorted_set ls"
    unfolding sorted_set_def using mset_eq_setD [OF m]
    by (intro sorted_distinct_set_unique) simp_all
  moreover have "count_list ks = count_list ls" using m by (intro ext) (metis count_mset)
  ultimately show ?thesis by (simp add: sorted_counter_eq)
qed

section \<open>Drawdown\<close>

text \<open>The cumulative returns, rounded at every addition, starting from zero.\<close>

fun equity :: "dec \<Rightarrow> dec list \<Rightarrow> dec list" where
  "equity c [] = []"
| "equity c (v # vs) = dadd c v # equity (dadd c v) vs"

lemma drawdown_run:
  assumes "dval c \<le> dval p" "0 \<le> dval d"
  shows "(dval (snd (snd (foldl drawdown_step (c, p, d) vs))) = 0
      \<longleftrightarrow> dval d = 0 \<and> sorted (dval p # map dval (equity c vs)))
    \<and> 0 \<le> dval (snd (snd (foldl drawdown_step (c, p, d) vs)))"
  using assms
proof (induction vs arbitrary: c p d)
  case Nil
  then show ?case by simp
next
  case (Cons v vs)
  define c' p' d' where "c' = dadd c v" and "p' = dmax2 p c'" and "d' = dmax2 d (dsub p' c')"
  have step: "drawdown_step (c, p, d) v = (c', p', d')"
    by (simp add: drawdown_step_def Let_def c'_def p'_def d'_def)
  have p': "dval p' = max (dval p) (dval c')" by (simp add: p'_def dmax2_val)
  have fall: "0 < dval (dsub p' c') \<longleftrightarrow> dval c' < dval p"
    using dsub_pos_iff [of p' c'] p' by (auto simp: dlt_iff)
  have d': "dval d' = max (dval d) (dval (dsub p' c'))" by (simp add: d'_def dmax2_val)
  with Cons.prems have pre: "dval c' \<le> dval p'" "0 \<le> dval d'" by (simp_all add: p')
  have zero: "dval d' = 0 \<longleftrightarrow> dval d = 0 \<and> dval p \<le> dval c'"
    using fall d' Cons.prems(2) by (simp add: max_def) linarith
  have "sorted (dval p' # map dval (equity c' vs)) \<longleftrightarrow> sorted (dval c' # map dval (equity c' vs))"
    if "dval p \<le> dval c'"
    using that p' by (simp add: max_absorb2)
  with Cons.IH [OF pre] zero show ?case
    by (simp only: foldl_Cons step equity.simps list.map c'_def [symmetric] sorted2) blast
qed

lemma drawdown_zero_iff: "dval (maximum_drawdown vs) = 0 \<longleftrightarrow> sorted (0 # map dval (equity dzero vs))"
  using drawdown_run [of dzero dzero dzero vs] by (simp add: maximum_drawdown_def)

section \<open>Every simulated trade can be summarised\<close>

definition accounted :: "trade_record \<Rightarrow> bool" where
  "accounted t \<longleftrightarrow> (td_status t = ''CLOSED'' \<longrightarrow> is_ok (opt_number (td_net_r t)) \<and> is_ok (trade_cost t))"

lemma text_unless_ok: "b \<or> is_ok r \<Longrightarrow> \<exists>v. text_unless b r = Inr v"
  by (auto simp: text_unless_def is_ok_iff)

lemma ddiv_ok: "\<not> is_zero b \<Longrightarrow> is_ok (ddiv a b)"
  by (simp add: ddiv_def)

lemma median_ok: "is_ok (median_of vs)"
proof -
  have "\<not> is_zero (dec_of_int 2)" by code_simp
  then show ?thesis by (simp add: median_of_def Let_def ddiv_ok)
qed

lemma summarize_ok:
  assumes "\<forall>t\<in>set ts. accounted t"
  shows "\<exists>m. summarize ts = Inr m"
proof -
  let ?c = "filter (\<lambda>t. td_status t = ''CLOSED'') ts"
  from assms have "is_ok (rmapM (\<lambda>t. opt_number (td_net_r t)) ?c)" "is_ok (rmapM trade_cost ?c)"
    by (auto simp: is_ok_rmapM accounted_def)
  then obtain vs costs where vs: "rmapM (\<lambda>t. opt_number (td_net_r t)) ?c = Inr vs" "rmapM trade_cost ?c = Inr costs"
    by (auto simp: is_ok_iff)
  let ?n = "int (length ?c)"
  have div: "?n = 0 \<or> is_ok (ddiv a (dec_of_int ?n))" for a
    by (cases "?n = 0") (simp_all add: ddiv_ok is_zero_def dec_of_int_def)
  obtain rate where rate: "text_unless (?n = 0) (ddiv (dec_of_int (int (length (filter (dlt dzero) vs)))) (dec_of_int ?n)) = Inr rate"
    using text_unless_ok [OF div] by blast
  obtain mean where mean: "text_unless (?n = 0) (ddiv (dsum vs) (dec_of_int ?n)) = Inr mean"
    using text_unless_ok [OF div] by blast
  let ?losses = "dminus (dsum (filter (\<lambda>v. dlt v dzero) vs))"
  obtain factor where factor: "text_unless (is_zero ?losses) (ddiv (dsum (filter (dlt dzero) vs)) ?losses) = Inr factor"
    using text_unless_ok [of "is_zero ?losses"] ddiv_ok by blast
  obtain med where med: "text_unless (?n = 0) (median_of vs) = Inr med"
    using text_unless_ok median_ok by blast
  show ?thesis unfolding summarize_def Let_def vs rbind.simps rate mean factor med by simp
qed

lemma summarize_trades_ok:
  assumes "\<forall>t\<in>set ts. accounted t"
  shows "\<exists>r. summarize_trades ts = Inr r"
proof -
  let ?os = "sort_key trade_order ts"
  have sub: "is_ok (summarize (filter P ?os))" for P
    using summarize_ok [of "filter P ?os"] assms by (auto simp: is_ok_iff)
  then have "is_ok (summarize ?os)" using sub [of "\<lambda>_. True"] by simp
  moreover have "is_ok (summarize_groups f ?os)" for f
    using sub by (simp add: summarize_groups_def is_ok_rmapM)
  ultimately obtain m gi gd where "summarize ?os = Inr m" "summarize_groups td_instrument_id ?os = Inr gi"
    "summarize_groups td_direction ?os = Inr gd"
    unfolding is_ok_iff by blast
  then show ?thesis by (simp add: summarize_trades_def Let_def)
qed

lemma dec_of_wf [simp]: "dec_wf (dec_of s)"
proof -
  have "all_digits (takeWhile is_digit s)" for s
    by (auto simp: all_digits_def list_all_iff dest: set_takeWhileD)
  moreover have "all_digits []" by (simp add: all_digits_def)
  ultimately have "dec_wf d" if "parse_unsigned neg s = Finite d" for neg s d
    using that digits_val_nonneg
    by (auto simp: parse_unsigned_def Let_def dec_wf_def all_digits_def split: if_splits option.splits list.splits)
  then have "dec_wf d" if "parse_decimal s = Finite d" for d
    using that by (auto simp: parse_decimal_def Let_def split: list.splits if_splits)
  then show ?thesis by (auto simp: dec_of_def dzero_def dec_wf_def split: dec_text.split)
qed

lemma dmul_wf: "dec_wf a \<Longrightarrow> dec_wf b \<Longrightarrow> dec_wf (dmul a b)"
  unfolding dmul_def by (rule dfix_wf) (simp add: dec_wf_def)

lemma dsub_wf: "dec_wf (dsub a b)"
  by (simp add: dsub_def dadd_wf)

lemma dabs_wf: "dec_wf d \<Longrightarrow> dec_wf (dabs d)"
  unfolding dabs_def by (rule dfix_wf) (simp add: dec_wf_def)

lemma strip_to_nonneg: "strip_to n c e = (c', e') \<Longrightarrow> 0 \<le> c \<Longrightarrow> 0 \<le> c'"
  by (induction n c e rule: strip_to.induct) (auto split: if_splits)

lemma ddiv_wf:
  assumes "dec_wf a" "dec_wf b" "ddiv a b = Inr d"
  shows "dec_wf d"
proof (cases "is_zero a")
  case True
  with assms show ?thesis by (auto simp: ddiv_def dec_wf_def split: if_splits)
next
  case False
  have w: "0 \<le> c \<Longrightarrow> dec_wf (dfix (Dec s c e))" for s c e by (rule dfix_wf) (simp add: dec_wf_def)
  define shift where "shift = int (ndigits (dcoef b)) - int (ndigits (dcoef a)) + int dec_prec + 1"
  define e where "e = dexp a - dexp b - shift"
  define num where "num = (if shift \<ge> 0 then dcoef a * 10 ^ nat shift else dcoef a)"
  define den where "den = (if shift \<ge> 0 then dcoef b else dcoef b * 10 ^ nat (- shift))"
  define q where "q = num div den"
  define sg where "sg = (dneg a \<noteq> dneg b)"
  from assms False have "d = ddiv_nonzero a b" by (auto simp: ddiv_def split: if_splits)
  then have d: "d = (if num mod den \<noteq> 0 then dfix (Dec sg (if q mod 5 = 0 then q + 1 else q) e)
      else (case strip_to (nat (dexp a - dexp b - e)) q e of (c, e') \<Rightarrow> dfix (Dec sg c e')))"
    by (simp add: ddiv_nonzero_def Let_def shift_def e_def num_def den_def q_def sg_def)
  have "0 \<le> num" "0 \<le> den" using assms(1,2) by (simp_all add: num_def den_def dec_wf_def)
  then have q: "0 \<le> q" by (simp add: q_def div_int_pos_iff)
  obtain c e' where st: "strip_to (nat (dexp a - dexp b - e)) q e = (c, e')" by fastforce
  with q w strip_to_nonneg show ?thesis by (simp add: d)
qed

definition wf_simulator :: "simulator \<Rightarrow> bool" where
  "wf_simulator sim \<longleftrightarrow> dec_wf (fee_rate sim) \<and> dec_wf (slippage_rate sim)"

lemma py_decimal_wf: "py_decimal s = Inr d \<Longrightarrow> dec_wf d"
  using dec_of_wf [of s] by (simp add: py_decimal_def dec_of_def split: dec_text.splits)

lemma mk_simulator_wf: "mk_simulator en ex co bar = Inr sim \<Longrightarrow> wf_simulator sim"
proof -
  have "dec_wf d" if "py_decimal s = Inr x" "ddiv x (dec_of t) = Inr d" for s t x d
    using ddiv_wf [OF py_decimal_wf [OF that(1)] dec_of_wf that(2)] .
  then show "mk_simulator en ex co bar = Inr sim \<Longrightarrow> wf_simulator sim"
    unfolding mk_simulator_def wf_simulator_def by auto
qed

lemma text_number: "dec_wf d \<Longrightarrow> is_ok (opt_number (Some (accounting_text d)))"
proof -
  assume "dec_wf d"
  then obtain d' where "parse_decimal (accounting_text d) = Finite d'" using accounting_text_value by blast
  moreover have "accounting_text d \<noteq> []" by (simp add: accounting_text_def Let_def)
  ultimately show ?thesis by (simp add: opt_number_def text_or_zero_def or_zero_def py_decimal_def)
qed

lemma closed_record_accounted:
  assumes "closed_record sim ot c r b reason = Inr t" "wf_simulator sim" "dec_wf (ot_executed_entry ot)" "dec_wf b"
  shows "accounted t"
proof -
  let ?a = "account sim ot b"
  have wf: "dec_wf (ac_net_pnl ?a)" "dec_wf (ac_initial_risk ?a)" "dec_wf (ac_entry_fee ?a)"
    "dec_wf (ac_exit_fee ?a)" "dec_wf (ac_slippage_cost ?a)"
    using assms(2-4)
    by (simp_all add: account_def Let_def wf_simulator_def dsub_wf dadd_wf dmul_wf dabs_wf)
  from assms(1) have "\<exists>net. ddiv (ac_net_pnl ?a) (ac_initial_risk ?a) = Inr net
      \<and> td_net_r t = Some (accounting_text net) \<and> td_entry_fee t = Some (accounting_text (ac_entry_fee ?a))
      \<and> td_exit_fee t = Some (accounting_text (ac_exit_fee ?a))
      \<and> td_slippage_cost t = Some (accounting_text (ac_slippage_cost ?a))"
    unfolding closed_record_def Let_def rbind_eq_Inr by (elim exE conjE) (simp only: sum.inject, hypsubst, simp)
  then obtain net where net: "ddiv (ac_net_pnl ?a) (ac_initial_risk ?a) = Inr net"
    and texts: "td_net_r t = Some (accounting_text net)" "td_entry_fee t = Some (accounting_text (ac_entry_fee ?a))"
      "td_exit_fee t = Some (accounting_text (ac_exit_fee ?a))"
      "td_slippage_cost t = Some (accounting_text (ac_slippage_cost ?a))"
    by blast
  have "dec_wf net" by (rule ddiv_wf [OF wf(1,2) net])
  with wf(3-5) have "is_ok (opt_number (td_net_r t))" "is_ok (opt_number (td_entry_fee t))"
    "is_ok (opt_number (td_exit_fee t))" "is_ok (opt_number (td_slippage_cost t))"
    by (simp_all only: texts text_number)
  then show ?thesis by (auto simp: accounted_def trade_cost_def is_ok_iff)
qed

lemma closed_not_pending: "accounted (expired_record p)"
  by (simp add: accounted_def)

definition sim_numbers :: "sim_state \<Rightarrow> bool" where
  "sim_numbers s \<longleftrightarrow> (\<forall>t\<in>set (trades s). accounted t)
     \<and> (case opened s of None \<Rightarrow> True | Some ot \<Rightarrow> dec_wf (ot_executed_entry ot))"

lemma expire_numbers: "sim_numbers s \<Longrightarrow> sim_numbers (expire_phase c s)"
  by (auto simp: sim_numbers_def expire_phase_def closed_not_pending split: option.splits)

lemma fill_numbers: "sim_numbers s \<Longrightarrow> sim_numbers (fill_phase sim c s)"
  by (auto simp: sim_numbers_def fill_phase_def fill_trade_def Let_def dmul_wf dadd_wf split: option.splits)

lemma signal_numbers: "sim_numbers s \<Longrightarrow> sim_numbers (signal_phase sim evs c s)"
proof -
  have one: "sim_numbers s \<Longrightarrow> sim_numbers (signal_step sim s e)" for s e
    by (simp add: sim_numbers_def signal_step_def Let_def)
  have "sim_numbers s \<Longrightarrow> sim_numbers (foldl (signal_step sim) s es)" for es
    by (induction es arbitrary: s) (simp_all add: one)
  then show "sim_numbers s \<Longrightarrow> sim_numbers (signal_phase sim evs c s)" by (simp add: signal_phase_def)
qed

lemma close_numbers:
  assumes "sim_numbers s" "wf_simulator sim" "opened s = Some ot" "dec_wf b" "close_trade sim ot c r b reason s = Inr s'"
  shows "sim_numbers s'"
  using assms closed_record_accounted [of sim ot c r b reason]
  by (auto simp: sim_numbers_def close_trade_def)

lemma stop_fill_wf: "dec_wf (stop_fill e c)"
  by (simp add: stop_fill_def dmin2_def dmax2_def)

lemma exit_numbers:
  assumes "sim_numbers s" "wf_simulator sim" "exit_phase sim c s = Inr s'"
  shows "sim_numbers s'"
proof (cases "opened s")
  case None
  with assms show ?thesis by (simp add: exit_phase_def)
next
  case (Some ot)
  note close = close_numbers [OF assms(1,2) Some]
  from assms(1,3) Some show ?thesis
    by (auto simp: exit_phase_def Let_def split: if_splits intro: close [OF stop_fill_wf] close [OF dec_of_wf])
qed

lemma run_instrument_accounted:
  assumes "wf_simulator sim" "run_instrument sim evs cs = Inr ts" "t \<in> set ts"
  shows "accounted t"
proof -
  let ?os = "sort_key open_time_ms cs"
  from assms(2) obtain s where s: "rfoldM (sim_step sim evs) sim_start ?os = Inr s" "sim_finish sim ?os s = Inr ts"
    by (auto simp: run_instrument_def Let_def)
  have step: "sim_numbers s'" if "sim_numbers s" "sim_step sim evs s c = Inr s'" for s c s'
  proof -
    from that(2) obtain u where u: "exit_phase sim c (fill_phase sim c (expire_phase c s)) = Inr u"
      "s' = signal_phase sim evs c u"
      by (auto simp: sim_step_def)
    from exit_numbers [OF fill_numbers [OF expire_numbers [OF that(1)]] assms(1) u(1)]
    show ?thesis unfolding u(2) by (rule signal_numbers)
  qed
  have start: "sim_numbers sim_start" by (simp add: sim_numbers_def sim_start_def)
  have n: "sim_numbers s" by (rule rfoldM_invariant [where P = sim_numbers, OF s(1) start]) (rule step)
  show ?thesis
    using s(2) n assms(1,3) closed_record_accounted [of sim _ "last ?os" _ _ "''END_OF_DATA''"]
    by (auto simp: sim_finish_def Let_def sim_numbers_def closed_not_pending split: option.splits if_splits)
qed

section \<open>Properties\<close>

lemma trade_order_inj: "distinct (map trade_order ts) \<Longrightarrow> inj_on trade_order (set ts)"
  by (simp add: distinct_map)

lemma sort_trades_cong:
  "mset ts = mset us \<Longrightarrow> distinct (map trade_order ts) \<Longrightarrow> sort_key trade_order ts = sort_key trade_order us"
  by (rule sort_key_inj_key_eq) (simp_all add: trade_order_inj)

lemma unavailable_reasons_cong:
  assumes "mset evs = mset evs'"
  shows "mset (unavailable_reasons evs) = mset (unavailable_reasons evs')"
proof -
  have "mset (concat (map f xs)) = (\<Sum>x\<in>#mset xs. mset (f x))" for f :: "replay_evaluation \<Rightarrow> string list" and xs
    by (induction xs) simp_all
  with assms show ?thesis by (simp add: unavailable_reasons_def)
qed

text \<open>The report of a backtest depends only on which evaluations and trades there are, not on the
  order in which they are handed over, provided no two trades share signal time, instrument and
  decision.\<close>

theorem metrics_order_independent:
  assumes "mset evs = mset evs'" "mset ts = mset ts'" "distinct (map trade_order ts)"
  shows "summarize_backtest evs ts = summarize_backtest evs' ts'"
proof -
  have "mset (map (\<lambda>e. de_status (ev_decision e)) evs) = mset (map (\<lambda>e. de_status (ev_decision e)) evs')"
    using assms(1) by simp
  from sorted_counter_cong [OF this] sorted_counter_cong [OF unavailable_reasons_cong [OF assms(1)]]
  show ?thesis
    using sort_trades_cong [OF assms(2,3)] by (simp add: summarize_backtest_def summarize_trades_def)
qed

text \<open>Two closed trades, one won and one lost, and an expired one.\<close>

definition sample_trade :: "string \<Rightarrow> string \<Rightarrow> int \<Rightarrow> string \<Rightarrow> string option \<Rightarrow> trade_record" where
  "sample_trade h st t reason net = \<lparr>td_decision_hash = h, td_instrument_id = ''CRYPTO-BTC-USDT-PERP'',
     td_direction = ''LONG'', td_status = st, td_signal_time_ms = t, td_entry_time_ms = None,
     td_exit_time_ms = None, td_requested_entry = ''100'', td_stop = ''95'', td_target = ''110'',
     td_executed_entry = None, td_requested_exit = None, td_executed_exit = None, td_exit_reason = reason,
     td_initial_risk = None, td_gross_price_return = None, td_entry_fee = None, td_exit_fee = None,
     td_slippage_cost = None, td_net_price_return = None, td_gross_r = None, td_net_r = net,
     td_duration_minutes = None\<rparr>"

definition sample_trades :: "trade_record list" where
  "sample_trades = [sample_trade ''b'' ''CLOSED'' 2 ''STOP'' (Some ''-1''),
     sample_trade ''a'' ''CLOSED'' 1 ''TARGET'' (Some ''2''), sample_trade ''c'' ''EXPIRED'' 3 ''ENTRY_EXPIRED'' None]"

theorem metrics_order_independent_witness:
  "summarize_backtest [] sample_trades = summarize_backtest [] (rev sample_trades)"
proof (rule metrics_order_independent)
  show "distinct (map trade_order sample_trades)" by code_simp
qed simp_all


text \<open>A simulation of the sample market.\<close>

lemma sample_trades_accounted: "\<forall>t\<in>set sample_trades. accounted t"
proof -
  have "list_all accounted sample_trades" by code_simp
  then show ?thesis by (simp add: list_all_iff)
qed


text \<open>Whatever a simulation with a constructed simulator returns can be summarised: every text the
  simulator writes reads back as a number, and no division of the report meets a zero.\<close>

theorem simulated_trades_summarised:
  assumes "mk_simulator en ex co bar = Inr sim" "run_simulation sim evs cs = Inr ts"
  shows "\<exists>r. summarize_backtest evs' ts = Inr r"
proof -
  from assms(2) obtain tss where tss: "ts = sort_key trade_order (concat tss)"
    "rmapM (\<lambda>i. run_instrument sim (filter (\<lambda>e. ev_instrument_id e = i) evs)
        (filter (\<lambda>c. c_instrument_id c = i) cs)) (sorted_set (map ev_instrument_id evs @ map c_instrument_id cs)) = Inr tss"
    by (auto simp: run_simulation_def Let_def)
  have "accounted t" if "t \<in> set ts" for t
  proof -
    from that tss(1) obtain us where us: "us \<in> set tss" "t \<in> set us" by auto
    from rmapM_in_set [OF tss(2) us(1)] obtain i where "run_instrument sim (filter (\<lambda>e. ev_instrument_id e = i) evs)
        (filter (\<lambda>c. c_instrument_id c = i) cs) = Inr us" by blast
    from run_instrument_accounted [OF mk_simulator_wf [OF assms(1)] this us(2)] show ?thesis .
  qed
  with summarize_trades_ok [of ts] show ?thesis by (auto simp: summarize_backtest_def)
qed

theorem simulated_trades_summarised_witness:
  "\<exists>ts r. run_simulation sample_simulator [sample_evaluation 59999 ''h1''] sample_market = Inr ts \<and> length ts = 1
     \<and> summarize_backtest [] ts = Inr r"
proof -
  let ?evs = "[sample_evaluation 59999 ''h1'']"
  have mk: "mk_simulator (sim_entry sample_simulator) (sim_execution sample_simulator) (sim_costs sample_simulator) 15
      = Inr sample_simulator" by code_simp
  have ids: "sorted_set (map ev_instrument_id ?evs @ map c_instrument_id sample_market) = [''CRYPTO-BTC-USDT-PERP'']"
    by code_simp
  have fs: "filter (\<lambda>e. ev_instrument_id e = ''CRYPTO-BTC-USDT-PERP'') ?evs = ?evs"
    "filter (\<lambda>c. c_instrument_id c = ''CRYPTO-BTC-USDT-PERP'') sample_market = sample_market" by code_simp+
  from sample_run_instrument obtain us where us: "run_instrument sample_simulator ?evs sample_market = Inr us" "length us = 1"
    by (cases "run_instrument sample_simulator ?evs sample_market") (auto simp: length_Suc_conv)
  then have run: "run_simulation sample_simulator ?evs sample_market = Inr (sort_key trade_order us)"
    unfolding run_simulation_def Let_def ids by (simp only: rmapM.simps fs us(1)) simp
  from simulated_trades_summarised [OF mk run] obtain r where "summarize_backtest [] (sort_key trade_order us) = Inr r"
    by blast
  with run us(2) show ?thesis by auto
qed

end
