(* ===== verification/Scenario.thy ===== *)
theory Scenario
  imports Configuration Metrics
begin

text \<open>
  The backtest scenario (\<^verbatim>\<open>load_backtest_text\<close> of \<^verbatim>\<open>configuration/loaders.py\<close> and the records of
  \<^verbatim>\<open>configuration/models.py\<close>): exact objects, canonical UTC minutes, and the only execution rules of
  the first version. As in the other loaders an error is the location it is reported at. The lemmas
  show that an accepted scenario always builds a simulator.
\<close>

section \<open>Exact values\<close>

definition exact_dict :: "string list \<Rightarrow> string \<Rightarrow> pyobj \<Rightarrow> fields result" where
  "exact_dict keys loc v =
     (case v of PDict kvs \<Rightarrow> if set (map fst kvs) = set (map PStr keys) then Inr kvs else cfail loc | _ \<Rightarrow> cfail loc)"

definition exact_str :: "string check" where
  "exact_str = check_text plain_string"

definition loaded :: "fields \<Rightarrow> string \<Rightarrow> pyobj" where
  "loaded kvs name = (case dict_get kvs (PStr name) of None \<Rightarrow> PNone | Some v \<Rightarrow> v)"

text \<open>An exact string that has one admissible value.\<close>

definition exact_value :: "string \<Rightarrow> string check" where
  "exact_value s = also_check exact_str (\<lambda>v. v = s)"

section \<open>UTC minutes\<close>

definition leap_year :: "int \<Rightarrow> bool" where
  "leap_year y \<longleftrightarrow> y mod 4 = 0 \<and> (y mod 100 \<noteq> 0 \<or> y mod 400 = 0)"

definition month_days :: "int \<Rightarrow> int list" where
  "month_days y = [31, if leap_year y then 29 else 28, 31, 30, 31, 30, 31, 31, 30, 31, 30, 31]"

text \<open>\<^verbatim>\<open>date(y, m, d).toordinal()\<close> for a valid date.\<close>

definition date_ordinal :: "int \<Rightarrow> int \<Rightarrow> int \<Rightarrow> int" where
  "date_ordinal y m d = (let p = y - 1 in p * 365 + p div 4 - p div 100 + p div 400
     + sum_list (take (nat (m - 1)) (month_days y)) + d)"

definition valid_datetime :: "int \<Rightarrow> int \<Rightarrow> int \<Rightarrow> int \<Rightarrow> int \<Rightarrow> bool" where
  "valid_datetime y mo d h mi \<longleftrightarrow> 1 \<le> y \<and> y \<le> 9999 \<and> 1 \<le> mo \<and> mo \<le> 12
     \<and> 1 \<le> d \<and> d \<le> month_days y ! nat (mo - 1) \<and> 0 \<le> h \<and> h \<le> 23 \<and> 0 \<le> mi \<and> mi \<le> 59"

text \<open>\<^verbatim>\<open>timegm\<close> of a datetime with zero seconds, in milliseconds.\<close>

definition utc_millis :: "int \<Rightarrow> int \<Rightarrow> int \<Rightarrow> int \<Rightarrow> int \<Rightarrow> int" where
  "utc_millis y mo d h mi = (((date_ordinal y mo d - 719163) * 24 + h) * 60 + mi) * 60 * 1000"

text \<open>The fields of \<^verbatim>\<open>YYYY-MM-DDTHH:MM:00Z\<close>.\<close>

definition minute_fields :: "string \<Rightarrow> (int \<times> int \<times> int \<times> int \<times> int) option" where
  "minute_fields s =
     (let part = (\<lambda>i n. take n (drop i s)); ps = [part 0 4, part 5 2, part 8 2, part 11 2, part 14 2]
      in if length s = 20 \<and> list_all all_digits ps
            \<and> [s ! 4, s ! 7, s ! 10, s ! 13] = ''--T:'' \<and> drop 16 s = '':00Z''
         then Some (digits_val (part 0 4), digits_val (part 5 2), digits_val (part 8 2),
                    digits_val (part 11 2), digits_val (part 14 2))
         else None)"

definition utc_minute :: "int check" where
  "utc_minute loc v =
     rbind (exact_str loc v) (\<lambda>s.
     case minute_fields s of
       None \<Rightarrow> cfail loc
     | Some (y, mo, d, h, mi) \<Rightarrow>
         if valid_datetime y mo d h mi then Inr (utc_millis y mo d h mi) else cfail loc)"

section \<open>Scenarios\<close>

record backtest_period =
  bp_start_ms :: int
  bp_end_ms :: int

record backtest_scenario =
  bs_name :: string
  bs_version :: string
  bs_strategy :: string
  bs_period :: backtest_period
  bs_entry :: entry_config
  bs_execution :: execution_config
  bs_costs :: cost_config
  bs_existing_result :: string

definition exact_decimal_text :: "string check" where
  "exact_decimal_text loc v =
     rbind (exact_str loc v) (\<lambda>s.
     rbind (bounded_decimal dzero None False loc (PStr s)) (\<lambda>t.
     rbind (cguard (s = t) loc) (\<lambda>_. Inr s)))"

definition leaf_yaml :: "string \<Rightarrow> bool" where
  "leaf_yaml s \<longleftrightarrow> \<not> (path_name s \<noteq> s \<or> path_suffix s \<notin> {''.yaml'', ''.yml''})"

definition load_period :: "backtest_period check" where
  "load_period loc v =
     rbind (exact_dict [''start'', ''end''] loc v) (\<lambda>p.
     rbind (utc_minute (sub_loc loc ''start'') (loaded p ''start'')) (\<lambda>a.
     rbind (utc_minute (sub_loc loc ''end'') (loaded p ''end'')) (\<lambda>b.
     rbind (cguard (\<not> a \<ge> b) loc) (\<lambda>_.
     Inr \<lparr>bp_start_ms = a, bp_end_ms = b\<rparr>))))"

definition load_entry :: "entry_config check" where
  "load_entry loc v =
     rbind (exact_dict [''mode'', ''expiry_execution_bars''] loc v) (\<lambda>e.
     rbind (exact_value ''touch_limit'' (sub_loc loc ''mode'') (loaded e ''mode'')) (\<lambda>m.
     rbind (check_int 1 10000 (sub_loc loc ''expiry_execution_bars'') (loaded e ''expiry_execution_bars'')) (\<lambda>x.
     Inr \<lparr>en_mode = m, expiry_execution_bars = x\<rparr>)))"

definition load_execution :: "execution_config check" where
  "load_execution loc v =
     rbind (exact_dict [''maximum_holding_minutes'', ''intrabar_conflict'', ''allow_same_minute_target''] loc v) (\<lambda>e.
     rbind (exact_value ''stop_first'' (sub_loc loc ''intrabar_conflict'') (loaded e ''intrabar_conflict'')) (\<lambda>cf.
     rbind (also_check check_bool (\<lambda>b. \<not> b) (sub_loc loc ''allow_same_minute_target'') (loaded e ''allow_same_minute_target'')) (\<lambda>sm.
     rbind (check_int 1 100000 (sub_loc loc ''maximum_holding_minutes'') (loaded e ''maximum_holding_minutes'')) (\<lambda>mx.
     Inr \<lparr>maximum_holding_minutes = mx, intrabar_conflict = cf, allow_same_minute_target = sm\<rparr>))))"

definition load_costs :: "cost_config check" where
  "load_costs loc v =
     rbind (exact_dict [''taker_fee_bps'', ''adverse_slippage_bps''] loc v) (\<lambda>c.
     rbind (exact_decimal_text (sub_loc loc ''taker_fee_bps'') (loaded c ''taker_fee_bps'')) (\<lambda>f.
     rbind (exact_decimal_text (sub_loc loc ''adverse_slippage_bps'') (loaded c ''adverse_slippage_bps'')) (\<lambda>s.
     Inr \<lparr>taker_fee_bps = f, adverse_slippage_bps = s\<rparr>)))"

definition load_scenario :: "backtest_scenario check" where
  "load_scenario loc v =
     rbind (exact_dict [''name'', ''version'', ''strategy'', ''period'', ''entry'', ''execution'', ''costs'', ''output''] loc v) (\<lambda>r.
     rbind (also_check exact_str identifier_syntax (sub_loc loc ''name'') (loaded r ''name'')) (\<lambda>n.
     rbind (also_check exact_str (\<lambda>s. 1 \<le> length s \<and> length s \<le> 32) (sub_loc loc ''version'') (loaded r ''version'')) (\<lambda>ver.
     rbind (also_check exact_str leaf_yaml (sub_loc loc ''strategy'') (loaded r ''strategy'')) (\<lambda>st.
     rbind (load_period (sub_loc loc ''period'') (loaded r ''period'')) (\<lambda>p.
     rbind (load_entry (sub_loc loc ''entry'') (loaded r ''entry'')) (\<lambda>en.
     rbind (load_execution (sub_loc loc ''execution'') (loaded r ''execution'')) (\<lambda>ex.
     rbind (load_costs (sub_loc loc ''costs'') (loaded r ''costs'')) (\<lambda>co.
     rbind (exact_dict [''existing_result''] (sub_loc loc ''output'') (loaded r ''output'')) (\<lambda>out.
     rbind (exact_value ''fail'' (sub_loc (sub_loc loc ''output'') ''existing_result'') (loaded out ''existing_result'')) (\<lambda>er.
     Inr \<lparr>bs_name = n, bs_version = ver, bs_strategy = st, bs_period = p, bs_entry = en, bs_execution = ex,
          bs_costs = co, bs_existing_result = er\<rparr>))))))))))"

definition load_backtest_text :: "(string \<Rightarrow> pyobj result) \<Rightarrow> string \<Rightarrow> backtest_scenario result" where
  "load_backtest_text yaml text =
     rbind (yaml text) (\<lambda>v.
     rbind (exact_dict [''backtest''] ''$'' v) (\<lambda>root.
     load_scenario ''backtest'' (loaded root ''backtest'')))"

definition period_canonical_dict :: "backtest_period \<Rightarrow> json" where
  "period_canonical_dict p = JObj [(''start_ms'', JInt (bp_start_ms p)), (''end_ms'', JInt (bp_end_ms p))]"

definition scenario_canonical_dict :: "backtest_scenario \<Rightarrow> json" where
  "scenario_canonical_dict s = JObj
     [(''name'', JStr (bs_name s)), (''version'', JStr (bs_version s)), (''strategy'', JStr (bs_strategy s)),
      (''period'', period_canonical_dict (bs_period s)),
      (''entry'', JObj [(''mode'', JStr (en_mode (bs_entry s))),
         (''expiry_execution_bars'', JInt (expiry_execution_bars (bs_entry s)))]),
      (''execution'', JObj [(''maximum_holding_minutes'', JInt (maximum_holding_minutes (bs_execution s))),
         (''intrabar_conflict'', JStr (intrabar_conflict (bs_execution s))),
         (''allow_same_minute_target'', JBool (allow_same_minute_target (bs_execution s)))]),
      (''costs'', JObj [(''taker_fee_bps'', JStr (taker_fee_bps (bs_costs s))),
         (''adverse_slippage_bps'', JStr (adverse_slippage_bps (bs_costs s)))]),
      (''output'', JObj [(''existing_result'', JStr (bs_existing_result s))])]"

definition hash_backtest :: "backtest_scenario \<Rightarrow> string" where
  "hash_backtest s = hash_with_domain ''backtest-scenario-v1'' (scenario_canonical_dict s)"

section \<open>Accepted scenarios\<close>

lemma utc_minute_aligned: "utc_minute loc v = Inr t \<Longrightarrow> t mod 60000 = 0"
proof -
  have "utc_millis y mo d h mi = ((date_ordinal y mo d - 719163) * 24 * 60 + h * 60 + mi) * 60000" for y mo d h mi
    by (simp add: utc_millis_def algebra_simps)
  then have aligned: "utc_millis y mo d h mi mod 60000 = 0" for y mo d h mi by (metis mod_mult_self2_is_0)
  assume "utc_minute loc v = Inr t"
  then obtain s where m: "(case minute_fields s of None \<Rightarrow> cfail loc | Some (y, mo, d, h, mi) \<Rightarrow>
      if valid_datetime y mo d h mi then Inr (utc_millis y mo d h mi) else cfail loc) = Inr t"
    by (auto simp: utc_minute_def)
  then obtain f where "minute_fields s = Some f" by (cases "minute_fields s") auto
  with m aligned show "t mod 60000 = 0" by (cases f) (auto split: if_splits)
qed

lemma exact_decimal_number: "exact_decimal_text loc v = Inr t \<Longrightarrow> \<exists>d. py_decimal t = Inr d \<and> 0 \<le> dval d"
  unfolding exact_decimal_text_def
  using bounded_decimal_canonical [of dzero None False loc "PStr t" t]
  by (auto simp: py_decimal_def dlt_iff not_less)

lemma load_costs_numbers:
  "load_costs loc v = Inr co \<Longrightarrow> \<exists>f s. py_decimal (taker_fee_bps co) = Inr f \<and> py_decimal (adverse_slippage_bps co) = Inr s"
  by (auto simp: load_costs_def dest!: exact_decimal_number)

lemma load_period_facts:
  "load_period loc v = Inr p \<Longrightarrow> bp_start_ms p < bp_end_ms p \<and> bp_start_ms p mod 60000 = 0 \<and> bp_end_ms p mod 60000 = 0"
  by (auto simp: load_period_def dest: utc_minute_aligned)

lemma load_entry_facts: "load_entry loc v = Inr e \<Longrightarrow> 1 \<le> expiry_execution_bars e"
  by (auto simp: load_entry_def dest: check_int_Inr)

lemma load_execution_facts: "load_execution loc v = Inr e \<Longrightarrow> 1 \<le> maximum_holding_minutes e"
  by (auto simp: load_execution_def dest: check_int_Inr)

lemma mk_simulator_ok:
  assumes "py_decimal (taker_fee_bps co) = Inr f" "py_decimal (adverse_slippage_bps co) = Inr s"
  shows "\<exists>sim. mk_simulator en ex co bar = Inr sim"
proof -
  have "\<not> is_zero (dec_of ''10000'')" by code_simp
  then obtain x y where "ddiv f (dec_of ''10000'') = Inr x" "ddiv s (dec_of ''10000'') = Inr y"
    using ddiv_ok unfolding is_ok_iff by blast
  with assms show ?thesis by (simp add: mk_simulator_def)
qed

lemma load_scenario_Inr:
  assumes "load_scenario loc v = Inr sc"
  shows "\<exists>l w. load_period l w = Inr (bs_period sc)" "\<exists>l w. load_entry l w = Inr (bs_entry sc)"
    "\<exists>l w. load_execution l w = Inr (bs_execution sc)" "\<exists>l w. load_costs l w = Inr (bs_costs sc)"
proof -
  from assms obtain r where "load_period (sub_loc loc ''period'') (loaded r ''period'') = Inr (bs_period sc)"
    "load_entry (sub_loc loc ''entry'') (loaded r ''entry'') = Inr (bs_entry sc)"
    "load_execution (sub_loc loc ''execution'') (loaded r ''execution'') = Inr (bs_execution sc)"
    "load_costs (sub_loc loc ''costs'') (loaded r ''costs'') = Inr (bs_costs sc)"
    by (auto simp: load_scenario_def simp del: also_check_Inr)
  then show "\<exists>l w. load_period l w = Inr (bs_period sc)" "\<exists>l w. load_entry l w = Inr (bs_entry sc)"
    "\<exists>l w. load_execution l w = Inr (bs_execution sc)" "\<exists>l w. load_costs l w = Inr (bs_costs sc)" by blast+
qed

text \<open>A scenario that the loader accepts can be run: its costs are numbers from which a simulator is
  built, entries expire and holdings end after at least one step, and its period is a non-empty
  range of whole minutes.\<close>

theorem accepted_scenario_simulates:
  assumes "load_backtest_text yaml text = Inr sc"
  shows "(\<exists>sim. mk_simulator (bs_entry sc) (bs_execution sc) (bs_costs sc) bar = Inr sim)
    \<and> 1 \<le> expiry_execution_bars (bs_entry sc) \<and> 1 \<le> maximum_holding_minutes (bs_execution sc)
    \<and> bp_start_ms (bs_period sc) < bp_end_ms (bs_period sc)
    \<and> bp_start_ms (bs_period sc) mod 60000 = 0 \<and> bp_end_ms (bs_period sc) mod 60000 = 0"
proof -
  from assms obtain v where v: "load_scenario ''backtest'' v = Inr sc" by (auto simp: load_backtest_text_def)
  obtain l1 w1 l2 w2 l3 w3 l4 w4 where p: "load_period l1 w1 = Inr (bs_period sc)" "load_entry l2 w2 = Inr (bs_entry sc)"
    "load_execution l3 w3 = Inr (bs_execution sc)" "load_costs l4 w4 = Inr (bs_costs sc)"
    using load_scenario_Inr [OF v] by blast
  from p(4) obtain f s where "py_decimal (taker_fee_bps (bs_costs sc)) = Inr f" "py_decimal (adverse_slippage_bps (bs_costs sc)) = Inr s"
    using load_costs_numbers by blast
  then have sim: "\<exists>sim. mk_simulator (bs_entry sc) (bs_execution sc) (bs_costs sc) bar = Inr sim" by (rule mk_simulator_ok)
  with load_period_facts [OF p(1)] load_entry_facts [OF p(2)] load_execution_facts [OF p(3)] show ?thesis by blast
qed

text \<open>The scenario of the repository.\<close>

definition sample_scenario :: pyobj where
  "sample_scenario =
     (let obj = (\<lambda>kvs. PDict (map (\<lambda>(k, v). (PStr k, v)) kvs)) in
      obj [(''backtest'', obj [(''name'', PStr ''one-year-baseline''), (''version'', PStr ''1''),
        (''strategy'', PStr ''source-aligned-research.yaml''),
        (''period'', obj [(''start'', PStr ''2025-09-01T00:00:00Z''), (''end'', PStr ''2026-08-31T23:59:00Z'')]),
        (''entry'', obj [(''mode'', PStr ''touch_limit''), (''expiry_execution_bars'', PInt 6)]),
        (''execution'', obj [(''maximum_holding_minutes'', PInt 360), (''intrabar_conflict'', PStr ''stop_first''),
           (''allow_same_minute_target'', PBool False)]),
        (''costs'', obj [(''taker_fee_bps'', PStr ''5''), (''adverse_slippage_bps'', PStr ''2'')]),
        (''output'', obj [(''existing_result'', PStr ''fail'')])])])"

lemma sample_scenario_period:
  "map_sum (\<lambda>_. ()) bs_period (load_backtest_text (\<lambda>_. Inr sample_scenario) [])
    = Inr \<lparr>bp_start_ms = 1756684800000, bp_end_ms = 1788220740000\<rparr>"
  by code_simp

theorem accepted_scenario_simulates_witness:
  "\<exists>sc sim. load_backtest_text (\<lambda>_. Inr sample_scenario) [] = Inr sc
     \<and> mk_simulator (bs_entry sc) (bs_execution sc) (bs_costs sc) 15 = Inr sim
     \<and> bp_start_ms (bs_period sc) = 1756684800000"
proof -
  from sample_scenario_period obtain sc where sc: "load_backtest_text (\<lambda>_. Inr sample_scenario) [] = Inr sc"
    "bs_period sc = \<lparr>bp_start_ms = 1756684800000, bp_end_ms = 1788220740000\<rparr>"
    by (cases "load_backtest_text (\<lambda>_. Inr sample_scenario) []") auto
  with accepted_scenario_simulates [OF sc(1), of 15] show ?thesis by auto
qed

end
