(* ===== verification/Strategy.thy ===== *)
theory Strategy
  imports Configuration Risk Policy
begin

text \<open>
  Strategies: the signal and strategy models (\<^verbatim>\<open>configuration/models.py\<close>), with the parameter model of
  every plugin and the contracts between plugins, and their translation into graph nodes and
  decision signals. The lemmas connect the two validations of the program: what the strategy loader
  accepts builds an indicator graph, and every plugin of the registry accepts the parameters that
  the loader has validated.
\<close>

section \<open>Plugin contracts\<close>

type_synonym contract = "string \<times> string list \<times> string list"

definition plugin_contracts :: "(string, contract) dict" where
  "plugin_contracts =
     [(''smc.swing_structure'', (''regime'', [''4h''], [])),
      (''smc.equal_high_low'', (''context'', [''1h''], [''smc.swing_structure''])),
      (''smc.order_block'', (''context'', [''1h''], [''smc.swing_structure''])),
      (''ict.clustered_liquidity'', (''execution'', [''5m'', ''15m''], [''smc.equal_high_low''])),
      (''ict.market_structure'', (''execution'', [''5m'', ''15m''], [''ict.clustered_liquidity''])),
      (''ict.fair_value_gap'', (''execution'', [''5m'', ''15m''], [''ict.market_structure''])),
      (''project.risk_levels'', (''execution'', [''5m'', ''15m''], [''ict.clustered_liquidity'', ''ict.fair_value_gap'']))]"

definition implemented_plugin_ids :: "string list" where
  "implemented_plugin_ids = map fst plugin_contracts"

section \<open>Parameters\<close>

text \<open>A parameter model checks its fields and keeps them in the order of their declaration.\<close>

definition parameter_model :: "(string \<times> evidence check) list \<Rightarrow> evidence check" where
  "parameter_model fs = check_model (map fst fs) (\<lambda>loc kvs.
     rbind (rmapM (\<lambda>(name, f). rbind (field loc kvs name f) (\<lambda>v. Inr (name, v))) fs) (\<lambda>items. Inr (EMap items)))"

definition p_int :: "int \<Rightarrow> int \<Rightarrow> evidence check" where
  "p_int lo hi loc v = rbind (check_int lo hi loc v) (\<lambda>i. Inr (EInt i))"

definition p_bool :: "evidence check" where
  "p_bool loc v = rbind (check_bool loc v) (\<lambda>b. Inr (EBool b))"

definition p_choice :: "string list \<Rightarrow> evidence check" where
  "p_choice allowed loc v = rbind (check_choice allowed loc v) (\<lambda>s. Inr (EStr s))"

definition p_decimal :: "dec \<Rightarrow> dec option \<Rightarrow> bool \<Rightarrow> evidence check" where
  "p_decimal minimum maximum positive loc v = rbind (bounded_decimal minimum maximum positive loc v) (\<lambda>s. Inr (EStr s))"

definition p_tenth :: "evidence check" where
  "p_tenth loc v =
     rbind (bounded_decimal dzero None False loc v) (\<lambda>s.
     rbind (cguard (list_ex (\<lambda>n. deq (dec_of s) (Dec False n (-1))) [2, 3, 4, 5, 6, 7]) loc) (\<lambda>_.
     Inr (EStr s)))"

definition swing_model :: "evidence check" where
  "swing_model = parameter_model [(''swing_length'', p_int 10 10000), (''show_labels'', p_bool)]"

definition equal_model :: "evidence check" where
  "equal_model = parameter_model
     [(''confirmation_bars'', p_int 1 10000),
      (''threshold_atr_fraction'', p_decimal dzero (Some (dec_of ''0.5'')) False)]"

definition block_model :: "evidence check" where
  "block_model = parameter_model
     [(''scope'', p_choice [''swing'', ''internal'']), (''volatility_filter'', p_choice [''atr'', ''cumulative_range'']),
      (''mitigation_source'', p_choice [''close'', ''high_low'']), (''maximum_blocks'', p_int 1 100)]"

definition liquidity_model :: "evidence check" where
  "liquidity_model = parameter_model
     [(''pivot_width'', p_int 3 10), (''minimum_pivots'', p_int 3 50), (''margin_atr_fraction'', p_tenth)]"

definition structure_model :: "evidence check" where
  "structure_model = also_check (parameter_model
     [(''pivot_width'', p_int 3 10), (''emit_mss'', p_bool), (''emit_bos'', p_bool)])
     (\<lambda>p. \<not> (param_get p ''emit_mss'' = Some (EBool False) \<and> param_get p ''emit_bos'' = Some (EBool False)))"

definition gap_model :: "evidence check" where
  "gap_model = parameter_model
     [(''kind'', p_choice [''ordinary'']), (''require_displacement'', p_bool),
      (''displacement_length'', p_int 1 10000), (''mitigation'', p_choice [''full_traversal''])]"

definition risk_model :: "evidence check" where
  "risk_model = parameter_model [(''minimum_reward_risk'', p_decimal dzero None True)]"

definition parameter_models :: "(string, evidence check) dict" where
  "parameter_models =
     [(''smc.swing_structure'', swing_model), (''smc.equal_high_low'', equal_model),
      (''smc.order_block'', block_model), (''ict.clustered_liquidity'', liquidity_model),
      (''ict.market_structure'', structure_model), (''ict.fair_value_gap'', gap_model),
      (''project.risk_levels'', risk_model)]"

text \<open>The errors of a parameter model are reported at the parameters field.\<close>

definition check_parameters :: "string \<Rightarrow> evidence check" where
  "check_parameters pid loc v =
     (case dict_get parameter_models pid of
        None \<Rightarrow> cfail loc
      | Some f \<Rightarrow>
          (let raw = (case v of PProxy kvs \<Rightarrow> PDict kvs | _ \<Rightarrow> v)
           in case f [] raw of Inl _ \<Rightarrow> cfail loc | Inr p \<Rightarrow> Inr p))"

section \<open>Signals and strategies\<close>

record signal_config =
  sg_id :: string
  sg_role :: string
  sg_depends_on :: "string list"
  sg_parameters :: evidence
  sg_required :: bool
  sg_effect :: string
  sg_order :: int

definition check_signal :: "signal_config check" where
  "check_signal = check_model [''id'', ''role'', ''depends_on'', ''parameters'', ''required'', ''effect'', ''order''] (\<lambda>loc kvs.
     rbind (field loc kvs ''id'' (check_choice implemented_plugin_ids)) (\<lambda>i.
     rbind (field loc kvs ''role'' (check_text role_syntax)) (\<lambda>r.
     rbind (field loc kvs ''depends_on'' (also_check (check_tuple check_str) (unique_values True))) (\<lambda>ds.
     rbind (field loc kvs ''parameters'' (check_parameters i)) (\<lambda>ps.
     rbind (field loc kvs ''required'' check_bool) (\<lambda>rq.
     rbind (field loc kvs ''effect'' (check_choice [''REJECT'', ''LEVELS''])) (\<lambda>ef.
     rbind (field loc kvs ''order'' (check_int 0 2147483647)) (\<lambda>od.
     Inr \<lparr>sg_id = i, sg_role = r, sg_depends_on = ds, sg_parameters = ps, sg_required = rq,
          sg_effect = ef, sg_order = od\<rparr>))))))))"

definition signal_canonical_dict :: "signal_config \<Rightarrow> json" where
  "signal_canonical_dict s = JObj
     [(''id'', JStr (sg_id s)), (''role'', JStr (sg_role s)), (''depends_on'', JArr (map JStr (sg_depends_on s))),
      (''parameters'', canonical_evidence (sg_parameters s)), (''required'', JBool (sg_required s)),
      (''effect'', JStr (sg_effect s)), (''order'', JInt (sg_order s))]"

record strategy_config =
  sy_name :: string
  sy_version :: string
  sy_instruments :: "string list"
  sy_history_minutes :: int
  sy_roles :: "(string, string) dict"
  sy_signals :: "signal_config list"

text \<open>One signal of the graph validation: the identifiers seen so far and the previous order.\<close>

definition graph_step :: "(string, string) dict \<Rightarrow> string list \<times> int \<Rightarrow> signal_config \<Rightarrow> (string list \<times> int) result" where
  "graph_step roles st s = (case st of (seen, previous) \<Rightarrow>
     rbind (cguard (sg_id s \<notin> set seen) []) (\<lambda>_.
     case dict_get roles (sg_role s) of
       None \<Rightarrow> cfail []
     | Some tf \<Rightarrow>
        rbind (dict_index plugin_contracts (sg_id s)) (\<lambda>(role, tfs, deps).
        rbind (cguard (sg_role s = role) []) (\<lambda>_.
        rbind (cguard (tf \<in> set tfs) []) (\<lambda>_.
        rbind (cguard (sg_depends_on s = deps) []) (\<lambda>_.
        rbind (cguard (list_all (\<lambda>d. d \<in> set seen) (sg_depends_on s)) []) (\<lambda>_.
        rbind (cguard (\<not> sg_order s \<le> previous) []) (\<lambda>_.
        Inr (sg_id s # seen, sg_order s)))))))))"

definition validate_signals :: "strategy_config \<Rightarrow> strategy_config result" where
  "validate_signals c =
     rbind (cguard (sy_signals c \<noteq> []) []) (\<lambda>_.
     rbind (rfoldM (graph_step (sy_roles c)) ([], -1) (sy_signals c)) (\<lambda>_. Inr c))"

definition timeframes_known :: "(string, string) dict \<Rightarrow> bool" where
  "timeframes_known roles \<longleftrightarrow> roles \<noteq> [] \<and> list_all (\<lambda>kv. snd kv \<in> set (dict_keys timeframe_minutes)) roles"

definition strategy_fields :: "strategy_config check" where
  "strategy_fields = check_model [''name'', ''version'', ''instruments'', ''history_minutes'', ''roles'', ''signals''] (\<lambda>loc kvs.
     rbind (field loc kvs ''name'' (check_text identifier_syntax)) (\<lambda>n.
     rbind (field loc kvs ''version'' (check_text (\<lambda>s. plain_string s \<and> 1 \<le> length s \<and> length s \<le> 32))) (\<lambda>ver.
     rbind (field loc kvs ''instruments'' (also_check (check_tuple (check_text instrument_key)) (unique_values False))) (\<lambda>is.
     rbind (field loc kvs ''history_minutes'' (check_int 1 10000000)) (\<lambda>hm.
     rbind (field loc kvs ''roles'' (also_check (check_mapping role_syntax (check_text plain_string)) timeframes_known)) (\<lambda>rs.
     rbind (field loc kvs ''signals'' (check_tuple check_signal)) (\<lambda>ss.
     Inr \<lparr>sy_name = n, sy_version = ver, sy_instruments = is, sy_history_minutes = hm, sy_roles = rs, sy_signals = ss\<rparr>)))))))"

definition check_strategy :: "strategy_config check" where
  "check_strategy loc v = rbind (strategy_fields loc v) validate_signals"

definition strategy_canonical_dict :: "strategy_config \<Rightarrow> json" where
  "strategy_canonical_dict c = JObj
     [(''name'', JStr (sy_name c)), (''version'', JStr (sy_version c)),
      (''instruments'', JArr (map JStr (sy_instruments c))), (''history_minutes'', JInt (sy_history_minutes c)),
      (''roles'', JObj (map (\<lambda>(k, v). (k, JStr v)) (sy_roles c))),
      (''signals'', JArr (map signal_canonical_dict (sy_signals c)))]"

definition hash_strategy :: "strategy_config \<Rightarrow> string" where
  "hash_strategy c = hash_with_domain ''strategy-v2'' (strategy_canonical_dict c)"

definition load_strategy_text :: "(string \<Rightarrow> pyobj result) \<Rightarrow> string \<Rightarrow> strategy_config result" where
  "load_strategy_text yaml text = rbind (yaml text) (check_strategy [])"

section \<open>Translation\<close>

definition configured_nodes :: "strategy_config \<Rightarrow> configured_node list result" where
  "configured_nodes c = rmapM (\<lambda>s.
     rbind (dict_index (sy_roles c) (sg_role s)) (\<lambda>tf.
     mk_node (sg_id s) (sg_id s) (sg_role s) (sg_depends_on s) (thaw (sg_parameters s)) (sg_order s) (Some tf)))
     (sy_signals c)"

definition configured_decision_signals :: "strategy_config \<Rightarrow> decision_signal list result" where
  "configured_decision_signals c = rmapM (\<lambda>s. mk_decision_signal
     \<lparr>ds_signal_id = sg_id s, ds_required = sg_required s, ds_effect = sg_effect s, ds_order = sg_order s\<rparr>) (sy_signals c)"

section \<open>What a validated strategy satisfies\<close>

text \<open>The fields of a parameter model, by name.\<close>

lemma parameter_model_Inr:
  assumes "parameter_model fs loc v = Inr p" "distinct (map fst fs)"
  shows "\<exists>items. p = EMap items \<and> map fst items = map fst fs
    \<and> (\<forall>(name, f) \<in> set fs. \<exists>x l raw. param_get p name = Some x \<and> f l raw = Inr x)"
proof -
  from assms(1) obtain kvs items where
    i: "rmapM (\<lambda>(name, f). rbind (field loc kvs name f) (\<lambda>v. Inr (name, v))) fs = Inr items" and p: "p = EMap items"
    by (auto simp: parameter_model_def dest!: check_model_Inr)
  have l: "list_all2 (\<lambda>nf item. fst item = fst nf \<and> (\<exists>l raw. snd nf l raw = Inr (snd item))) fs items"
    using i unfolding rmapM_list_all2
    by (rule list_all2_mono) (auto simp: field_Inr split: prod.splits, blast)
  then have keys: "map fst items = map fst fs"
    by (induction rule: list_all2_induct) auto
  with assms(2) have d: "distinct (map fst items)" by simp
  have "\<exists>x l raw. param_get p name = Some x \<and> f l raw = Inr x" if "(name, f) \<in> set fs" for name f
  proof -
    from that obtain k where k: "k < length fs" "fs ! k = (name, f)" by (auto simp: in_set_conv_nth)
    with l have k': "k < length items" "fst (items ! k) = name" "\<exists>l raw. f l raw = Inr (snd (items ! k))"
      by (auto simp: list_all2_conv_all_nth) (metis snd_conv)
    then have "(name, snd (items ! k)) \<in> set items" by (metis nth_mem prod.collapse)
    with d have "map_of items name = Some (snd (items ! k))" by (rule map_of_is_SomeI)
    with k'(3) p show ?thesis by auto
  qed
  with p keys show ?thesis by auto
qed

lemma p_int_Inr: "p_int lo hi l raw = Inr x \<Longrightarrow> \<exists>i. x = EInt i \<and> lo \<le> i \<and> i \<le> hi"
  by (auto simp: p_int_def dest: check_int_Inr)

lemma p_bool_Inr: "p_bool l raw = Inr x \<Longrightarrow> \<exists>b. x = EBool b"
  by (auto simp: p_bool_def)

lemma p_choice_Inr: "p_choice allowed l raw = Inr x \<Longrightarrow> \<exists>s. x = EStr s \<and> s \<in> set allowed"
  by (auto simp: p_choice_def check_choice_def check_text_def)

section \<open>Validated parameters suit the plugins\<close>

lemma exact_int_ok: "param_get p k = Some (EInt i) \<Longrightarrow> lo \<le> i \<Longrightarrow> (\<forall>m. hi = Some m \<longrightarrow> i \<le> m) \<Longrightarrow> exact_int p k lo hi = Inr i"
  by (auto simp: exact_int_def split: option.split)

lemma exact_bool_ok: "param_get p k = Some (EBool b) \<Longrightarrow> exact_bool p k = Inr b"
  by (simp add: exact_bool_def)

lemma choice_ok: "p_choice allowed l raw = Inr x \<Longrightarrow> param_get p k = Some x \<Longrightarrow> \<exists>s. choice_param p k allowed msg = Inr s"
  by (auto simp: choice_param_def dest: p_choice_Inr)

lemma same_keys_ok: "p = EMap items \<Longrightarrow> map fst items = ks \<Longrightarrow> same_keys p ks"
  by (simp add: same_keys_def)

lemma p_decimal_Inr:
  assumes "p_decimal minimum maximum positive l raw = Inr x" "param_get p k = Some x"
  shows "\<exists>d. exact_decimal p k msg = Inr d \<and> \<not> dlt d minimum \<and> (positive \<longrightarrow> dlt dzero d) \<and> (\<forall>m. maximum = Some m \<longrightarrow> dle d m)"
  using assms bounded_decimal_canonical by (auto simp: p_decimal_def exact_decimal_def)

lemma p_tenth_Inr:
  assumes "p_tenth l raw = Inr x" "param_get p k = Some x"
  shows "\<exists>d n. exact_decimal p k msg = Inr d \<and> n \<in> {2, 3, 4, 5, 6, 7} \<and> deq d (Dec False n (-1))"
  using assms bounded_decimal_canonical by (auto simp: p_tenth_def exact_decimal_def list_ex_iff)

lemma swing_accepts: "swing_model loc v = Inr p \<Longrightarrow> is_ok (swing_params p)"
proof -
  assume "swing_model loc v = Inr p"
  from parameter_model_Inr [OF this [unfolded swing_model_def]] obtain items x y where
    k: "p = EMap items" "map fst items = [''swing_length'', ''show_labels'']"
    "param_get p ''swing_length'' = Some (EInt x)" "10 \<le> x" "param_get p ''show_labels'' = Some (EBool y)"
    by (auto dest!: p_int_Inr p_bool_Inr)
  from k(3,4) exact_int_ok have "exact_int p ''swing_length'' 1 None = Inr x" by simp
  then show ?thesis using exact_bool_ok [OF k(5)] same_keys_ok [OF k(1,2)] by (simp add: swing_params_def)
qed

lemma equal_accepts: "equal_model loc v = Inr p \<Longrightarrow> is_ok (equal_params p)"
proof -
  assume "equal_model loc v = Inr p"
  from parameter_model_Inr [OF this [unfolded equal_model_def]] obtain items x l raw y where
    k: "p = EMap items" "map fst items = [''confirmation_bars'', ''threshold_atr_fraction'']"
    "param_get p ''confirmation_bars'' = Some (EInt x)" "1 \<le> x"
    and y: "p_decimal dzero (Some (dec_of ''0.5'')) False l raw = Inr y" "param_get p ''threshold_atr_fraction'' = Some y"
    by (auto dest!: p_int_Inr)
  from p_decimal_Inr [OF y] obtain d where d: "exact_decimal p ''threshold_atr_fraction'' ''threshold_atr_fraction must be in 0..0.5'' = Inr d"
    "dle dzero d" "dle d (dec_of ''0.5'')" by (auto simp: dlt_iff dle_iff not_less)
  from k(3,4) exact_int_ok have "exact_int p ''confirmation_bars'' 1 None = Inr x" by simp
  with d same_keys_ok [OF k(1,2)] show ?thesis by (simp add: equal_params_def)
qed

lemma block_accepts: "block_model loc v = Inr p \<Longrightarrow> is_ok (order_block_params p)"
proof -
  assume "block_model loc v = Inr p"
  from parameter_model_Inr [OF this [unfolded block_model_def]] obtain items a b c n l1 l2 l3 r1 r2 r3 where
    k: "p = EMap items" "map fst items = [''scope'', ''volatility_filter'', ''mitigation_source'', ''maximum_blocks'']"
    and a: "p_choice [''swing'', ''internal''] l1 r1 = Inr a" "param_get p ''scope'' = Some a"
    and b: "p_choice [''atr'', ''cumulative_range''] l2 r2 = Inr b" "param_get p ''volatility_filter'' = Some b"
    and c: "p_choice [''close'', ''high_low''] l3 r3 = Inr c" "param_get p ''mitigation_source'' = Some c"
    and n: "param_get p ''maximum_blocks'' = Some (EInt n)" "1 \<le> n"
    by (auto dest!: p_int_Inr)
  from n exact_int_ok have "exact_int p ''maximum_blocks'' 1 None = Inr n" by simp
  moreover obtain s1 s2 s3 where "choice_param p ''scope'' [''swing'', ''internal''] ''scope must be swing or internal'' = Inr s1"
    "choice_param p ''volatility_filter'' [''atr'', ''cumulative_range''] ''unknown volatility filter'' = Inr s2"
    "choice_param p ''mitigation_source'' [''close'', ''high_low''] ''unknown mitigation source'' = Inr s3"
    using choice_ok [OF a] choice_ok [OF b] choice_ok [OF c] by blast
  ultimately show ?thesis using same_keys_ok [OF k] by (simp add: order_block_params_def)
qed

lemma liquidity_accepts: "liquidity_model loc v = Inr p \<Longrightarrow> is_ok (liquidity_params p)"
proof -
  assume "liquidity_model loc v = Inr p"
  from parameter_model_Inr [OF this [unfolded liquidity_model_def]] obtain items a b l raw y where
    k: "p = EMap items" "map fst items = [''pivot_width'', ''minimum_pivots'', ''margin_atr_fraction'']"
    and i: "param_get p ''pivot_width'' = Some (EInt a)" "3 \<le> a" "a \<le> 10"
    "param_get p ''minimum_pivots'' = Some (EInt b)" "3 \<le> b"
    and y: "p_tenth l raw = Inr y" "param_get p ''margin_atr_fraction'' = Some y"
    by (auto dest!: p_int_Inr)
  from p_tenth_Inr [OF y] obtain d n where d: "exact_decimal p ''margin_atr_fraction''
        ''margin_atr_fraction must be a source-representable tenth in 0.2..0.7'' = Inr d"
    "n \<in> {2, 3, 4, 5, 6, 7}" "deq d (Dec False n (-1))" by blast
  have "rmapM (\<lambda>v. ddiv (dec_of_int v) (dec_of_int 10)) [2, 3, 4, 5, 6, 7] = Inr (map (\<lambda>n. Dec False n (-1)) [2, 3, 4, 5, 6, 7])"
    by code_simp
  moreover have "list_ex (deq d) (map (\<lambda>n. Dec False n (-1)) [2, 3, 4, 5, 6, 7])" using d(2,3) by auto
  ultimately show ?thesis
    using d(1) exact_int_ok [OF i(1,2), of "Some 10"] exact_int_ok [OF i(4,5), of None] i(3) same_keys_ok [OF k]
    by (simp only: liquidity_params_def rguard_True rbind.simps) simp
qed

lemma structure_accepts: "structure_model loc v = Inr p \<Longrightarrow> is_ok (structure_params p)"
proof -
  assume a: "structure_model loc v = Inr p"
  then have m: "parameter_model [(''pivot_width'', p_int 3 10), (''emit_mss'', p_bool), (''emit_bos'', p_bool)] loc v = Inr p"
    "\<not> (param_get p ''emit_mss'' = Some (EBool False) \<and> param_get p ''emit_bos'' = Some (EBool False))"
    by (simp_all add: structure_model_def)
  from parameter_model_Inr [OF m(1)] obtain items a b c where
    k: "p = EMap items" "map fst items = [''pivot_width'', ''emit_mss'', ''emit_bos'']"
    and i: "param_get p ''pivot_width'' = Some (EInt a)" "3 \<le> a" "a \<le> 10"
    and b: "param_get p ''emit_mss'' = Some (EBool b)" "param_get p ''emit_bos'' = Some (EBool c)"
    by (auto dest!: p_int_Inr p_bool_Inr)
  from m(2) b have "\<not> (\<not> b \<and> \<not> c)" by simp
  then show ?thesis
    using exact_int_ok [OF i(1,2), of "Some 10"] i(3) exact_bool_ok [OF b(1)] exact_bool_ok [OF b(2)] same_keys_ok [OF k]
    by (simp add: structure_params_def)
qed

lemma gap_accepts: "gap_model loc v = Inr p \<Longrightarrow> is_ok (gap_params p)"
proof -
  assume "gap_model loc v = Inr p"
  from parameter_model_Inr [OF this [unfolded gap_model_def]] obtain items b n where
    k: "p = EMap items" "map fst items = [''kind'', ''require_displacement'', ''displacement_length'', ''mitigation'']"
    and s: "param_get p ''kind'' = Some (EStr ''ordinary'')" "param_get p ''mitigation'' = Some (EStr ''full_traversal'')"
    and b: "param_get p ''require_displacement'' = Some (EBool b)"
    and n: "param_get p ''displacement_length'' = Some (EInt n)" "1 \<le> n"
    by (auto dest!: p_int_Inr p_choice_Inr p_bool_Inr)
  from n exact_int_ok have "exact_int p ''displacement_length'' 1 None = Inr n" by simp
  then show ?thesis using s exact_bool_ok [OF b] same_keys_ok [OF k] by (simp add: gap_params_def)
qed

lemma risk_accepts: "risk_model loc v = Inr p \<Longrightarrow> is_ok (risk_params p)"
proof -
  assume "risk_model loc v = Inr p"
  from parameter_model_Inr [OF this [unfolded risk_model_def]] obtain items l raw y where
    k: "p = EMap items" "map fst items = [''minimum_reward_risk'']"
    and y: "p_decimal dzero None True l raw = Inr y" "param_get p ''minimum_reward_risk'' = Some y"
    by auto
  from p_decimal_Inr [OF y] obtain d where "exact_decimal p ''minimum_reward_risk'' ''minimum_reward_risk must be positive'' = Inr d"
    "dlt dzero d" by blast
  with same_keys_ok [OF k] show ?thesis by (simp add: risk_params_def)
qed

section \<open>The graph of a validated strategy\<close>

lemma rbind_ok: "is_ok r \<Longrightarrow> (\<And>x. r = Inr x \<Longrightarrow> \<exists>y. f x = Inr y) \<Longrightarrow> \<exists>y. rbind r f = Inr y"
  by (auto simp: is_ok_iff)

text \<open>The plugin built from parameters that its model accepted, and the role it insists on.\<close>

lemma plugin_accepts:
  assumes "check_parameters pid loc v = Inr p"
  shows "\<exists>mk plug. dict_get builtin_factories pid = Some mk \<and> mk p = Inr plug
    \<and> pl_role plug = Some (fst (the (dict_get plugin_contracts pid)))"
proof -
  from assms obtain f w where f: "dict_get parameter_models pid = Some f" "f [] w = Inr p"
    by (auto simp: check_parameters_def Let_def split: option.splits sum.splits)
  from f(1) consider "pid = ''smc.swing_structure'' \<and> f = swing_model" | "pid = ''smc.equal_high_low'' \<and> f = equal_model"
    | "pid = ''smc.order_block'' \<and> f = block_model" | "pid = ''ict.clustered_liquidity'' \<and> f = liquidity_model"
    | "pid = ''ict.market_structure'' \<and> f = structure_model" | "pid = ''ict.fair_value_gap'' \<and> f = gap_model"
    | "pid = ''project.risk_levels'' \<and> f = risk_model"
    by (auto simp: parameter_models_def split: if_splits)
  then show ?thesis
  proof cases
    case 1 with f(2) swing_accepts [of "[]" w p] show ?thesis
      by (auto simp: is_ok_iff make_swing_def builtin_factories_def plugin_entries_def observe_def swing_spec_def plugin_contracts_def)
  next
    case 2 with f(2) equal_accepts [of "[]" w p] show ?thesis
      by (auto simp: is_ok_iff make_equal_def builtin_factories_def plugin_entries_def observe_def swing_spec_def equal_spec_def plugin_contracts_def)
  next
    case 3 with f(2) block_accepts [of "[]" w p] show ?thesis
      by (auto simp: is_ok_iff make_order_block_def builtin_factories_def plugin_entries_def observe_def swing_spec_def equal_spec_def block_spec_def plugin_contracts_def)
  next
    case 4 with f(2) liquidity_accepts [of "[]" w p] show ?thesis
      by (auto simp: is_ok_iff make_liquidity_def builtin_factories_def plugin_entries_def observe_def swing_spec_def equal_spec_def block_spec_def liquidity_spec_def plugin_contracts_def)
  next
    case 5 with f(2) structure_accepts [of "[]" w p] show ?thesis
      by (auto simp: is_ok_iff make_structure_def builtin_factories_def plugin_entries_def observe_def swing_spec_def equal_spec_def block_spec_def liquidity_spec_def structure_spec_def plugin_contracts_def)
  next
    case 6 with f(2) gap_accepts [of "[]" w p] show ?thesis
      by (auto simp: is_ok_iff make_gap_def builtin_factories_def plugin_entries_def observe_def swing_spec_def equal_spec_def block_spec_def liquidity_spec_def structure_spec_def gap_spec_def plugin_contracts_def)
  next
    case 7 with f(2) risk_accepts [of "[]" w p] show ?thesis
      by (auto simp: is_ok_iff make_risk_def builtin_factories_def plugin_entries_def observe_def swing_spec_def equal_spec_def block_spec_def liquidity_spec_def structure_spec_def gap_spec_def risk_spec_def plugin_contracts_def)
  qed
qed

fun signals_before :: "string set \<Rightarrow> signal_config list \<Rightarrow> bool" where
  "signals_before seen [] \<longleftrightarrow> True"
| "signals_before seen (s # ss) \<longleftrightarrow> set (sg_depends_on s) \<subseteq> seen \<and> signals_before (insert (sg_id s) seen) ss"

definition follows_contract :: "(string, string) dict \<Rightarrow> signal_config \<Rightarrow> bool" where
  "follows_contract roles s \<longleftrightarrow> (\<exists>tf tfs. dict_get roles (sg_role s) = Some tf \<and> tf \<in> set tfs
     \<and> dict_get plugin_contracts (sg_id s) = Some (sg_role s, tfs, sg_depends_on s))"

lemma graph_step_Inr:
  assumes "graph_step roles (seen, previous) s = Inr st"
  shows "sg_id s \<notin> set seen" "follows_contract roles s" "set (sg_depends_on s) \<subseteq> set seen"
    "previous < sg_order s" "st = (sg_id s # seen, sg_order s)"
  using assms
  by (auto simp: graph_step_def follows_contract_def dict_index_def list_all_iff split: option.splits)

lemma graph_fold_Inr:
  "rfoldM (graph_step roles) (seen, previous) ss = Inr st \<Longrightarrow>
    distinct (map sg_id ss) \<and> sg_id ` set ss \<inter> set seen = {} \<and> list_all (follows_contract roles) ss
    \<and> signals_before (set seen) ss \<and> sorted_wrt (<) (previous # map sg_order ss)"
proof (induction ss arbitrary: seen previous)
  case Nil
  then show ?case by simp
next
  case (Cons s ss)
  from Cons.prems obtain st' where st': "graph_step roles (seen, previous) s = Inr st'"
    "rfoldM (graph_step roles) st' ss = Inr st" by auto
  note g = graph_step_Inr [OF st'(1)]
  from Cons.IH [of "sg_id s # seen" "sg_order s"] st'(2) g(5)
  have "distinct (map sg_id ss) \<and> sg_id ` set ss \<inter> set (sg_id s # seen) = {} \<and> list_all (follows_contract roles) ss
    \<and> signals_before (set (sg_id s # seen)) ss \<and> sorted_wrt (<) (sg_order s # map sg_order ss)" by simp
  with g(1-4) show ?case by (auto intro: less_trans)
qed

definition node_of :: "(string, string) dict \<Rightarrow> signal_config \<Rightarrow> configured_node" where
  "node_of roles s = \<lparr>instance_id = sg_id s, plugin_id = sg_id s, nd_role = sg_role s, depends_on = sg_depends_on s,
     parameters = sg_parameters s, nd_order = sg_order s, nd_timeframe = dict_get roles (sg_role s)\<rparr>"

definition decision_signal_of :: "signal_config \<Rightarrow> decision_signal" where
  "decision_signal_of s = \<lparr>ds_signal_id = sg_id s, ds_required = sg_required s, ds_effect = sg_effect s, ds_order = sg_order s\<rparr>"

lemma configured_nodes_Inr:
  assumes "list_all (follows_contract (sy_roles c)) (sy_signals c)"
  shows "configured_nodes c = Inr (map (node_of (sy_roles c)) (sy_signals c))"
  unfolding configured_nodes_def
proof (rule rmapM_Inr_map)
  fix s
  assume "s \<in> set (sy_signals c)"
  with assms obtain tf where "dict_get (sy_roles c) (sg_role s) = Some tf"
    by (auto simp: list_all_iff follows_contract_def)
  then show "rbind (dict_index (sy_roles c) (sg_role s)) (\<lambda>tf. mk_node (sg_id s) (sg_id s) (sg_role s)
      (sg_depends_on s) (thaw (sg_parameters s)) (sg_order s) (Some tf)) = Inr (node_of (sy_roles c) s)"
    by (simp add: dict_index_def mk_node_def freeze_thaw node_of_def)
qed

lemma signals_before_deps: "signals_before seen ss \<Longrightarrow> deps_before seen (map (node_of roles) ss)"
  by (induction ss arbitrary: seen) (simp_all add: node_of_def)

lemma signals_before_known: "signals_before seen ss \<Longrightarrow> s \<in> set ss \<Longrightarrow> set (sg_depends_on s) \<subseteq> seen \<union> sg_id ` set ss"
  by (induction ss arbitrary: seen) (simp, fastforce)

lemma topological_order_ok:
  assumes "distinct (map instance_id nodes)" "deps_before {} nodes" "plugin_id ` set nodes \<subseteq> set (dict_keys facs)"
    and "\<forall>n\<in>set nodes. set (depends_on n) \<subseteq> instance_id ` set nodes"
  shows "\<exists>out. topological_order nodes facs = Inr out"
proof -
  have "length (remdups (map instance_id nodes)) = length nodes"
    by (metis assms(1) distinct_remdups_id length_map)
  moreover have "filter (\<lambda>p. p \<notin> set (dict_keys facs)) (map plugin_id nodes) = []"
    using assms(3) by (auto simp: filter_empty_conv)
  moreover have "filter (\<lambda>d. d \<notin> set (map instance_id nodes)) (concat (map depends_on nodes)) = []"
    using assms(4) by (auto simp: filter_empty_conv)
  moreover have "\<exists>out. topo_loop nodes [] [] = Inr out"
    using assms(4) by (intro topo_loop_total [OF ordered_acyclic [OF assms(2,1)]]) auto
  ultimately show ?thesis by (simp add: topological_order_def Let_def)
qed

lemma check_signal_Inr:
  assumes "check_signal loc v = Inr s"
  shows "sg_id s \<in> set implemented_plugin_ids \<and> sg_effect s \<in> {''REJECT'', ''LEVELS''}
    \<and> (\<exists>l raw. check_parameters (sg_id s) l raw = Inr (sg_parameters s))"
  using assms unfolding check_signal_def
  by (auto simp: field_Inr check_choice_def check_text_def dest!: check_model_Inr) blast+

lemma check_strategy_Inr:
  assumes "check_strategy loc v = Inr c"
  shows "list_all (\<lambda>s. \<exists>l raw. check_signal l raw = Inr s) (sy_signals c)"
    "distinct (map sg_id (sy_signals c))" "list_all (follows_contract (sy_roles c)) (sy_signals c)"
    "signals_before {} (sy_signals c)" "sorted_wrt (<) (map sg_order (sy_signals c))"
    "sy_instruments c \<noteq> []" "distinct (sy_instruments c)" "1 \<le> sy_history_minutes c"
proof -
  from assms obtain c' where c': "strategy_fields loc v = Inr c'" and vs: "validate_signals c' = Inr c"
    by (auto simp: check_strategy_def)
  from vs obtain st where st: "rfoldM (graph_step (sy_roles c)) ([], -1) (sy_signals c) = Inr st" and eq: "c' = c"
    by (auto simp: validate_signals_def)
  from graph_fold_Inr [OF st] show "distinct (map sg_id (sy_signals c))" "list_all (follows_contract (sy_roles c)) (sy_signals c)"
    "signals_before {} (sy_signals c)" "sorted_wrt (<) (map sg_order (sy_signals c))" by simp_all
  from check_model_Inr [OF c' [unfolded strategy_fields_def]] obtain lt sv lh hv where
    t: "check_tuple check_signal lt sv = Inr (sy_signals c)" and i: "unique_values False (sy_instruments c)"
    and h: "check_int 1 10000000 lh hv = Inr (sy_history_minutes c)"
    unfolding eq by (auto simp: field_Inr)
  from t show "list_all (\<lambda>s. \<exists>l raw. check_signal l raw = Inr s) (sy_signals c)"
    by (auto simp: list_all_iff dest: check_tuple_in)
  from i show "sy_instruments c \<noteq> []" "distinct (sy_instruments c)" by (simp_all add: unique_values_def)
  from check_int_Inr [OF h] show "1 \<le> sy_history_minutes c" ..
qed

section \<open>Reading a strategy back from its canonical form\<close>

text \<open>The value that loading the canonical JSON text of a configuration returns.\<close>

fun yaml_of :: "json \<Rightarrow> pyobj" where
  "yaml_of JNull = PNone"
| "yaml_of (JBool b) = PBool b"
| "yaml_of (JInt i) = PInt i"
| "yaml_of (JStr s) = PStr s"
| "yaml_of (JArr xs) = PList (map yaml_of xs)"
| "yaml_of (JObj kvs) = PDict (map (\<lambda>kv. (PStr (fst kv), yaml_of (snd kv))) kvs)"

text \<open>A check that accepts, anywhere, the canonical form of what it returned.\<close>

definition reads_back :: "'a check \<Rightarrow> ('a \<Rightarrow> json) \<Rightarrow> bool" where
  "reads_back f g \<longleftrightarrow> (\<forall>l raw x l'. f l raw = Inr x \<longrightarrow> f l' (yaml_of (g x)) = Inr x)"

lemma reads_backD: "reads_back f g \<Longrightarrow> f l raw = Inr x \<Longrightarrow> f l' (yaml_of (g x)) = Inr x"
  by (auto simp: reads_back_def)

lemma reads_back_text: "reads_back (check_text ok) JStr"
  by (auto simp: reads_back_def check_text_def check_str_def)

lemma reads_back_str: "reads_back check_str JStr"
  by (simp add: reads_back_def check_str_def)

lemma reads_back_choice: "reads_back (check_choice allowed) JStr"
  unfolding check_choice_def by (rule reads_back_text)

lemma reads_back_int: "reads_back (check_int lo hi) JInt"
  by (auto simp: reads_back_def check_int_def split: pyobj.splits if_splits)

lemma reads_back_bool: "reads_back check_bool JBool"
  by (auto simp: reads_back_def check_bool_def)

lemma reads_back_also: "reads_back f g \<Longrightarrow> reads_back (also_check f ok) g"
  unfolding reads_back_def also_check_Inr by blast

lemma check_items_back:
  "\<forall>y\<in>set ys. \<forall>l. f l (h y) = Inr y \<Longrightarrow> check_items f loc i (map h ys) = Inr ys"
  by (induction ys arbitrary: i) simp_all

lemma reads_back_tuple: "reads_back f g \<Longrightarrow> reads_back (check_tuple f) (\<lambda>ys. JArr (map g ys))"
  unfolding reads_back_def [of "check_tuple f"]
proof (intro allI impI)
  fix l raw ys l'
  assume f: "reads_back f g" and ys: "check_tuple f l raw = Inr ys"
  have "\<forall>y\<in>set ys. \<forall>l. f l (yaml_of (g y)) = Inr y"
    using check_tuple_in [OF ys] reads_backD [OF f] by blast
  from check_items_back [OF this] show "check_tuple f l' (yaml_of (JArr (map g ys))) = Inr ys"
    by (simp add: check_tuple_def comp_def)
qed

lemma check_entries_sound:
  "check_entries key f loc kvs = Inr ys \<Longrightarrow> (k, y) \<in> set ys \<Longrightarrow> key k \<and> (\<exists>l raw. f l raw = Inr y)"
  by (induction key f loc kvs arbitrary: ys rule: check_entries.induct)
     (auto split: pyobj.splits if_splits, blast)

lemma check_entries_back:
  "\<forall>(k, y)\<in>set ys. key k \<and> (\<forall>l. f l (h y) = Inr y) \<Longrightarrow>
    check_entries key f loc (map (\<lambda>(k, y). (PStr k, h y)) ys) = Inr ys"
  by (induction ys) auto

lemma reads_back_mapping:
  "reads_back f g \<Longrightarrow> reads_back (check_mapping key f) (\<lambda>d. JObj (map (\<lambda>(k, v). (k, g v)) d))"
  unfolding reads_back_def [of "check_mapping key f"]
proof (intro allI impI)
  fix l raw ys l'
  assume f: "reads_back f g" and ys: "check_mapping key f l raw = Inr ys"
  from ys obtain kvs where "check_entries key f l kvs = Inr ys"
    by (auto simp: check_mapping_def split: pyobj.splits)
  then have "\<forall>(k, y)\<in>set ys. key k \<and> (\<forall>l. f l (yaml_of (g y)) = Inr y)"
    using check_entries_sound [of key f l kvs ys] reads_backD [OF f] by blast
  from check_entries_back [OF this] show "check_mapping key f l' (yaml_of (JObj (map (\<lambda>(k, v). (k, g v)) ys))) = Inr ys"
    by (simp add: check_mapping_def comp_def case_prod_unfold)
qed

lemma check_model_exact:
  "set (map fst kvs) \<subseteq> PStr ` set names \<Longrightarrow> check_model names build loc (PDict kvs) = build loc kvs"
proof -
  assume "set (map fst kvs) \<subseteq> PStr ` set names"
  then have "filter (\<lambda>k. k \<notin> set (map PStr names)) (map fst kvs) = []" by (auto simp: filter_empty_conv)
  then show ?thesis by (cases "build loc kvs") (simp_all add: check_model_def)
qed

subsection \<open>Parameters\<close>

lemma reads_back_p_int: "reads_back (p_int lo hi) canonical_evidence"
  by (auto simp: reads_back_def p_int_def dest: reads_backD [OF reads_back_int, simplified])

lemma reads_back_p_bool: "reads_back p_bool canonical_evidence"
  by (auto simp: reads_back_def p_bool_def dest: reads_backD [OF reads_back_bool, simplified])

lemma reads_back_p_choice: "reads_back (p_choice allowed) canonical_evidence"
  by (auto simp: reads_back_def p_choice_def dest: reads_backD [OF reads_back_choice, simplified])

lemma render_strict: "0 \<le> n \<Longrightarrow> strict_decimal (render n m)"
proof -
  assume n: "0 \<le> n"
  note r = render_numeral [OF n, of m]
  let ?ip = "int_digits (n div 10 ^ m)"
  have "?ip = ''0'' \<or> hd ?ip \<noteq> CHR ''0''"
  proof (cases "n div 10 ^ m = 0")
    case True
    have "int_digits 0 = ''0''" by code_simp
    with True show ?thesis by simp
  next
    case False
    moreover have "0 \<le> n div 10 ^ m" using n by (simp add: pos_imp_zdiv_nonneg_iff)
    ultimately have "0 < n div 10 ^ m" by simp
    then show ?thesis using int_digits_head by blast
  qed
  then show ?thesis
    unfolding strict_decimal_def r(1) numeral_takeWhile [OF r(2)] Let_def using numeral_syntax [OF r(2)] by simp
qed

lemma bounded_decimal_back:
  assumes "bounded_decimal minimum maximum positive l raw = Inr t"
  shows "bounded_decimal minimum maximum positive l' (PStr t) = Inr t"
proof -
  from bounded_decimal_text [OF assms] obtain s where s: "decimal_text s = Inr t" by blast
  from s obtain n' m' where "t = render n' m'" "0 \<le> n'" by (rule decimal_textE)
  then have st: "strict_decimal t" by (simp add: render_strict)
  have t: "decimal_text t = Inr t" using s by (rule decimal_text_canonical)
  note c = bounded_decimal_canonical [OF assms]
  from t have len: "length t \<le> 64" by (auto simp: decimal_text_def split: if_splits)
  from t c have out: "or_zero (strip_fraction (format_f (dec_of t))) = t"
    by (auto simp: decimal_text_def split: if_splits)
  show ?thesis
    unfolding bounded_decimal_def check_str_def
    using c st len out by (auto simp: dlt_iff dle_iff cguard_def split: option.split)
qed

lemma reads_back_p_decimal: "reads_back (p_decimal minimum maximum positive) canonical_evidence"
  by (auto simp: reads_back_def p_decimal_def dest: bounded_decimal_back)

lemma reads_back_p_tenth: "reads_back p_tenth canonical_evidence"
  unfolding reads_back_def
proof (intro allI impI)
  fix l raw x l'
  assume "p_tenth l raw = Inr x"
  then obtain s where s: "bounded_decimal dzero None False l raw = Inr s" "x = EStr s"
    "list_ex (\<lambda>n. deq (dec_of s) (Dec False n (-1))) [2, 3, 4, 5, 6, 7]"
    by (auto simp: p_tenth_def)
  with bounded_decimal_back [OF s(1), of l'] show "p_tenth l' (yaml_of (canonical_evidence x)) = Inr x"
    by (simp add: p_tenth_def cguard_def)
qed

lemma dict_get_PStr: "dict_get (map (\<lambda>kv. (PStr (fst kv), h (snd kv))) kvs) (PStr k) = map_option h (dict_get kvs k)"
  by (induction kvs) auto

lemma reads_back_parameters:
  assumes "\<forall>(name, f)\<in>set fs. reads_back f canonical_evidence" "distinct (map fst fs)"
  shows "reads_back (parameter_model fs) canonical_evidence"
  unfolding reads_back_def [of "parameter_model fs"]
proof (intro allI impI)
  fix l raw p l'
  assume p: "parameter_model fs l raw = Inr p"
  from parameter_model_Inr [OF p assms(2)] obtain items where
    items: "p = EMap items" "map fst items = map fst fs"
    "\<forall>(name, f)\<in>set fs. \<exists>x l raw. param_get p name = Some x \<and> f l raw = Inr x" by blast
  let ?h = "\<lambda>v. yaml_of (canonical_evidence v)"
  let ?kvs = "map (\<lambda>kv. (PStr (fst kv), ?h (snd kv))) items"
  have y: "yaml_of (canonical_evidence p) = PDict ?kvs" by (simp add: items(1) comp_def)
  have el: "rbind (field l' ?kvs name f) (\<lambda>v. Inr (name, v)) = Inr (name, the (map_of items name))"
    if nf: "(name, f) \<in> set fs" for name f
  proof -
    from items(3) nf obtain x l raw where x: "map_of items name = Some x" "f l raw = Inr x" by (auto simp: items(1))
    have "f (sub_loc l' name) (?h x) = Inr x" using assms(1) nf x(2) reads_backD by fast
    with x(1) show ?thesis by (simp add: field_def dict_get_PStr [of ?h])
  qed
  have d: "distinct (map fst items)" using assms(2) items(2) by simp
  have "map (\<lambda>(name, f). (name, the (map_of items name))) fs = map (\<lambda>n. (n, the (map_of items n))) (map fst items)"
    by (simp add: items(2) case_prod_unfold)
  also have "\<dots> = items"
    using d by (auto intro!: map_idI)
  finally have again: "map (\<lambda>(name, f). (name, the (map_of items name))) fs = items" .
  have "rmapM (\<lambda>(name, f). rbind (field l' ?kvs name f) (\<lambda>v. Inr (name, v))) fs
      = Inr (map (\<lambda>(name, f). (name, the (map_of items name))) fs)"
    by (rule rmapM_Inr_map) (use el in auto)
  moreover have "map fst ?kvs = map PStr (map fst fs)" by (simp add: items(2) [symmetric] comp_def)
  then have "set (map fst ?kvs) \<subseteq> PStr ` set (map fst fs)" by (simp only: set_map subset_refl)
  ultimately show "parameter_model fs l' (yaml_of (canonical_evidence p)) = Inr p"
    unfolding y parameter_model_def again by (subst check_model_exact) (simp_all add: items(1))
qed

lemmas reads_back_params = reads_back_p_int reads_back_p_bool reads_back_p_choice reads_back_p_decimal reads_back_p_tenth

lemma parameter_models_back: "dict_get parameter_models pid = Some f \<Longrightarrow> reads_back f canonical_evidence"
proof -
  have "reads_back swing_model canonical_evidence" "reads_back equal_model canonical_evidence"
    "reads_back block_model canonical_evidence" "reads_back liquidity_model canonical_evidence"
    "reads_back structure_model canonical_evidence" "reads_back gap_model canonical_evidence"
    "reads_back risk_model canonical_evidence"
    unfolding swing_model_def equal_model_def block_model_def liquidity_model_def structure_model_def gap_model_def risk_model_def
    by (intro reads_back_also reads_back_parameters; simp add: reads_back_params)+
  then show "dict_get parameter_models pid = Some f \<Longrightarrow> reads_back f canonical_evidence"
    by (simp add: parameter_models_def split: if_splits)
qed

lemma parameter_models_map: "dict_get parameter_models pid = Some f \<Longrightarrow> f l raw = Inr p \<Longrightarrow> \<exists>items. p = EMap items"
  by (auto simp: parameter_models_def swing_model_def equal_model_def block_model_def liquidity_model_def
      structure_model_def gap_model_def risk_model_def parameter_model_def dest!: check_model_Inr split: if_splits)

lemma reads_back_check_parameters: "reads_back (check_parameters pid) canonical_evidence"
  unfolding reads_back_def
proof (intro allI impI)
  fix l raw p l'
  assume "check_parameters pid l raw = Inr p"
  then obtain f w where f: "dict_get parameter_models pid = Some f" "f [] w = Inr p"
    by (auto simp: check_parameters_def Let_def split: option.splits sum.splits)
  obtain items where "p = EMap items" using parameter_models_map [OF f] by blast
  with f reads_backD [OF parameter_models_back [OF f(1)] f(2), of "[]"]
  show "check_parameters pid l' (yaml_of (canonical_evidence p)) = Inr p"
    by (simp add: check_parameters_def)
qed

lemma field_back: "dict_get kvs (PStr name) = Some (yaml_of (g x)) \<Longrightarrow> reads_back f g \<Longrightarrow> f l raw = Inr x \<Longrightarrow>
    field loc kvs name f = Inr x"
  by (simp add: field_def reads_backD)

lemma reads_back_signal: "reads_back check_signal signal_canonical_dict"
  unfolding reads_back_def
proof (intro allI impI)
  fix l raw s l'
  assume a: "check_signal l raw = Inr s"
  from check_model_Inr [OF this [unfolded check_signal_def]] obtain l1 v1 l2 v2 l3 v3 l4 v4 l5 v5 l6 v6 l7 v7 where
    f: "check_choice implemented_plugin_ids l1 v1 = Inr (sg_id s)" "check_text role_syntax l2 v2 = Inr (sg_role s)"
    "also_check (check_tuple check_str) (unique_values True) l3 v3 = Inr (sg_depends_on s)"
    "check_parameters (sg_id s) l4 v4 = Inr (sg_parameters s)" "check_bool l5 v5 = Inr (sg_required s)"
    "check_choice [''REJECT'', ''LEVELS''] l6 v6 = Inr (sg_effect s)" "check_int 0 2147483647 l7 v7 = Inr (sg_order s)"
    by (auto simp: field_Inr simp del: also_check_Inr)
  let ?kvs = "[(PStr ''id'', PStr (sg_id s)), (PStr ''role'', PStr (sg_role s)),
      (PStr ''depends_on'', yaml_of (JArr (map JStr (sg_depends_on s)))),
      (PStr ''parameters'', yaml_of (canonical_evidence (sg_parameters s))), (PStr ''required'', PBool (sg_required s)),
      (PStr ''effect'', PStr (sg_effect s)), (PStr ''order'', PInt (sg_order s))]"
  have y: "yaml_of (signal_canonical_dict s) = PDict ?kvs" by (simp add: signal_canonical_dict_def)
  have g: "field l' ?kvs ''id'' (check_choice implemented_plugin_ids) = Inr (sg_id s)"
    "field l' ?kvs ''role'' (check_text role_syntax) = Inr (sg_role s)"
    "field l' ?kvs ''depends_on'' (also_check (check_tuple check_str) (unique_values True)) = Inr (sg_depends_on s)"
    "field l' ?kvs ''parameters'' (check_parameters (sg_id s)) = Inr (sg_parameters s)"
    "field l' ?kvs ''required'' check_bool = Inr (sg_required s)"
    "field l' ?kvs ''effect'' (check_choice [''REJECT'', ''LEVELS'']) = Inr (sg_effect s)"
    "field l' ?kvs ''order'' (check_int 0 2147483647) = Inr (sg_order s)"
    by (rule field_back [OF _ reads_back_choice f(1)] field_back [OF _ reads_back_text f(2)]
        field_back [OF _ reads_back_also [OF reads_back_tuple [OF reads_back_str]] f(3)]
        field_back [OF _ reads_back_check_parameters f(4)] field_back [OF _ reads_back_bool f(5)]
        field_back [OF _ reads_back_choice f(6)] field_back [OF _ reads_back_int f(7)]; simp)+
  show "check_signal l' (yaml_of (signal_canonical_dict s)) = Inr s"
    unfolding y check_signal_def by (subst check_model_exact) (simp, simp only: g rbind.simps signal_config.surjective, simp)
qed

lemma reads_back_strategy: "reads_back strategy_fields strategy_canonical_dict"
  unfolding reads_back_def
proof (intro allI impI)
  fix l raw c l'
  assume a: "strategy_fields l raw = Inr c"
  from check_model_Inr [OF this [unfolded strategy_fields_def]] obtain l1 v1 l2 v2 l3 v3 l4 v4 l5 v5 l6 v6 where
    f: "check_text identifier_syntax l1 v1 = Inr (sy_name c)"
    "check_text (\<lambda>s. plain_string s \<and> 1 \<le> length s \<and> length s \<le> 32) l2 v2 = Inr (sy_version c)"
    "also_check (check_tuple (check_text instrument_key)) (unique_values False) l3 v3 = Inr (sy_instruments c)"
    "check_int 1 10000000 l4 v4 = Inr (sy_history_minutes c)"
    "also_check (check_mapping role_syntax (check_text plain_string)) timeframes_known l5 v5 = Inr (sy_roles c)"
    "check_tuple check_signal l6 v6 = Inr (sy_signals c)"
    by (auto simp: field_Inr simp del: also_check_Inr)
  let ?kvs = "[(PStr ''name'', PStr (sy_name c)), (PStr ''version'', PStr (sy_version c)),
      (PStr ''instruments'', yaml_of (JArr (map JStr (sy_instruments c)))), (PStr ''history_minutes'', PInt (sy_history_minutes c)),
      (PStr ''roles'', yaml_of (JObj (map (\<lambda>(k, v). (k, JStr v)) (sy_roles c)))),
      (PStr ''signals'', yaml_of (JArr (map signal_canonical_dict (sy_signals c))))]"
  have y: "yaml_of (strategy_canonical_dict c) = PDict ?kvs" by (simp add: strategy_canonical_dict_def)
  have g: "field l' ?kvs ''name'' (check_text identifier_syntax) = Inr (sy_name c)"
    "field l' ?kvs ''version'' (check_text (\<lambda>s. plain_string s \<and> 1 \<le> length s \<and> length s \<le> 32)) = Inr (sy_version c)"
    "field l' ?kvs ''instruments'' (also_check (check_tuple (check_text instrument_key)) (unique_values False)) = Inr (sy_instruments c)"
    "field l' ?kvs ''history_minutes'' (check_int 1 10000000) = Inr (sy_history_minutes c)"
    "field l' ?kvs ''roles'' (also_check (check_mapping role_syntax (check_text plain_string)) timeframes_known) = Inr (sy_roles c)"
    "field l' ?kvs ''signals'' (check_tuple check_signal) = Inr (sy_signals c)"
    by (rule field_back [OF _ reads_back_text f(1)] field_back [OF _ reads_back_text f(2)]
        field_back [OF _ reads_back_also [OF reads_back_tuple [OF reads_back_text]] f(3)] field_back [OF _ reads_back_int f(4)]
        field_back [OF _ reads_back_also [OF reads_back_mapping [OF reads_back_text]] f(5)]
        field_back [OF _ reads_back_tuple [OF reads_back_signal] f(6)]; simp)+
  show "strategy_fields l' (yaml_of (strategy_canonical_dict c)) = Inr c"
    unfolding y strategy_fields_def by (subst check_model_exact) (simp, simp only: g rbind.simps, simp)
qed

section \<open>Properties\<close>

lemma strategy_plugin:
  assumes "check_strategy [] v = Inr c" "s \<in> set (sy_signals c)"
  shows "\<exists>mk plug. dict_get builtin_factories (sg_id s) = Some mk \<and> mk (sg_parameters s) = Inr plug
    \<and> pl_role plug = Some (sg_role s)"
    and "sg_effect s \<in> {''REJECT'', ''LEVELS''}"
proof -
  note ok = check_strategy_Inr [OF assms(1)]
  from ok(1) assms(2) have sg: "sg_effect s \<in> {''REJECT'', ''LEVELS''}
      \<and> (\<exists>l raw. check_parameters (sg_id s) l raw = Inr (sg_parameters s))"
    using check_signal_Inr by (fastforce simp: list_all_iff)
  then show "sg_effect s \<in> {''REJECT'', ''LEVELS''}" ..
  from ok(3) assms(2) obtain tfs where "dict_get plugin_contracts (sg_id s) = Some (sg_role s, tfs, sg_depends_on s)"
    by (auto simp: list_all_iff follows_contract_def)
  moreover obtain l raw where "check_parameters (sg_id s) l raw = Inr (sg_parameters s)" using sg by blast
  ultimately show "\<exists>mk plug. dict_get builtin_factories (sg_id s) = Some mk \<and> mk (sg_parameters s) = Inr plug
      \<and> pl_role plug = Some (sg_role s)"
    using plugin_accepts [of "sg_id s" l raw] by fastforce
qed

lemma strategy_graph:
  assumes "check_strategy [] v = Inr c"
  shows "\<exists>g. mk_graph (map (node_of (sy_roles c)) (sy_signals c)) builtin_factories = Inr g
    \<and> mset (ordered_instance_ids g) = mset (map sg_id (sy_signals c))"
proof -
  let ?nodes = "map (node_of (sy_roles c)) (sy_signals c)"
  note ok = check_strategy_Inr [OF assms]
  have ids: "map instance_id ?nodes = map sg_id (sy_signals c)" by (simp add: node_of_def)
  have "\<forall>n\<in>set ?nodes. set (depends_on n) \<subseteq> instance_id ` set ?nodes"
    using signals_before_known [OF ok(4)] by (auto simp: node_of_def image_image)
  moreover have "plugin_id ` set ?nodes \<subseteq> set (dict_keys builtin_factories)"
    using strategy_plugin(1) [OF assms] by (auto simp: node_of_def) (metis image_eqI fst_conv map_of_SomeD)
  moreover have "distinct (map instance_id ?nodes)" by (simp only: ids ok(2))
  ultimately obtain out where out: "topological_order ?nodes builtin_factories = Inr out"
    using topological_order_ok [OF _ signals_before_deps [OF ok(4)]] by blast
  from topological_order_Inr [OF out] have "mset out = mset ?nodes"
    using topo_loop_Inr [of ?nodes "[]" "[]" out] by auto
  then have "mset (map instance_id out) = mset (map sg_id (sy_signals c))" by (metis ids mset_map)
  with out show ?thesis by (simp add: mk_graph_def ordered_instance_ids_def)
qed

lemma strategy_policy_order:
  assumes "check_strategy [] v = Inr c"
  shows "policy_order (map decision_signal_of (sy_signals c)) = map decision_signal_of (sy_signals c)"
proof -
  have "sorted (map (\<lambda>s. (ds_order s, ds_signal_id s)) (map decision_signal_of (sy_signals c)))"
    using check_strategy_Inr(5) [OF assms] unfolding sorted_map sorted_wrt_map decision_signal_of_def
    by (rule sorted_wrt_mono_rel [rotated]) simp
  then show ?thesis unfolding policy_order_def by (rule sort_key_id_if_sorted)
qed

text \<open>C24:
  Whatever strategy the loader accepts, the rest of the program accepts: its nodes and decision
  signals are built, the indicator graph exists and runs every configured signal once, the
  decision policy walks the signals in their configured order, and for every node the registry has a
  plugin that takes the node's parameters and works in the node's role.\<close>

theorem validated_strategy_builds:
  assumes "load_strategy_text yaml text = Inr c"
  shows "\<exists>nodes sigs g. configured_nodes c = Inr nodes \<and> configured_decision_signals c = Inr sigs
    \<and> mk_graph nodes builtin_factories = Inr g
    \<and> mset (ordered_instance_ids g) = mset (map sg_id (sy_signals c))
    \<and> map ds_signal_id (policy_order sigs) = map sg_id (sy_signals c)
    \<and> (\<forall>n\<in>set nodes. \<exists>mk plug. dict_get builtin_factories (plugin_id n) = Some mk
         \<and> mk (parameters n) = Inr plug \<and> pl_role plug = Some (nd_role n))"
proof -
  let ?nodes = "map (node_of (sy_roles c)) (sy_signals c)" and ?sigs = "map decision_signal_of (sy_signals c)"
  from assms obtain v where c: "check_strategy [] v = Inr c" by (auto simp: load_strategy_text_def)
  have "map ds_signal_id (policy_order ?sigs) = map sg_id (sy_signals c)"
    unfolding strategy_policy_order [OF c] by (simp add: decision_signal_of_def)
  moreover have "configured_decision_signals c = Inr ?sigs"
    unfolding configured_decision_signals_def
    by (rule rmapM_Inr_map) (use strategy_plugin(2) [OF c] in \<open>auto simp: mk_decision_signal_def decision_signal_of_def\<close>)
  moreover have "\<forall>n\<in>set ?nodes. \<exists>mk plug. dict_get builtin_factories (plugin_id n) = Some mk
      \<and> mk (parameters n) = Inr plug \<and> pl_role plug = Some (nd_role n)"
    using strategy_plugin(1) [OF c] by (simp add: node_of_def)
  ultimately show ?thesis
    using configured_nodes_Inr [OF check_strategy_Inr(3) [OF c]] strategy_graph [OF c] by blast
qed

text \<open>The strategy of the repository, as the YAML loader returns it.\<close>

definition sample_signal ::
    "string \<Rightarrow> string \<Rightarrow> string list \<Rightarrow> (string \<times> pyobj) list \<Rightarrow> string \<Rightarrow> int \<Rightarrow> pyobj" where
  "sample_signal i role deps params effect n = PDict
     [(PStr ''id'', PStr i), (PStr ''role'', PStr role), (PStr ''depends_on'', PList (map PStr deps)),
      (PStr ''parameters'', PDict (map (\<lambda>(k, v). (PStr k, v)) params)), (PStr ''required'', PBool True),
      (PStr ''effect'', PStr effect), (PStr ''order'', PInt n)]"

definition sample_strategy :: pyobj where
  "sample_strategy = PDict
     [(PStr ''name'', PStr ''source-aligned-research''), (PStr ''version'', PStr ''1''),
      (PStr ''instruments'', PList [PStr ''BTC-USDT-PERP'', PStr ''ETH-USDT-PERP'']), (PStr ''history_minutes'', PInt 129600),
      (PStr ''roles'', PDict [(PStr ''regime'', PStr ''4h''), (PStr ''context'', PStr ''1h''), (PStr ''execution'', PStr ''15m'')]),
      (PStr ''signals'', PList
        [sample_signal ''smc.swing_structure'' ''regime'' [] [(''swing_length'', PInt 50), (''show_labels'', PBool True)] ''REJECT'' 10,
         sample_signal ''smc.equal_high_low'' ''context'' [''smc.swing_structure'']
           [(''confirmation_bars'', PInt 3), (''threshold_atr_fraction'', PStr ''0.10'')] ''REJECT'' 20,
         sample_signal ''ict.clustered_liquidity'' ''execution'' [''smc.equal_high_low'']
           [(''pivot_width'', PInt 5), (''minimum_pivots'', PInt 3), (''margin_atr_fraction'', PStr ''0.4'')] ''REJECT'' 40])]"

lemma sample_strategy_accepted: "is_ok (check_strategy [] sample_strategy)"
  by code_simp

theorem validated_strategy_builds_witness:
  "\<exists>c nodes g. load_strategy_text (\<lambda>_. Inr sample_strategy) [] = Inr c \<and> configured_nodes c = Inr nodes
     \<and> mk_graph nodes builtin_factories = Inr g"
proof -
  from sample_strategy_accepted obtain c where "load_strategy_text (\<lambda>_. Inr sample_strategy) [] = Inr c"
    by (auto simp: is_ok_iff load_strategy_text_def)
  with validated_strategy_builds [OF this] show ?thesis by blast
qed

text \<open>C25:
  An accepted strategy is determined by the canonical form its hash covers: loading that form again
  is accepted and gives the same configuration, canonical decimal texts included.\<close>

theorem strategy_reads_back:
  assumes "load_strategy_text yaml text = Inr c"
  shows "load_strategy_text (\<lambda>_. Inr (yaml_of (strategy_canonical_dict c))) text = Inr c"
proof -
  from assms obtain v where v: "check_strategy [] v = Inr c" by (auto simp: load_strategy_text_def)
  then obtain c' where c': "strategy_fields [] v = Inr c'" "validate_signals c' = Inr c" by (auto simp: check_strategy_def)
  then have "c' = c" by (auto simp: validate_signals_def)
  with c' reads_backD [OF reads_back_strategy] show ?thesis by (simp add: load_strategy_text_def check_strategy_def)
qed

theorem strategy_reads_back_witness:
  "\<exists>c. load_strategy_text (\<lambda>_. Inr sample_strategy) [] = Inr c
     \<and> load_strategy_text (\<lambda>_. Inr (yaml_of (strategy_canonical_dict c))) [] = Inr c"
proof -
  from sample_strategy_accepted obtain c where "load_strategy_text (\<lambda>_. Inr sample_strategy) [] = Inr c"
    by (auto simp: is_ok_iff load_strategy_text_def)
  with strategy_reads_back [OF this] show ?thesis by blast
qed

end
