(* ===== verification/Replay.thy ===== *)
theory Replay
  imports Scenario Strategy
begin

text \<open>
  Point-in-time replay (\<^verbatim>\<open>application/backtesting.py\<close>): the range of minutes a backtest needs, the
  identity of a backtest, and the evaluation of the indicator graph and the decision policy at every
  closed execution bar, with the pipeline trace that explains each decision. The candle source is an
  interface of the program; its loader is a field of the replay. The main property is that an
  evaluation depends only on candles that had closed at its time.
\<close>

section \<open>Ranges and identities\<close>

record required_range =
  rq_start_open_ms :: int
  rq_end_open_ms :: int

definition range_canonical_dict :: "required_range \<Rightarrow> json" where
  "range_canonical_dict r = JObj
     [(''start_open_ms'', JInt (rq_start_open_ms r)), (''end_open_ms'', JInt (rq_end_open_ms r))]"

definition resolve_range :: "backtest_period \<Rightarrow> int \<Rightarrow> required_range result" where
  "resolve_range period history =
     rbind (rguard (\<not> history < 1) ValueError ''history minutes must be a positive integer'') (\<lambda>_.
     (let start = bp_start_ms period - history * 60000 in
      rbind (rguard (\<not> start < 0) ValueError ''configured warm-up precedes the provider epoch'') (\<lambda>_.
      Inr \<lparr>rq_start_open_ms = start, rq_end_open_ms = bp_end_ms period\<rparr>)))"

record backtest_identity =
  bi_scenario_hash :: string
  bi_strategy_hash :: string
  bi_market_data_hash :: string
  bi_candle_data_hash :: string
  bi_code_hash :: string
  bi_period :: backtest_period
  bi_required_range :: required_range
  bi_backtest_id :: string

definition create_identity ::
    "string \<Rightarrow> string \<Rightarrow> string \<Rightarrow> string \<Rightarrow> string \<Rightarrow> backtest_period \<Rightarrow> required_range \<Rightarrow> backtest_identity result" where
  "create_identity scenario strategy market candles code period required =
     rbind (rguard (list_all is_hex64 [scenario, strategy, market, candles, code]) ValueError
              ''identity inputs must contain lowercase SHA-256 hashes'') (\<lambda>_.
     (let payload = JObj
            [(''scenario_hash'', JStr scenario), (''strategy_hash'', JStr strategy), (''market_data_hash'', JStr market),
             (''candle_data_hash'', JStr candles), (''code_hash'', JStr code), (''period'', period_canonical_dict period),
             (''required_range'', range_canonical_dict required)]
      in Inr \<lparr>bi_scenario_hash = scenario, bi_strategy_hash = strategy, bi_market_data_hash = market,
              bi_candle_data_hash = candles, bi_code_hash = code, bi_period = period,
              bi_required_range = required, bi_backtest_id = hash_with_domain ''backtest-v2'' payload\<rparr>))"

section \<open>The replay\<close>

type_synonym candle_source = "string \<Rightarrow> string \<Rightarrow> string \<Rightarrow> int \<Rightarrow> int \<Rightarrow> candle list result"

type_synonym role_series = "(string, derived_candle list) dict"

record replay =
  rp_strategy :: strategy_config
  rp_provider_id :: string
  rp_market_type :: string
  rp_candle_source :: candle_source
  rp_factories :: factories

definition mk_replay :: "strategy_config \<Rightarrow> string \<Rightarrow> string \<Rightarrow> candle_source \<Rightarrow> factories \<Rightarrow> replay result" where
  "mk_replay strategy provider market source facs =
     rbind (rguard (''execution'' \<in> set (dict_keys (sy_roles strategy))) ValueError
              ''strategy requires an execution role'') (\<lambda>_.
     Inr \<lparr>rp_strategy = strategy, rp_provider_id = provider, rp_market_type = market,
          rp_candle_source = source, rp_factories = facs\<rparr>)"

definition validate_candles :: "replay \<Rightarrow> candle list \<Rightarrow> string \<Rightarrow> required_range \<Rightarrow> unit result" where
  "validate_candles rp cs i required =
     rbind (rguard (int (length cs) = (rq_end_open_ms required - rq_start_open_ms required) div 60000 + 1)
              ValueError ''snapshot candle range is incomplete'') (\<lambda>_.
     rguard (list_all (\<lambda>(n, c). \<not> (provider_id c \<noteq> rp_provider_id rp \<or> market_type c \<noteq> rp_market_type rp
               \<or> c_instrument_id c \<noteq> i \<or> open_time_ms c \<noteq> rq_start_open_ms required + int n * 60000))
             (enumerate 0 cs))
       ValueError ''snapshot candle range has a gap or identity mismatch'')"

definition load_instrument :: "replay \<Rightarrow> required_range \<Rightarrow> string \<Rightarrow> (string \<times> candle list \<times> role_series) result" where
  "load_instrument rp required i =
     rbind (rp_candle_source rp (rp_provider_id rp) (rp_market_type rp) i
              (rq_start_open_ms required) (rq_end_open_ms required)) (\<lambda>cs.
     rbind (validate_candles rp cs i required) (\<lambda>_.
     rbind (resample_roles cs (sy_roles (rp_strategy rp)) None) (\<lambda>roles.
     Inr (i, cs, roles))))"

text \<open>\<^verbatim>\<open>bisect_right\<close> on an ascending sequence.\<close>

definition bisect_right :: "int list \<Rightarrow> int \<Rightarrow> nat" where
  "bisect_right xs x = length (takeWhile (\<lambda>y. y \<le> x) xs)"

definition prefix_of :: "int \<Rightarrow> int \<Rightarrow> derived_candle list \<Rightarrow> derived_candle list" where
  "prefix_of history t cs =
     (let closes = map dc_close_time_ms cs; start = bisect_right closes (t - history * 60000); stop = bisect_right closes t
      in take (stop - start) (drop start cs))"

definition prefixes :: "replay \<Rightarrow> role_series \<Rightarrow> int \<Rightarrow> role_series" where
  "prefixes rp roles t = map (\<lambda>(role, cs). (role, prefix_of (sy_history_minutes (rp_strategy rp)) t cs)) roles"

section \<open>Traces\<close>

definition indicator_step ::
    "(string, string) dict \<Rightarrow> string \<times> observation \<Rightarrow> pipeline_step result" where
  "indicator_step hashes so = (case so of (sid, ob) \<Rightarrow>
     rbind (rmapM (\<lambda>d. rbind (dict_index hashes d) (\<lambda>h. Inr (d, h))) (dependency_ids ob)) (\<lambda>deps.
     rbind (dict_index hashes sid) (\<lambda>h.
     mk_pipeline_step \<lparr>kind = ''INDICATOR'', step_id = sid, st_state = ob_status ob, st_reason = bounded_reason ob,
       dependency_hashes = deps, output_hash = Some h\<rparr>)))"

definition gate_step ::
    "(string, string) dict \<Rightarrow> decision \<Rightarrow> bool \<times> pipeline_step list \<Rightarrow> decision_signal \<Rightarrow> (bool \<times> pipeline_step list) result" where
  "gate_step hashes d acc s = (case acc of (rejected, steps) \<Rightarrow>
     (let sid = ds_signal_id s; out = dict_get hashes sid;
          own = (case out of None \<Rightarrow> [] | Some h \<Rightarrow> [(sid, h)]);
          (rejected', st, reason, out', deps) =
            (if rejected then (True, ''SKIPPED_AFTER_REJECTION'', ''SKIPPED_AFTER_REJECTION'', None, [])
             else if Some sid = first_failed_signal d then
               (if de_status d = ''UNAVAILABLE'' then (True, ''UNAVAILABLE'', ''REQUIRED_SIGNAL_UNAVAILABLE'', out, own)
                else (True, ''REJECT'', ''REQUIRED_SIGNAL_FAILED'', out, own))
             else (False, ''PASS'', ''SIGNAL_ACCEPTED'', out, own))
      in rbind (mk_pipeline_step \<lparr>kind = ''DECISION_GATE'', step_id = sid, st_state = st, st_reason = reason,
                  dependency_hashes = deps, output_hash = out'\<rparr>) (\<lambda>step.
         Inr (rejected', steps @ [step]))))"

definition trace_of ::
    "decision_signal list \<Rightarrow> run_context \<Rightarrow> (string, observation) dict \<Rightarrow> decision \<Rightarrow> string \<Rightarrow> pipeline_trace result" where
  "trace_of signals cx obs d h =
     (let hashes = map (\<lambda>(sid, ob). (sid, hash_observation ob)) obs in
      rbind (rmapM (indicator_step hashes) obs) (\<lambda>indicators.
      rbind (rfoldM (gate_step hashes d) (False, []) (policy_order signals)) (\<lambda>(rejected, gates).
      Inr \<lparr>tr_instrument_id = cx_instrument_id cx, tr_evaluation_time_ms = evaluation_time_ms cx,
           tr_steps = indicators @ gates, first_rejection = first_failed_signal d, tr_decision_hash = h\<rparr>)))"

section \<open>Evaluation\<close>

definition evaluate_at ::
    "replay \<Rightarrow> graph \<Rightarrow> decision_signal list \<Rightarrow> (string, role_series) dict \<Rightarrow> int \<Rightarrow> string \<Rightarrow> replay_evaluation result" where
  "evaluate_at rp g signals data t i =
     rbind (dict_index data i) (\<lambda>roles.
     rbind (mk_context \<lparr>cx_instrument_id = i, evaluation_time_ms = t,
              candles_by_role = prefixes rp roles t, timeframes_by_role = []\<rparr>) (\<lambda>cx.
     rbind (execute g cx) (\<lambda>obs.
     rbind (decide signals cx obs) (\<lambda>d.
     rbind (trace_of signals cx obs d (hash_decision d)) (\<lambda>tr.
     Inr \<lparr>ev_instrument_id = i, ev_evaluation_time_ms = t, ev_decision = d,
          ev_decision_hash = hash_decision d, ev_trace = tr\<rparr>)))))"

definition schedule_of :: "backtest_period \<Rightarrow> derived_candle list \<Rightarrow> int list" where
  "schedule_of period bars = map dc_close_time_ms
     (filter (\<lambda>b. bp_start_ms period \<le> dc_open_time_ms b \<and> dc_close_time_ms b \<le> bp_end_ms period + 59999) bars)"

definition run_replay :: "replay \<Rightarrow> backtest_period \<Rightarrow> replay_result result" where
  "run_replay rp period =
     (let strategy = rp_strategy rp; instruments = sy_instruments strategy in
      rbind (resolve_range period (sy_history_minutes strategy)) (\<lambda>required.
      rbind (rmapM (load_instrument rp required) instruments) (\<lambda>loaded.
      (let data = dict_of (map (\<lambda>(i, cs, roles). (i, roles)) loaded);
           candles = concat (map (\<lambda>(i, cs, roles). cs) loaded) in
      case instruments of
        [] \<Rightarrow> raise IndexError ''tuple index out of range''
      | first # _ \<Rightarrow>
        rbind (dict_index data first) (\<lambda>roles.
        rbind (dict_index roles ''execution'') (\<lambda>bars.
        rbind (configured_nodes strategy) (\<lambda>nodes.
        rbind (mk_graph nodes (rp_factories rp)) (\<lambda>g.
        rbind (configured_decision_signals strategy) (\<lambda>signals.
        rbind (rmapM (\<lambda>t. rmapM (evaluate_at rp g signals data t) instruments) (schedule_of period bars)) (\<lambda>evss.
        Inr \<lparr>evaluations = concat evss, candle_count = length candles, rr_data_hash = hash_candles candles\<rparr>)))))))))) "

section \<open>A series that is cut at a time\<close>

lemma rmapM_filter:
  assumes "rmapM f xs = Inr ys" "\<And>x y. x \<in> set xs \<Longrightarrow> f x = Inr y \<Longrightarrow> P x \<longleftrightarrow> Q y"
  shows "rmapM f (filter P xs) = Inr (filter Q ys)"
  using assms by (induction xs arbitrary: ys) fastforce+

lemma candle_wf_close: "candle_wf c \<Longrightarrow> close_time_ms c = open_time_ms c + 59999"
  by (simp add: candle_wf_def)

text \<open>A bucket of a series that is cut at \<open>t\<close> is full iff it is full in the series and closes by \<open>t\<close>.\<close>

lemma bucket_full_prefix:
  assumes wf: "\<forall>c\<in>set (cs @ fut). candle_wf c" and m: "0 < m" and d: "d = m * 60000"
    and adj: "adjacent (\<lambda>left right. open_time_ms right = open_time_ms left + 60000) (cs @ fut)"
    and past: "\<forall>c\<in>set cs. close_time_ms c \<le> t" and future: "\<forall>c\<in>set fut. t < close_time_ms c"
  shows "bucket_complete m b (bucket_rows d None cs b) \<longleftrightarrow>
      bucket_complete m b (bucket_rows d None (cs @ fut) b) \<and> b + m * 60000 - 1 \<le> t"
    and "b + m * 60000 - 1 \<le> t \<Longrightarrow> bucket_rows d None (cs @ fut) b = bucket_rows d None cs b"
proof -
  have split: "bucket_rows d None (cs @ fut) b = bucket_rows d None cs b @ bucket_rows d None fut b"
    by (simp add: bucket_rows_def)
  have wfs: "\<forall>c\<in>set cs. candle_wf c" "\<forall>c\<in>set fut. candle_wf c" using wf by simp_all
  have inside: "open_time_ms c \<in> set (grid b 60000 (nat m))" "t < close_time_ms c"
    if "c \<in> set (bucket_rows d None fut b)" for c
    using that bucket_rows_grid(1) [OF wfs(2) m d, of None b] future by (auto simp: bucket_rows_def)
  show eq: "bucket_rows d None (cs @ fut) b = bucket_rows d None cs b" if le: "b + m * 60000 - 1 \<le> t"
  proof -
    have False if c: "c \<in> set (bucket_rows d None fut b)" for c
    proof -
      from inside(1) [OF c] obtain i where "i < nat m" "open_time_ms c = b + int i * 60000" by (auto simp: grid_set)
      moreover have "close_time_ms c = open_time_ms c + 59999"
        using c wfs(2) by (auto simp: bucket_rows_def intro: candle_wf_close)
      ultimately have "close_time_ms c \<le> b + m * 60000 - 1" by simp
      with inside(2) [OF c] le show False by simp
    qed
    then show ?thesis by (cases "bucket_rows d None fut b") (auto simp: split)
  qed
  note full = bucket_complete_iff [OF wfs(1) m d adjacent_append1 [OF adj]]
  show "bucket_complete m b (bucket_rows d None cs b) \<longleftrightarrow>
      bucket_complete m b (bucket_rows d None (cs @ fut) b) \<and> b + m * 60000 - 1 \<le> t"
  proof
    assume c: "bucket_complete m b (bucket_rows d None cs b)"
    then have "bucket_rows d None cs b \<noteq> []" using full grid_map_nonempty [OF m] by blast
    then have "close_time_ms (last (bucket_rows d None cs b)) \<le> t"
      using past last_in_set by (fastforce simp: bucket_rows_def)
    with c have "b + m * 60000 - 1 \<le> t" by (simp add: bucket_complete_def)
    with c eq show "bucket_complete m b (bucket_rows d None (cs @ fut) b) \<and> b + m * 60000 - 1 \<le> t" by simp
  next
    assume "bucket_complete m b (bucket_rows d None (cs @ fut) b) \<and> b + m * 60000 - 1 \<le> t"
    with eq show "bucket_complete m b (bucket_rows d None cs b)" by simp
  qed
qed

text \<open>What \<open>resample_complete\<close> computes without an evaluation time, as one equation.\<close>

lemma resample_complete_None:
  assumes "resample_complete cs tf None = Inr out"
  shows "rmapM (\<lambda>b. derive_bucket tf (duration_minutes tf) b (bucket_rows (duration_minutes tf * 60000) None cs b))
      (filter (\<lambda>b. bucket_complete (duration_minutes tf) b (bucket_rows (duration_minutes tf * 60000) None cs b))
        (sort (dict_keys (bucket_dict (duration_minutes tf * 60000) None cs)))) = Inr out"
proof -
  define m where "m = duration_minutes tf"
  define d where "d = m * 60000"
  note inr = resample_complete_Inr [OF assms m_def d_def]
  have "rmapM (\<lambda>b. derive_bucket tf m b (bucket_rows d None cs b)) (map dc_open_time_ms out) = Inr out"
    unfolding rmapM_list_all2 using inr(2) by (simp add: list_all2_conv_all_nth)
  then show ?thesis unfolding inr(1) m_def [symmetric] d_def [symmetric] .
qed

text \<open>
  A part \<open>A\<close> of a series \<open>B\<close> whose full buckets are the full buckets of \<open>B\<close> that satisfy \<open>C\<close>.
\<close>

lemma resample_restrict:
  assumes all: "resample_complete B tf None = Inr out" and m: "m = duration_minutes tf" and d: "d = m * 60000"
    and full: "\<And>b. bucket_complete m b (bucket_rows d None A b) \<longleftrightarrow>
        bucket_complete m b (bucket_rows d None B b) \<and> C b"
    and same: "\<And>b. C b \<Longrightarrow> bucket_rows d None B b = bucket_rows d None A b"
    and A: "set A \<subseteq> set B" "adjacent (\<lambda>left right. open_time_ms right = open_time_ms left + 60000) A"
  shows "resample_complete A tf None = Inr (filter (\<lambda>k. C (dc_open_time_ms k)) out)"
proof -
  note inr = resample_complete_Inr [OF all m d]
  have pos: "0 < m" using inr(4) by (simp add: m timeframe_minutes_pos)
  let ?rows = "bucket_rows d None" and ?D = "\<lambda>cs. sort (dict_keys (bucket_dict d None cs))"
  have derive: "derive_complete tf m (bucket_dict d None A) =
      rmapM (\<lambda>b. derive_bucket tf m b (?rows A b)) (filter (\<lambda>b. bucket_complete m b (?rows A b)) (?D A))"
  proof -
    have rows: "the (dict_get (bucket_dict d None A) b) = ?rows A b" if "b \<in> set (?D A)" for b
      using that by (simp add: bucket_dict_get bucket_dict_keys del: set_map)
    show ?thesis unfolding derive_complete_def
      by (intro rmapM_cong filter_cong) (use rows in auto)
  qed
  have "resample_complete A tf None = derive_complete tf m (bucket_dict d None A)"
  proof (cases "A = []")
    case True
    with all show ?thesis by (auto simp: resample_complete_def derive_complete_def bucket_dict_def)
  next
    case False
    then have "B \<noteq> []" using A(1) by auto
    with all have tf: "timeframe tf = Inr tf" "tf \<noteq> ''1m''"
      and id: "\<not> list_ex (\<lambda>c. market_identity c \<noteq> market_identity (hd B)) B"
      by (auto simp: resample_complete_def timeframe_def split: if_splits)
    have one: "market_identity c = market_identity (hd B)" if "c \<in> set A" for c
      using that A(1) id by (auto simp: list_ex_iff)
    then have "\<not> list_ex (\<lambda>c. market_identity c \<noteq> market_identity (hd A)) A"
      using hd_in_set [OF False] by (auto simp: list_ex_iff)
    with False tf show ?thesis
      unfolding m d using A(2) by (intro resample_complete_loop) simp_all
  qed
  moreover have "rmapM (\<lambda>b. derive_bucket tf m b (?rows B b))
      (filter C (filter (\<lambda>b. bucket_complete m b (?rows B b)) (?D B)))
    = Inr (filter (\<lambda>k. C (dc_open_time_ms k)) out)"
    by (rule rmapM_filter [OF resample_complete_None [OF all, folded m, folded d]])
      (auto dest: derive_bucket_times)
  moreover have "filter C (filter (\<lambda>b. bucket_complete m b (?rows B b)) (?D B))
      = filter (\<lambda>b. bucket_complete m b (?rows A b)) (?D A)" (is "?l = ?r")
  proof (rule sorted_distinct_set_unique)
    show "sorted ?l" "distinct ?l" "sorted ?r" "distinct ?r"
      by (simp_all add: sorted_wrt_filter bucket_dict_distinct)
    show "set ?l = set ?r"
    proof (intro set_eqI)
      fix b
      have "b \<in> set ?l \<longleftrightarrow> ?rows B b \<noteq> [] \<and> bucket_complete m b (?rows B b) \<and> C b"
        by (auto simp: bucket_dict_keys simp del: set_map)
      also have "\<dots> \<longleftrightarrow> ?rows A b \<noteq> [] \<and> bucket_complete m b (?rows A b)"
        using full [of b] same [of b] by auto
      also have "\<dots> \<longleftrightarrow> b \<in> set ?r"
        by (auto simp: bucket_dict_keys simp del: set_map)
      finally show "b \<in> set ?l \<longleftrightarrow> b \<in> set ?r" .
    qed
  qed
  moreover have "rmapM (\<lambda>b. derive_bucket tf m b (?rows B b)) ?l = rmapM (\<lambda>b. derive_bucket tf m b (?rows A b)) ?l"
    by (intro rmapM_cong refl) (simp add: same)
  ultimately show ?thesis by (simp add: derive)
qed

lemma resample_prefix:
  assumes all: "resample_complete (cs @ fut) tf None = Inr out" and wf: "\<forall>c\<in>set (cs @ fut). candle_wf c"
    and past: "\<forall>c\<in>set cs. close_time_ms c \<le> t" and future: "\<forall>c\<in>set fut. t < close_time_ms c"
  shows "resample_complete cs tf None = Inr (filter (\<lambda>k. dc_close_time_ms k \<le> t) out)"
proof -
  define m where "m = duration_minutes tf"
  define d where "d = m * 60000"
  note inr = resample_complete_Inr [OF all m_def d_def]
  have m: "0 < m" using inr(4) by (simp add: m_def timeframe_minutes_pos)
  note full = bucket_full_prefix [OF wf m d_def inr(3) past future]
  have "resample_complete cs tf None = Inr (filter (\<lambda>k. dc_open_time_ms k + m * 60000 - 1 \<le> t) out)"
    using full adjacent_append1 [OF inr(3)] by (intro resample_restrict [OF all m_def d_def]) auto
  also have "filter (\<lambda>k. dc_open_time_ms k + m * 60000 - 1 \<le> t) out = filter (\<lambda>k. dc_close_time_ms k \<le> t) out"
    using derive_bucket_times [OF inr(2)] by (intro filter_cong) auto
  finally show ?thesis .
qed

text \<open>A series without its minutes before \<open>lo\<close> loses the buckets that open before \<open>lo\<close>.\<close>

lemma adjacent_append2: "adjacent P (xs @ ys) \<Longrightarrow> adjacent P ys"
  by (induction P xs rule: adjacent.induct) (auto elim: adjacent.elims)

lemma resample_suffix:
  assumes all: "resample_complete (past @ cs) tf None = Inr out" and wf: "\<forall>c\<in>set (past @ cs). candle_wf c"
    and before: "\<forall>c\<in>set past. open_time_ms c < lo" and inside: "\<forall>c\<in>set cs. lo \<le> open_time_ms c"
  shows "resample_complete cs tf None = Inr (filter (\<lambda>k. lo \<le> dc_open_time_ms k) out)"
proof -
  define m where "m = duration_minutes tf"
  define d where "d = m * 60000"
  note inr = resample_complete_Inr [OF all m_def d_def]
  have m: "0 < m" using inr(4) by (simp add: m_def timeframe_minutes_pos)
  have split: "bucket_rows d None (past @ cs) b = bucket_rows d None past b @ bucket_rows d None cs b" for b
    by (simp add: bucket_rows_def)
  have same: "bucket_rows d None (past @ cs) b = bucket_rows d None cs b" if le: "lo \<le> b" for b
  proof -
    have False if c: "c \<in> set (bucket_rows d None past b)" for c
    proof -
      have "open_time_ms c \<in> set (grid b 60000 (nat m))"
        using c bucket_rows_grid(1) [OF _ m d_def, of past None b] wf by auto
      then have "b \<le> open_time_ms c" by (auto simp: grid_set)
      moreover have "open_time_ms c < lo" using c before by (auto simp: bucket_rows_def)
      ultimately show False using le by simp
    qed
    then show ?thesis by (cases "bucket_rows d None past b") (auto simp: split)
  qed
  have full: "bucket_complete m b (bucket_rows d None cs b) \<longleftrightarrow>
      bucket_complete m b (bucket_rows d None (past @ cs) b) \<and> lo \<le> b" for b
  proof
    assume c: "bucket_complete m b (bucket_rows d None cs b)"
    then have "bucket_rows d None cs b \<noteq> []" using m by (auto simp: bucket_complete_def)
    then have "lo \<le> open_time_ms (hd (bucket_rows d None cs b))"
      using inside hd_in_set by (fastforce simp: bucket_rows_def)
    with c have "lo \<le> b" by (simp add: bucket_complete_def)
    with c same show "bucket_complete m b (bucket_rows d None (past @ cs) b) \<and> lo \<le> b" by simp
  qed (use same in auto)
  show ?thesis
    using full same adjacent_append2 [OF inr(3)] by (intro resample_restrict [OF all m_def d_def]) auto
qed

definition until :: "int \<Rightarrow> derived_candle list \<Rightarrow> derived_candle list" where
  "until t ks = filter (\<lambda>k. dc_close_time_ms k \<le> t) ks"

definition dict_map :: "('a \<Rightarrow> 'b) \<Rightarrow> ('k, 'a) dict \<Rightarrow> ('k, 'b) dict" where
  "dict_map f d = map (\<lambda>(k, v). (k, f v)) d"

lemma dict_map_get: "dict_get (dict_map f d) k = map_option f (dict_get d k)"
  by (simp add: dict_map_def map_of_map comp_def)

lemma dict_map_set: "dict_map f (dict_set k v d) = dict_set k (f v) (dict_map f d)"
  by (induction d) (auto simp: dict_map_def)

lemma ascending_split:
  assumes "sorted_wrt (<) (map f xs)"
  shows "takeWhile (\<lambda>x. f x \<le> (t::int)) xs = filter (\<lambda>x. f x \<le> t) xs
    \<and> dropWhile (\<lambda>x. f x \<le> t) xs = filter (\<lambda>x. t < f x) xs"
  using assms
proof (induction xs)
  case (Cons x xs)
  show ?case
  proof (cases "f x \<le> t")
    case False
    with Cons.prems have "\<forall>y\<in>set xs. t < f y" by auto
    then have "filter (\<lambda>x. f x \<le> t) xs = []" "filter (\<lambda>x. t < f x) xs = xs"
      by (auto simp: filter_empty_conv filter_id_conv)
    with False show ?thesis by simp
  qed (use Cons in auto)
qed simp

lemma resample_until:
  assumes "resample_complete cs tf None = Inr out" "\<forall>c\<in>set cs. candle_wf c"
  shows "resample_complete (filter (\<lambda>c. close_time_ms c \<le> t) cs) tf None = Inr (until t out)"
proof -
  let ?P = "\<lambda>c. close_time_ms c \<le> t"
  have "map close_time_ms cs = map (\<lambda>c. open_time_ms c + 59999) cs"
    using assms(2) by (auto intro: candle_wf_close)
  moreover have "sorted_wrt (<) (map open_time_ms cs)"
    by (rule adjacent_strict_sorted [OF resample_complete_Inr(3) [OF assms(1) refl refl]]) simp
  ultimately have asc: "sorted_wrt (<) (map close_time_ms cs)"
    by (simp only: sorted_wrt_map add_strict_right_mono [where 'a = int] add_less_cancel_right)
  have parts: "cs = takeWhile ?P cs @ dropWhile ?P cs" by simp
  show ?thesis
    unfolding conjunct1 [OF ascending_split [OF asc, of t], symmetric] until_def
  proof (rule resample_prefix)
    show "resample_complete (takeWhile ?P cs @ dropWhile ?P cs) tf None = Inr out" using assms(1) by simp
    show "\<forall>c\<in>set (takeWhile ?P cs @ dropWhile ?P cs). candle_wf c" using assms(2) by simp
    show "\<forall>c\<in>set (takeWhile ?P cs). ?P c" by (auto dest: set_takeWhileD)
    show "\<forall>c\<in>set (dropWhile ?P cs). t < close_time_ms c" by (simp add: ascending_split [OF asc])
  qed
qed

text \<open>Resampling by role follows what happens to the series of each timeframe.\<close>

lemma resample_step_map:
  assumes "resample_step cs None (res, cache) rt = Inr (res', cache')"
    and F: "\<And>out. resample_complete cs (snd rt) None = Inr out \<Longrightarrow> resample_complete cs' (snd rt) ev = Inr (F out)"
  shows "resample_step cs' ev (dict_map F res, dict_map F cache) rt = Inr (dict_map F res', dict_map F cache')"
proof -
  obtain role tf where rt: "rt = (role, tf)" by (cases rt)
  show ?thesis
  proof (cases "dict_get cache tf")
    case None
    with assms(1) rt obtain out where "resample_complete cs tf None = Inr out" "role \<noteq> []"
      and "res' = dict_set role out res" "cache' = dict_set tf out cache"
      by (auto simp: resample_step_def)
    moreover from this(1) have "resample_complete cs' tf ev = Inr (F out)" using F rt by simp
    ultimately show ?thesis using None rt
      by (simp add: resample_step_def dict_map_get dict_map_set)
  next
    case (Some out)
    with assms(1) rt show ?thesis
      by (auto simp: resample_step_def dict_map_get dict_map_set)
  qed
qed

lemma resample_fold_map:
  assumes "rfoldM (resample_step cs None) (res, cache) roles = Inr (res', cache')"
    and F: "\<And>tf out. tf \<in> snd ` set roles \<Longrightarrow> resample_complete cs tf None = Inr out \<Longrightarrow>
      resample_complete cs' tf ev = Inr (F out)"
  shows "rfoldM (resample_step cs' ev) (dict_map F res, dict_map F cache) roles = Inr (dict_map F res', dict_map F cache')"
  using assms
proof (induction roles arbitrary: res cache)
  case (Cons rt roles)
  from Cons.prems(1) obtain st where st: "resample_step cs None (res, cache) rt = Inr st"
    and rest: "rfoldM (resample_step cs None) st roles = Inr (res', cache')" by auto
  obtain res1 cache1 where st': "st = (res1, cache1)" by (cases st)
  have "resample_step cs' ev (dict_map F res, dict_map F cache) rt = Inr (dict_map F res1, dict_map F cache1)"
    by (rule resample_step_map [OF st [unfolded st']]) (simp add: Cons.prems(2))
  with Cons.IH [OF rest [unfolded st']] Cons.prems(2) show ?case by simp
qed simp

lemma resample_roles_map:
  assumes "resample_roles cs roles None = Inr res"
    and "\<And>tf out. tf \<in> snd ` set roles \<Longrightarrow> resample_complete cs tf None = Inr out \<Longrightarrow>
      resample_complete cs' tf ev = Inr (F out)"
  shows "resample_roles cs' roles ev = Inr (dict_map F res)"
proof -
  from assms(1) obtain cache where "rfoldM (resample_step cs None) ([], []) roles = Inr (res, cache)"
    by (auto simp: resample_roles_def)
  from resample_fold_map [OF this assms(2)] show ?thesis
    by (simp add: resample_roles_def dict_map_def)
qed

lemma resample_roles_until:
  assumes "resample_roles cs roles None = Inr res" "\<forall>c\<in>set cs. candle_wf c"
  shows "resample_roles (filter (\<lambda>c. close_time_ms c \<le> t) cs) roles None = Inr (dict_map (until t) res)"
  by (rule resample_roles_map [OF assms(1)]) (rule resample_until [OF _ assms(2)])

text \<open>The series of a role are ascending, so the two bisections cut out a window of closing times.\<close>

definition ascending_bars :: "derived_candle list \<Rightarrow> bool" where
  "ascending_bars ks \<longleftrightarrow> sorted_wrt (<) (map dc_close_time_ms ks)"

lemma prefix_of_window:
  assumes "ascending_bars ks" "0 \<le> h"
  shows "prefix_of h t ks = filter (\<lambda>k. t - h * 60000 < dc_close_time_ms k \<and> dc_close_time_ms k \<le> t) ks"
proof -
  let ?c = dc_close_time_ms and ?e = "t - h * 60000"
  have asc: "sorted_wrt (<) (map ?c ks)" using assms(1) by (simp add: ascending_bars_def)
  define xs where "xs = takeWhile (\<lambda>k. ?c k \<le> t) ks"
  have xs: "xs = filter (\<lambda>k. ?c k \<le> t) ks" by (simp add: xs_def ascending_split [OF asc])
  have asc': "sorted_wrt (<) (map ?c xs)" using asc by (simp add: xs sorted_wrt_map sorted_wrt_filter)
  have cut: "bisect_right (map ?c ks) x = length (takeWhile (\<lambda>k. ?c k \<le> x) ks)" for x
    by (simp add: bisect_right_def takeWhile_map comp_def)
  have low: "bisect_right (map ?c ks) ?e = length (takeWhile (\<lambda>k. ?c k \<le> ?e) xs)"
  proof -
    have "takeWhile (\<lambda>k. ?c k \<le> ?e) ks = takeWhile (\<lambda>k. ?c k \<le> ?e) xs"
      unfolding conjunct1 [OF ascending_split [OF asc]] conjunct1 [OF ascending_split [OF asc']]
      unfolding xs filter_filter using assms(2) by (intro filter_cong) auto
    then show ?thesis by (simp add: cut)
  qed
  have "prefix_of h t ks = drop (bisect_right (map ?c ks) ?e) (take (bisect_right (map ?c ks) t) ks)"
    by (simp add: prefix_of_def Let_def drop_take)
  also have "take (bisect_right (map ?c ks) t) ks = xs"
    by (simp add: cut xs_def takeWhile_eq_take [symmetric])
  also have "drop (bisect_right (map ?c ks) ?e) xs = dropWhile (\<lambda>k. ?c k \<le> ?e) xs"
    by (simp add: low dropWhile_eq_drop [symmetric])
  also have "\<dots> = filter (\<lambda>k. ?e < ?c k) xs" by (simp add: ascending_split [OF asc'])
  finally show ?thesis by (simp add: xs conj_commute)
qed

lemma dict_set_values: "\<forall>(k, v) \<in> set d. P v \<Longrightarrow> P w \<Longrightarrow> \<forall>(k, v) \<in> set (dict_set j w d). P v"
  by (induction d) auto

definition ascending_roles :: "role_series \<Rightarrow> bool" where
  "ascending_roles roles \<longleftrightarrow> (\<forall>(role, ks) \<in> set roles. ascending_bars ks)"

lemma ascending_roles_set:
  "ascending_roles d \<Longrightarrow> ascending_bars ks \<Longrightarrow> ascending_roles (dict_set role ks d)"
  unfolding ascending_roles_def by (rule dict_set_values)

lemma resample_complete_ascending:
  assumes out: "resample_complete cs tf None = Inr out"
  shows "ascending_bars out"
proof -
  define m where "m = duration_minutes tf"
  note inr = resample_complete_Inr [OF out m_def refl]
  have opens: "sorted_wrt (<) (map dc_open_time_ms out)"
    unfolding inr(1) using bucket_dict_distinct [of "m * 60000" None cs]
    by (simp add: strict_sorted_iff sorted_wrt_filter del: sorted_wrt_map)
  have "dc_close_time_ms k = dc_open_time_ms k + m * 60000 - 1" if "k \<in> set out" for k
    using derive_bucket_times [OF inr(2) [OF that]] by simp
  then have eq: "map dc_close_time_ms out = map (\<lambda>x. x + m * 60000 - 1) (map dc_open_time_ms out)" by simp
  show ?thesis unfolding ascending_bars_def eq using opens by (simp add: sorted_wrt_map)
qed

lemma resample_roles_ascending:
  assumes "resample_roles cs roles None = Inr res"
  shows "ascending_roles res"
proof -
  from assms(1) obtain cache where fold: "rfoldM (resample_step cs None) ([], []) roles = Inr (res, cache)"
    by (auto simp: resample_roles_def)
  let ?P = "\<lambda>st. ascending_roles (fst st) \<and> ascending_roles (snd st)"
  note asc = resample_complete_ascending
  have "?P (res, cache)"
  proof (rule rfoldM_invariant [where P = ?P, OF fold])
    fix st rt st'
    assume ok: "?P st" and "resample_step cs None st rt = Inr st'"
    then obtain role tf ks where "rt = (role, tf)" "st' = (dict_set role ks (fst st), snd st) \<and> dict_get (snd st) tf = Some ks
        \<or> st' = (dict_set role ks (fst st), dict_set tf ks (snd st)) \<and> resample_complete cs tf None = Inr ks"
      by (cases rt) (auto simp: resample_step_def split: prod.splits option.splits)
    moreover have "ascending_bars ks" if "dict_get (snd st) tf = Some ks"
      using ok map_of_SomeD [OF that] by (auto simp: ascending_roles_def)
    ultimately show "?P st'"
      using ok asc by (auto intro!: ascending_roles_set)
  qed (simp add: ascending_roles_def)
  then show ?thesis by simp
qed

text \<open>The windows of a time \<open>s\<close> are cut out of what was known at any later time \<open>t\<close>.\<close>

lemma prefix_of_until:
  assumes "ascending_bars ks" "0 \<le> h" "s \<le> t"
  shows "prefix_of h s ks = prefix_of h s (until t ks)"
proof -
  have "ascending_bars (until t ks)"
    using assms(1) by (simp add: ascending_bars_def until_def sorted_wrt_map sorted_wrt_filter)
  with assms show ?thesis
    by (simp add: prefix_of_window) (auto simp: until_def intro: filter_cong)
qed

lemma prefixes_until:
  assumes "ascending_roles roles" "0 \<le> sy_history_minutes (rp_strategy rp)" "s \<le> t"
  shows "prefixes rp roles s = prefixes rp (dict_map (until t) roles) s"
  using assms by (auto simp: prefixes_def dict_map_def ascending_roles_def intro: prefix_of_until)

text \<open>What a replay reads of an instrument up to a time: the closed candles of its required range.\<close>

definition known_candles :: "replay \<Rightarrow> backtest_period \<Rightarrow> int \<Rightarrow> string \<Rightarrow> candle list result" where
  "known_candles rp period t i =
     rbind (resolve_range period (sy_history_minutes (rp_strategy rp))) (\<lambda>rq.
     rbind (rp_candle_source rp (rp_provider_id rp) (rp_market_type rp) i (rq_start_open_ms rq) (rq_end_open_ms rq)) (\<lambda>cs.
     Inr (filter (\<lambda>c. close_time_ms c \<le> t) cs)))"

definition source_wf :: "candle_source \<Rightarrow> bool" where
  "source_wf src \<longleftrightarrow> (\<forall>p m i a b cs. src p m i a b = Inr cs \<longrightarrow> list_all candle_wf cs)"

lemma load_instrument_until:
  assumes "load_instrument rp rq i = Inr (j, cs, roles)" "source_wf (rp_candle_source rp)"
    and "resolve_range p (sy_history_minutes (rp_strategy rp)) = Inr rq"
  shows "j = i \<and> ascending_roles roles \<and> (\<exists>known. known_candles rp p t i = Inr known
    \<and> resample_roles known (sy_roles (rp_strategy rp)) None = Inr (dict_map (until t) roles))"
proof -
  from assms(1) have src: "rp_candle_source rp (rp_provider_id rp) (rp_market_type rp) i
      (rq_start_open_ms rq) (rq_end_open_ms rq) = Inr cs"
    and res: "resample_roles cs (sy_roles (rp_strategy rp)) None = Inr roles" and j: "j = i"
    by (auto simp: load_instrument_def)
  have wf: "\<forall>c\<in>set cs. candle_wf c" using assms(2) src by (auto simp: source_wf_def list_all_iff)
  from resample_roles_until [OF res wf, of t] resample_roles_ascending [OF res] j src assms(3)
  show ?thesis by (simp add: known_candles_def)
qed

text \<open>The evaluations up to a time, from the data of the instruments.\<close>

lemma evaluate_at_cong:
  assumes "rp_strategy rp' = rp_strategy rp" "dict_get data i = Some roles" "dict_get data' i = Some roles'"
    and "prefixes rp roles t = prefixes rp' roles' t"
  shows "evaluate_at rp g signals data t i = evaluate_at rp' g signals data' t i"
  using assms by (simp add: evaluate_at_def dict_index_def)

lemma evaluate_at_time: "evaluate_at rp g signals data t i = Inr e \<Longrightarrow> ev_evaluation_time_ms e = t"
  by (auto simp: evaluate_at_def split: prod.splits)

lemma evaluations_until:
  assumes "rmapM (\<lambda>s. rmapM (evaluate_at rp g signals data s) is) ts = Inr evss"
  shows "\<exists>evss'. rmapM (\<lambda>s. rmapM (evaluate_at rp g signals data s) is) (filter (\<lambda>s. s \<le> t) ts) = Inr evss'
    \<and> concat evss' = filter (\<lambda>e. ev_evaluation_time_ms e \<le> t) (concat evss)"
  using assms
proof (induction ts arbitrary: evss)
  case (Cons s ts)
  then obtain evs rest where evs: "rmapM (evaluate_at rp g signals data s) is = Inr evs" and evss: "evss = evs # rest"
    and rest: "rmapM (\<lambda>s. rmapM (evaluate_at rp g signals data s) is) ts = Inr rest" by auto
  have time: "ev_evaluation_time_ms e = s" if "e \<in> set evs" for e
    using rmapM_in_set [OF evs that] evaluate_at_time by blast
  have "filter (\<lambda>e. ev_evaluation_time_ms e \<le> t) evs = (if s \<le> t then evs else [])"
    using time by (auto simp: filter_empty_conv filter_id_conv)
  with Cons.IH [OF rest] evs evss show ?case by auto
qed simp

text \<open>The replay of what is known at \<open>t\<close>.\<close>

definition replay_known :: "replay \<Rightarrow> int \<Rightarrow> (string \<times> role_series) list \<Rightarrow> replay_evaluation list result" where
  "replay_known rp start known =
     (let strategy = rp_strategy rp; instruments = sy_instruments strategy; data = dict_of known in
      rbind (dict_index data (hd instruments)) (\<lambda>roles.
      rbind (dict_index roles ''execution'') (\<lambda>bars.
      rbind (configured_nodes strategy) (\<lambda>nodes.
      rbind (mk_graph nodes (rp_factories rp)) (\<lambda>g.
      rbind (configured_decision_signals strategy) (\<lambda>signals.
      rbind (rmapM (\<lambda>s. rmapM (evaluate_at rp g signals data s) instruments)
               (map dc_close_time_ms (filter (\<lambda>b. start \<le> dc_open_time_ms b) bars))) (\<lambda>evss.
      Inr (concat evss))))))))"

lemma replay_known_source: "replay_known (rp\<lparr>rp_candle_source := src\<rparr>) start known = replay_known rp start known"
proof -
  have "evaluate_at (rp\<lparr>rp_candle_source := src\<rparr>) = evaluate_at rp"
    by (intro ext) (simp add: evaluate_at_def prefixes_def)
  then show ?thesis by (simp add: replay_known_def)
qed

lemma dict_of_map: "dict_of (dict_map f kvs) = dict_map f (dict_of kvs)"
proof (induction kvs rule: rev_induct)
  case Nil
  show ?case by (simp add: dict_of_def dict_map_def)
next
  case (snoc kv kvs)
  obtain k v where kv: "kv = (k, v)" by (cases kv)
  have "dict_map f (kvs @ [kv]) = dict_map f kvs @ [(k, f v)]" by (simp add: dict_map_def kv)
  then show ?case using snoc by (simp add: dict_of_snoc dict_map_set kv)
qed

lemma dict_of_values: "\<forall>(k, v) \<in> set kvs. P v \<Longrightarrow> \<forall>(k, v) \<in> set (dict_of kvs). P v"
  by (induction kvs rule: rev_induct) (auto simp: dict_of_def dest: dict_set_values [where P = P, rotated])

lemma dict_index_map: "dict_index (dict_map f d) k = rbind (dict_index d k) (\<lambda>v. Inr (f v))"
  by (simp add: dict_index_def dict_map_get split: option.split)

lemma run_replay_known:
  assumes run: "run_replay rp p = Inr r" and wf: "source_wf (rp_candle_source rp)" and t: "t \<le> bp_end_ms p + 59999"
  shows "\<exists>known. rmapM (\<lambda>i. rbind (known_candles rp p t i) (\<lambda>cs.
        rbind (resample_roles cs (sy_roles (rp_strategy rp)) None) (\<lambda>roles. Inr (i, roles))))
      (sy_instruments (rp_strategy rp)) = Inr known
    \<and> replay_known rp (bp_start_ms p) known = Inr (filter (\<lambda>e. ev_evaluation_time_ms e \<le> t) (evaluations r))"
proof -
  let ?st = "rp_strategy rp" and ?is = "sy_instruments (rp_strategy rp)"
  define strip where "strip = (\<lambda>(i :: string, cs :: candle list, roles :: role_series). (i, roles))"
  have "?is \<noteq> []" using run by (cases "?is") (auto simp: run_replay_def Let_def)
  then obtain first others where ins: "?is = first # others" by (cases "?is") auto
  with run obtain rq loaded roles bars nodes g signals evss where
    rq: "resolve_range p (sy_history_minutes ?st) = Inr rq"
    and loaded: "rmapM (load_instrument rp rq) ?is = Inr loaded"
    and roles: "dict_index (dict_of (map strip loaded)) (hd ?is) = Inr roles"
    and bars: "dict_index roles ''execution'' = Inr bars"
    and nodes: "configured_nodes ?st = Inr nodes" and g: "mk_graph nodes (rp_factories rp) = Inr g"
    and signals: "configured_decision_signals ?st = Inr signals"
    and evss: "rmapM (\<lambda>s. rmapM (evaluate_at rp g signals (dict_of (map strip loaded)) s) ?is) (schedule_of p bars) = Inr evss"
    and r: "evaluations r = concat evss"
    unfolding run_replay_def strip_def Let_def ins list.case list.sel rbind_eq_Inr by auto
  define data where "data = dict_of (map strip loaded)"
  define known where "known = dict_map (dict_map (until t)) (map strip loaded)"
  have data': "dict_of known = dict_map (dict_map (until t)) data" by (simp add: known_def data_def dict_of_map)
  have asc: "ascending_roles rs" if "dict_get data i = Some rs" for i rs
  proof -
    have "\<forall>(i, rs) \<in> set (map strip loaded). ascending_roles rs"
      using rmapM_in_set [OF loaded] load_instrument_until [OF _ wf rq] by (fastforce simp: strip_def)
    from dict_of_values [OF this] show ?thesis using map_of_SomeD [OF that] by (auto simp: data_def)
  qed
  have "0 \<le> sy_history_minutes ?st" using rq by (auto simp: resolve_range_def)
  then have same: "evaluate_at rp g signals (dict_of known) s i = evaluate_at rp g signals data s i" if "s \<le> t" for s i
    using that prefixes_until [OF asc]
    by (cases "dict_get data i") (simp_all add: evaluate_at_def data' dict_index_def dict_map_get)
  have loads: "rmapM (\<lambda>i. rbind (known_candles rp p t i) (\<lambda>cs.
        rbind (resample_roles cs (sy_roles ?st) None) (\<lambda>roles. Inr (i, roles)))) ?is = Inr known"
  proof -
    have load: "rbind (known_candles rp p t i) (\<lambda>cs. rbind (resample_roles cs (sy_roles ?st) None) (\<lambda>roles. Inr (i, roles)))
        = Inr (case strip y of (i, roles) \<Rightarrow> (i, dict_map (until t) roles))" if "load_instrument rp rq i = Inr y" for i y
    proof -
      obtain j cs roles where y: "y = (j, cs, roles)" by (cases y)
      from load_instrument_until [OF that [unfolded y] wf rq, of t] show ?thesis by (auto simp: y strip_def)
    qed
    show ?thesis
      using loaded unfolding rmapM_list_all2 known_def dict_map_def list_all2_map2
      by (rule list_all2_mono) (use load in \<open>simp add: dict_map_def split_def\<close>)
  qed
  have sched: "map dc_close_time_ms (filter (\<lambda>b. bp_start_ms p \<le> dc_open_time_ms b) (until t bars))
      = filter (\<lambda>s. s \<le> t) (schedule_of p bars)"
    using t by (auto simp: until_def schedule_of_def filter_map comp_def intro!: arg_cong [where f = "map _"] filter_cong)
  from evaluations_until [OF evss, of t] obtain evss' where
    evss': "rmapM (\<lambda>s. rmapM (evaluate_at rp g signals data s) ?is) (filter (\<lambda>s. s \<le> t) (schedule_of p bars)) = Inr evss'"
    and e: "concat evss' = filter (\<lambda>e. ev_evaluation_time_ms e \<le> t) (evaluations r)"
    unfolding r data_def by blast
  have "rmapM (\<lambda>s. rmapM (evaluate_at rp g signals (dict_of known) s) ?is) (filter (\<lambda>s. s \<le> t) (schedule_of p bars)) = Inr evss'"
    unfolding evss' [symmetric] by (intro rmapM_cong refl) (simp add: same)
  then have "replay_known rp (bp_start_ms p) known = Inr (filter (\<lambda>e. ev_evaluation_time_ms e \<le> t) (evaluations r))"
    using roles bars nodes g signals
    by (simp add: replay_known_def Let_def data' dict_index_map sched e data_def [symmetric])
  with loads show ?thesis by blast
qed

text \<open>C32: A replay is point in time: if two candle sources, or two periods with the same start, agree
  on every candle that had closed at \<open>t\<close>, all evaluations up to \<open>t\<close> are equal, with their decisions,
  hashes and traces. Later candles never change an earlier evaluation.\<close>

theorem replay_point_in_time:
  assumes "run_replay rp p = Inr r" "run_replay (rp\<lparr>rp_candle_source := src\<rparr>) p' = Inr r'"
    and "source_wf (rp_candle_source rp)" "source_wf src"
    and "bp_start_ms p' = bp_start_ms p" "t \<le> bp_end_ms p + 59999" "t \<le> bp_end_ms p' + 59999"
    and "\<forall>i\<in>set (sy_instruments (rp_strategy rp)).
      known_candles rp p t i = known_candles (rp\<lparr>rp_candle_source := src\<rparr>) p' t i"
  shows "filter (\<lambda>e. ev_evaluation_time_ms e \<le> t) (evaluations r) = filter (\<lambda>e. ev_evaluation_time_ms e \<le> t) (evaluations r')"
proof -
  let ?load = "\<lambda>rp p i. rbind (known_candles rp p t i) (\<lambda>cs.
    rbind (resample_roles cs (sy_roles (rp_strategy rp)) None) (\<lambda>roles. Inr (i, roles)))"
  let ?rp' = "rp\<lparr>rp_candle_source := src\<rparr>" and ?is = "sy_instruments (rp_strategy rp)"
  from run_replay_known [OF assms(1,3,6)] obtain known where
    known: "rmapM (?load rp p) ?is = Inr known"
    and one: "replay_known rp (bp_start_ms p) known = Inr (filter (\<lambda>e. ev_evaluation_time_ms e \<le> t) (evaluations r))" by blast
  from run_replay_known [OF assms(2) _ assms(7)] assms(4) obtain known' where
    known': "rmapM (?load ?rp' p') ?is = Inr known'"
    and two: "replay_known ?rp' (bp_start_ms p') known' = Inr (filter (\<lambda>e. ev_evaluation_time_ms e \<le> t) (evaluations r'))"
    by auto
  have "rmapM (?load rp p) ?is = rmapM (?load ?rp' p') ?is"
    by (rule rmapM_cong) (use assms(8) in simp_all)
  with known known' have "known' = known" by simp
  with one two assms(5) show ?thesis by (simp add: replay_known_source)
qed

definition sample_plan :: strategy_config where
  "sample_plan = \<lparr>sy_name = ''plan'', sy_version = ''1'', sy_instruments = [''CRYPTO-BTC-USDT-PERP''],
     sy_history_minutes = 1, sy_roles = [(''execution'', ''5m'')],
     sy_signals = [\<lparr>sg_id = ''a'', sg_role = ''execution'', sg_depends_on = [], sg_parameters = EMap [],
        sg_required = True, sg_effect = ''REJECT'', sg_order = 1\<rparr>]\<rparr>"

definition flat_minutes :: "int list \<Rightarrow> candle list" where
  "flat_minutes ms = map (\<lambda>i. sample_minute i ''10'' ''12'' ''9.5'' ''11'') ms"

definition flat_bar :: "int \<Rightarrow> derived_candle" where
  "flat_bar b = \<lparr>dc_instrument_id = ''CRYPTO-BTC-USDT-PERP'', dc_interval = ''5m'', dc_open_time_ms = b,
     dc_close_time_ms = b + 299999, dc_open = ''10'', dc_high = ''12'', dc_low = ''9.5'', dc_close = ''11'',
     dc_base_volume = ''5'', dc_quote_volume = Some ''10''\<rparr>"

definition sample_replay :: "int list \<Rightarrow> replay" where
  "sample_replay ms = \<lparr>rp_strategy = sample_plan, rp_provider_id = ''okx_swap'', rp_market_type = market_type_name,
     rp_candle_source = (\<lambda>p m i a b. Inr (flat_minutes ms)), rp_factories = sample_factories\<rparr>"

lemma flat_minutes_wf: "list_all candle_wf (flat_minutes [4, 5, 6, 7, 8, 9, 10])"
proof -
  have "list_all (\<lambda>c. mk_candle (raw_of c) = Inr c) (flat_minutes [4, 5, 6, 7, 8, 9, 10])" by code_simp
  then show ?thesis by (auto simp: list_all_iff intro: sample_wf)
qed

lemma flat_bucket: "derive_bucket ''5m'' 5 300000 (flat_minutes [5, 6, 7, 8, 9]) = Inr (flat_bar 300000)"
  by code_simp

lemma flat_resampled:
  assumes "ms \<in> {[4, 5, 6, 7, 8, 9], [4, 5, 6, 7, 8, 9, 10]}"
  shows "resample_complete (flat_minutes ms) ''5m'' None = Inr [flat_bar 300000]"
proof -
  have m: "duration_minutes ''5m'' = 5" by code_simp
  have tf: "timeframe ''5m'' = Inr ''5m''" by code_simp
  have "resample_complete (flat_minutes ms) ''5m'' None
      = derive_complete ''5m'' 5 (bucket_dict 300000 None (flat_minutes ms))"
    using resample_complete_loop [OF tf, of None "flat_minutes ms"] assms
    by (auto simp: m flat_minutes_def sample_minute_def market_identity_def)
  also have "\<dots> = rmapM (\<lambda>b. derive_bucket ''5m'' 5 b (flat_minutes [5, 6, 7, 8, 9])) [300000]"
    using assms
    by (auto simp: derive_complete_def bucket_dict_def add_to_bucket_def visible_def bucket_start_def
        bucket_complete_def flat_minutes_def sample_minute_def)
  finally show ?thesis by (simp add: flat_bucket)
qed


definition plan_node :: configured_node where
  "plan_node = (sample_node ''a'' [])\<lparr>nd_order := 1, nd_timeframe := Some ''5m''\<rparr>"

definition plan_signals :: "decision_signal list" where
  "plan_signals = [\<lparr>ds_signal_id = ''a'', ds_required = True, ds_effect = ''REJECT'', ds_order = 1\<rparr>]"

definition plan_graph :: graph where
  "plan_graph = \<lparr>g_ordered = [plan_node], g_factories = sample_factories\<rparr>"

lemma plan_parts:
  "configured_nodes sample_plan = Inr [plan_node]"
  "configured_decision_signals sample_plan = Inr plan_signals"
  "mk_graph [plan_node] sample_factories = Inr plan_graph"
proof -
  have "topological_order [plan_node] sample_factories = Inr [plan_node]" by code_simp
  then show "mk_graph [plan_node] sample_factories = Inr plan_graph" by (simp add: mk_graph_def plan_graph_def)
qed (simp_all add: configured_nodes_def configured_decision_signals_def sample_plan_def dict_index_def mk_node_def
    freeze_thaw plan_node_def sample_node_def mk_decision_signal_def plan_signals_def)

lemma plan_evaluates:
  assumes "dict_get data ''CRYPTO-BTC-USDT-PERP'' = Some [(''execution'', [flat_bar 300000])]"
  shows "is_ok (evaluate_at (sample_replay ms) plan_graph plan_signals data 599999 ''CRYPTO-BTC-USDT-PERP'')"
proof -
  have i: "instrument_id ''CRYPTO-BTC-USDT-PERP'' = Inr ''CRYPTO-BTC-USDT-PERP''" by code_simp
  let ?cx = "\<lparr>cx_instrument_id = ''CRYPTO-BTC-USDT-PERP'', evaluation_time_ms = 599999,
     candles_by_role = prefixes (sample_replay ms) [(''execution'', [flat_bar 300000])] 599999, timeframes_by_role = []\<rparr>"
  have "execute plan_graph ?cx = Inr [(''a'', sample_observation ''a'' [])]"
    by (simp add: execute_def plan_graph_def execute_node_def plan_node_def sample_node_def prefixes_def
      sample_factories_def dict_index_def dict_of_def sample_observation_def node_parameter_hash_def known_after_def)
  moreover have "\<exists>d. decide plan_signals ?cx [(''a'', sample_observation ''a'' [])] = Inr d"
    by (simp add: decide_def policy_order_def plan_signals_def sample_observation_def mk_decision_def non_ready_def
      i opt_decimal_text_def)
  moreover have "is_ok (trace_of plan_signals ?cx [(''a'', sample_observation ''a'' [])] d h)" for d h
    by (simp add: trace_of_def policy_order_def plan_signals_def indicator_step_def gate_step_def mk_pipeline_step_def
      dict_index_def sample_observation_def Let_def)
  ultimately show ?thesis using assms
    by (auto simp: evaluate_at_def dict_index_def mk_context_def i is_ok_iff)
qed

lemma sample_replay_runs:
  assumes "(ms, e) \<in> {([4, 5, 6, 7, 8, 9], 540000), ([4, 5, 6, 7, 8, 9, 10], 600000)}"
  shows "\<exists>r ev. run_replay (sample_replay ms) \<lparr>bp_start_ms = 300000, bp_end_ms = e\<rparr> = Inr r
    \<and> evaluations r = [ev] \<and> ev_evaluation_time_ms ev = 599999"
proof -
  let ?p = "\<lparr>bp_start_ms = 300000, bp_end_ms = e\<rparr>"
  let ?roles = "[(''execution'', [flat_bar 300000])]"
  have rq: "resolve_range ?p 1 = Inr \<lparr>rq_start_open_ms = 240000, rq_end_open_ms = e\<rparr>"
    by (simp add: resolve_range_def)
  have val: "validate_candles (sample_replay ms) (flat_minutes ms) ''CRYPTO-BTC-USDT-PERP''
      \<lparr>rq_start_open_ms = 240000, rq_end_open_ms = e\<rparr> = Inr ()"
    using assms by (auto simp: validate_candles_def sample_replay_def flat_minutes_def sample_minute_def)
  have "resample_complete (flat_minutes ms) ''5m'' None = Inr [flat_bar 300000]"
    by (rule flat_resampled) (use assms in auto)
  then have roles: "resample_roles (flat_minutes ms) [(''execution'', ''5m'')] None = Inr ?roles"
    by (simp add: resample_roles_def resample_step_def)
  have loaded: "rmapM (load_instrument (sample_replay ms) \<lparr>rq_start_open_ms = 240000, rq_end_open_ms = e\<rparr>)
      [''CRYPTO-BTC-USDT-PERP''] = Inr [(''CRYPTO-BTC-USDT-PERP'', flat_minutes ms, ?roles)]"
    using val roles by (simp add: load_instrument_def sample_replay_def sample_plan_def)
  have sched: "schedule_of ?p [flat_bar 300000] = [599999]"
    using assms by (auto simp: schedule_of_def flat_bar_def)
  let ?data = "[(''CRYPTO-BTC-USDT-PERP'', ?roles)]"
  obtain ev where ev: "evaluate_at (sample_replay ms) plan_graph plan_signals ?data 599999 ''CRYPTO-BTC-USDT-PERP'' = Inr ev"
    using plan_evaluates [of ?data ms] by (auto simp: is_ok_iff)
  have plan: "rp_strategy (sample_replay ms) = sample_plan" "rp_factories (sample_replay ms) = sample_factories"
    "sy_instruments sample_plan = [''CRYPTO-BTC-USDT-PERP'']" "sy_history_minutes sample_plan = 1"
    by (simp_all add: sample_replay_def sample_plan_def)
  have "run_replay (sample_replay ms) ?p = Inr \<lparr>evaluations = [ev], candle_count = length (flat_minutes ms),
      rr_data_hash = hash_candles (flat_minutes ms)\<rparr>"
    unfolding run_replay_def Let_def plan rq rbind.simps loaded
    by (simp add: dict_of_def dict_index_def plan_parts sched ev)
  then show ?thesis using evaluate_at_time [OF ev] by simp
qed

theorem replay_point_in_time_witness:
  "\<exists>r r'. run_replay (sample_replay [4, 5, 6, 7, 8, 9]) \<lparr>bp_start_ms = 300000, bp_end_ms = 540000\<rparr> = Inr r
    \<and> run_replay (sample_replay [4, 5, 6, 7, 8, 9, 10]) \<lparr>bp_start_ms = 300000, bp_end_ms = 600000\<rparr> = Inr r'
    \<and> evaluations r = evaluations r' \<and> evaluations r \<noteq> []"
proof -
  let ?rp = "sample_replay [4, 5, 6, 7, 8, 9]" and ?p = "\<lparr>bp_start_ms = 300000, bp_end_ms = 540000\<rparr>"
  let ?src = "rp_candle_source (sample_replay [4, 5, 6, 7, 8, 9, 10])" and ?p' = "\<lparr>bp_start_ms = 300000, bp_end_ms = 600000\<rparr>"
  have rp': "sample_replay [4, 5, 6, 7, 8, 9, 10] = ?rp\<lparr>rp_candle_source := ?src\<rparr>" by (simp add: sample_replay_def)
  obtain r ev where r: "run_replay ?rp ?p = Inr r" "evaluations r = [ev]" "ev_evaluation_time_ms ev = 599999"
    using sample_replay_runs [of "[4, 5, 6, 7, 8, 9]" 540000] by auto
  obtain r' ev' where r': "run_replay (sample_replay [4, 5, 6, 7, 8, 9, 10]) ?p' = Inr r'" "evaluations r' = [ev']"
      "ev_evaluation_time_ms ev' = 599999"
    using sample_replay_runs [of "[4, 5, 6, 7, 8, 9, 10]" 600000] by auto
  have run': "run_replay (?rp\<lparr>rp_candle_source := ?src\<rparr>) ?p' = Inr r'"
    using r'(1) by (simp only: rp' [symmetric])
  have wf: "source_wf (rp_candle_source ?rp)" "source_wf ?src"
    using flat_minutes_wf by (auto simp: source_wf_def sample_replay_def flat_minutes_def)
  have known: "\<forall>i\<in>set (sy_instruments (rp_strategy ?rp)).
      known_candles ?rp ?p 599999 i = known_candles (?rp\<lparr>rp_candle_source := ?src\<rparr>) ?p' 599999 i"
    by (simp add: known_candles_def sample_replay_def sample_plan_def resolve_range_def flat_minutes_def sample_minute_def)
  have "filter (\<lambda>e. ev_evaluation_time_ms e \<le> 599999) (evaluations r)
      = filter (\<lambda>e. ev_evaluation_time_ms e \<le> 599999) (evaluations r')"
    by (rule replay_point_in_time [OF r(1) run' wf _ _ _ known]) simp_all
  with r r' show ?thesis by auto
qed

section \<open>Traces explain decisions\<close>

text \<open>The states of the gates, from the first failed signal of the decision and from the policy.\<close>

fun gate_states :: "decision \<Rightarrow> decision_signal list \<Rightarrow> string list" where
  "gate_states d [] = []"
| "gate_states d (s # ss) =
     (if Some (ds_signal_id s) = first_failed_signal d
      then (if de_status d = ''UNAVAILABLE'' then ''UNAVAILABLE'' else ''REJECT'') # map (\<lambda>_. ''SKIPPED_AFTER_REJECTION'') ss
      else ''PASS'' # gate_states d ss)"

fun explained :: "(string, observation) dict \<Rightarrow> decision_signal list \<Rightarrow> string list" where
  "explained obs [] = []"
| "explained obs (s # ss) = (case signal_blocks obs s of
      None \<Rightarrow> ''PASS'' # explained obs ss
    | Some st \<Rightarrow> (if st = ''UNAVAILABLE'' then ''UNAVAILABLE'' else ''REJECT'')
        # map (\<lambda>_. ''SKIPPED_AFTER_REJECTION'') ss)"

lemma mk_pipeline_step_Inr: "mk_pipeline_step s = Inr s' \<Longrightarrow> s' = s"
  by (auto simp: mk_pipeline_step_def Let_def)

lemma gate_step_Inr:
  assumes "gate_step hashes d (rejected, steps) s = Inr (rejected', steps')"
  shows "\<exists>step. steps' = steps @ [step] \<and> kind step = ''DECISION_GATE'' \<and> step_id step = ds_signal_id s
    \<and> rejected' = (rejected \<or> Some (ds_signal_id s) = first_failed_signal d)
    \<and> st_state step = (if rejected then ''SKIPPED_AFTER_REJECTION'' else hd (gate_states d [s]))"
  using assms by (auto simp: gate_step_def Let_def dest!: mk_pipeline_step_Inr split: if_splits)

lemma gates_rejected:
  "rfoldM (gate_step hashes d) (True, steps) ss = Inr (rejected, gates) \<Longrightarrow>
    \<exists>rest. gates = steps @ rest \<and> map step_id rest = map ds_signal_id ss \<and> (\<forall>g\<in>set rest. kind g = ''DECISION_GATE'')
      \<and> map st_state rest = map (\<lambda>_. ''SKIPPED_AFTER_REJECTION'') ss"
proof (induction ss arbitrary: steps)
  case (Cons s ss)
  then obtain r1 st1 where one: "gate_step hashes d (True, steps) s = Inr (r1, st1)"
    and rest: "rfoldM (gate_step hashes d) (r1, st1) ss = Inr (rejected, gates)" by auto
  from gate_step_Inr [OF one] obtain step where "st1 = steps @ [step]" "r1" "step_id step = ds_signal_id s"
    "kind step = ''DECISION_GATE''" "st_state step = ''SKIPPED_AFTER_REJECTION''" by auto
  with Cons.IH rest show ?case by fastforce
qed simp

lemma gates_fold:
  "rfoldM (gate_step hashes d) (False, steps) ss = Inr (rejected, gates) \<Longrightarrow>
    \<exists>rest. gates = steps @ rest \<and> map step_id rest = map ds_signal_id ss \<and> (\<forall>g\<in>set rest. kind g = ''DECISION_GATE'')
      \<and> map st_state rest = gate_states d ss"
proof (induction ss arbitrary: steps)
  case (Cons s ss)
  then obtain r1 st1 where one: "gate_step hashes d (False, steps) s = Inr (r1, st1)"
    and rest: "rfoldM (gate_step hashes d) (r1, st1) ss = Inr (rejected, gates)" by auto
  from gate_step_Inr [OF one] obtain step where step: "st1 = steps @ [step]" "step_id step = ds_signal_id s"
    "kind step = ''DECISION_GATE''" "r1 = (Some (ds_signal_id s) = first_failed_signal d)"
    "st_state step = hd (gate_states d [s])" by auto
  show ?case
  proof (cases r1)
    case True
    with gates_rejected [of hashes d st1 ss rejected gates] rest step show ?thesis by fastforce
  next
    case False
    with Cons.IH rest step show ?thesis by fastforce
  qed
qed simp

lemma gate_states_pass:
  "\<forall>s\<in>set ss. signal_blocks obs s = None \<and> Some (ds_signal_id s) \<noteq> first_failed_signal d
    \<Longrightarrow> gate_states d ss = explained obs ss"
  by (induction ss) auto

lemma gate_states_block:
  assumes "first_block obs ss = Some (s, st)" "first_failed_signal d = Some (ds_signal_id s)" "de_status d = st"
    and "distinct (map ds_signal_id ss)"
  shows "gate_states d ss = explained obs ss"
  using assms
proof (induction ss)
  case (Cons a ss)
  show ?case
  proof (cases "signal_blocks obs a")
    case None
    with Cons.prems(1) have fb: "first_block obs ss = Some (s, st)" by (simp add: first_block_def)
    then have "s \<in> set ss" by (auto simp: first_block_def split: list.splits dest: filter_eq_ConsD)
    with Cons.prems(2,4) have "Some (ds_signal_id a) \<noteq> first_failed_signal d" by auto
    with None Cons.IH [OF fb] Cons.prems show ?thesis by simp
  qed (use Cons.prems in \<open>auto simp: first_block_def\<close>)
qed (simp add: first_block_def)

lemma decision_gate_states:
  assumes "decide signals cx obs = Inr d" "map_payloads obs" "distinct (map ds_signal_id signals)"
    and "''decision.levels'' \<notin> set (map ds_signal_id signals)"
  shows "gate_states d (policy_order signals) = explained obs (policy_order signals)"
proof -
  let ?ss = "policy_order signals"
  have mk: "mk_decision (verdict cx obs ?ss [] None) = Inr d"
    using assms decide_loop_verdict [OF assms(2)] by (simp add: decide_def)
  have perm: "mset ?ss = mset signals" by (simp add: policy_order_def)
  then have "mset (map ds_signal_id ?ss) = mset (map ds_signal_id signals)" by simp
  then have dist: "distinct (map ds_signal_id ?ss)" using assms(3) by (metis mset_eq_imp_distinct_iff)
  show ?thesis
  proof (cases "first_block obs ?ss")
    case (Some p)
    then obtain s st where p: "first_block obs ?ss = Some (s, st)" by (cases p) auto
    have "de_status d = st" "first_failed_signal d = Some (ds_signal_id s)"
      using mk_decision_status [OF mk] p by (simp_all add: verdict_def Let_def non_ready_def)
    with p dist show ?thesis by (intro gate_states_block)
  next
    case None
    then have "filter (\<lambda>s. signal_blocks obs s \<noteq> None) ?ss = []" by (auto simp: first_block_def split: list.splits)
    then have pass: "\<forall>s\<in>set ?ss. signal_blocks obs s = None" by (simp add: filter_empty_conv)
    have "first_failed_signal d \<in> {None, Some ''decision.levels''}"
      using mk_decision_status [OF mk] None
      by (auto simp: verdict_def Let_def non_ready_def ready_decision_def split: option.splits prod.splits)
    moreover have "set ?ss = set signals" using perm by (metis set_mset_mset)
    ultimately have "\<forall>s\<in>set ?ss. Some (ds_signal_id s) \<noteq> first_failed_signal d" using assms(4) by (fastforce simp: image_iff)
    with pass show ?thesis by (intro gate_states_pass) auto
  qed
qed

lemma indicator_steps:
  assumes "rmapM (indicator_step hashes) obs = Inr steps"
  shows "map step_id steps = map fst obs \<and> map st_state steps = map (\<lambda>(_, ob). ob_status ob) obs
    \<and> (\<forall>g\<in>set steps. kind g = ''INDICATOR'')"
  using assms
proof (induction obs arbitrary: steps)
  case (Cons so obs)
  obtain sid ob where "so = (sid, ob)" by (cases so)
  with Cons show ?case by (auto simp: indicator_step_def dest!: mk_pipeline_step_Inr)
qed simp

text \<open>The trace of an evaluation explains its decision: after one step per observation, in execution
  order with its status, there is one gate per configured signal, in policy order; a gate passes
  until the first signal that blocks, which is marked unavailable or rejected, and every later gate
  is marked skipped. The trace names the same first failure as the decision.\<close>

theorem trace_explains_decision:
  assumes "decide signals cx obs = Inr d" "trace_of signals cx obs d h = Inr tr" "map_payloads obs"
    and "distinct (map ds_signal_id signals)" "''decision.levels'' \<notin> set (map ds_signal_id signals)"
  shows "let gates = filter (\<lambda>s. kind s = ''DECISION_GATE'') (tr_steps tr); steps = filter (\<lambda>s. kind s = ''INDICATOR'') (tr_steps tr)
    in tr_steps tr = steps @ gates
      \<and> map step_id steps = map fst obs \<and> map st_state steps = map (\<lambda>(_, ob). ob_status ob) obs
      \<and> map step_id gates = map ds_signal_id (policy_order signals)
      \<and> map st_state gates = explained obs (policy_order signals)
      \<and> first_rejection tr = first_failed_signal d"
proof -
  let ?hashes = "map (\<lambda>(sid, ob). (sid, hash_observation ob)) obs"
  from assms(2) obtain steps rejected gates where
    steps: "rmapM (indicator_step ?hashes) obs = Inr steps"
    and gates: "rfoldM (gate_step ?hashes d) (False, []) (policy_order signals) = Inr (rejected, gates)"
    and tr: "tr_steps tr = steps @ gates" "first_rejection tr = first_failed_signal d"
    by (auto simp: trace_of_def Let_def split: prod.splits)
  note ind = indicator_steps [OF steps] and gts = gates_fold [OF gates, simplified]
  have "filter (\<lambda>s. kind s = ''DECISION_GATE'') (steps @ gates) = gates"
    "filter (\<lambda>s. kind s = ''INDICATOR'') (steps @ gates) = steps"
    using ind gts by (auto simp: filter_empty_conv filter_id_conv)
  with ind gts tr decision_gate_states [OF assms(1,3,4,5)] show ?thesis by (simp add: Let_def)
qed

theorem trace_explains_decision_witness:
  "\<exists>d tr. decide sample_signals sample_context [(''a'', sample_observation ''a'' [])] = Inr d
    \<and> trace_of sample_signals sample_context [(''a'', sample_observation ''a'' [])] d [] = Inr tr
    \<and> map st_state (filter (\<lambda>s. kind s = ''DECISION_GATE'') (tr_steps tr)) = [''PASS'', ''UNAVAILABLE'']"
proof -
  let ?obs = "[(''a'', sample_observation ''a'' [])]"
  have i: "instrument_id ''CRYPTO-BTC-USDT-PERP'' = Inr ''CRYPTO-BTC-USDT-PERP''" by code_simp
  obtain d where d: "decide sample_signals sample_context ?obs = Inr d"
    by (simp add: decide_def policy_order_def sample_signals_def sample_observation_def mk_decision_def
      non_ready_def i opt_decimal_text_def sample_context_def)
  then have "trace_of sample_signals sample_context ?obs d [] \<noteq> Inl e" for e
    by (auto simp: trace_of_def policy_order_def sample_signals_def indicator_step_def gate_step_def mk_pipeline_step_def
      dict_index_def sample_observation_def Let_def)
  then obtain tr where tr: "trace_of sample_signals sample_context ?obs d [] = Inr tr" by (meson sum.exhaust)
  have "explained ?obs (policy_order sample_signals) = [''PASS'', ''UNAVAILABLE'']"
    by (simp add: policy_order_def sample_signals_def signal_blocks_def sample_observation_def)
  with trace_explains_decision [OF d tr] d tr show ?thesis
    by (auto simp: map_payloads_def sample_observation_def sample_signals_def Let_def)
qed

section \<open>The replay and the live path\<close>

text \<open>
  The live path (\<^verbatim>\<open>application/runtime.py\<close>) resamples the last \<open>h\<close> minutes with an evaluation time;
  the replay resamples the whole range and cuts windows out of the result.
\<close>

definition history_window :: "int \<Rightarrow> int \<Rightarrow> candle list \<Rightarrow> candle list" where
  "history_window h t cs = filter (\<lambda>c. t - h * 60000 < open_time_ms c) (filter (\<lambda>c. close_time_ms c \<le> t) cs)"

lemma resample_all_visible:
  assumes "\<forall>c\<in>set cs. close_time_ms c \<le> e" "0 \<le> e"
  shows "resample_complete cs tf (Some e) = resample_complete cs tf None"
proof -
  have eq: "bucket_dict d (Some e) cs = bucket_dict d None cs" for d
    unfolding bucket_dict_def
    by (rule foldl_cong) (use assms in \<open>auto simp: add_to_bucket_def visible_def\<close>)
  show ?thesis using assms(2) by (cases "cs = []") (simp_all add: resample_complete_def eq)
qed

lemma ascending_from:
  assumes "sorted_wrt (<) (map f xs)"
  shows "xs = takeWhile (\<lambda>x. f x \<le> (t::int)) xs @ filter (\<lambda>x. t < f x) xs"
  using ascending_split [OF assms, of t] takeWhile_dropWhile_id [of "\<lambda>x. f x \<le> t" xs] by simp

lemma resample_window:
  assumes all: "resample_complete cs tf None = Inr out" and wf: "\<forall>c\<in>set cs. candle_wf c" and "0 \<le> h" "0 \<le> t"
  shows "resample_complete (history_window h t cs) tf (Some t)
    = Inr (filter (\<lambda>k. t - h * 60000 < dc_open_time_ms k) (prefix_of h t out))"
proof -
  let ?lo = "t - h * 60000"
  define known where "known = filter (\<lambda>c. close_time_ms c \<le> t) cs"
  have known: "resample_complete known tf None = Inr (until t out)"
    unfolding known_def by (rule resample_until [OF all wf])
  have kwf: "\<forall>c\<in>set known. candle_wf c" using wf by (simp add: known_def)
  have asc: "sorted_wrt (<) (map open_time_ms known)"
    by (rule adjacent_strict_sorted [OF resample_complete_Inr(3) [OF known refl refl]]) simp
  define past where "past = takeWhile (\<lambda>c. open_time_ms c \<le> ?lo) known"
  have split: "known = past @ history_window h t cs"
    unfolding past_def history_window_def known_def [symmetric] by (rule ascending_from [OF asc])
  have "resample_complete (history_window h t cs) tf None = Inr (filter (\<lambda>k. ?lo + 1 \<le> dc_open_time_ms k) (until t out))"
  proof (rule resample_suffix)
    show "resample_complete (past @ history_window h t cs) tf None = Inr (until t out)" using known split by simp
    show "\<forall>c\<in>set (past @ history_window h t cs). candle_wf c" using kwf split by simp
    show "\<forall>c\<in>set past. open_time_ms c < ?lo + 1" by (auto simp: past_def dest: set_takeWhileD)
    show "\<forall>c\<in>set (history_window h t cs). ?lo + 1 \<le> open_time_ms c" by (auto simp: history_window_def)
  qed
  moreover have "filter (\<lambda>k. ?lo + 1 \<le> dc_open_time_ms k) (until t out)
      = filter (\<lambda>k. ?lo < dc_open_time_ms k) (prefix_of h t out)"
  proof -
    have m: "0 < duration_minutes tf" using resample_complete_Inr(4) [OF all refl refl] by (rule timeframe_minutes_pos)
    have "dc_open_time_ms k < dc_close_time_ms k" if "k \<in> set out" for k
      using derive_bucket_times [OF resample_complete_Inr(2) [OF all refl refl that]] m by simp
    then show ?thesis
      unfolding prefix_of_window [OF resample_complete_ascending [OF all] \<open>0 \<le> h\<close>] until_def filter_filter
      by (intro filter_cong) fastforce+
  qed
  moreover have "resample_complete (history_window h t cs) tf (Some t) = resample_complete (history_window h t cs) tf None"
    by (rule resample_all_visible) (use \<open>0 \<le> t\<close> in \<open>auto simp: history_window_def\<close>)
  ultimately show ?thesis by simp
qed

lemma window_aligned:
  assumes out: "resample_complete cs tf None = Inr out" and wf: "\<forall>c\<in>set cs. candle_wf c" and k: "k \<in> set out"
    and lo: "(lo + 1) mod (duration_minutes tf * 60000) = 0" "lo < dc_close_time_ms k"
  shows "lo < dc_open_time_ms k"
proof -
  define m where "m = duration_minutes tf"
  define d where "d = m * 60000"
  note inr = resample_complete_Inr [OF out m_def d_def]
  have m: "0 < m" using inr(4) by (simp add: m_def timeframe_minutes_pos)
  have "dc_open_time_ms k \<in> set (map dc_open_time_ms out)" using k by simp
  then have "bucket_rows d None cs (dc_open_time_ms k) \<noteq> []"
    using m unfolding inr(1) by (auto simp: bucket_complete_def)
  then have "dc_open_time_ms k mod d = 0" by (rule bucket_rows_grid(2) [OF wf m d_def])
  moreover have "(lo + 1) mod d = 0" using lo(1) by (simp add: d_def m_def)
  ultimately obtain a l where al: "dc_open_time_ms k = d * a" "lo + 1 = d * l"
    by (meson dvdE mod_0_imp_dvd)
  have "dc_close_time_ms k = dc_open_time_ms k + d - 1"
    using derive_bucket_times [OF inr(2) [OF k]] by (simp add: d_def)
  with lo(2) al have "d * l < d * (a + 1)" by (simp only: distrib_left mult_1_right)
  moreover have "0 < d" using m by (simp add: d_def)
  ultimately have "l \<le> a" by (simp only: mult_less_cancel_left_pos zless_add1_eq [symmetric] zle_add1_eq_le)
  with \<open>0 < d\<close> have "d * l \<le> d * a" by (simp only: mult_le_cancel_left_pos)
  with al show ?thesis by linarith
qed

text \<open>C33: The replay hands the plugins what the live path would: for every role, the live series
  of the history window are the bars of the replay's prefix that open inside the window. Where the
  window starts on a boundary of every timeframe used, the two are equal; otherwise the prefix has
  also the bar that straddles the start of the window, which the live path never sees.\<close>

theorem replay_matches_live:
  assumes "resample_roles cs roles None = Inr series" "\<forall>c\<in>set cs. candle_wf c" "0 \<le> h" "0 \<le> t"
  shows "resample_roles (history_window h t cs) roles (Some t)
      = Inr (dict_map (\<lambda>ks. filter (\<lambda>k. t - h * 60000 < dc_open_time_ms k) (prefix_of h t ks)) series)
    \<and> ((\<forall>tf\<in>set (map snd roles). (t + 1 - h * 60000) mod (duration_minutes tf * 60000) = 0) \<longrightarrow>
       resample_roles (history_window h t cs) roles (Some t) = Inr (dict_map (prefix_of h t) series))"
proof (intro conjI impI)
  show "resample_roles (history_window h t cs) roles (Some t)
      = Inr (dict_map (\<lambda>ks. filter (\<lambda>k. t - h * 60000 < dc_open_time_ms k) (prefix_of h t ks)) series)"
    by (rule resample_roles_map [OF assms(1)]) (rule resample_window [OF _ assms(2-4)])
  assume aligned: "\<forall>tf\<in>set (map snd roles). (t + 1 - h * 60000) mod (duration_minutes tf * 60000) = 0"
  show "resample_roles (history_window h t cs) roles (Some t) = Inr (dict_map (prefix_of h t) series)"
  proof (rule resample_roles_map [OF assms(1)])
    fix tf out
    assume tf: "tf \<in> snd ` set roles" and out: "resample_complete cs tf None = Inr out"
    have "filter (\<lambda>k. t - h * 60000 < dc_open_time_ms k) (prefix_of h t out) = prefix_of h t out"
      unfolding prefix_of_window [OF resample_complete_ascending [OF out] assms(3)] filter_filter
    proof (intro filter_cong refl)
      fix k assume k: "k \<in> set out"
      have "(t - h * 60000 + 1) mod (duration_minutes tf * 60000) = 0"
        using aligned tf by (auto simp: algebra_simps)
      from window_aligned [OF out assms(2) k this]
      show "((t - h * 60000 < dc_close_time_ms k \<and> dc_close_time_ms k \<le> t) \<and> t - h * 60000 < dc_open_time_ms k)
        = (t - h * 60000 < dc_close_time_ms k \<and> dc_close_time_ms k \<le> t)" by blast
    qed
    with resample_window [OF out assms(2-4)]
    show "resample_complete (history_window h t cs) tf (Some t) = Inr (prefix_of h t out)" by simp
  qed
qed

theorem replay_matches_live_witness:
  "resample_roles (history_window 5 599999 (flat_minutes [4, 5, 6, 7, 8, 9])) [(''execution'', ''5m'')] (Some 599999)
    = Inr [(''execution'', [flat_bar 300000])]"
proof -
  have m: "duration_minutes ''5m'' = 5" by code_simp
  have "resample_complete (flat_minutes [4, 5, 6, 7, 8, 9]) ''5m'' None = Inr [flat_bar 300000]"
    by (rule flat_resampled) simp
  then have roles: "resample_roles (flat_minutes [4, 5, 6, 7, 8, 9]) [(''execution'', ''5m'')] None
      = Inr [(''execution'', [flat_bar 300000])]"
    by (simp add: resample_roles_def resample_step_def)
  have wf: "\<forall>c\<in>set (flat_minutes [4, 5, 6, 7, 8, 9]). candle_wf c"
    using flat_minutes_wf by (auto simp: flat_minutes_def list_all_iff)
  have window: "prefix_of 5 599999 [flat_bar 300000] = [flat_bar 300000]"
    by (simp add: prefix_of_def bisect_right_def flat_bar_def)
  have "dc_open_time_ms (flat_bar 300000) = 300000" by (simp add: flat_bar_def)
  with replay_matches_live [OF roles wf, of 5 599999] show ?thesis
    by (simp add: m window dict_map_def)
qed

end
