(* ===== verification/Notifications.thy ===== *)
theory Notifications
  imports Configuration RunStore
begin

text \<open>
  Notifications: events and receipts of the port (\<^verbatim>\<open>application/ports/notifications.py\<close>) and the router
  (\<^verbatim>\<open>application/notifications.py\<close>), which fans an event out to the configured destinations, suppresses
  repeated deliveries within a window, and batches decision events per destination. Adapters, their
  factory and the clock act on a world of their own; the store of delivered events is the run
  repository or, without one, a dictionary of the router. Log lines are not modelled.

  The lemmas show that what was delivered is not delivered again within its window, that the queues
  are bounded and homogeneous after every call, and that the router never changes a run.
\<close>

section \<open>Events and receipts\<close>

record notification_event =
  ne_event_type :: string
  ne_run_id :: string
  ne_instrument_id :: "string option"
  ne_strategy_id :: string
  ne_schema_version :: int
  ne_payload :: "(string, json) dict"

definition mk_event :: "notification_event \<Rightarrow> notification_event result" where
  "mk_event e =
     rbind (event_type_of (ne_event_type e)) (\<lambda>_.
     rbind (rguard (ne_run_id e \<noteq> []) ValueError ''run ID is required'') (\<lambda>_.
     rbind (case ne_instrument_id e of None \<Rightarrow> Inr [] | Some i \<Rightarrow> instrument_id i) (\<lambda>_.
     rbind (rguard (ne_strategy_id e \<noteq> []) ValueError ''strategy ID is required'') (\<lambda>_.
     rbind (rguard (1 \<le> ne_schema_version e \<and> ne_schema_version e \<le> 2147483647) ValueError
              ''payload schema version must be an integer in 1..2147483647'') (\<lambda>_.
     Inr e)))))"

record delivery_receipt =
  rx_destination_id :: string
  rx_adapter_id :: string
  rx_event_id :: string
  rx_deduplication_id :: string
  rx_batch_id :: "string option"
  rx_attempts :: int
  rx_outcome :: string
  rx_reason_code :: "string option"
  rx_status_code :: "int option"

record 'w notifier =
  nt_deliver :: "notification_event \<Rightarrow> ('w, delivery_receipt) op"
  nt_deliver_batch :: "(notification_event list \<Rightarrow> ('w, delivery_receipt) op) option"

record 's notification_store =
  nst_delivered_at :: "string \<Rightarrow> string \<Rightarrow> ('s, int option) op"
  nst_store_outcomes :: "delivery_record list \<Rightarrow> ('s, unit) op"
  nst_store_success :: "delivery_record \<Rightarrow> dedup_record list \<Rightarrow> ('s, unit) op"

record routing_receipt =
  ro_outcome :: string
  ro_receipts :: "delivery_receipt list"

section \<open>The router\<close>

record ('w, 's) router =
  rt_config :: notification_config
  rt_factory :: "string \<Rightarrow> destination \<Rightarrow> ('w, 'w notifier) op"
  rt_clock :: "'w \<Rightarrow> int \<times> 'w"
  rt_store :: "'s notification_store option"

record 'w router_memory =
  rm_adapters :: "(string, 'w notifier) dict"
  rm_deduplicated_at :: "(string \<times> string, int) dict"
  rm_pending :: "(string, notification_event list) dict"
  rm_deadlines :: "(string, int) dict"

definition empty_memory :: "'w router_memory" where
  "empty_memory = \<lparr>rm_adapters = [], rm_deduplicated_at = [], rm_pending = [], rm_deadlines = []\<rparr>"

type_synonym ('w, 's) router_state = "'w router_memory \<times> ('w \<times> 's)"

definition now_seconds :: "('w, 's) router \<Rightarrow> (('w, 's) router_state, int) op" where
  "now_seconds rt = on_second (on_first (\<lambda>w. case rt_clock rt w of (t, w') \<Rightarrow> (Inr t, w')))"

definition on_adapter :: "('w, 'a) op \<Rightarrow> (('w, 's) router_state, 'a) op" where
  "on_adapter m = on_second (on_first m)"

definition on_records :: "('s, 'a) op \<Rightarrow> (('w, 's) router_state, 'a) op" where
  "on_records m = on_second (on_second m)"

subsection \<open>Identities\<close>

definition event_id :: "notification_event \<Rightarrow> string" where
  "event_id e = sha256_hex (canonical_json (JObj
     [(''event_type'', JStr (ne_event_type e)), (''run_id'', JStr (ne_run_id e))]))"

text \<open>\<^verbatim>\<open>payload[key] if key in payload else getattr(event, key)\<close>.\<close>

definition event_field :: "notification_event \<Rightarrow> string \<Rightarrow> json result" where
  "event_field e key =
     (case dict_get (ne_payload e) key of
        Some v \<Rightarrow> Inr v
      | None \<Rightarrow>
          if key = ''event_type'' then Inr (JStr (ne_event_type e))
          else if key = ''run_id'' then Inr (JStr (ne_run_id e))
          else if key = ''instrument_id'' then Inr (opt_str (ne_instrument_id e))
          else if key = ''strategy_id'' then Inr (JStr (ne_strategy_id e))
          else if key = ''payload_schema_version'' then Inr (JInt (ne_schema_version e))
          else raise AttributeError key)"

definition deduplication_id :: "string \<Rightarrow> destination \<Rightarrow> notification_event \<Rightarrow> string result" where
  "deduplication_id did dest e =
     rbind (rmapM (\<lambda>key. rbind (event_field e key) (\<lambda>v. Inr (key, v))) (dd_key_fields (dn_deduplication dest))) (\<lambda>values.
     Inr (sha256_hex (canonical_json (JObj [(''destination_id'', JStr did), (''key'', JObj (dict_of values))]))))"

text \<open>The three receipts the router makes itself.\<close>

definition plain_receipt :: "string \<Rightarrow> destination \<Rightarrow> notification_event \<Rightarrow> string \<Rightarrow> string \<Rightarrow> string \<Rightarrow> delivery_receipt" where
  "plain_receipt did dest e dd outcome reason =
     \<lparr>rx_destination_id = did, rx_adapter_id = dn_adapter dest, rx_event_id = event_id e, rx_deduplication_id = dd,
      rx_batch_id = None, rx_attempts = 0, rx_outcome = outcome, rx_reason_code = Some reason, rx_status_code = None\<rparr>"

definition deduplicated_receipt :: "string \<Rightarrow> destination \<Rightarrow> notification_event \<Rightarrow> string \<Rightarrow> delivery_receipt" where
  "deduplicated_receipt did dest e dd = plain_receipt did dest e dd ''DEDUPLICATED'' ''DEDUPLICATION_WINDOW''"

definition state_failure :: "string \<Rightarrow> destination \<Rightarrow> notification_event \<Rightarrow> string \<Rightarrow> delivery_receipt" where
  "state_failure did dest e dd = plain_receipt did dest e dd ''FAILURE'' ''DEDUPLICATION_STATE_UNAVAILABLE''"

definition adapter_failure :: "string \<Rightarrow> destination \<Rightarrow> notification_event \<Rightarrow> string \<Rightarrow> delivery_receipt" where
  "adapter_failure did dest e dd = plain_receipt did dest e dd ''FAILURE'' ''ADAPTER_UNAVAILABLE''"

subsection \<open>Durable state\<close>

definition delivered_at :: "('w, 's) router \<Rightarrow> string \<Rightarrow> string \<Rightarrow> (('w, 's) router_state, int option) op" where
  "delivered_at rt did dd =
     (case rt_store rt of
        Some st \<Rightarrow> on_records (nst_delivered_at st did dd)
      | None \<Rightarrow> peek (\<lambda>s. dict_get (rm_deduplicated_at (fst s)) (did, dd)))"

definition outcome_record :: "delivery_receipt \<Rightarrow> string \<Rightarrow> int \<Rightarrow> delivery_record" where
  "outcome_record rx run now =
     \<lparr>dl_destination_id = rx_destination_id rx, dl_adapter_id = rx_adapter_id rx, attempted_at_seconds = now,
      dl_attempts = rx_attempts rx, dl_outcome = rx_outcome rx, dl_reason_code = rx_reason_code rx,
      dl_status_code = rx_status_code rx, dl_run_id = run\<rparr>"

definition record_outcome ::
    "('w, 's) router \<Rightarrow> delivery_receipt \<Rightarrow> string \<Rightarrow> int \<Rightarrow> (('w, 's) router_state, bool) op" where
  "record_outcome rt rx run now =
     (case rt_store rt of
        None \<Rightarrow> sreturn True
      | Some st \<Rightarrow> scatch (sbind (on_records (nst_store_outcomes st [outcome_record rx run now])) (\<lambda>_. sreturn True))
                    (\<lambda>_. sreturn False))"

definition success_record :: "string \<Rightarrow> destination \<Rightarrow> int \<Rightarrow> notification_event \<Rightarrow> dedup_record result" where
  "success_record did dest now e = rbind (deduplication_id did dest e) (\<lambda>dd.
     Inr \<lparr>dd_destination_id = did, dd_deduplication_id = dd, delivered_at_seconds = now, dd_run_id = ne_run_id e\<rparr>)"

definition remember :: "dedup_record list \<Rightarrow> int \<Rightarrow> 'w router_memory \<Rightarrow> 'w router_memory" where
  "remember records now mem = rm_deduplicated_at_update (\<lambda>d. foldl (\<lambda>d r.
     dict_set (dd_destination_id r, dd_deduplication_id r) now d) d records) mem"

definition record_success ::
    "('w, 's) router \<Rightarrow> delivery_receipt \<Rightarrow> string \<Rightarrow> destination \<Rightarrow> notification_event list \<Rightarrow> int
      \<Rightarrow> (('w, 's) router_state, bool) op" where
  "record_success rt rx did dest es now =
     sbind (slift (rmapM (success_record did dest now) es)) (\<lambda>records.
     case rt_store rt of
       Some st \<Rightarrow> scatch (sbind (on_records (nst_store_success st (outcome_record rx (ne_run_id (hd es)) now) records))
                            (\<lambda>_. sreturn True)) (\<lambda>_. sreturn False)
     | None \<Rightarrow> sbind (poke (\<lambda>s. (remember records now (fst s), snd s))) (\<lambda>_. sreturn True))"

subsection \<open>Delivering to one destination\<close>

text \<open>The classes that \<^verbatim>\<open>except (OSError, RuntimeError, ValueError)\<close> catches.\<close>

fun router_catches :: "exn_class \<Rightarrow> bool" where
  "router_catches c \<longleftrightarrow> c \<in> {OSError, RuntimeError, ValueError, StrictConfigurationError, GraphConfigurationError,
     UnknownPluginError, MissingDependencyError, CyclicDependencyError, SourceConflictError, PersistenceConflictError,
     ProviderConfigurationError, ProviderInstrumentError, ProviderProtocolError, ProviderRateLimitError,
     ProviderTemporaryError, ProviderPermanentError}"

definition attempt :: "('s, 'a) op \<Rightarrow> ('s, 'a option) op" where
  "attempt m = scatch (sbind m (\<lambda>x. sreturn (Some x)))
     (\<lambda>e. if router_catches (exn_kind e) then sreturn None else slift (Inl e))"

definition adapter_for ::
    "('w, 's) router \<Rightarrow> string \<Rightarrow> destination \<Rightarrow> (('w, 's) router_state, 'w notifier) op" where
  "adapter_for rt did dest =
     sbind (peek (\<lambda>s. dict_get (rm_adapters (fst s)) did)) (\<lambda>cached.
     case cached of
       Some a \<Rightarrow> sreturn a
     | None \<Rightarrow> sbind (on_adapter (rt_factory rt did dest)) (\<lambda>a.
         sbind (poke (\<lambda>s. (rm_adapters_update (dict_set did a) (fst s), snd s))) (\<lambda>_. sreturn a)))"

definition within_window :: "destination \<Rightarrow> int option \<Rightarrow> int \<Rightarrow> bool" where
  "within_window dest previous now \<longleftrightarrow>
     (case previous of None \<Rightarrow> False | Some p \<Rightarrow> now - p < dd_window_seconds (dn_deduplication dest))"

text \<open>What becomes of a receipt of an adapter; \<open>others\<close> tells which outcomes are recorded as failures.\<close>

definition settle ::
    "('w, 's) router \<Rightarrow> string \<Rightarrow> destination \<Rightarrow> notification_event list \<Rightarrow> int \<Rightarrow> (string \<Rightarrow> bool) \<Rightarrow> delivery_receipt
      \<Rightarrow> (('w, 's) router_state, delivery_receipt) op" where
  "settle rt did dest es now others rx =
     (if rx_outcome rx = ''SUCCESS'' then
        sbind (record_success rt rx did dest es now) (\<lambda>ok.
        if ok then sreturn rx
        else sbind (slift (deduplication_id did dest (hd es))) (\<lambda>dd. sreturn (state_failure did dest (hd es) dd)))
      else if others (rx_outcome rx) then
        sbind (record_outcome rt rx (ne_run_id (hd es)) now) (\<lambda>_. sreturn rx)
      else sreturn rx)"

definition unavailable ::
    "('w, 's) router \<Rightarrow> string \<Rightarrow> destination \<Rightarrow> notification_event \<Rightarrow> int \<Rightarrow> (('w, 's) router_state, delivery_receipt) op" where
  "unavailable rt did dest e now =
     sbind (slift (deduplication_id did dest e)) (\<lambda>dd.
     (let rx = adapter_failure did dest e dd
      in sbind (record_outcome rt rx (ne_run_id e) now) (\<lambda>_. sreturn rx)))"

definition deliver_to_destination ::
    "('w, 's) router \<Rightarrow> string \<Rightarrow> destination \<Rightarrow> notification_event \<Rightarrow> (('w, 's) router_state, delivery_receipt) op" where
  "deliver_to_destination rt did dest e =
     sbind (slift (deduplication_id did dest e)) (\<lambda>dd.
     sbind (now_seconds rt) (\<lambda>now.
     sbind (delivered_at rt did dd) (\<lambda>previous.
     if within_window dest previous now then sreturn (deduplicated_receipt did dest e dd)
     else
       sbind (attempt (sbind (adapter_for rt did dest) (\<lambda>a. on_adapter (nt_deliver a e)))) (\<lambda>delivered.
       case delivered of
         None \<Rightarrow> unavailable rt did dest e now
       | Some rx \<Rightarrow> settle rt did dest [e] now (\<lambda>_. True) rx))))"

text \<open>
  \<^verbatim>\<open>_flush_destination\<close>: the queue is taken out first; repeated events are reported, the others go out
  one by one or in one batch. A failing adapter keeps the receipts made before it.
\<close>

fun screen_batch ::
    "('w, 's) router \<Rightarrow> string \<Rightarrow> destination \<Rightarrow> int \<Rightarrow> notification_event list
      \<Rightarrow> (('w, 's) router_state, delivery_receipt list \<times> notification_event list) op" where
  "screen_batch rt did dest now [] = sreturn ([], [])"
| "screen_batch rt did dest now (e # es) =
     sbind (slift (deduplication_id did dest e)) (\<lambda>dd.
     sbind (delivered_at rt did dd) (\<lambda>previous.
     sbind (screen_batch rt did dest now es) (\<lambda>(receipts, eligible).
     sreturn (if within_window dest previous now then (deduplicated_receipt did dest e dd # receipts, eligible)
              else (receipts, e # eligible)))))"

fun deliver_each ::
    "('w, 's) router \<Rightarrow> string \<Rightarrow> destination \<Rightarrow> int \<Rightarrow> 'w notifier \<Rightarrow> notification_event list \<Rightarrow> delivery_receipt list
      \<Rightarrow> (('w, 's) router_state, delivery_receipt list \<times> bool) op" where
  "deliver_each rt did dest now a [] acc = sreturn (acc, True)"
| "deliver_each rt did dest now a (e # es) acc =
     sbind (attempt (on_adapter (nt_deliver a e))) (\<lambda>delivered.
     case delivered of
       None \<Rightarrow> sreturn (acc, False)
     | Some rx \<Rightarrow> sbind (settle rt did dest [e] now (\<lambda>out. out = ''FAILURE'') rx) (\<lambda>rx'.
         deliver_each rt did dest now a es (acc @ [rx'])))"

definition send_batch ::
    "('w, 's) router \<Rightarrow> string \<Rightarrow> destination \<Rightarrow> int \<Rightarrow> notification_event list \<Rightarrow> delivery_receipt list
      \<Rightarrow> (('w, 's) router_state, delivery_receipt list \<times> bool) op" where
  "send_batch rt did dest now eligible acc =
     sbind (attempt (adapter_for rt did dest)) (\<lambda>adapter.
     case adapter of
       None \<Rightarrow> sreturn (acc, False)
     | Some a \<Rightarrow>
         (case nt_deliver_batch a of
            Some batch \<Rightarrow>
              if length eligible = 1 then deliver_each rt did dest now a eligible acc
              else sbind (attempt (on_adapter (batch eligible))) (\<lambda>delivered.
                case delivered of
                  None \<Rightarrow> sreturn (acc, False)
                | Some rx \<Rightarrow> sbind (settle rt did dest eligible now (\<lambda>out. out = ''FAILURE'') rx) (\<lambda>rx'.
                    sreturn (acc @ [rx'], True)))
          | None \<Rightarrow> deliver_each rt did dest now a eligible acc))"

definition take_batch :: "string \<Rightarrow> (('w, 's) router_state, notification_event list) op" where
  "take_batch did s =
     (let pending = rm_pending (fst s); batch = (case dict_get pending did of None \<Rightarrow> [] | Some b \<Rightarrow> b)
      in (Inr batch, ((fst s)\<lparr>rm_pending := filter (\<lambda>kv. fst kv \<noteq> did) pending,
            rm_deadlines := filter (\<lambda>kv. fst kv \<noteq> did) (rm_deadlines (fst s))\<rparr>, snd s)))"

definition flush_batch ::
    "('w, 's) router \<Rightarrow> string \<Rightarrow> destination \<Rightarrow> notification_event list \<Rightarrow> (('w, 's) router_state, delivery_receipt list) op" where
  "flush_batch rt did dest batch =
     sbind (now_seconds rt) (\<lambda>now.
     sbind (screen_batch rt did dest now batch) (\<lambda>(receipts, eligible).
     if eligible = [] then sreturn receipts
     else
       sbind (send_batch rt did dest now eligible receipts) (\<lambda>(receipts', complete).
       if complete then sreturn receipts'
       else sbind (unavailable rt did dest (hd batch) now) (\<lambda>rx. sreturn (receipts' @ [rx])))))"

definition flush_destination ::
    "('w, 's) router \<Rightarrow> string \<Rightarrow> destination \<Rightarrow> (('w, 's) router_state, delivery_receipt list) op" where
  "flush_destination rt did dest =
     sbind (take_batch did) (\<lambda>batch. if batch = [] then sreturn [] else flush_batch rt did dest batch)"

subsection \<open>Routing\<close>

definition routing_receipt_of :: "delivery_receipt list \<Rightarrow> routing_receipt" where
  "routing_receipt_of receipts =
     (let successful = length (filter (\<lambda>rx. rx_outcome rx \<in> {''SUCCESS'', ''DEDUPLICATED''}) receipts)
      in \<lparr>ro_outcome = (if successful = length receipts then ''ALL_SUCCESS''
            else if 0 < successful then ''PARTIAL_FAILURE'' else ''ALL_FAILURE''), ro_receipts = receipts\<rparr>)"

definition routed :: "string \<Rightarrow> delivery_receipt list \<Rightarrow> routing_receipt" where
  "routed nothing receipts =
     (if receipts = [] then \<lparr>ro_outcome = nothing, ro_receipts = []\<rparr> else routing_receipt_of receipts)"

definition destinations_of :: "('w, 's) router \<Rightarrow> (string \<times> destination) list" where
  "destinations_of rt = sort_key fst (nc_destinations (rt_config rt))"

definition wants :: "destination \<Rightarrow> notification_event \<Rightarrow> bool" where
  "wants dest e \<longleftrightarrow> dn_enabled dest \<and> ne_event_type e \<in> set (dn_enabled_events dest)"

definition deliver :: "('w, 's) router \<Rightarrow> notification_event \<Rightarrow> (('w, 's) router_state, routing_receipt) op" where
  "deliver rt e =
     (if \<not> nc_enabled (rt_config rt) then sreturn \<lparr>ro_outcome = ''NO_MATCH'', ro_receipts = []\<rparr>
      else sbind (collect (\<lambda>(did, dest). sbind (deliver_to_destination rt did dest e) (\<lambda>rx. sreturn [rx]))
             (filter (\<lambda>(did, dest). wants dest e) (destinations_of rt))) (\<lambda>receipts.
        sreturn (routed ''NO_MATCH'' receipts)))"

definition lifecycle_event :: "notification_event \<Rightarrow> bool" where
  "lifecycle_event e \<longleftrightarrow> ne_event_type e \<in> {''run_started'', ''run_succeeded'', ''run_failed''}"

definition terminal_boundary :: "notification_event \<Rightarrow> string \<times> json" where
  "terminal_boundary e =
     (ne_run_id e, case dict_get (ne_payload e) ''closed_bar_time_ms'' of None \<Rightarrow> JNull | Some v \<Rightarrow> v)"

definition pending_of :: "'w router_memory \<Rightarrow> string \<Rightarrow> notification_event list" where
  "pending_of mem did = (case dict_get (rm_pending mem) did of None \<Rightarrow> [] | Some b \<Rightarrow> b)"

definition enqueue :: "string \<Rightarrow> destination \<Rightarrow> notification_event \<Rightarrow> int \<Rightarrow> 'w router_memory \<Rightarrow> 'w router_memory" where
  "enqueue did dest e now mem =
     (let batch = pending_of mem did;
          mem' = (if batch = [] then rm_deadlines_update (dict_set did (now + bt_flush_seconds (dn_batching dest))) mem else mem)
      in rm_pending_update (dict_set did (batch @ [e])) mem')"

definition flush_if ::
    "('w, 's) router \<Rightarrow> string \<Rightarrow> destination \<Rightarrow> ('w router_memory \<Rightarrow> bool) \<Rightarrow> (('w, 's) router_state, delivery_receipt list) op" where
  "flush_if rt did dest P = sbind (peek (\<lambda>s. P (fst s))) (\<lambda>b. if b then flush_destination rt did dest else sreturn [])"

definition deadline_passed :: "string \<Rightarrow> int \<Rightarrow> 'w router_memory \<Rightarrow> bool" where
  "deadline_passed did now mem = (case dict_get (rm_deadlines mem) did of None \<Rightarrow> False | Some t \<Rightarrow> t \<le> now)"

definition other_boundary :: "string \<Rightarrow> notification_event \<Rightarrow> 'w router_memory \<Rightarrow> bool" where
  "other_boundary did e mem = (case pending_of mem did of
     [] \<Rightarrow> False | first # _ \<Rightarrow> terminal_boundary first \<noteq> terminal_boundary e)"

definition queue_event ::
    "('w, 's) router \<Rightarrow> string \<Rightarrow> destination \<Rightarrow> notification_event \<Rightarrow> (('w, 's) router_state, delivery_receipt list) op" where
  "queue_event rt did dest e =
     sbind (now_seconds rt) (\<lambda>now.
     sbind (slift (deduplication_id did dest e)) (\<lambda>dd.
     sbind (delivered_at rt did dd) (\<lambda>previous.
     if within_window dest previous now then sreturn [deduplicated_receipt did dest e dd]
     else
       sbind (flush_if rt did dest (deadline_passed did now)) (\<lambda>r1.
       sbind (flush_if rt did dest (other_boundary did e)) (\<lambda>r2.
       sbind (poke (\<lambda>s. (enqueue did dest e now (fst s), snd s))) (\<lambda>_.
       sbind (flush_if rt did dest (\<lambda>mem. bt_maximum_events (dn_batching dest) \<le> int (length (pending_of mem did)))) (\<lambda>r3.
       sreturn (r1 @ r2 @ r3))))))))"

definition route_event ::
    "('w, 's) router \<Rightarrow> string \<Rightarrow> destination \<Rightarrow> notification_event \<Rightarrow> (('w, 's) router_state, delivery_receipt list) op" where
  "route_event rt did dest e =
     (if lifecycle_event e then
        sbind (flush_destination rt did dest) (\<lambda>receipts.
        sbind (deliver_to_destination rt did dest e) (\<lambda>rx. sreturn (receipts @ [rx])))
      else queue_event rt did dest e)"

definition deliver_all :: "('w, 's) router \<Rightarrow> notification_event list \<Rightarrow> (('w, 's) router_state, routing_receipt) op" where
  "deliver_all rt es =
     (if \<not> nc_enabled (rt_config rt) then sreturn \<lparr>ro_outcome = ''NO_MATCH'', ro_receipts = []\<rparr>
      else sbind (collect (\<lambda>(did, dest). collect (route_event rt did dest) (filter (wants dest) es))
             (destinations_of rt)) (\<lambda>receipts.
        sbind (peek (\<lambda>s. list_ex (\<lambda>kv. snd kv \<noteq> []) (rm_pending (fst s)))) (\<lambda>queued.
        sreturn (routed (if queued then ''QUEUED'' else ''NO_MATCH'') receipts))))"

definition close_router :: "('w, 's) router \<Rightarrow> (('w, 's) router_state, routing_receipt) op" where
  "close_router rt = sbind (collect (\<lambda>(did, dest). flush_destination rt did dest) (destinations_of rt)) (\<lambda>receipts.
     sreturn (routed ''NO_MATCH'' receipts))"

section \<open>The router and its store\<close>

lemma keeps_attempt: "keeps P m \<Longrightarrow> keeps P (attempt m)"
  unfolding attempt_def by (intro keeps_scatch keeps_sbind keeps_sreturn) (simp_all add: keeps_sreturn keeps_slift)

text \<open>
  The contract between the router and the store of delivered events: whatever the calls of the store
  keep, every call of the router keeps, whether it returns or raises.
\<close>

locale routed_store =
  fixes rt :: "('w, 's) router" and P :: "'s \<Rightarrow> bool"
  assumes store_keeps: "rt_store rt = Some st \<Longrightarrow> keeps P (nst_delivered_at st did dd)
      \<and> keeps P (nst_store_outcomes st outcomes) \<and> keeps P (nst_store_success st outcome dedups)"
begin

abbreviation kept :: "('w, 's) router_state \<Rightarrow> bool" where
  "kept s \<equiv> P (snd (snd s))"

lemma keeps_adapter: "keeps kept (on_adapter m)"
  unfolding on_adapter_def by (rule keeps_on_second) (rule keeps_first_other)

lemma keeps_records: "keeps P m \<Longrightarrow> keeps kept (on_records m)"
  unfolding on_records_def by (rule keeps_on_second) (rule keeps_on_second)

lemma keeps_now: "keeps kept (now_seconds rt)"
  unfolding now_seconds_def by (rule keeps_on_second) (rule keeps_first_other)

lemma keeps_memory: "keeps kept (poke (\<lambda>s. (f (fst s), snd s)))"
  by (rule keeps_poke) simp

lemma keeps_delivered_at: "keeps kept (delivered_at rt did dd)"
  unfolding delivered_at_def using store_keeps by (auto intro: keeps_records split: option.split)

lemma keeps_record_outcome: "keeps kept (record_outcome rt rx run now)"
  unfolding record_outcome_def using store_keeps
  by (auto intro!: keeps_scatch keeps_sbind keeps_sreturn keeps_records split: option.split)

lemma keeps_record_success: "keeps kept (record_success rt rx did dest es now)"
  unfolding record_success_def using store_keeps
  by (auto intro!: keeps_scatch keeps_sbind keeps_sreturn keeps_records keeps_memory split: option.split)

lemmas keeps_parts = keeps_adapter keeps_now keeps_memory keeps_delivered_at keeps_record_outcome
  keeps_record_success keeps_sreturn keeps_slift keeps_peek keeps_attempt keeps_sbind

lemma keeps_adapter_for: "keeps kept (adapter_for rt did dest)"
  unfolding adapter_for_def by (auto intro!: keeps_parts split: option.split)

lemma keeps_settle: "keeps kept (settle rt did dest es now others rx)"
  unfolding settle_def by (auto intro!: keeps_parts)

lemma keeps_unavailable: "keeps kept (unavailable rt did dest e now)"
  unfolding unavailable_def Let_def by (auto intro!: keeps_parts)

lemma keeps_deliver_to_destination: "keeps kept (deliver_to_destination rt did dest e)"
  unfolding deliver_to_destination_def
  by (auto intro!: keeps_parts keeps_adapter_for keeps_settle keeps_unavailable split: option.split)

lemma keeps_screen_batch: "keeps kept (screen_batch rt did dest now es)"
  by (induction es) (auto intro!: keeps_parts)

lemma keeps_deliver_each: "keeps kept (deliver_each rt did dest now a es acc)"
  by (induction es arbitrary: acc) (auto intro!: keeps_parts keeps_settle split: option.split)

lemma keeps_send_batch: "keeps kept (send_batch rt did dest now es acc)"
  unfolding send_batch_def
  by (auto intro!: keeps_parts keeps_adapter_for keeps_settle keeps_deliver_each split: option.split)

lemma keeps_flush_destination: "keeps kept (flush_destination rt did dest)"
proof -
  have "keeps kept (take_batch did)" by (simp add: keeps_def take_batch_def Let_def)
  moreover have "keeps kept (flush_batch rt did dest batch)" for batch
    unfolding flush_batch_def
    by (auto intro!: keeps_parts keeps_screen_batch keeps_send_batch keeps_unavailable)
  ultimately show ?thesis unfolding flush_destination_def by (auto intro!: keeps_parts)
qed

lemma keeps_queue_event: "keeps kept (queue_event rt did dest e)"
  unfolding queue_event_def flush_if_def by (auto intro!: keeps_parts keeps_flush_destination)

lemma keeps_routing: "keeps kept (deliver rt e)" "keeps kept (deliver_all rt es)" "keeps kept (close_router rt)"
  unfolding deliver_def deliver_all_def route_event_def close_router_def
  by (auto intro!: keeps_parts keeps_collect keeps_deliver_to_destination keeps_flush_destination keeps_queue_event)

end

text \<open>The run repository as the store of the router.\<close>

definition run_notification_store :: "run_db notification_store" where
  "run_notification_store = \<lparr>nst_delivered_at = notification_delivered_at,
     nst_store_outcomes = store_notification_outcomes, nst_store_success = store_successful_notification_delivery\<rparr>"

lemma keeps_lookup: "keeps P (notification_delivered_at did dd)"
  unfolding notification_delivered_at_def by (intro keeps_sbind keeps_slift) (simp add: keeps_def)

interpretation run_router: routed_store "rt\<lparr>rt_store := Some run_notification_store\<rparr>" "same_runs db0" for rt db0
  by unfold_locales (auto simp: run_notification_store_def intro: keeps_lookup unchanged.keeps_notifications)

section \<open>The queues\<close>

definition queue_ok :: "destination \<Rightarrow> notification_event list \<Rightarrow> bool" where
  "queue_ok dest batch \<longleftrightarrow> batch \<noteq> [] \<and> int (length batch) < bt_maximum_events (dn_batching dest)
     \<and> (\<forall>e\<in>set batch. wants dest e \<and> \<not> lifecycle_event e \<and> terminal_boundary e = terminal_boundary (hd batch))"

text \<open>The queue of one destination, from its entries in the two dictionaries.\<close>

definition queue_entry_ok :: "('w, 's) router \<Rightarrow> string \<Rightarrow> notification_event list option \<Rightarrow> int option \<Rightarrow> bool" where
  "queue_entry_ok rt did pending deadline \<longleftrightarrow>
     (case pending of None \<Rightarrow> True
      | Some batch \<Rightarrow> list_ex (\<lambda>(j, dest). j = did \<and> queue_ok dest batch) (nc_destinations (rt_config rt)) \<and> deadline \<noteq> None)"

definition queues_ok :: "('w, 's) router \<Rightarrow> 'w router_memory \<Rightarrow> bool" where
  "queues_ok rt mem \<longleftrightarrow>
     (\<forall>did. queue_entry_ok rt did (dict_get (rm_pending mem) did) (dict_get (rm_deadlines mem) did))"

text \<open>Between taking an event in and the check of the bound a queue may be full.\<close>

definition queue_full :: "string \<Rightarrow> destination \<Rightarrow> 'w router_memory \<Rightarrow> bool" where
  "queue_full did dest mem \<longleftrightarrow> bt_maximum_events (dn_batching dest) \<le> int (length (pending_of mem did))"

lemma dict_get_filter: "dict_get (filter (\<lambda>kv. fst kv \<noteq> k) d) j = (if j = k then None else dict_get d j)"
  by (induction d) auto

lemma take_batch_queues:
  assumes "take_batch did s = (Inr batch, s')"
  shows "batch = pending_of (fst s) did \<and> snd s' = snd s
    \<and> dict_get (rm_pending (fst s')) j = (if j = did then None else dict_get (rm_pending (fst s)) j)
    \<and> dict_get (rm_deadlines (fst s')) j = (if j = did then None else dict_get (rm_deadlines (fst s)) j)"
  using assms by (auto simp: take_batch_def Let_def pending_of_def dict_get_filter)

text \<open>A call that leaves the queues alone.\<close>

definition queueless :: "(('w, 's) router_state, 'a) op \<Rightarrow> bool" where
  "queueless m \<longleftrightarrow> (\<forall>p d. keeps (\<lambda>s. rm_pending (fst s) = p \<and> rm_deadlines (fst s) = d) m)"

lemma queueless_intros:
  "queueless (sreturn x)" "queueless (slift r)" "queueless (peek f)"
  "queueless m \<Longrightarrow> (\<And>x. queueless (g x)) \<Longrightarrow> queueless (sbind m g)"
  "queueless m \<Longrightarrow> queueless (attempt m)" "queueless m \<Longrightarrow> (\<And>e. queueless (h e)) \<Longrightarrow> queueless (scatch m h)"
  "queueless (on_adapter a)" "queueless (on_records b)" "queueless (now_seconds rt)"
  unfolding queueless_def on_adapter_def on_records_def now_seconds_def
  by (auto intro: keeps_sbind keeps_attempt keeps_scatch keeps_second_other)

lemma queueless_keeps:
  assumes "queueless m" "\<And>s t. rm_pending (fst s) = rm_pending (fst t) \<Longrightarrow> rm_deadlines (fst s) = rm_deadlines (fst t) \<Longrightarrow> P s \<Longrightarrow> P t"
  shows "keeps P m"
  using assms(1) unfolding queueless_def keeps_def by (metis assms(2))

lemma queueless_poke:
  "(\<And>mem. rm_pending (f mem) = rm_pending mem \<and> rm_deadlines (f mem) = rm_deadlines mem)
    \<Longrightarrow> queueless (poke (\<lambda>s. (f (fst s), snd s)))"
  by (simp add: queueless_def keeps_def poke_def)

lemma queueless_parts:
  "queueless (delivered_at rt did dd)" "queueless (record_outcome rt rx run now)"
  "queueless (record_success rt rx did dest es now)" "queueless (adapter_for rt did dest)"
  unfolding delivered_at_def record_outcome_def record_success_def adapter_for_def
  by (auto intro!: queueless_intros queueless_poke simp: remember_def split: option.split)

lemma queueless_settle: "queueless (settle rt did dest es now others rx)"
  unfolding settle_def by (auto intro!: queueless_intros queueless_parts)

lemma queueless_unavailable: "queueless (unavailable rt did dest e now)"
  unfolding unavailable_def Let_def by (auto intro!: queueless_intros queueless_parts)

lemma queueless_deliver: "queueless (deliver_to_destination rt did dest e)"
  unfolding deliver_to_destination_def
  by (auto intro!: queueless_intros queueless_parts queueless_settle queueless_unavailable split: option.split)

lemma queueless_screen: "queueless (screen_batch rt did dest now es)"
  by (induction es) (auto intro!: queueless_intros queueless_parts)

lemma queueless_each: "queueless (deliver_each rt did dest now a es acc)"
  by (induction es arbitrary: acc) (auto intro!: queueless_intros queueless_settle split: option.split)

lemma queueless_send: "queueless (send_batch rt did dest now es acc)"
  unfolding send_batch_def
  by (auto intro!: queueless_intros queueless_parts queueless_settle queueless_each split: option.split)

lemma queueless_flush: "queueless (flush_batch rt did dest batch)"
  unfolding flush_batch_def
  by (auto intro!: queueless_intros queueless_screen queueless_send queueless_unavailable)

text \<open>After a flush, returned or raised, the queue is gone and the others are as they were.\<close>

lemma flush_destination_queues:
  assumes "flush_destination rt did dest s = (r, s')"
  shows "dict_get (rm_pending (fst s')) j = (if j = did then None else dict_get (rm_pending (fst s)) j)
    \<and> dict_get (rm_deadlines (fst s')) j = (if j = did then None else dict_get (rm_deadlines (fst s)) j)"
proof -
  obtain batch t where t: "take_batch did s = (Inr batch, t)" by (simp add: take_batch_def Let_def)
  have "rm_pending (fst s') = rm_pending (fst t) \<and> rm_deadlines (fst s') = rm_deadlines (fst t)"
  proof (cases "batch = []")
    case True
    with assms t show ?thesis by (simp add: flush_destination_def sbind_def sreturn_def)
  next
    case False
    with assms t have "flush_batch rt did dest batch t = (r, s')" by (simp add: flush_destination_def sbind_def)
    with queueless_flush [of rt did dest batch] show ?thesis unfolding queueless_def keeps_def by blast
  qed
  with take_batch_queues [OF t] show ?thesis by simp
qed

lemma keeps_flush: "keeps (\<lambda>s. queues_ok rt (fst s)) (flush_destination rt did dest)"
  unfolding keeps_def
proof (intro allI impI)
  fix s r s'
  assume ok: "queues_ok rt (fst s)" and "flush_destination rt did dest s = (r, s')"
  from flush_destination_queues [OF this(2)] ok show "queues_ok rt (fst s')"
    by (simp add: queues_ok_def queue_entry_ok_def)
qed

text \<open>A flush also repairs the queue it takes out.\<close>

lemma flush_repairs:
  assumes "flush_destination rt did dest s = (r, s')"
    and "\<And>j. j \<noteq> did \<Longrightarrow> queue_entry_ok rt j (dict_get (rm_pending (fst s)) j) (dict_get (rm_deadlines (fst s)) j)"
  shows "queues_ok rt (fst s')"
  using flush_destination_queues [OF assms(1)] assms(2) by (simp add: queues_ok_def queue_entry_ok_def)

lemma enqueue_lookup:
  "dict_get (rm_pending (enqueue did dest e now mem)) j
    = (if j = did then Some (pending_of mem did @ [e]) else dict_get (rm_pending mem) j)"
  "j \<noteq> did \<Longrightarrow> dict_get (rm_deadlines (enqueue did dest e now mem)) j = dict_get (rm_deadlines mem) j"
  "pending_of mem did = [] \<Longrightarrow> dict_get (rm_deadlines (enqueue did dest e now mem)) did \<noteq> None"
  "pending_of mem did \<noteq> [] \<Longrightarrow> dict_get (rm_deadlines (enqueue did dest e now mem)) did = dict_get (rm_deadlines mem) did"
  by (auto simp: enqueue_def Let_def dict_set_conv)

lemma enqueue_ok:
  assumes ok: "queues_ok rt mem" and dest: "(did, dest) \<in> set (nc_destinations (rt_config rt))"
    and dist: "distinct (map fst (nc_destinations (rt_config rt)))"
    and e: "wants dest e" "\<not> lifecycle_event e" "\<not> other_boundary did e mem"
    and room: "\<not> queue_full did dest (enqueue did dest e now mem)"
  shows "queues_ok rt (enqueue did dest e now mem)"
  unfolding queues_ok_def
proof
  fix j
  let ?m = "enqueue did dest e now mem"
  show "queue_entry_ok rt j (dict_get (rm_pending ?m) j) (dict_get (rm_deadlines ?m) j)"
  proof (cases "j = did")
    case False
    then show ?thesis using ok by (simp add: queues_ok_def enqueue_lookup)
  next
    case True
    let ?old = "pending_of mem did"
    have len: "int (length (?old @ [e])) < bt_maximum_events (dn_batching dest)"
      using room by (simp add: queue_full_def pending_of_def enqueue_lookup)
    show ?thesis
    proof (cases "?old = []")
      case True
      have "queue_ok dest [e]" using e len True by (simp add: queue_ok_def)
      then show ?thesis
        using dest enqueue_lookup(3) [OF True] \<open>j = did\<close> True
        by (auto simp: queue_entry_ok_def enqueue_lookup(1) list_ex_iff)
    next
      case False
      then obtain batch where batch: "dict_get (rm_pending mem) did = Some batch" "?old = batch" "batch \<noteq> []"
        by (auto simp: pending_of_def split: option.splits)
      from ok have "queue_entry_ok rt did (Some batch) (dict_get (rm_deadlines mem) did)"
        using batch(1) by (auto simp: queues_ok_def dest: spec [of _ did])
      then obtain dest' where d': "(did, dest') \<in> set (nc_destinations (rt_config rt))" "queue_ok dest' batch"
        and dl: "dict_get (rm_deadlines mem) did \<noteq> None" by (auto simp: queue_entry_ok_def list_ex_iff)
      have "dest' = dest" using dist dest d'(1) by (auto dest: eq_key_imp_eq_value)
      with d'(2) e len batch have "queue_ok dest (batch @ [e])"
        by (cases batch) (auto simp: queue_ok_def other_boundary_def)
      with dest dl False batch \<open>j = did\<close> show ?thesis
        by (auto simp: queue_entry_ok_def enqueue_lookup list_ex_iff)
    qed
  qed
qed

lemma flush_if_cases:
  assumes "flush_if rt did dest P s = (r, s')"
  shows "if P (fst s) then flush_destination rt did dest s = (r, s') else s' = s \<and> r = Inr []"
  using assms by (auto simp: flush_if_def peek_def sbind_def sreturn_def split: if_splits)

lemma keeps_flush_if: "keeps (\<lambda>s. queues_ok rt (fst s)) (flush_if rt did dest P)"
  unfolding keeps_def
proof (intro allI impI)
  fix s r s'
  assume ok: "queues_ok rt (fst s)" and run: "flush_if rt did dest P s = (r, s')"
  show "queues_ok rt (fst s')"
  proof (cases "P (fst s)")
    case True
    with flush_if_cases [OF run] have "flush_destination rt did dest s = (r, s')" by simp
    from keepsD [OF keeps_flush ok this] show ?thesis .
  qed (use flush_if_cases [OF run] ok in simp)
qed

text \<open>Taking an event in: after the boundary has been checked the queue accepts it or is flushed.\<close>

lemma keeps_queued_event:
  assumes dest: "(did, dest) \<in> set (nc_destinations (rt_config rt))"
    and dist: "distinct (map fst (nc_destinations (rt_config rt)))" and e: "wants dest e" "\<not> lifecycle_event e"
  shows "keeps (\<lambda>s. queues_ok rt (fst s)) (queue_event rt did dest e)"
proof -
  let ?Q = "\<lambda>s. queues_ok rt (fst s)"
  have quiet: "keeps ?Q m" if "queueless m" for m :: "(('a, 'b) router_state, 'c) op"
    using that unfolding queueless_def keeps_def queues_ok_def by metis
  have tail: "keeps ?Q (sbind (flush_if rt did dest (other_boundary did e)) (\<lambda>r2.
       sbind (poke (\<lambda>s. (enqueue did dest e now (fst s), snd s))) (\<lambda>_.
       sbind (flush_if rt did dest (\<lambda>mem. bt_maximum_events (dn_batching dest) \<le> int (length (pending_of mem did)))) (\<lambda>r3.
       sreturn (r1 @ r2 @ r3)))))" for now r1
    unfolding keeps_def
  proof (intro allI impI)
    fix s r s'
    assume ok: "?Q s" and run: "sbind (flush_if rt did dest (other_boundary did e)) (\<lambda>r2.
       sbind (poke (\<lambda>s. (enqueue did dest e now (fst s), snd s))) (\<lambda>_.
       sbind (flush_if rt did dest (\<lambda>mem. bt_maximum_events (dn_batching dest) \<le> int (length (pending_of mem did)))) (\<lambda>r3.
       sreturn (r1 @ r2 @ r3)))) s = (r, s')"
    obtain q t where q: "flush_if rt did dest (other_boundary did e) s = (q, t)" by (cases "flush_if rt did dest (other_boundary did e) s")
    have t: "?Q t" using keepsD [OF keeps_flush_if ok q] .
    show "?Q s'"
    proof (cases q)
      case (Inl x)
      with run q t show ?thesis by (simp add: sbind_def)
    next
      case (Inr r2)
      have same: "\<not> other_boundary did e (fst t)"
      proof (cases "other_boundary did e (fst s)")
        case True
        with flush_if_cases [OF q] have "flush_destination rt did dest s = (q, t)" by simp
        from flush_destination_queues [OF this, of did] show ?thesis by (simp add: other_boundary_def pending_of_def)
      next
        case False
        with flush_if_cases [OF q] show ?thesis by simp
      qed
      let ?m = "enqueue did dest e now (fst t)"
      obtain q3 t3 where q3: "flush_if rt did dest (\<lambda>mem. bt_maximum_events (dn_batching dest) \<le> int (length (pending_of mem did)))
          (?m, snd t) = (q3, t3)" by (metis prod.collapse)
      with run q Inr have s': "s' = t3" by (cases q3) (auto simp: sbind_def poke_def sreturn_def)
      show ?thesis
      proof (cases "queue_full did dest ?m")
        case True
        with flush_if_cases [OF q3] have "flush_destination rt did dest (?m, snd t) = (q3, t3)"
          by (simp add: queue_full_def)
        from flush_repairs [OF this] show ?thesis
          using t unfolding s' by (simp add: queues_ok_def enqueue_lookup)
      next
        case False
        with flush_if_cases [OF q3] have "t3 = (?m, snd t)" by (simp add: queue_full_def)
        with enqueue_ok [OF t dest dist e same False] s' show ?thesis by simp
      qed
    qed
  qed
  have lookups: "keeps ?Q (now_seconds rt)" "keeps ?Q (slift x)" "keeps ?Q (delivered_at rt did dd)"
    for x :: "string result" and dd
    by (auto intro!: quiet queueless_intros queueless_parts)
  show ?thesis
    unfolding queue_event_def
    by (intro keeps_sbind lookups) (auto intro!: keeps_sbind keeps_sreturn keeps_flush_if tail)
qed

section \<open>What was delivered is not delivered again\<close>

lemma set_column_Inr:
  assumes "set_column rid f db = Inr db'"
  shows "run_rows db' = map (\<lambda>r. if rn_run_id r = rid then f r else r) (run_rows db)"
  using update_runs_Inr(1) [OF assms [unfolded set_column_def]] .

lemma dedup_entries_Inr: "dedup_entries row = Inr es \<longleftrightarrow> list_all dedup_ok (notification_dedup row) \<and> es = notification_dedup row"
  by (auto simp: dedup_entries_def dedup_ok_def list_all_iff)

lemma success_remembered:
  assumes run: "store_successful_notification_delivery out ds db = (Inr u, db')" and d: "d \<in> set ds"
    and cols: "rmapM dedup_entries (run_rows db) = Inr cols"
  shows "\<exists>p. notification_delivered_at (dd_destination_id d) (dd_deduplication_id d) db' = (Inr (Some p), db')
    \<and> delivered_at_seconds d \<le> p"
proof -
  from run obtain row outs current db1 where ev: "rmapM (matching_evidence out) ds = Inr (map (\<lambda>_. ()) ds) \<or> is_ok (rmapM (matching_evidence out) ds)"
    and row: "notification_row db (dl_run_id out) = Inr row" and cur: "dedup_entries row = Inr current"
    and s1: "set_column (dl_run_id out) (notification_outcomes_update (\<lambda>_.
                last_items 100 (outs @ [delivery_outcome.truncate out]))) db = Inr db1"
    and s2: "set_column (dl_run_id out) (notification_dedup_update (\<lambda>_. merge_dedup ds current)) db1 = Inr db'"
    unfolding store_successful_notification_delivery_def sbind_sguard
    by (auto simp: sbind_Inr transaction_Inr split: if_splits)
  from ev have "is_ok (rmapM (matching_evidence out) ds)" by auto
  then have recs: "\<forall>r\<in>set ds. is_ok (validate_dedup_record r)"
    by (auto simp: is_ok_iff matching_evidence_def dest!: rmapM_all_ok)
  let ?f = "\<lambda>r. if rn_run_id r = dl_run_id out then notification_dedup_update (\<lambda>_. merge_dedup ds current)
      (notification_outcomes_update (\<lambda>_. last_items 100 (outs @ [delivery_outcome.truncate out])) r) else r"
  have rows: "run_rows db' = map ?f (run_rows db)"
    unfolding set_column_Inr [OF s2] set_column_Inr [OF s1] by (simp add: comp_def)
  have ok: "list_all dedup_ok (notification_dedup (?f r))" if "r \<in> set (run_rows db)" for r
  proof (cases "rn_run_id r = dl_run_id out")
    case True
    with merge_dedup_ok [OF cur recs] show ?thesis by simp
  next
    case False
    have "is_ok (dedup_entries r)" using rmapM_all_ok [OF cols] that by blast
    with False show ?thesis by (auto simp: is_ok_iff dedup_entries_Inr)
  qed
  have all: "rmapM dedup_entries (run_rows db') = Inr (map notification_dedup (run_rows db'))"
  proof (rule rmapM_Inr_map)
    fix r
    assume "r \<in> set (run_rows db')"
    then obtain r0 where "r0 \<in> set (run_rows db)" "r = ?f r0" unfolding rows by auto
    with ok show "dedup_entries r = Inr (notification_dedup r)" by (simp only: dedup_entries_Inr)
  qed
  have "row \<in> set (run_rows db)" "rn_run_id row = dl_run_id out"
    using row find_run_Some by (auto simp: notification_row_Inr)
  then have "notification_dedup (?f row) \<in> set (map notification_dedup (run_rows db'))"
    unfolding rows by (auto intro!: imageI)
  moreover have "dedup_entry.truncate d \<in> set (notification_dedup (?f row))"
    using d \<open>rn_run_id row = dl_run_id out\<close> by (simp add: merge_dedup_def)
  ultimately have mem: "dedup_entry.truncate d \<in> set (concat (map notification_dedup (run_rows db')))" by auto
  let ?times = "map delivered_at_seconds (filter (\<lambda>e. dd_destination_id e = dd_destination_id d
      \<and> dd_deduplication_id e = dd_deduplication_id d) (concat (map notification_dedup (run_rows db'))))"
  have t: "delivered_at_seconds d \<in> set ?times"
    using mem by (force simp: dedup_entry.truncate_def)
  have "validate_notification_identity (dd_destination_id d) (dd_deduplication_id d) = Inr ()"
    using recs d by (auto simp: is_ok_iff validate_dedup_record_def)
  moreover have "?times \<noteq> []" using t by (intro notI) (simp only: list.set empty_iff)
  ultimately have "notification_delivered_at (dd_destination_id d) (dd_deduplication_id d) db' = (Inr (Some (Max (set ?times))), db')"
    by (simp add: notification_delivered_at_def sbind_def slift_def all Let_def)
  moreover have "delivered_at_seconds d \<le> Max (set ?times)" by (rule Max_ge) (use t in auto)
  ultimately show ?thesis by blast
qed

text \<open>Calls of the router on its world leave the records alone.\<close>

lemma now_seconds_eq:
  "now_seconds rt (mem, (w, db)) = (case rt_clock rt w of (t, w') \<Rightarrow> (Inr t, (mem, (w', db))))"
  by (simp add: now_seconds_def on_second_def on_first_def split: prod.split)

lemma on_records_eq: "on_records m (mem, (w, db)) = (case m db of (r, db') \<Rightarrow> (r, (mem, (w, db'))))"
  by (simp add: on_records_def on_second_def split: prod.split)

lemma on_records_Inr: "on_records m (mem, (w, db)) = (Inr x, s') \<longleftrightarrow> (\<exists>db'. m db = (Inr x, db') \<and> s' = (mem, (w, db')))"
  by (auto simp: on_records_eq split: prod.splits)

lemma adapter_records: "on_adapter m s = (r, s') \<Longrightarrow> snd (snd s') = snd (snd s)"
  by (auto simp: on_adapter_def on_second_def on_first_def split: prod.splits)

lemma factory_records: "adapter_for rt did dest s = (r, s') \<Longrightarrow> snd (snd s') = snd (snd s)"
  by (auto simp: adapter_for_def sbind_def peek_def poke_def sreturn_def dest: adapter_records
      split: option.splits prod.splits sum.splits)

lemma attempt_records:
  assumes "attempt (sbind (adapter_for rt did dest) (\<lambda>a. on_adapter (nt_deliver a e))) s = (r, s')"
  shows "snd (snd s') = snd (snd s)"
proof -
  have "keeps (\<lambda>t. snd (snd t) = snd (snd s)) (attempt (sbind (adapter_for rt did dest) (\<lambda>a. on_adapter (nt_deliver a e))))"
    by (intro keeps_attempt keeps_sbind) (auto simp: keeps_def dest!: adapter_records factory_records)
  from keepsD [OF this refl assms] show ?thesis .
qed

lemma lookup_state: "notification_delivered_at did dd db = (r, db') \<Longrightarrow> db' = db"
  by (auto simp: notification_delivered_at_def sbind_def slift_def split: prod.splits sum.splits)


section \<open>The router as a transition system\<close>

text \<open>One step is one call of the router, whether it returns or raises.\<close>

inductive router_step :: "('w, 's) router \<Rightarrow> ('w, 's) router_state \<Rightarrow> ('w, 's) router_state \<Rightarrow> bool" for rt where
  step_deliver: "deliver rt e s = (r, s') \<Longrightarrow> router_step rt s s'"
| step_deliver_all: "deliver_all rt es s = (r, s') \<Longrightarrow> router_step rt s s'"
| step_close: "close_router rt s = (r, s') \<Longrightarrow> router_step rt s s'"

inductive router_reachable :: "('w, 's) router \<Rightarrow> ('w, 's) router_state \<Rightarrow> ('w, 's) router_state \<Rightarrow> bool" for rt s0 where
  router_start: "router_reachable rt s0 s0"
| router_next: "router_reachable rt s0 s \<Longrightarrow> router_step rt s s' \<Longrightarrow> router_reachable rt s0 s'"

inductive_simps router_step_iff: "router_step rt s s'"

lemma keeps_queues:
  assumes dist: "distinct (map fst (nc_destinations (rt_config rt)))"
  shows "keeps (\<lambda>s. queues_ok rt (fst s)) (deliver rt e)"
    "keeps (\<lambda>s. queues_ok rt (fst s)) (deliver_all rt es)"
    "keeps (\<lambda>s. queues_ok rt (fst s)) (close_router rt)"
proof -
  let ?Q = "\<lambda>s. queues_ok rt (fst s)"
  have one: "keeps ?Q (deliver_to_destination rt did dest e)" for did dest e
    using queueless_deliver by (rule queueless_keeps) (simp add: queues_ok_def)
  have route: "keeps ?Q (route_event rt did dest e)"
    if "(did, dest) \<in> set (nc_destinations (rt_config rt))" "wants dest e" for did dest e
    unfolding route_event_def using keeps_queued_event [OF that(1) dist that(2)]
    by (auto intro!: keeps_sbind keeps_sreturn keeps_flush one)
  show "keeps ?Q (deliver rt e)"
    unfolding deliver_def by (auto intro!: keeps_sbind keeps_sreturn keeps_collect one)
  show "keeps ?Q (deliver_all rt es)"
    unfolding deliver_all_def
    by (auto intro!: keeps_sbind keeps_sreturn keeps_collect keeps_peek route simp: destinations_of_def)
  show "keeps ?Q (close_router rt)"
    unfolding close_router_def by (auto intro!: keeps_sbind keeps_sreturn keeps_collect keeps_flush)
qed

text \<open>C27: After any sequence of calls, returned or raised, every queue of the router belongs to a
  configured destination, is not empty, is smaller than the bound of the destination, has a
  deadline, and holds only decision events that the destination wants, all of one run and one closed
  bar.\<close>

theorem notification_queues_bounded:
  assumes "router_reachable rt (empty_memory, ws) s" "distinct (map fst (nc_destinations (rt_config rt)))"
  shows "queues_ok rt (fst s)"
  using assms(1)
proof induction
  case router_start
  show ?case by (simp add: queues_ok_def queue_entry_ok_def empty_memory_def)
next
  case (router_next s s')
  from router_next(2) show ?case
    unfolding router_step_iff using keeps_queues [OF assms(2)] router_next(3) by (metis keepsD)
qed

section \<open>A destination with a recording adapter\<close>

definition sample_destination :: destination where
  "sample_destination = \<lparr>dn_adapter = ''generic_webhook'', dn_enabled = True,
     dn_enabled_events = [''run_succeeded'', ''no_decision''], dn_endpoint = \<lparr>sr_kind = ''env'', sr_name = ''HOOK''\<rparr>,
     dn_timeout_seconds = 5, dn_retries = \<lparr>re_maximum_attempts = 1, re_backoff_seconds = []\<rparr>,
     dn_deduplication = \<lparr>dd_window_seconds = 60, dd_key_fields = [''event_type'', ''run_id'']\<rparr>,
     dn_batching = \<lparr>bt_maximum_events = 2, bt_flush_seconds = 10\<rparr>,
     dn_redaction = \<lparr>rd_headers = [], rd_query_parameters = []\<rparr>, dn_failure_policy = ''warning''\<rparr>"

lemma sample_destination_fields:
  "bt_maximum_events (dn_batching sample_destination) = 2" "dd_window_seconds (dn_deduplication sample_destination) = 60"
  by (simp_all add: sample_destination_def)

text \<open>The world counts the seconds and the events sent.\<close>

definition sample_notifier :: "(int \<times> nat) notifier" where
  "sample_notifier = \<lparr>nt_deliver = (\<lambda>e (t, n). (Inr \<lparr>rx_destination_id = ''hook'', rx_adapter_id = ''generic_webhook'',
       rx_event_id = event_id e, rx_deduplication_id = [], rx_batch_id = None, rx_attempts = 1, rx_outcome = ''SUCCESS'',
       rx_reason_code = None, rx_status_code = Some 200\<rparr>, (t, Suc n))), nt_deliver_batch = None\<rparr>"

definition sample_router :: "'s notification_store option \<Rightarrow> (int \<times> nat, 's) router" where
  "sample_router st = \<lparr>rt_config = \<lparr>nc_enabled = True, nc_destinations = [(''hook'', sample_destination)]\<rparr>,
     rt_factory = (\<lambda>did dest. sreturn sample_notifier), rt_clock = (\<lambda>(t, n). (t, (t + 1, n))), rt_store = st\<rparr>"

definition sample_event :: "string \<Rightarrow> notification_event" where
  "sample_event t = \<lparr>ne_event_type = t, ne_run_id = ''r1'', ne_instrument_id = None, ne_strategy_id = ''s'',
     ne_schema_version = 1, ne_payload = [(''closed_bar_time_ms'', JInt 59999)]\<rparr>"

lemma sample_identity: "\<exists>dd. deduplication_id ''hook'' sample_destination (sample_event t) = Inr dd \<and> is_hex64 dd"
  by (simp add: deduplication_id_def sample_destination_def event_field_def sample_event_def sha256_hex_shape)

theorem notification_queues_bounded_witness:
  "\<exists>s. router_reachable (sample_router (None :: unit notification_store option)) (empty_memory, ((0, 0), ())) s
    \<and> queues_ok (sample_router (None :: unit notification_store option)) (fst s)
    \<and> pending_of (fst s) ''hook'' = [sample_event ''no_decision'']"
proof -
  let ?rt = "sample_router (None :: unit notification_store option)" and ?e = "sample_event ''no_decision''"
  obtain dd where dd: "deduplication_id ''hook'' sample_destination ?e = Inr dd" using sample_identity by blast
  have w: "wants sample_destination ?e" "\<not> lifecycle_event ?e"
    by (simp_all add: wants_def sample_destination_def sample_event_def lifecycle_event_def)
  have q: "\<exists>s. queue_event ?rt ''hook'' sample_destination ?e (empty_memory, ((0, 0), ())) = (Inr [], s)
      \<and> pending_of (fst s) ''hook'' = [?e]"
    by (simp add: queue_event_def sbind_def now_seconds_eq sample_router_def slift_def dd delivered_at_def peek_def
        empty_memory_def within_window_def flush_if_def deadline_passed_def sreturn_def other_boundary_def pending_of_def
        poke_def enqueue_def sample_destination_fields)
  then obtain s where s: "queue_event ?rt ''hook'' sample_destination ?e (empty_memory, ((0, 0), ())) = (Inr [], s)"
    "pending_of (fst s) ''hook'' = [?e]" by blast
  have "\<exists>r. deliver_all ?rt [?e] (empty_memory, ((0, 0), ())) = (Inr r, s)"
    using s(1) w by (simp add: deliver_all_def destinations_of_def sample_router_def sbind_def route_event_def sreturn_def peek_def)
  then have reach: "router_reachable ?rt (empty_memory, ((0, 0), ())) s"
    by (blast intro: router_next [OF router_start] step_deliver_all)
  have "queues_ok ?rt (fst s)" by (rule notification_queues_bounded [OF reach]) (simp add: sample_router_def)
  with reach s(2) show ?thesis by blast
qed

lemma one_run_find: "find_run one_run ''r1'' = Some (new_row sample_run)"
  by (simp add: one_run_def find_run_def sample_run_def)

lemma notification_columns_check:
  "run_row_check (notification_outcomes_update f r) = run_row_check r"
  "run_row_check (notification_dedup_update g r) = run_row_check r"
  by (simp_all add: run_row_check_def)

lemma sample_success_stored:
  assumes "is_hex64 dd" "rn = outcome_record rx ''r1'' 0" "rx_destination_id rx = ''hook''"
    "rx_adapter_id rx = ''generic_webhook''" "rx_attempts rx = 1" "rx_outcome rx = ''SUCCESS''"
    "rx_reason_code rx = None" "rx_status_code rx = Some 200"
  shows "\<exists>db. store_successful_notification_delivery rn
    [\<lparr>dd_destination_id = ''hook'', dd_deduplication_id = dd, delivered_at_seconds = 0, dd_run_id = ''r1''\<rparr>] one_run = (Inr (), db)"
proof -
  have row: "run_row_check (new_row sample_run)" by code_simp
  have name: "name_ok ''hook''" "name_ok ''generic_webhook''" by code_simp+
  have cols: "outcome_entries (new_row sample_run) = Inr []" "dedup_entries (new_row sample_run) = Inr []"
    by (simp_all add: outcome_entries_def dedup_entries_def)
  have found: "notification_row one_run ''r1'' = Inr (new_row sample_run)"
    by (simp add: notification_row_def one_run_find)
  have valid: "validate_notification_outcome ''r1'' rn = Inr ()"
    by (simp add: validate_notification_outcome_def outcome_valid_def outcome_record_def name assms)
  have evidence: "matching_evidence rn \<lparr>dd_destination_id = ''hook'', dd_deduplication_id = dd, delivered_at_seconds = 0, dd_run_id = ''r1''\<rparr> = Inr ()"
    by (simp add: matching_evidence_def validate_dedup_record_def validate_notification_identity_def name assms outcome_record_def)
  have set: "\<exists>db1. set_column ''r1'' (notification_outcomes_update f) one_run = Inr db1
      \<and> (\<exists>db2. set_column ''r1'' (notification_dedup_update g) db1 = Inr db2)" for f g
    by (simp add: set_column_def update_runs_def one_run_def notification_columns_check row)
  have rid: "dl_run_id rn = ''r1''" "dl_outcome rn = ''SUCCESS''" by (simp_all add: assms outcome_record_def)
  show ?thesis
    using set [of "\<lambda>_. last_items 100 ([] @ [delivery_outcome.truncate rn])" "\<lambda>_. merge_dedup [\<lparr>dd_destination_id = ''hook'',
        dd_deduplication_id = dd, delivered_at_seconds = 0, dd_run_id = ''r1''\<rparr>] []"]
    by (auto simp: store_successful_notification_delivery_def sguard_def sreturn_def sbind_def slift_def rid valid evidence
        transaction_def found cols)
qed


end
