(* ===== verification/Runtime.thy ===== *)
theory Runtime
  imports Replay Notifications HistoricalSync Simulator
begin

text \<open>
  The run of the engine (\<^verbatim>\<open>application/runtime.py\<close>): under the process lock it synchronises the
  configured history, records the run, evaluates every instrument through graph and policy, commits
  evidence and terminal state together, and reports to the event sinks. The state is the outside world
  (exchange, clock, lock, sinks) and the two parts of the SQLite repository, candles and runs. The
  provider, the sinks, the lock and the clock act on the world and are parameters.

  The lemmas show what the receipt of a run says about the records it leaves behind.
\<close>

section \<open>Requests, configurations, receipts\<close>

record run_request =
  rr_strategy_path :: string
  rr_market_data_path :: string
  rr_notifications_path :: "string option"
  rr_trigger :: string

definition run_triggers :: "string list" where
  "run_triggers = [''manual'', ''scheduled'']"

definition mk_run_request :: "run_request \<Rightarrow> run_request result" where
  "mk_run_request r = rbind (rguard (rr_trigger r \<in> set run_triggers) ValueError
     ''trigger must be manual or scheduled'') (\<lambda>_. Inr r)"

record runtime_configuration =
  uc_strategy :: strategy_config
  uc_market_data :: market_data_config
  uc_notifications :: notification_config

record run_receipt =
  rv_run_id :: "string option"
  rv_status :: string
  rv_trigger :: string
  rv_started_at_ms :: int
  rv_completed_at_ms :: int
  rv_instrument_count :: int
  rv_decision_count :: int
  rv_error :: "string option"

definition receipt_canonical_dict :: "run_receipt \<Rightarrow> (string, json) dict" where
  "receipt_canonical_dict r =
     [(''run_id'', opt_str (rv_run_id r)), (''status'', JStr (rv_status r)), (''trigger'', JStr (rv_trigger r)),
      (''started_at_ms'', JInt (rv_started_at_ms r)), (''completed_at_ms'', JInt (rv_completed_at_ms r)),
      (''instrument_count'', JInt (rv_instrument_count r)), (''decision_count'', JInt (rv_decision_count r)),
      (''error'', opt_str (rv_error r))]"

text \<open>Loading the three files; \<open>read\<close> is the file system and \<open>yaml\<close> the YAML parser.\<close>

definition load_runtime_configuration ::
    "(string \<Rightarrow> string result) \<Rightarrow> (string \<Rightarrow> pyobj result) \<Rightarrow> run_request \<Rightarrow> runtime_configuration result" where
  "load_runtime_configuration read yaml req =
     rbind (case rr_notifications_path req of
              None \<Rightarrow> Inr \<lparr>nc_enabled = False, nc_destinations = []\<rparr>
            | Some p \<Rightarrow> rbind (read p) (load_notifications_text yaml)) (\<lambda>notifications.
     rbind (rbind (read (rr_strategy_path req)) (load_strategy_text yaml)) (\<lambda>strategy.
     rbind (rbind (read (rr_market_data_path req)) (load_market_data_text yaml)) (\<lambda>market.
     Inr \<lparr>uc_strategy = strategy, uc_market_data = market, uc_notifications = notifications\<rparr>)))"

section \<open>The engine\<close>

text \<open>A sink returns the outcome of its receipt, if it has one.\<close>

record 'w engine =
  en_provider_factory :: "market_data_config \<Rightarrow> ('w, 'w kline_provider) op"
  en_plugin_factories :: factories
  en_acquire :: "('w, bool) op"
  en_release :: "'w \<Rightarrow> 'w"
  en_config_loader :: "run_request \<Rightarrow> ('w, runtime_configuration) op"
  en_clock_ms :: "'w \<Rightarrow> int \<times> 'w"
  en_code_hash :: string
  en_event_sink :: "(notification_event \<Rightarrow> ('w \<times> run_db, string option) op) option"
  en_batch_sink :: "(notification_event list \<Rightarrow> ('w \<times> run_db, string option) op) option"

definition mk_engine :: "'w engine \<Rightarrow> 'w engine result" where
  "mk_engine e = rbind (rguard (is_hex64 (en_code_hash e)) ValueError
     ''code hash must be a lowercase 64-character SHA-256'') (\<lambda>_. Inr e)"

type_synonym 'w engine_state = "'w \<times> (candle_db \<times> run_db)"

definition on_candles :: "('w \<times> candle_db, 'a) op \<Rightarrow> ('w engine_state, 'a) op" where
  "on_candles m s = (case m (fst s, fst (snd s)) of (r, (w, c)) \<Rightarrow> (r, (w, (c, snd (snd s)))))"

definition on_runs :: "(run_db, 'a) op \<Rightarrow> ('w engine_state, 'a) op" where
  "on_runs m = on_second (on_second m)"

definition on_sink :: "('w \<times> run_db, 'a) op \<Rightarrow> ('w engine_state, 'a) op" where
  "on_sink m s = (case m (fst s, snd (snd s)) of (r, (w, d)) \<Rightarrow> (r, (w, (fst (snd s), d))))"

definition engine_now :: "'w engine \<Rightarrow> ('w engine_state, int) op" where
  "engine_now e = on_world (\<lambda>w. case en_clock_ms e w of (t, w') \<Rightarrow> (Inr t, w'))"

subsection \<open>Errors as text\<close>

fun exn_name :: "exn_class \<Rightarrow> string" where
  "exn_name ValueError = ''ValueError''" | "exn_name TypeError = ''TypeError''"
| "exn_name KeyError = ''KeyError''" | "exn_name IndexError = ''IndexError''"
| "exn_name RuntimeError = ''RuntimeError''" | "exn_name AssertionError = ''AssertionError''"
| "exn_name AttributeError = ''AttributeError''" | "exn_name OSError = ''OSError''"
| "exn_name LookupError = ''LookupError''" | "exn_name OtherError = ''Exception''"
| "exn_name InvalidOperation = ''InvalidOperation''" | "exn_name DivisionByZero = ''DivisionByZero''"
| "exn_name GraphConfigurationError = ''GraphConfigurationError''"
| "exn_name UnknownPluginError = ''UnknownPluginError''"
| "exn_name MissingDependencyError = ''MissingDependencyError''"
| "exn_name CyclicDependencyError = ''CyclicDependencyError''"
| "exn_name SourceConflictError = ''SourceConflictError''"
| "exn_name PersistenceConflictError = ''PersistenceConflictError''"
| "exn_name IntegrityError = ''IntegrityError''"
| "exn_name ProviderConfigurationError = ''ProviderConfigurationError''"
| "exn_name ProviderInstrumentError = ''ProviderInstrumentError''"
| "exn_name ProviderProtocolError = ''ProviderProtocolError''"
| "exn_name ProviderRateLimitError = ''ProviderRateLimitError''"
| "exn_name ProviderTemporaryError = ''ProviderTemporaryError''"
| "exn_name ProviderPermanentError = ''ProviderPermanentError''"
| "exn_name StrictConfigurationError = ''StrictConfigurationError''"

text \<open>\<^verbatim>\<open>str(exc)\<close>; a \<^verbatim>\<open>KeyError\<close> shows the literal of its argument.\<close>

fun exn_text :: "exn \<Rightarrow> string" where
  "exn_text (Exn c m) = (if c = KeyError then [CHR 0x27] @ m @ [CHR 0x27] else m)"

definition one_line :: "string \<Rightarrow> string" where
  "one_line s = map (\<lambda>c. if c = CHR 0x0A \<or> c = CHR 0x0D then CHR 0x20 else c) s"

definition bounded_error :: "exn \<Rightarrow> string" where
  "bounded_error x = take 4000 (one_line (exn_name (exn_kind x) @ '': '' @ exn_text x))"

subsection \<open>Events\<close>

definition decision_notification_payload :: "decision \<Rightarrow> int \<Rightarrow> (string, json) dict result" where
  "decision_notification_payload d t =
     (let base = [(''status'', JStr (de_status d)), (''evaluation_time_ms'', JInt t), (''closed_bar_time_ms'', JInt t),
            (''decision_id'', JStr (hash_decision d))]
      in if de_status d \<noteq> ''READY'' then
           Inr (base @ [(''first_failed_signal'', opt_str (first_failed_signal d))])
         else (case (entry_text d, stop_text d, target_text d) of
           (Some et, Some st, Some tt) \<Rightarrow>
             rbind (py_decimal et) (\<lambda>entry.
             rbind (py_decimal st) (\<lambda>stop.
             rbind (py_decimal tt) (\<lambda>target.
             (let risk = dabs (dsub entry stop); reward = dabs (dsub target entry) in
              rbind (if is_zero risk then Inr ''UNDEFINED''
                     else rbind (ddiv reward risk) (\<lambda>q. Inr (format_f (dnormalize q)))) (\<lambda>ratio.
              Inr (base @ [(''direction'', opt_str (de_direction d)), (''entry'', JStr et), (''stop'', JStr st),
                (''target'', JStr tt), (''reward_risk'', JStr ratio)]))))))
         | _ \<Rightarrow> raise AssertionError []))"

definition failed_outcome :: "string option \<Rightarrow> bool" where
  "failed_outcome out \<longleftrightarrow> out \<in> {Some ''PARTIAL_FAILURE'', Some ''ALL_FAILURE''}"

definition emit_one ::
    "(notification_event \<Rightarrow> ('w \<times> run_db, string option) op) \<Rightarrow> notification_event \<Rightarrow> ('w engine_state, string list) op" where
  "emit_one sink ev =
     scatch (sbind (on_sink (sink ev)) (\<lambda>out. sreturn (if failed_outcome out then [ne_event_type ev] else [])))
       (\<lambda>_. sreturn [ne_event_type ev])"

definition emit_batch ::
    "(notification_event list \<Rightarrow> ('w \<times> run_db, string option) op) \<Rightarrow> notification_event list
      \<Rightarrow> ('w engine_state, string list) op" where
  "emit_batch sink evs =
     scatch (sbind (on_sink (sink evs)) (\<lambda>out. sreturn (if failed_outcome out then map ne_event_type evs else [])))
       (\<lambda>_. sreturn (map ne_event_type evs))"

definition emit_events :: "'w engine \<Rightarrow> notification_event list \<Rightarrow> ('w engine_state, string list) op" where
  "emit_events e evs =
     (case en_event_sink e of
        None \<Rightarrow> sreturn []
      | Some sink \<Rightarrow>
          (case en_batch_sink e of
             Some batch \<Rightarrow> if 1 < length evs then emit_batch batch evs else collect (emit_one sink) evs
           | None \<Rightarrow> collect (emit_one sink) evs))"

definition decision_event :: "string \<Rightarrow> string \<Rightarrow> int \<Rightarrow> decision \<Rightarrow> notification_event result" where
  "decision_event strategy rid t d =
     rbind (decision_notification_payload d t) (\<lambda>payload.
     mk_event \<lparr>ne_event_type = (if de_status d = ''READY'' then ''decision_found'' else ''no_decision''),
       ne_run_id = rid, ne_instrument_id = Some (de_instrument_id d), ne_strategy_id = strategy,
       ne_schema_version = 1, ne_payload = payload\<rparr>)"

text \<open>\<^verbatim>\<open>error.partition(":")[0][:64]\<close>.\<close>

definition error_category :: "string \<Rightarrow> string" where
  "error_category err = take 64 (takeWhile (\<lambda>c. c \<noteq> CHR 0x3A) err)"

definition terminal_event :: "strategy_config \<Rightarrow> string \<Rightarrow> nat \<Rightarrow> bool \<Rightarrow> string option \<Rightarrow> int \<Rightarrow> notification_event result" where
  "terminal_event strategy rid decisions succeeded err t =
     mk_event \<lparr>ne_event_type = (if succeeded then ''run_succeeded'' else ''run_failed''), ne_run_id = rid,
       ne_instrument_id = None, ne_strategy_id = sy_name strategy, ne_schema_version = 1,
       ne_payload = [(''status'', JStr (if succeeded then ''SUCCEEDED'' else ''FAILED'')),
         (''instrument_count'', JInt (int (length (sy_instruments strategy)))), (''decision_count'', JInt (int decisions)),
         (''event_time_ms'', JInt t)] @ (case err of None \<Rightarrow> [] | Some x \<Rightarrow> [(''error_category'', JStr (error_category x))])\<rparr>"

definition emit_terminal ::
    "'w engine \<Rightarrow> strategy_config \<Rightarrow> string \<Rightarrow> decision list \<Rightarrow> bool \<Rightarrow> string option \<Rightarrow> int \<Rightarrow> int
      \<Rightarrow> ('w engine_state, string list) op" where
  "emit_terminal e strategy rid decisions succeeded err evaluation event_time =
     (if en_event_sink e = None then sreturn []
      else
        sbind (slift (rmapM (decision_event (sy_name strategy) rid evaluation) decisions)) (\<lambda>evs.
        sbind (slift (terminal_event strategy rid (length decisions) succeeded err event_time)) (\<lambda>last_event.
        emit_events e (evs @ [last_event]))))"

subsection \<open>The run\<close>

record run_inputs =
  ri_config :: runtime_configuration
  ri_first_open :: int
  ri_latest_open :: int
  ri_loaded :: "(string \<times> candle list) list"
  ri_run_id :: string

definition ri_strategy :: "run_inputs \<Rightarrow> strategy_config" where
  "ri_strategy inp = uc_strategy (ri_config inp)"

definition ri_evaluation_time :: "run_inputs \<Rightarrow> int" where
  "ri_evaluation_time inp = ri_latest_open inp + 59999"

definition run_identity :: "string \<Rightarrow> string \<Rightarrow> int \<Rightarrow> string \<Rightarrow> string \<Rightarrow> string" where
  "run_identity strategy_hash market_hash t data_hash code_hash =
     hash_with_domain ''engine-run-v2'' (JArr [JStr strategy_hash, JStr market_hash, JInt t, JStr data_hash, JStr code_hash])"

definition data_hash_of :: "run_inputs \<Rightarrow> string" where
  "data_hash_of inp = hash_candles (concat (map snd (ri_loaded inp)))"

definition run_id_of :: "'w engine \<Rightarrow> run_inputs \<Rightarrow> string" where
  "run_id_of e inp = run_identity (hash_strategy (ri_strategy inp)) (hash_market_data (uc_market_data (ri_config inp)))
     (ri_evaluation_time inp) (data_hash_of inp) (en_code_hash e)"

definition sync_instrument ::
    "'w kline_provider \<Rightarrow> market_data_config \<Rightarrow> int \<Rightarrow> int \<Rightarrow> string \<Rightarrow> ('w engine_state, (string \<times> candle list) list) op" where
  "sync_instrument pv market a b i =
     sbind (slift (rbind (dict_index (md_instruments market) i) (\<lambda>symbol.
       mk_mapping \<lparr>im_instrument_id = i, im_provider_symbol = symbol\<rparr>))) (\<lambda>m.
     sbind (on_candles (historical_sync_range pv sqlite_repo m a b)) (\<lambda>res.
     sreturn [(i, is_candles res)]))"

definition prepare_run :: "'w engine \<Rightarrow> run_request \<Rightarrow> ('w engine_state, run_inputs) op" where
  "prepare_run e req =
     sbind (on_world (en_config_loader e req)) (\<lambda>config.
     (let strategy = uc_strategy config; market = uc_market_data config in
      sbind (sguard (\<not> set (sy_instruments strategy) - set (dict_keys (md_instruments market)) \<noteq> {}) ValueError
               ''strategy instruments must exist in market-data mappings'') (\<lambda>_.
      sbind (on_world (en_provider_factory e market)) (\<lambda>pv.
      sbind (on_world (pv_latest_closed pv)) (\<lambda>latest.
      (let first = latest - (sy_history_minutes strategy - 1) * 60000 in
       sbind (sguard (\<not> first < 0) ValueError ''configured history precedes the provider epoch'') (\<lambda>_.
       sbind (collect (sync_instrument pv market first latest) (sy_instruments strategy)) (\<lambda>loaded.
       (let inp = \<lparr>ri_config = config, ri_first_open = first, ri_latest_open = latest, ri_loaded = loaded, ri_run_id = []\<rparr>
        in sreturn (inp\<lparr>ri_run_id := run_id_of e inp\<rparr>))))))))))"

definition running_record :: "'w engine \<Rightarrow> run_inputs \<Rightarrow> int \<Rightarrow> run_record" where
  "running_record e inp started =
     (let strategy = ri_strategy inp; market = uc_market_data (ri_config inp) in
      \<lparr>rn_run_id = ri_run_id inp, rn_status = ''RUNNING'', rn_started_at_ms = started, rn_completed_at_ms = None,
       rn_strategy_name = sy_name strategy, rn_strategy_version = sy_version strategy,
       rn_strategy_config_hash = hash_strategy strategy, rn_provider_id = md_provider market,
       rn_market_type = md_market_type market, rn_market_config_hash = hash_market_data market, rn_git_commit = None,
       rn_code_hash = Some (en_code_hash e), rn_data_start_open_ms = ri_first_open inp,
       rn_data_end_close_ms = ri_evaluation_time inp, rn_data_hash = data_hash_of inp, rn_error = None\<rparr>)"

definition started_event :: "run_inputs \<Rightarrow> int \<Rightarrow> notification_event result" where
  "started_event inp started =
     mk_event \<lparr>ne_event_type = ''run_started'', ne_run_id = ri_run_id inp, ne_instrument_id = None,
       ne_strategy_id = sy_name (ri_strategy inp), ne_schema_version = 1,
       ne_payload = [(''status'', JStr ''RUNNING''),
         (''instrument_count'', JInt (int (length (sy_instruments (ri_strategy inp))))),
         (''evaluation_time_ms'', JInt (ri_evaluation_time inp)), (''event_time_ms'', JInt started)]\<rparr>"

text \<open>The evaluation of every instrument at the last closed minute.\<close>

definition analyse_instrument ::
    "graph \<Rightarrow> decision_signal list \<Rightarrow> run_inputs \<Rightarrow> string \<Rightarrow> (observation list \<times> decision) result" where
  "analyse_instrument g signals inp i =
     rbind (dict_index (dict_of (ri_loaded inp)) i) (\<lambda>cs.
     rbind (resample_roles cs (sy_roles (ri_strategy inp)) (Some (ri_evaluation_time inp))) (\<lambda>roles.
     rbind (mk_context \<lparr>cx_instrument_id = i, evaluation_time_ms = ri_evaluation_time inp, candles_by_role = roles,
              timeframes_by_role = sy_roles (ri_strategy inp)\<rparr>) (\<lambda>cx.
     rbind (execute g cx) (\<lambda>obs.
     rbind (decide signals cx obs) (\<lambda>d. Inr (map snd obs, d))))))"

definition analyse :: "factories \<Rightarrow> run_inputs \<Rightarrow> (observation list \<times> decision) list result" where
  "analyse facs inp =
     rbind (configured_nodes (ri_strategy inp)) (\<lambda>nodes.
     rbind (mk_graph nodes facs) (\<lambda>g.
     rbind (configured_decision_signals (ri_strategy inp)) (\<lambda>signals.
     rmapM (analyse_instrument g signals inp) (sy_instruments (ri_strategy inp)))))"

definition analyse_and_commit :: "'w engine \<Rightarrow> run_inputs \<Rightarrow> ('w engine_state, decision list \<times> int) op" where
  "analyse_and_commit e inp =
     sbind (slift (analyse (en_plugin_factories e) inp)) (\<lambda>results.
     sbind (engine_now e) (\<lambda>completed.
     sbind (on_runs (commit_run (ri_run_id inp)
              (map (observation_record_of (ri_run_id inp)) (concat (map fst results)))
              (map (decision_record_of (ri_run_id inp)) (map snd results)) completed)) (\<lambda>_.
     sreturn (map snd results, completed))))"

definition fail_run :: "'w engine \<Rightarrow> run_request \<Rightarrow> int \<Rightarrow> run_inputs \<Rightarrow> exn \<Rightarrow> ('w engine_state, run_receipt) op" where
  "fail_run e req started inp x =
     sbind (engine_now e) (\<lambda>completed.
     (let err = bounded_error x in
      sbind (on_runs (finish_run (ri_run_id inp) ''FAILED'' completed (Some err) None)) (\<lambda>_.
      sbind (emit_terminal e (ri_strategy inp) (ri_run_id inp) [] False (Some err) (ri_evaluation_time inp) completed) (\<lambda>_.
      sreturn \<lparr>rv_run_id = Some (ri_run_id inp), rv_status = ''FAILED'', rv_trigger = rr_trigger req,
        rv_started_at_ms = started, rv_completed_at_ms = completed,
        rv_instrument_count = int (length (sy_instruments (ri_strategy inp))), rv_decision_count = 0, rv_error = Some err\<rparr>))))"

definition join_comma :: "string list \<Rightarrow> string" where
  "join_comma xs = (case xs of [] \<Rightarrow> [] | x # ys \<Rightarrow> x @ concat (map (\<lambda>y. '', '' @ y) ys))"

definition succeeded_receipt ::
    "run_request \<Rightarrow> int \<Rightarrow> run_inputs \<Rightarrow> int \<Rightarrow> nat \<Rightarrow> string list \<Rightarrow> run_receipt" where
  "succeeded_receipt req started inp completed decisions warnings =
     \<lparr>rv_run_id = Some (ri_run_id inp),
      rv_status = (if warnings = [] then ''SUCCEEDED'' else ''SUCCEEDED_WITH_WARNINGS''), rv_trigger = rr_trigger req,
      rv_started_at_ms = started, rv_completed_at_ms = completed,
      rv_instrument_count = int (length (sy_instruments (ri_strategy inp))), rv_decision_count = int decisions,
      rv_error = (if warnings = [] then None else Some (''NOTIFICATION_WARNING: '' @ join_comma warnings))\<rparr>"

definition complete_run ::
    "'w engine \<Rightarrow> run_request \<Rightarrow> int \<Rightarrow> run_inputs \<Rightarrow> string list \<Rightarrow> decision list \<times> int \<Rightarrow> ('w engine_state, run_receipt) op" where
  "complete_run e req started inp warnings out = (case out of (decisions, completed) \<Rightarrow>
     sbind (emit_terminal e (ri_strategy inp) (ri_run_id inp) decisions True None (ri_evaluation_time inp) completed) (\<lambda>more.
     sreturn (succeeded_receipt req started inp completed (length decisions) (warnings @ more))))"

definition evaluate_run ::
    "'w engine \<Rightarrow> run_request \<Rightarrow> int \<Rightarrow> run_inputs \<Rightarrow> string list \<Rightarrow> ('w engine_state, run_receipt) op" where
  "evaluate_run e req started inp warnings s =
     (case analyse_and_commit e inp s of
        (Inl x, s') \<Rightarrow> fail_run e req started inp x s'
      | (Inr out, s') \<Rightarrow> complete_run e req started inp warnings out s')"

definition record_run :: "'w engine \<Rightarrow> run_inputs \<Rightarrow> int \<Rightarrow> ('w engine_state, string list) op" where
  "record_run e inp started =
     sbind (on_runs (store_run (running_record e inp started))) (\<lambda>_.
     sbind (slift (started_event inp started)) (\<lambda>ev.
     emit_events e [ev]))"

definition run_locked :: "'w engine \<Rightarrow> run_request \<Rightarrow> int \<Rightarrow> ('w engine_state, run_receipt) op" where
  "run_locked e req started =
     sbind (prepare_run e req) (\<lambda>inp.
     sbind (record_run e inp started) (\<lambda>warnings.
     evaluate_run e req started inp warnings))"

definition overlap_receipt :: "run_request \<Rightarrow> int \<Rightarrow> int \<Rightarrow> run_receipt" where
  "overlap_receipt req started completed =
     \<lparr>rv_run_id = None, rv_status = ''OVERLAP_SKIPPED'', rv_trigger = rr_trigger req, rv_started_at_ms = started,
      rv_completed_at_ms = completed, rv_instrument_count = 0, rv_decision_count = 0, rv_error = None\<rparr>"

definition engine_run :: "'w engine \<Rightarrow> run_request \<Rightarrow> ('w engine_state, run_receipt) op" where
  "engine_run e req =
     sbind (engine_now e) (\<lambda>started.
     sbind (on_world (en_acquire e)) (\<lambda>acquired.
     if acquired then sfinally (run_locked e req started) (\<lambda>s. (en_release e (fst s), snd s))
     else sbind (engine_now e) (\<lambda>completed. sreturn (overlap_receipt req started completed))))"

text \<open>The router as the sinks of an engine; its memory is part of the world.\<close>

definition router_call ::
    "(('w, run_db) router_state, routing_receipt) op \<Rightarrow> (('w router_memory \<times> 'w) \<times> run_db, string option) op" where
  "router_call m s = (case m (fst (fst s), (snd (fst s), snd s)) of
     (r, (mem, (w, db))) \<Rightarrow> (rbind r (\<lambda>rc. Inr (Some (ro_outcome rc))), ((mem, w), db)))"

definition routed_engine :: "('w, run_db) router \<Rightarrow> ('w router_memory \<times> 'w) engine \<Rightarrow> ('w router_memory \<times> 'w) engine" where
  "routed_engine rt e = e\<lparr>en_event_sink := Some (\<lambda>ev. router_call (deliver rt ev)),
     en_batch_sink := Some (\<lambda>evs. router_call (deliver_all rt evs))\<rparr>"

section \<open>What each part of a run may change\<close>

lemma on_runs_eq: "on_runs m (w, (c, db)) = (case m db of (r, db') \<Rightarrow> (r, (w, (c, db'))))"
  by (simp add: on_runs_def on_second_def split: prod.split)

lemma on_runs_Inr: "on_runs m (w, (c, db)) = (Inr x, s') \<longleftrightarrow> (\<exists>db'. m db = (Inr x, db') \<and> s' = (w, (c, db')))"
  by (auto simp: on_runs_eq split: prod.splits)

lemma engine_now_eq: "engine_now e (w, s) = (case en_clock_ms e w of (t, w') \<Rightarrow> (Inr t, (w', s)))"
  by (simp add: engine_now_def on_world_def split: prod.split)

lemma keeps_world_snd: "keeps (\<lambda>s. P (snd s)) (on_world m)"
  by (force simp: keeps_def on_world_def split: prod.splits)

lemma keeps_engine_now: "keeps (\<lambda>s. P (snd s)) (engine_now e)"
  unfolding engine_now_def by (rule keeps_world_snd)

lemma keeps_candle_call: "keeps (\<lambda>s. P (snd (snd s))) (on_candles m)"
  by (force simp: keeps_def on_candles_def split: prod.splits)

lemma keeps_sink_candles: "keeps (\<lambda>s. P (fst (snd s))) (on_sink m)"
  by (force simp: keeps_def on_sink_def split: prod.splits)

lemma keeps_sink_runs: "keeps (\<lambda>s. P (snd s)) m \<Longrightarrow> keeps (\<lambda>s. P (snd (snd s))) (on_sink m)"
  by (force simp: keeps_def on_sink_def split: prod.splits)

lemma keeps_prepare: "keeps (\<lambda>s. P (snd (snd s))) (prepare_run e req)"
proof -
  have w: "keeps (\<lambda>s. P (snd (snd s))) (on_world m)" for m :: "('a, 'c) op" by (rule keeps_world_snd)
  have i: "keeps (\<lambda>s. P (snd (snd s))) (sync_instrument pv market a b i)" for pv :: "'a kline_provider" and market a b i
    unfolding sync_instrument_def by (intro keeps_sbind keeps_slift keeps_sreturn keeps_candle_call)
  show ?thesis
    unfolding prepare_run_def Let_def by (intro keeps_sbind keeps_collect keeps_sguard keeps_sreturn w i)
qed

text \<open>
  The contract of the sinks: what they keep of the runs, the emission of events keeps, whether the
  sinks return or raise. The sinks only report: they write no runs and no evidence. The router is such
  a sink.
\<close>

locale sink_contract =
  fixes e :: "'w engine" and P :: "run_db \<Rightarrow> bool"
  assumes event_keeps: "en_event_sink e = Some sink \<Longrightarrow> keeps (\<lambda>s. P (snd s)) (sink ev)"
    and batch_keeps: "en_batch_sink e = Some batch \<Longrightarrow> keeps (\<lambda>s. P (snd s)) (batch evs)"
begin

lemma keeps_emit: "keeps (\<lambda>s. P (snd (snd s))) (emit_events e evs)"
proof -
  have one: "keeps (\<lambda>s. P (snd (snd s))) (emit_one sink ev)" if "en_event_sink e = Some sink" for sink ev
    unfolding emit_one_def by (intro keeps_scatch keeps_sbind keeps_sreturn keeps_sink_runs event_keeps [OF that])
  have many: "keeps (\<lambda>s. P (snd (snd s))) (emit_batch batch evs)" if "en_batch_sink e = Some batch" for batch
    unfolding emit_batch_def by (intro keeps_scatch keeps_sbind keeps_sreturn keeps_sink_runs batch_keeps [OF that])
  show ?thesis
    unfolding emit_events_def by (auto split: option.split intro!: keeps_sreturn keeps_collect one many)
qed

lemma keeps_terminal: "keeps (\<lambda>s. P (snd (snd s))) (emit_terminal e strategy rid ds ok err t u)"
  unfolding emit_terminal_def by (auto intro!: keeps_sbind keeps_slift keeps_sreturn keeps_emit)

end

locale quiet_engine =
  fixes e :: "'w engine"
  assumes quiet_sinks: "sink_contract e (same_runs db0)"

sublocale quiet_engine \<subseteq> quiet: sink_contract e "same_runs db0" for db0
  by (rule quiet_sinks)

lemma keeps_emit_candles: "keeps (\<lambda>s. P (fst (snd s))) (emit_events e evs)"
  unfolding emit_events_def emit_one_def emit_batch_def
  by (auto split: option.split intro!: keeps_scatch keeps_sbind keeps_collect keeps_sreturn keeps_sink_candles)

lemma keeps_terminal_candles: "keeps (\<lambda>s. P (fst (snd s))) (emit_terminal e strategy rid ds ok err t u)"
  unfolding emit_terminal_def by (auto intro!: keeps_sbind keeps_slift keeps_sreturn keeps_emit_candles)

lemma keeps_router_call:
  "keeps (\<lambda>s. P (snd (snd s))) m \<Longrightarrow> keeps (\<lambda>s. P (snd s)) (router_call m)"
  by (force simp: keeps_def router_call_def split: prod.splits)

lemma routed_sinks:
  assumes "routed_store rt P"
  shows "sink_contract (routed_engine rt e) P"
  by unfold_locales
    (auto simp: routed_engine_def intro: keeps_router_call routed_store.keeps_routing [OF assms])

interpretation routed: quiet_engine "routed_engine (rt\<lparr>rt_store := Some run_notification_store\<rparr>) e" for rt e
  by (rule quiet_engine.intro, rule routed_sinks, rule run_router.routed_store_axioms)

section \<open>The run of the repository\<close>

text \<open>Two databases that differ in one run.\<close>

definition other_runs_same :: "string \<Rightarrow> run_db \<Rightarrow> run_db \<Rightarrow> bool" where
  "other_runs_same rid db db' \<longleftrightarrow>
     (\<forall>other. other \<noteq> rid \<longrightarrow> map_option run_core (find_run db' other) = map_option run_core (find_run db other))"

lemma other_runs_trans: "other_runs_same rid a b \<Longrightarrow> other_runs_same rid b c \<Longrightarrow> other_runs_same rid a c"
  by (simp add: other_runs_same_def)

lemma same_runs_other: "same_runs a b \<Longrightarrow> other_runs_same rid a b"
  by (simp add: other_runs_same_def same_runs_find)

lemma same_runs_row:
  "same_runs a b \<Longrightarrow> map_option run_core (find_run a rid) = Some (run, o') \<Longrightarrow> map_option run_core (find_run b rid) = Some (run, o')"
  by (simp add: same_runs_find)

lemma find_run_append: "find_run (db\<lparr>run_rows := run_rows db @ [r]\<rparr>) rid
    = (case find_run db rid of Some x \<Rightarrow> Some x | None \<Rightarrow> if rn_run_id r = rid then Some r else None)"
proof -
  have "List.find P (xs @ [r]) = (case List.find P xs of Some x \<Rightarrow> Some x | None \<Rightarrow> if P r then Some r else None)"
    for P :: "run_row \<Rightarrow> bool" and xs by (induction xs) auto
  then show ?thesis by (simp add: find_run_def)
qed

lemma store_run_stored:
  assumes "store_run run db = (Inr u, db')"
  shows "\<exists>r. find_run db' (rn_run_id run) = Some r \<and> run_record.truncate r = run"
    "other_runs_same (rn_run_id run) db db'"
    "observation_rows db' = observation_rows db" "decision_rows db' = decision_rows db"
proof -
  have "(\<exists>r. find_run db' (rn_run_id run) = Some r \<and> run_record.truncate r = run) \<and> other_runs_same (rn_run_id run) db db'
    \<and> observation_rows db' = observation_rows db \<and> decision_rows db' = decision_rows db"
  proof (cases "find_run db (rn_run_id run)")
    case None
    with assms have "db' = db\<lparr>run_rows := run_rows db @ [new_row run]\<rparr>"
      by (auto simp: store_run_def transaction_Inr insert_run_def split: if_splits)
    moreover have "rn_run_id (new_row run) = rn_run_id run" "run_record.truncate (new_row run) = run"
      by (simp_all add: new_row_def run_record.defs)
    ultimately show ?thesis using None by (auto simp: find_run_append other_runs_same_def split: option.split)
  next
    case (Some r)
    with assms have "run_record.truncate r = run \<and> db' = db"
      by (auto simp: store_run_def transaction_Inr split: if_splits)
    with Some show ?thesis by (simp add: other_runs_same_def)
  qed
  then show "\<exists>r. find_run db' (rn_run_id run) = Some r \<and> run_record.truncate r = run"
    "other_runs_same (rn_run_id run) db db'" "observation_rows db' = observation_rows db" "decision_rows db' = decision_rows db"
    by blast+
qed

lemma finish_run_failed:
  assumes fin: "finish_run rid ''FAILED'' t err None db = (Inr run, db')"
    and r: "find_run db rid = Some r" "rn_status r = ''RUNNING''"
  shows "find_run db' rid = Some (end_run ''FAILED'' t err None r)" "other_runs_same rid db db'"
    "observation_rows db' = observation_rows db" "decision_rows db' = decision_rows db"
proof -
  from fin r obtain db1 where up: "update_runs (running rid) (end_run ''FAILED'' t err None) db = Inr db1"
    and load: "loaded_run rid ''completed run disappeared'' db1 = (Inr run, db')"
    by (auto simp: finish_run_def sbind_Inr transaction_Inr)
  have db1: "db' = db1" using load by (auto simp: loaded_run_simp split: option.splits)
  have f: "find_run db1 x = map_option (\<lambda>q. if running rid q then end_run ''FAILED'' t err None q else q) (find_run db x)" for x
    by (rule find_update [OF up]) (simp add: end_run_def)
  have "rn_run_id r = rid" using find_run_Some [OF r(1)] by simp
  then show "find_run db' rid = Some (end_run ''FAILED'' t err None r)" using f [of rid] r by (simp add: db1 running_def)
  have "find_run db1 x = find_run db x" if "x \<noteq> rid" for x
    using f [of x] that find_run_Some [of db x] by (cases "find_run db x") (auto simp: running_def)
  then show "other_runs_same rid db db'" by (simp add: other_runs_same_def db1)
  show "observation_rows db' = observation_rows db" "decision_rows db' = decision_rows db"
    by (simp_all add: db1 update_runs_Inr [OF up])
qed

text \<open>The analysis and its commit: both or nothing.\<close>

lemma analyse_and_commit_cases:
  assumes "analyse_and_commit e inp (w, (c, db)) = (res, (w', (c', db')))"
  shows "c' = c" "res = Inl x \<Longrightarrow> db' = db"
    "res = Inr (ds, t) \<Longrightarrow> \<exists>results run. analyse (en_plugin_factories e) inp = Inr results \<and> ds = map snd results
        \<and> commit_run (ri_run_id inp) (map (observation_record_of (ri_run_id inp)) (concat (map fst results)))
              (map (decision_record_of (ri_run_id inp)) ds) t db = (Inr run, db')"
proof -
  obtain now w1 where now: "en_clock_ms e w = (now, w1)" by (cases "en_clock_ms e w")
  have "c' = c \<and> (\<forall>x. res = Inl x \<longrightarrow> db' = db) \<and> (\<forall>ds t. res = Inr (ds, t) \<longrightarrow>
      (\<exists>results run. analyse (en_plugin_factories e) inp = Inr results \<and> ds = map snd results
        \<and> commit_run (ri_run_id inp) (map (observation_record_of (ri_run_id inp)) (concat (map fst results)))
              (map (decision_record_of (ri_run_id inp)) ds) t db = (Inr run, db')))"
  proof (cases "analyse (en_plugin_factories e) inp")
    case (Inl y)
    with assms show ?thesis by (auto simp: analyse_and_commit_def sbind_def slift_def)
  next
    case (Inr results)
    obtain q db1 where q: "commit_run (ri_run_id inp) (map (observation_record_of (ri_run_id inp)) (concat (map fst results)))
              (map (decision_record_of (ri_run_id inp)) (map snd results)) now db = (q, db1)" by (metis prod.collapse)
    show ?thesis
      using assms Inr q commit_run_result [OF q]
      by (cases q) (auto simp: analyse_and_commit_def sbind_def slift_def sreturn_def engine_now_eq now on_runs_eq)
  qed
  then show "c' = c" "res = Inl x \<Longrightarrow> db' = db"
    "res = Inr (ds, t) \<Longrightarrow> \<exists>results run. analyse (en_plugin_factories e) inp = Inr results \<and> ds = map snd results
        \<and> commit_run (ri_run_id inp) (map (observation_record_of (ri_run_id inp)) (concat (map fst results)))
              (map (decision_record_of (ri_run_id inp)) ds) t db = (Inr run, db')" by blast+
qed

definition failed_record :: "'w engine \<Rightarrow> run_inputs \<Rightarrow> run_receipt \<Rightarrow> run_record" where
  "failed_record e inp rc = (running_record e inp (rv_started_at_ms rc))
     \<lparr>rn_status := ''FAILED'', rn_completed_at_ms := Some (rv_completed_at_ms rc), rn_error := rv_error rc\<rparr>"

definition succeeded_record :: "'w engine \<Rightarrow> run_inputs \<Rightarrow> run_receipt \<Rightarrow> run_record" where
  "succeeded_record e inp rc = (running_record e inp (rv_started_at_ms rc))
     \<lparr>rn_status := ''SUCCEEDED'', rn_completed_at_ms := Some (rv_completed_at_ms rc), rn_error := None\<rparr>"

text \<open>The evidence of a run is the analysis of its candles.\<close>

definition evidence_added :: "string \<Rightarrow> (observation list \<times> decision) list \<Rightarrow> run_db \<Rightarrow> run_db \<Rightarrow> bool" where
  "evidence_added rid results db db' \<longleftrightarrow>
     observation_rows db' = observation_rows db @ map (observation_row_of \<circ> observation_record_of rid) (concat (map fst results))
     \<and> decision_rows db' = decision_rows db @ map (decision_row_of \<circ> decision_record_of rid) (map snd results)"

definition receipt_recorded :: "'w engine \<Rightarrow> run_inputs \<Rightarrow> run_receipt \<Rightarrow> run_db \<Rightarrow> run_db \<Rightarrow> bool" where
  "receipt_recorded e inp rc db db' \<longleftrightarrow> other_runs_same (ri_run_id inp) db db' \<and>
     (\<exists>r. find_run db' (ri_run_id inp) = Some r \<and>
       (if rv_status rc = ''FAILED'' then
          run_record.truncate r = failed_record e inp rc \<and> evidence_added (ri_run_id inp) [] db db'
        else rv_status rc \<in> set receipt_success_statuses \<and> run_record.truncate r = succeeded_record e inp rc \<and>
          (\<exists>results. analyse (en_plugin_factories e) inp = Inr results \<and> evidence_added (ri_run_id inp) results db db'
             \<and> rv_decision_count rc = int (length results))))"

lemma running_record_fields: "rn_run_id (running_record e inp t) = ri_run_id inp" "rn_status (running_record e inp t) = ''RUNNING''"
  by (simp_all add: running_record_def Let_def)

lemma truncate_fields:
  "rn_run_id (run_record.truncate r) = rn_run_id r" "rn_status (run_record.truncate r) = rn_status r"
  by (simp_all add: run_record.truncate_def)

lemma truncate_end:
  "run_record.truncate (end_run st t err out r)
    = (run_record.truncate r)\<lparr>rn_status := st, rn_completed_at_ms := Some t, rn_error := err\<rparr>"
  "run_record.truncate (succeed t r)
    = (run_record.truncate r)\<lparr>rn_status := ''SUCCEEDED'', rn_completed_at_ms := Some t, rn_error := None\<rparr>"
  by (simp_all add: end_run_def succeed_def run_record.truncate_def)

lemma same_runs_found:
  assumes "same_runs a b" "find_run a rid = Some r"
  shows "\<exists>r'. find_run b rid = Some r' \<and> run_record.truncate r' = run_record.truncate r"
  using same_runs_find [OF assms(1), of rid] assms(2) by (cases "find_run b rid") (auto simp: run_core_def)

lemma same_runs_evidence: "same_runs a b \<Longrightarrow> observation_rows b = observation_rows a \<and> decision_rows b = decision_rows a"
  by (simp add: same_runs_def)

context quiet_engine begin

lemma terminal_same:
  assumes "emit_terminal e strategy rid ds ok err t u (w, (c, db)) = (r, (w', (c', db')))"
  shows "c' = c" "same_runs db db'"
  using keepsD [OF keeps_terminal_candles [where P = "\<lambda>x. x = c"] _ assms] keepsD [OF quiet.keeps_terminal [of db] _ assms] by auto

lemma emit_same:
  assumes "emit_events e evs (w, (c, db)) = (r, (w', (c', db')))"
  shows "c' = c" "same_runs db db'"
  using keepsD [OF keeps_emit_candles [where P = "\<lambda>x. x = c"] _ assms] keepsD [OF quiet.keeps_emit [of db] _ assms] by auto

lemma record_run_stored:
  assumes "record_run e inp started (w, (c, db)) = (Inr warnings, (w', (c', db')))"
  shows "c' = c" "\<exists>db0. store_run (running_record e inp started) db = (Inr (), db0) \<and> same_runs db0 db'"
proof -
  from assms obtain db0 ev where st: "store_run (running_record e inp started) db = (Inr (), db0)"
    and em: "emit_events e [ev] (w, (c, db0)) = (Inr warnings, (w', (c', db')))"
    by (auto simp: record_run_def sbind_Inr on_runs_Inr)
  show "c' = c" using emit_same(1) [OF em] .
  show "\<exists>db0. store_run (running_record e inp started) db = (Inr (), db0) \<and> same_runs db0 db'"
    using st emit_same(2) [OF em] by blast
qed

lemma fail_run_recorded:
  assumes run: "fail_run e req started inp x (w, (c, db)) = (Inr rc, (w', (c', db')))"
    and r: "find_run db (ri_run_id inp) = Some r" "run_record.truncate r = running_record e inp started"
  shows "c' = c \<and> rv_run_id rc = Some (ri_run_id inp) \<and> receipt_recorded e inp rc db db'"
proof -
  obtain t w1 where now: "en_clock_ms e w = (t, w1)" by (cases "en_clock_ms e w")
  let ?err = "bounded_error x"
  from run obtain q db1 ms where fin: "finish_run (ri_run_id inp) ''FAILED'' t (Some ?err) None db = (Inr q, db1)"
    and em: "emit_terminal e (ri_strategy inp) (ri_run_id inp) [] False (Some ?err) (ri_evaluation_time inp) t (w1, (c, db1))
        = (Inr ms, (w', (c', db')))"
    and rc: "rv_run_id rc = Some (ri_run_id inp)" "rv_status rc = ''FAILED''" "rv_started_at_ms rc = started"
      "rv_completed_at_ms rc = t" "rv_error rc = Some ?err"
    by (auto simp: fail_run_def Let_def sbind_Inr engine_now_eq now on_runs_Inr)
  have "rn_status r = ''RUNNING''" using r(2) truncate_fields(2) [of r] by (simp add: running_record_fields)
  note f = finish_run_failed [OF fin r(1) this]
  from same_runs_found [OF terminal_same(2) [OF em] f(1)] obtain r' where
    r': "find_run db' (ri_run_id inp) = Some r'" "run_record.truncate r' = failed_record e inp rc"
    by (auto simp: truncate_end r(2) failed_record_def rc)
  have "other_runs_same (ri_run_id inp) db db'"
    using f(2) same_runs_other [OF terminal_same(2) [OF em]] by (rule other_runs_trans)
  moreover have "evidence_added (ri_run_id inp) [] db db'"
    using f(3,4) same_runs_evidence [OF terminal_same(2) [OF em]] by (simp add: evidence_added_def)
  ultimately show ?thesis using r' rc terminal_same(1) [OF em] by (simp add: receipt_recorded_def)
qed

lemma complete_run_recorded:
  assumes body: "analyse_and_commit e inp (w0, (c0, db)) = (Inr out, (w, (c, db1)))"
    and run: "complete_run e req started inp warnings out (w, (c, db1)) = (Inr rc, (w', (c', db')))"
    and r: "find_run db (ri_run_id inp) = Some r" "run_record.truncate r = running_record e inp started"
  shows "c' = c0 \<and> rv_run_id rc = Some (ri_run_id inp) \<and> receipt_recorded e inp rc db db'"
proof -
  obtain ds t where out: "out = (ds, t)" by (cases out)
  from analyse_and_commit_cases(3) [OF body, of ds t] out obtain results q where
    an: "analyse (en_plugin_factories e) inp = Inr results" "ds = map snd results"
    and co: "commit_run (ri_run_id inp) (map (observation_record_of (ri_run_id inp)) (concat (map fst results)))
              (map (decision_record_of (ri_run_id inp)) ds) t db = (Inr q, db1)" by auto
  have c: "c = c0" using analyse_and_commit_cases(1) [OF body] .
  from run obtain more where em: "emit_terminal e (ri_strategy inp) (ri_run_id inp) ds True None (ri_evaluation_time inp) t (w, (c, db1))
        = (Inr more, (w', (c', db')))"
    and rc: "rc = succeeded_receipt req started inp t (length ds) (warnings @ more)"
    by (auto simp: complete_run_def out sbind_Inr)
  from commit_run_result [OF co] r(1) have f: "find_run db1 (ri_run_id inp) = Some (succeed t r)"
    and ev: "observation_rows db1 = observation_rows db @ map observation_row_of (map (observation_record_of (ri_run_id inp)) (concat (map fst results)))"
      "decision_rows db1 = decision_rows db @ map decision_row_of (map (decision_record_of (ri_run_id inp)) ds)"
    and other: "other_runs_same (ri_run_id inp) db db1"
    by (auto simp: other_runs_same_def)
  from same_runs_found [OF terminal_same(2) [OF em] f] obtain r' where
    r': "find_run db' (ri_run_id inp) = Some r'" "run_record.truncate r' = succeeded_record e inp rc"
    by (auto simp: truncate_end r(2) succeeded_record_def rc succeeded_receipt_def)
  have "other_runs_same (ri_run_id inp) db db'"
    using other same_runs_other [OF terminal_same(2) [OF em]] by (rule other_runs_trans)
  moreover have "evidence_added (ri_run_id inp) results db db'"
    using ev same_runs_evidence [OF terminal_same(2) [OF em]] by (simp add: evidence_added_def an)
  ultimately show ?thesis using r' an c terminal_same(1) [OF em]
    by (simp add: receipt_recorded_def rc succeeded_receipt_def receipt_success_statuses_def)
qed

lemma evaluate_run_recorded:
  assumes run: "evaluate_run e req started inp warnings (w, (c, db)) = (Inr rc, (w', (c', db')))"
    and r: "find_run db (ri_run_id inp) = Some r" "run_record.truncate r = running_record e inp started"
  shows "c' = c \<and> rv_run_id rc = Some (ri_run_id inp) \<and> receipt_recorded e inp rc db db'"
proof -
  obtain res w1 c1 db1 where res: "analyse_and_commit e inp (w, (c, db)) = (res, (w1, (c1, db1)))" by (metis prod.collapse)
  show ?thesis
  proof (cases res)
    case (Inl x)
    have "c1 = c" "db1 = db" using analyse_and_commit_cases(1,2) [OF res] Inl by auto
    with run res Inl have "fail_run e req started inp x (w1, (c, db)) = (Inr rc, (w', (c', db')))"
      by (simp add: evaluate_run_def)
    from fail_run_recorded [OF this r] show ?thesis .
  next
    case (Inr out)
    with run res have "complete_run e req started inp warnings out (w1, (c1, db1)) = (Inr rc, (w', (c', db')))"
      by (simp add: evaluate_run_def)
    from complete_run_recorded [OF res [unfolded Inr] this r] show ?thesis .
  qed
qed

lemma run_locked_recorded:
  assumes run: "run_locked e req started (w, (c, db)) = (Inr rc, (w', (c', db')))"
  shows "\<exists>inp w1 c1. prepare_run e req (w, (c, db)) = (Inr inp, (w1, (c1, db))) \<and> c' = c1
    \<and> rv_run_id rc = Some (ri_run_id inp) \<and> receipt_recorded e inp rc db db'"
proof -
  from run obtain inp w1 c1 db1 warnings w2 c2 db2 where p: "prepare_run e req (w, (c, db)) = (Inr inp, (w1, (c1, db1)))"
    and rec: "record_run e inp started (w1, (c1, db1)) = (Inr warnings, (w2, (c2, db2)))"
    and ev: "evaluate_run e req started inp warnings (w2, (c2, db2)) = (Inr rc, (w', (c', db')))"
    by (auto simp: run_locked_def sbind_Inr)
  have db1: "db1 = db" using keepsD [OF keeps_prepare [where P = "\<lambda>x. x = db"] _ p] by simp
  have c2: "c2 = c1" using record_run_stored(1) [OF rec] .
  from record_run_stored(2) [OF rec] obtain db0 where
    st: "store_run (running_record e inp started) db = (Inr (), db0)" and same: "same_runs db0 db2" by (auto simp: db1)
  note s = store_run_stored [OF st, unfolded running_record_fields]
  from s(1) same_runs_found [OF same] obtain r where
    r: "find_run db2 (ri_run_id inp) = Some r" "run_record.truncate r = running_record e inp started" by fastforce
  from evaluate_run_recorded [OF ev r] have rest: "c' = c2" "rv_run_id rc = Some (ri_run_id inp)" "receipt_recorded e inp rc db2 db'"
    by blast+
  have "other_runs_same (ri_run_id inp) db db2"
    using s(2) same_runs_other [OF same] by (rule other_runs_trans)
  with rest(3) have "receipt_recorded e inp rc db db'"
    using same_runs_evidence [OF same] s(3,4)
    by (auto simp: receipt_recorded_def evidence_added_def intro: other_runs_trans)
  with p rest(1,2) c2 db1 show ?thesis by blast
qed

lemma engine_run_cases:
  assumes run: "engine_run e req (w, (c, db)) = (Inr rc, (w', (c', db')))"
  shows "rc = overlap_receipt req (rv_started_at_ms rc) (rv_completed_at_ms rc) \<and> c' = c \<and> db' = db \<or>
    (\<exists>inp w1 w2. prepare_run e req (w1, (c, db)) = (Inr inp, (w2, (c', db)))
      \<and> rv_run_id rc = Some (ri_run_id inp) \<and> receipt_recorded e inp rc db db')"
proof -
  obtain t w1 where now: "en_clock_ms e w = (t, w1)" by (cases "en_clock_ms e w")
  obtain got w2 where acq: "en_acquire e w1 = (got, w2)" by (cases "en_acquire e w1")
  show ?thesis
  proof (cases got)
    case (Inl x)
    with run show ?thesis by (simp add: engine_run_def sbind_def engine_now_eq now on_world_def acq)
  next
    case (Inr b)
    show ?thesis
    proof (cases b)
      case False
      obtain u w3 where "en_clock_ms e w2 = (u, w3)" by (cases "en_clock_ms e w2")
      with run Inr False show ?thesis
        by (auto simp: engine_run_def sbind_def engine_now_eq now on_world_def acq sreturn_def overlap_receipt_def)
    next
      case True
      obtain res s3 where locked: "run_locked e req t (w2, (c, db)) = (res, s3)" by (cases "run_locked e req t (w2, (c, db))")
      with run Inr True have "res = Inr rc" "s3 = (fst s3, (c', db'))"
        by (auto simp: engine_run_def sbind_def engine_now_eq now on_world_def acq sfinally_def prod_eq_iff)
      with locked have "run_locked e req t (w2, (c, db)) = (Inr rc, (fst s3, (c', db')))" by simp
      from run_locked_recorded [OF this] show ?thesis by blast
    qed
  qed
qed

end

section \<open>The candles of a run\<close>

text \<open>One stored candle for every minute of the range.\<close>

definition complete_series :: "candle_db \<Rightarrow> string \<Rightarrow> int \<Rightarrow> int \<Rightarrow> string \<times> candle list \<Rightarrow> bool" where
  "complete_series db pid a b ics \<longleftrightarrow> map open_time_ms (snd ics) = minutes a b
     \<and> list_all (\<lambda>x. find_row db (pid, market_type_name, fst ics, ''1m'', open_time_ms x) = Some x) (snd ics)"

lemma complete_series_grown: "complete_series c pid a b ics \<Longrightarrow> rows_grown c c' \<Longrightarrow> complete_series c' pid a b ics"
  by (auto simp: complete_series_def historical.grown_def list_all_iff)

lemma rows_grown_trans: "rows_grown a b \<Longrightarrow> rows_grown b c \<Longrightarrow> rows_grown a c"
  by (simp add: historical.grown_def)

lemma on_candles_Inr:
  "on_candles m (w, (c, db)) = (Inr x, s') \<longleftrightarrow> (\<exists>w' c'. m (w, c) = (Inr x, (w', c')) \<and> s' = (w', (c', db)))"
  by (auto simp: on_candles_def split: prod.splits)

lemma sync_instrument_complete:
  assumes "typed_provider pv" "candle_db_wf c"
    and run: "sync_instrument pv market a b i (w, (c, db)) = (Inr got, (w', (c', db')))"
  shows "rows_grown c c' \<and> map fst got = [i] \<and> list_all (complete_series c' (pv_id pv) a b) got"
proof -
  from run obtain symbol res where
    h: "historical_sync_range pv sqlite_repo \<lparr>im_instrument_id = i, im_provider_symbol = symbol\<rparr> a b (w, c) = (Inr res, (w', c'))"
    and l: "got = [(i, is_candles res)]"
    by (auto simp: sync_instrument_def sbind_Inr mk_mapping_def on_candles_Inr)
  have "rows_grown c c'"
    using keepsD [OF keeps_historical [OF assms(1)] _ h, of c] assms(2) by (simp add: historical.grown_refl)
  with historical_result [OF assms(1,2) h] show ?thesis
    by (simp add: l complete_series_def market_row_key_def)
qed

lemma sync_all_complete:
  assumes "typed_provider pv" "candle_db_wf c"
    and "collect (sync_instrument pv market a b) instruments (w, (c, db)) = (Inr got, (w', (c', db')))"
  shows "rows_grown c c' \<and> map fst got = instruments \<and> list_all (complete_series c' (pv_id pv) a b) got"
  using assms(2,3)
proof (induction instruments arbitrary: w c db got)
  case Nil
  then show ?case by (simp add: historical.grown_refl)
next
  case (Cons i rest)
  from Cons.prems(2) obtain one more w1 c1 db1 where
    h: "sync_instrument pv market a b i (w, (c, db)) = (Inr one, (w1, (c1, db1)))"
    and t: "collect (sync_instrument pv market a b) rest (w1, (c1, db1)) = (Inr more, (w', (c', db')))"
    and l: "got = one @ more"
    by (auto simp: sbind_Inr)
  note first = sync_instrument_complete [OF assms(1) Cons.prems(1) h]
  then have "candle_db_wf c1" by (simp add: historical.grown_def)
  from Cons.IH [OF this t] first show ?case
    by (auto simp: l list_all_iff intro: rows_grown_trans complete_series_grown)
qed

definition typed_factory :: "'w engine \<Rightarrow> bool" where
  "typed_factory e \<longleftrightarrow> (\<forall>market w pv w'. en_provider_factory e market w = (Inr pv, w') \<longrightarrow> typed_provider pv)"

lemma prepare_run_complete:
  assumes "typed_factory e" "candle_db_wf c" "prepare_run e req (w, (c, db)) = (Inr inp, (w', (c', db')))"
  shows "\<exists>pid. map fst (ri_loaded inp) = sy_instruments (ri_strategy inp)
    \<and> list_all (complete_series c' pid (ri_first_open inp) (ri_latest_open inp)) (ri_loaded inp)
    \<and> ri_first_open inp = ri_latest_open inp - (sy_history_minutes (ri_strategy inp) - 1) * 60000
    \<and> ri_run_id inp = run_id_of e inp"
proof -
  from assms(3) obtain config pv got w1 w2 w3 latest where
    pv: "en_provider_factory e (uc_market_data config) w1 = (Inr pv, w2)"
    and col: "collect (sync_instrument pv (uc_market_data config) (latest - (sy_history_minutes (uc_strategy config) - 1) * 60000) latest)
        (sy_instruments (uc_strategy config)) (w3, (c, db)) = (Inr got, (w', (c', db')))"
    and inp: "inp = (let i = \<lparr>ri_config = config, ri_first_open = latest - (sy_history_minutes (uc_strategy config) - 1) * 60000,
        ri_latest_open = latest, ri_loaded = got, ri_run_id = []\<rparr> in i\<lparr>ri_run_id := run_id_of e i\<rparr>)"
    by (auto simp: prepare_run_def Let_def sbind_Inr on_world_Inr split: if_splits)
  have "typed_provider pv" using assms(1) pv by (auto simp: typed_factory_def)
  from sync_all_complete [OF this assms(2) col] show ?thesis
    by (auto simp: inp Let_def ri_strategy_def run_id_of_def data_hash_of_def ri_evaluation_time_def intro!: exI [of _ "pv_id pv"])
qed

lemma prepare_run_id: "prepare_run e req s = (Inr inp, s') \<Longrightarrow> ri_run_id inp = run_id_of e inp"
  by (auto simp: prepare_run_def Let_def sbind_Inr run_id_of_def data_hash_of_def ri_evaluation_time_def ri_strategy_def
      split: if_splits)

section \<open>Properties\<close>

text \<open>C28:
  A run that returns has either been skipped, and then nothing has changed, or has left exactly one
  record under the identity of its inputs. A failed run is recorded as failed with the error and the
  times of the receipt and has added no evidence; a run that succeeded, with warnings or without, is
  recorded as succeeded, and the evidence added is exactly the analysis of its candles, one decision
  per instrument. The sinks may fail in any way, and all other runs are as before.\<close>

theorem engine_run_recorded:
  assumes run: "engine_run e req (w, (c, db)) = (Inr rc, (w', (c', db')))" and quiet: "quiet_engine e"
  shows "rc = overlap_receipt req (rv_started_at_ms rc) (rv_completed_at_ms rc) \<and> c' = c \<and> db' = db \<or>
    (\<exists>inp. rv_run_id rc = Some (run_id_of e inp) \<and> ri_run_id inp = run_id_of e inp \<and> receipt_recorded e inp rc db db')"
  using quiet_engine.engine_run_cases [OF quiet run]
proof (elim disjE exE conjE)
  fix inp w1 w2
  assume "prepare_run e req (w1, (c, db)) = (Inr inp, (w2, (c', db)))" "rv_run_id rc = Some (ri_run_id inp)"
    "receipt_recorded e inp rc db db'"
  then show ?thesis using prepare_run_id by metis
qed simp

text \<open>C29:
  The evidence a successful run adds is the analysis of complete candles: for every instrument of the
  strategy the repository holds one candle for every minute of the configured history up to the last
  closed minute, and these candles are what was analysed.\<close>

theorem engine_decides_on_complete_history:
  assumes run: "engine_run e req (w, (c, db)) = (Inr rc, (w', (c', db')))" and quiet: "quiet_engine e"
    and typed: "typed_factory e" and wf: "candle_db_wf c" and ok: "rv_status rc \<in> set receipt_success_statuses"
  shows "\<exists>inp results pid. map fst (ri_loaded inp) = sy_instruments (ri_strategy inp)
    \<and> list_all (complete_series c' pid (ri_first_open inp) (ri_latest_open inp)) (ri_loaded inp)
    \<and> ri_first_open inp = ri_latest_open inp - (sy_history_minutes (ri_strategy inp) - 1) * 60000
    \<and> analyse (en_plugin_factories e) inp = Inr results \<and> evidence_added (run_id_of e inp) results db db'"
proof -
  have "rc \<noteq> overlap_receipt req (rv_started_at_ms rc) (rv_completed_at_ms rc)"
    using ok by (cases rc) (auto simp: overlap_receipt_def receipt_success_statuses_def)
  with quiet_engine.engine_run_cases [OF quiet run] obtain inp w1 w2 where
    p: "prepare_run e req (w1, (c, db)) = (Inr inp, (w2, (c', db)))" and rec: "receipt_recorded e inp rc db db'" by blast
  from rec ok obtain results where "analyse (en_plugin_factories e) inp = Inr results" "evidence_added (ri_run_id inp) results db db'"
    by (auto simp: receipt_recorded_def receipt_success_statuses_def split: if_splits)
  with prepare_run_complete [OF typed wf p] show ?thesis by metis
qed

section \<open>A run of a small strategy\<close>

definition sample_configuration :: runtime_configuration where
  "sample_configuration = \<lparr>uc_strategy = \<lparr>sy_name = ''levels'', sy_version = ''1'', sy_instruments = [''CRYPTO-BTC-USDT-PERP''],
       sy_history_minutes = 2, sy_roles = [(''execution'', ''5m'')], sy_signals = []\<rparr>,
     uc_market_data = \<lparr>md_provider = ''okx_swap'', md_market_type = market_type_name,
       md_instruments = [(''CRYPTO-BTC-USDT-PERP'', ''BTC-USDT-SWAP'')]\<rparr>,
     uc_notifications = \<lparr>nc_enabled = False, nc_destinations = []\<rparr>\<rparr>"

definition sample_engine :: "unit engine" where
  "sample_engine = \<lparr>en_provider_factory = (\<lambda>market. sreturn sample_provider), en_plugin_factories = [],
     en_acquire = sreturn True, en_release = id, en_config_loader = (\<lambda>req. sreturn sample_configuration),
     en_clock_ms = (\<lambda>w. (200000, w)), en_code_hash = replicate 64 CHR ''a'', en_event_sink = None, en_batch_sink = None\<rparr>"

definition sample_request :: run_request where
  "sample_request = \<lparr>rr_strategy_path = ''s.yaml'', rr_market_data_path = ''m.yaml'', rr_notifications_path = None,
     rr_trigger = ''manual''\<rparr>"

definition sample_inputs :: run_inputs where
  "sample_inputs = \<lparr>ri_config = sample_configuration, ri_first_open = 0, ri_latest_open = 60000,
     ri_loaded = [(''CRYPTO-BTC-USDT-PERP'', sample_history)], ri_run_id = []\<rparr>"

abbreviation sample_started :: run_inputs where
  "sample_started \<equiv> sample_inputs\<lparr>ri_run_id := run_id_of sample_engine sample_inputs\<rparr>"

lemma sample_quiet: "quiet_engine sample_engine"
  by unfold_locales (simp_all add: sink_contract_def sample_engine_def)

lemma sample_typed_factory: "typed_factory sample_engine"
  using sample_typed by (simp add: typed_factory_def sample_engine_def sreturn_def)

lemma sample_engine_fields:
  "en_clock_ms sample_engine w = (200000, w)" "en_event_sink sample_engine = None" "en_plugin_factories sample_engine = []"
  "en_acquire sample_engine = sreturn True" "en_release sample_engine = id"
  "en_config_loader sample_engine req = sreturn sample_configuration"
  "en_provider_factory sample_engine market = sreturn sample_provider"
  "en_code_hash sample_engine = replicate 64 CHR ''a''"
  by (simp_all add: sample_engine_def)

lemma sample_prepared:
  "\<exists>c'. prepare_run sample_engine sample_request ((), (empty_candle_db, db)) = (Inr sample_started, ((), (c', db)))"
proof -
  obtain res c' where h: "historical_sync_range sample_provider sqlite_repo sample_mapping 0 60000 ((), empty_candle_db) = (Inr res, ((), c'))"
    "is_candles res = sample_history" using sample_synchronised by auto
  have m: "mk_mapping \<lparr>im_instrument_id = ''CRYPTO-BTC-USDT-PERP'', im_provider_symbol = ''BTC-USDT-SWAP''\<rparr> = Inr sample_mapping"
    by code_simp
  have latest: "pv_latest_closed sample_provider () = (Inr 60000, ())" by (simp add: sample_provider_def sreturn_def)
  show ?thesis
    using h by (simp add: prepare_run_def sample_engine_fields sbind_def on_world_def sreturn_def Let_def sample_configuration_def
        latest sync_instrument_def slift_def dict_index_def m on_candles_def sample_inputs_def sguard_def)
qed

lemma sample_analysed:
  "\<exists>d. analyse [] sample_started = Inr [([], d)] \<and> decision_row_check (decision_row_of (decision_record_of rid d))"
proof -
  have "is_ok (resample_roles sample_history [(''execution'', ''5m'')] (Some 119999))" by code_simp
  then obtain roles where roles: "resample_roles sample_history [(''execution'', ''5m'')] (Some 119999) = Inr roles"
    by (auto simp: is_ok_iff)
  let ?raw = "\<lparr>de_instrument_id = ''CRYPTO-BTC-USDT-PERP'', de_status = ''UNAVAILABLE'', de_direction = None, entry_text = None,
      stop_text = None, target_text = None, first_failed_signal = Some ''decision.levels'',
      de_payload = PDict [(PStr ''observation_hashes'', PDict [])]\<rparr> :: raw_decision"
  have "case mk_decision ?raw of Inr d \<Rightarrow> de_instrument_id d = ''CRYPTO-BTC-USDT-PERP'' \<and> de_status d = ''UNAVAILABLE''
      \<and> de_direction d = None \<and> entry_text d = None \<and> stop_text d = None \<and> target_text d = None
      \<and> first_failed_signal d = Some ''decision.levels'' | Inl _ \<Rightarrow> False" by code_simp
  then obtain d where d: "mk_decision ?raw = Inr d" "de_instrument_id d = ''CRYPTO-BTC-USDT-PERP''"
    "de_status d = ''UNAVAILABLE''" "de_direction d = None" "entry_text d = None" "stop_text d = None" "target_text d = None"
    "first_failed_signal d = Some ''decision.levels''" by (auto split: sum.splits)
  let ?cx = "\<lparr>cx_instrument_id = ''CRYPTO-BTC-USDT-PERP'', evaluation_time_ms = 119999, candles_by_role = roles,
      timeframes_by_role = [(''execution'', ''5m'')]\<rparr>"
  have "instrument_id ''CRYPTO-BTC-USDT-PERP'' = Inr ''CRYPTO-BTC-USDT-PERP''" "timeframe ''5m'' = Inr ''5m''" by code_simp+
  then have cx: "mk_context ?cx = Inr ?cx" by (simp add: mk_context_def)
  have "topological_order [] [] = Inr []" by code_simp
  then have g: "mk_graph [] [] = Inr \<lparr>g_ordered = [], g_factories = []\<rparr>" by (simp add: mk_graph_def)
  have ex: "execute \<lparr>g_ordered = [], g_factories = []\<rparr> ?cx = Inr []" by (simp add: execute_def)
  have de: "decide [] ?cx [] = Inr d" by (simp add: decide_def policy_order_def non_ready_def d(1))
  have "analyse [] sample_started = Inr [([], d)]"
    by (simp add: analyse_def analyse_instrument_def sample_inputs_def ri_strategy_def sample_configuration_def
        configured_nodes_def configured_decision_signals_def ri_evaluation_time_def dict_index_def dict_of_def roles cx g ex de)
  moreover have "is_upper_text ''CRYPTO-BTC-USDT-PERP''" by code_simp
  then have "decision_row_check (decision_row_of (decision_record_of rid d))"
    by (simp add: decision_row_check_def decision_row_of_def decision_record_of_def d sql_opt_def)
  ultimately show ?thesis by blast
qed

lemma sample_row_check:
  assumes "is_hex64 rid"
  shows "run_row_check (new_row (running_record sample_engine (sample_inputs\<lparr>ri_run_id := rid\<rparr>) 200000))"
    "run_row_check (succeed 200000 (new_row (running_record sample_engine (sample_inputs\<lparr>ri_run_id := rid\<rparr>) 200000)))"
proof -
  have hex: "is_hex64 (replicate 64 CHR ''a'')" by code_simp
  show "run_row_check (new_row (running_record sample_engine (sample_inputs\<lparr>ri_run_id := rid\<rparr>) 200000))"
    "run_row_check (succeed 200000 (new_row (running_record sample_engine (sample_inputs\<lparr>ri_run_id := rid\<rparr>) 200000)))"
    by (simp_all add: run_row_check_def new_row_def running_record_def succeed_def run_record.defs run_row.defs sample_inputs_def
        sample_configuration_def ri_strategy_def ri_evaluation_time_def sample_engine_fields hash_strategy_def
        hash_market_data_def data_hash_of_def hash_candles_def hex provenance_check_def run_state_check_def sql_opt_def)
qed

lemma sample_engine_runs:
  "\<exists>rc c' db'. engine_run sample_engine sample_request ((), (empty_candle_db, empty_run_db)) = (Inr rc, ((), (c', db')))
    \<and> rv_status rc = ''SUCCEEDED''"
proof -
  let ?inp = sample_started
  let ?rid = "ri_run_id ?inp" and ?row = "new_row (running_record sample_engine ?inp 200000)"
  have rid: "is_hex64 ?rid" by (simp add: run_id_of_def run_identity_def)
  then have rne: "?rid \<noteq> []" by (auto simp: is_hex64_def)
  obtain c' where p: "prepare_run sample_engine sample_request ((), (empty_candle_db, empty_run_db)) = (Inr ?inp, ((), (c', empty_run_db)))"
    using sample_prepared by blast
  obtain d where d: "analyse [] ?inp = Inr [([], d)]" "decision_row_check (decision_row_of (decision_record_of ?rid d))"
    using sample_analysed by blast
  let ?db1 = "empty_run_db\<lparr>run_rows := [?row]\<rparr>"
  have fields: "rn_run_id ?row = ?rid" "rn_status ?row = ''RUNNING''"
    by (simp_all add: new_row_def running_record_def run_record.defs Let_def)
  have found: "find_run ?db1 ?rid = Some ?row" using fields by (simp add: find_run_def)
  have git: "rn_git_commit (running_record sample_engine ?inp 200000) = None" by (simp add: running_record_def Let_def)
  have st: "store_run (running_record sample_engine ?inp 200000) empty_run_db = (Inr (), ?db1)"
    using sample_row_check(1) [OF rid] git
    by (simp add: store_run_def transaction_def empty_run_db_def find_run_def insert_run_def)
  have ev: "\<exists>ev. started_event ?inp 200000 = Inr ev"
    using rne by (simp add: started_event_def mk_event_def event_type_of_def event_types_def sample_inputs_def
        ri_strategy_def sample_configuration_def)
  let ?row' = "succeed 200000 ?row"
  let ?db2 = "?db1\<lparr>decision_rows := [decision_row_of (decision_record_of ?rid d)]\<rparr>"
  have key: "dw_run_id (decision_row_of (decision_record_of ?rid d)) = ?rid" "dr_run_id (decision_record_of ?rid d) = ?rid"
    by (simp_all add: decision_row_of_def decision_record_of_def)
  have ins: "insert_decision ?db1 (decision_row_of (decision_record_of ?rid d)) = Inr ?db2"
    using d(2) found key by (simp add: insert_decision_def find_decision_def empty_run_db_def)
  have run: "running ?rid ?row" using fields by (simp add: running_def)
  have up: "update_runs (running ?rid) (succeed 200000) ?db2 = Inr (?db2\<lparr>run_rows := [?row']\<rparr>)"
    using run sample_row_check(2) [OF rid] by (simp add: update_runs_def)
  have "rn_run_id ?row' = ?rid" using fields by (simp add: succeed_def)
  then have found': "find_run (?db2\<lparr>run_rows := [?row']\<rparr>) ?rid = Some ?row'" by (simp add: find_run_def)
  have co: "commit_run ?rid [] [decision_record_of ?rid d] 200000 ?db1
      = (Inr (run_record.truncate ?row'), ?db2\<lparr>run_rows := [?row']\<rparr>)"
    unfolding commit_run_def sbind_sguard using found fields(2) key ins up found'
    by (simp add: sbind_def transaction_def loaded_run_simp)
  from ev obtain ev where ev: "started_event ?inp 200000 = Inr ev" ..
  have rec: "record_run sample_engine ?inp 200000 ((), (c', empty_run_db)) = (Inr [], ((), (c', ?db1)))"
    by (simp add: record_run_def sbind_def on_runs_eq st slift_def ev emit_events_def sample_engine_fields sreturn_def)
  have body: "analyse_and_commit sample_engine ?inp ((), (c', ?db1)) = (Inr ([d], 200000), ((), (c', ?db2\<lparr>run_rows := [?row']\<rparr>)))"
    using d(1) co by (simp add: analyse_and_commit_def sbind_def slift_def sample_engine_fields engine_now_eq on_runs_eq sreturn_def)
  have "run_locked sample_engine sample_request 200000 ((), (empty_candle_db, empty_run_db))
      = (Inr (succeeded_receipt sample_request 200000 ?inp 200000 1 []), ((), (c', ?db2\<lparr>run_rows := [?row']\<rparr>)))"
    unfolding run_locked_def sbind_def p using rec body
    by (simp add: evaluate_run_def complete_run_def emit_terminal_def sample_engine_fields sbind_def sreturn_def)
  then show ?thesis
    by (simp add: engine_run_def sbind_def engine_now_eq sample_engine_fields on_world_def sreturn_def sfinally_def succeeded_receipt_def)
qed

theorem engine_run_recorded_witness:
  "\<exists>rc c' db' inp. engine_run sample_engine sample_request ((), (empty_candle_db, empty_run_db)) = (Inr rc, ((), (c', db')))
    \<and> rv_status rc = ''SUCCEEDED'' \<and> rv_run_id rc = Some (run_id_of sample_engine inp)
    \<and> receipt_recorded sample_engine inp rc empty_run_db db'"
proof -
  obtain rc c' db' where run: "engine_run sample_engine sample_request ((), (empty_candle_db, empty_run_db)) = (Inr rc, ((), (c', db')))"
    and st: "rv_status rc = ''SUCCEEDED''" using sample_engine_runs by blast
  have "rc \<noteq> overlap_receipt sample_request (rv_started_at_ms rc) (rv_completed_at_ms rc)"
    using st by (cases rc) (auto simp: overlap_receipt_def)
  with engine_run_recorded [OF run sample_quiet] run st show ?thesis by blast
qed

theorem engine_decides_on_complete_history_witness:
  "\<exists>rc c' db' inp results. engine_run sample_engine sample_request ((), (empty_candle_db, empty_run_db)) = (Inr rc, ((), (c', db')))
    \<and> map fst (ri_loaded inp) = sy_instruments (ri_strategy inp)
    \<and> analyse [] inp = Inr results \<and> evidence_added (run_id_of sample_engine inp) results empty_run_db db'"
proof -
  obtain rc c' db' where run: "engine_run sample_engine sample_request ((), (empty_candle_db, empty_run_db)) = (Inr rc, ((), (c', db')))"
    and st: "rv_status rc = ''SUCCEEDED''" using sample_engine_runs by blast
  have ok: "rv_status rc \<in> set receipt_success_statuses" using st by (simp add: receipt_success_statuses_def)
  from engine_decides_on_complete_history [OF run sample_quiet sample_typed_factory empty_db_wf ok] run show ?thesis
    unfolding sample_engine_fields by blast
qed

end
