(* ===== verification/Scheduler.thy ===== *)
theory Scheduler
  imports Runtime
begin

text \<open>
  The scheduler (\<^verbatim>\<open>application/scheduler.py\<close>): bounded retries, the durable record of every attempt of
  a job, recovery at start and the registration of the jobs. The scheduling library (its cron
  triggers, its threads and its lifecycle) and the operations of the jobs are parameters; the loop
  that skips fire times before the startup delay may run forever for an arbitrary trigger, so
  registration returns an option, \<open>None\<close> being a call that does not return. Log lines are not modelled.

  The lemmas show that retries are bounded and stop at the first final receipt, that every attempt
  that was started is ended with the outcome of its receipt whatever the operation does, and that a
  job first fires at the earliest time its trigger allows after the delay.
\<close>

section \<open>Retries\<close>

record retry_policy =
  rt_maximum_attempts :: int
  rt_backoff_seconds :: "int list"

definition mk_retry_policy :: "retry_policy \<Rightarrow> retry_policy result" where
  "mk_retry_policy p =
     rbind (rguard (1 \<le> rt_maximum_attempts p \<and> rt_maximum_attempts p \<le> 10) ValueError
              ''maximum attempts must be an integer from 1 to 10'') (\<lambda>_.
     rbind (rguard (int (length (rt_backoff_seconds p)) = rt_maximum_attempts p - 1) ValueError
              ''one backoff is required for each retry'') (\<lambda>_.
     rbind (rguard (list_all (\<lambda>v. 0 \<le> v \<and> v \<le> 3600) (rt_backoff_seconds p)) ValueError
              ''backoffs must be integer seconds from 0 to 3600'') (\<lambda>_. Inr p)))"

definition final_receipt :: "run_receipt \<Rightarrow> bool" where
  "final_receipt r \<longleftrightarrow> rv_status r \<in> set receipt_success_statuses \<or> rv_status r = ''OVERLAP_SKIPPED''"

fun retry_loop ::
    "('s, run_receipt) op \<Rightarrow> (int \<Rightarrow> ('s, unit) op) \<Rightarrow> int list \<Rightarrow> run_receipt \<Rightarrow> ('s, run_receipt) op" where
  "retry_loop operation sleep [] r = sreturn r"
| "retry_loop operation sleep (d # ds) r =
     (if final_receipt r then sreturn r
      else sbind (sleep d) (\<lambda>_. sbind operation (\<lambda>r'. retry_loop operation sleep ds r')))"

definition run_with_retries ::
    "('s, run_receipt) op \<Rightarrow> retry_policy \<Rightarrow> (int \<Rightarrow> ('s, unit) op) \<Rightarrow> ('s, run_receipt) op" where
  "run_with_retries operation policy sleep =
     sbind operation (\<lambda>r. retry_loop operation sleep (rt_backoff_seconds policy) r)"

section \<open>The scheduler\<close>

text \<open>The operation of a job, with the \<^verbatim>\<open>shutdown\<close> some operations have.\<close>

record 's job_operation =
  jo_call :: "('s, run_receipt) op"
  jo_shutdown :: "(rat \<Rightarrow> ('s, unit) op) option"

text \<open>The scheduling library; times of triggers are microseconds.\<close>

record 'w backend =
  bk_running :: "'w \<Rightarrow> bool"
  bk_trigger :: "string \<Rightarrow> (int option \<Rightarrow> int \<Rightarrow> int option) result"
  bk_now :: "'w \<Rightarrow> int \<times> 'w"
  bk_add_job :: "schedule_job \<Rightarrow> int option \<Rightarrow> ('w, unit) op"
  bk_start :: "bool \<Rightarrow> ('w, unit) op"
  bk_pause :: "('w, unit) op"
  bk_shutdown :: "bool \<Rightarrow> ('w, unit) op"

record 'w scheduler =
  sd_schedule :: schedule_config
  sd_operation_factory :: "schedule_job \<Rightarrow> ('w \<times> run_db) job_operation result"
  sd_code_hash :: string
  sd_clock_ms :: "'w \<Rightarrow> int \<times> 'w"
  sd_retry_policy :: retry_policy
  sd_sleep :: "int \<Rightarrow> ('w, unit) op"
  sd_recovery_lock :: "(('w, bool) op \<times> ('w \<Rightarrow> 'w)) option"
  sd_backend :: "'w backend"
  sd_monotonic :: "'w \<Rightarrow> rat \<times> 'w"

definition mk_scheduler :: "'w scheduler \<Rightarrow> 'w scheduler result" where
  "mk_scheduler sd = rbind (rguard (sc_timezone (sd_schedule sd) = ''UTC'') ValueError
     ''scheduler requires the validated UTC schedule'') (\<lambda>_. Inr sd)"

record 'w scheduler_memory =
  sm_operations :: "('w \<times> run_db) job_operation list"
  sm_recovered :: "string list"
  sm_ready :: bool
  sm_attempt_sequence :: int

definition new_scheduler_memory :: "'w scheduler_memory" where
  "new_scheduler_memory = \<lparr>sm_operations = [], sm_recovered = [], sm_ready = False, sm_attempt_sequence = 0\<rparr>"

type_synonym 'w scheduler_state = "'w scheduler_memory \<times> ('w \<times> run_db)"

definition scheduler_now :: "'w scheduler \<Rightarrow> ('w scheduler_state, int) op" where
  "scheduler_now sd = on_second (on_first (\<lambda>w. case sd_clock_ms sd w of (t, w') \<Rightarrow> (Inr t, w')))"

definition on_attempts :: "(run_db, 'a) op \<Rightarrow> ('w scheduler_state, 'a) op" where
  "on_attempts m = on_second (on_second m)"

definition on_backend :: "('w, 'a) op \<Rightarrow> ('w scheduler_state, 'a) op" where
  "on_backend m = on_second (on_first m)"

subsection \<open>Attempts\<close>

definition next_attempt_sequence :: "('w scheduler_state, int) op" where
  "next_attempt_sequence s =
     (let n = sm_attempt_sequence (fst s) in (Inr n, ((fst s)\<lparr>sm_attempt_sequence := n + 1\<rparr>, snd s)))"

definition durable_outcome :: "run_receipt \<Rightarrow> string" where
  "durable_outcome r =
     (if final_receipt r then rv_status r
      else if rv_status r = ''FAILED'' then
        (case rv_error r of None \<Rightarrow> ''FAILED'' | Some x \<Rightarrow> if x \<in> set scheduler_failure_outcomes then x else ''FAILED'')
      else ''FAILED'')"

text \<open>\<^verbatim>\<open>run_with_retries\<close> inside \<^verbatim>\<open>except Exception\<close>.\<close>

definition guarded_receipt :: "'w scheduler \<Rightarrow> ('w \<times> run_db) job_operation \<Rightarrow> int \<Rightarrow> ('w scheduler_state, run_receipt) op" where
  "guarded_receipt sd operation started =
     scatch (on_second (run_with_retries (jo_call operation) (sd_retry_policy sd) (\<lambda>d. on_first (sd_sleep sd d))))
       (\<lambda>x. sbind (scheduler_now sd) (\<lambda>completed.
          sreturn \<lparr>rv_run_id = None, rv_status = ''FAILED'', rv_trigger = ''scheduled'', rv_started_at_ms = started,
            rv_completed_at_ms = completed, rv_instrument_count = 0, rv_decision_count = 0,
            rv_error = Some (exn_name (exn_kind x))\<rparr>))"

definition run_job :: "'w scheduler \<Rightarrow> ('w \<times> run_db) job_operation \<Rightarrow> string \<Rightarrow> ('w scheduler_state, run_receipt) op" where
  "run_job sd operation job =
     sbind (scheduler_now sd) (\<lambda>started.
     sbind next_attempt_sequence (\<lambda>sequence.
     sbind (on_attempts (start_scheduler_attempt (sd_code_hash sd) job started sequence)) (\<lambda>attempt.
     sbind (guarded_receipt sd operation started) (\<lambda>receipt.
     sbind (scheduler_now sd) (\<lambda>now.
     sbind (on_attempts (finish_scheduler_attempt attempt (durable_outcome receipt) (max started now))) (\<lambda>_.
     sreturn receipt))))))"

definition record_overlap :: "'w scheduler \<Rightarrow> string \<Rightarrow> int \<Rightarrow> ('w scheduler_state, unit) op" where
  "record_overlap sd job scheduled =
     sbind next_attempt_sequence (\<lambda>sequence.
     sbind (on_attempts (start_scheduler_attempt (sd_code_hash sd) job scheduled sequence)) (\<lambda>attempt.
     sbind (scheduler_now sd) (\<lambda>now.
     sbind (on_attempts (finish_scheduler_attempt attempt ''OVERLAP_SKIPPED'' (max scheduled now))) (\<lambda>_.
     sreturn ()))))"

text \<open>The listener of \<^verbatim>\<open>EVENT_JOB_MAX_INSTANCES\<close>; the scheduled times are milliseconds here.\<close>

definition handle_scheduler_event :: "'w scheduler \<Rightarrow> string \<Rightarrow> int list \<Rightarrow> ('w scheduler_state, unit) op" where
  "handle_scheduler_event sd job moments = sfor (record_overlap sd job) moments"

subsection \<open>Start\<close>

text \<open>The loop of \<^verbatim>\<open>start\<close> over the fire times before the startup delay.\<close>

partial_function (option) skip_early :: "(int option \<Rightarrow> int \<Rightarrow> int option) \<Rightarrow> int \<Rightarrow> int option \<Rightarrow> int option option" where
  "skip_early trigger not_before next_fire =
     (case next_fire of
        None \<Rightarrow> Some None
      | Some t \<Rightarrow> if t < not_before then skip_early trigger not_before (trigger (Some t) t) else Some (Some t))"

definition first_fire :: "(int option \<Rightarrow> int \<Rightarrow> int option) \<Rightarrow> int \<Rightarrow> int \<Rightarrow> int option option" where
  "first_fire trigger now delay = skip_early trigger (now + delay * 1000000) (trigger None now)"

definition add_operation :: "('w \<times> run_db) job_operation \<Rightarrow> ('w scheduler_state, unit) op" where
  "add_operation operation = poke (\<lambda>s. (sm_operations_update (\<lambda>os. os @ [operation]) (fst s), snd s))"

definition register_job :: "'w scheduler \<Rightarrow> schedule_job \<Rightarrow> 'w scheduler_state \<Rightarrow> (unit result \<times> 'w scheduler_state) option" where
  "register_job sd job s =
     (case sd_operation_factory sd job of
        Inl x \<Rightarrow> Some (Inl x, s)
      | Inr operation \<Rightarrow>
          (case add_operation operation s of (_, s1) \<Rightarrow>
          (case bk_trigger (sd_backend sd) (sj_cron job) of
             Inl x \<Rightarrow> Some (Inl x, s1)
           | Inr trigger \<Rightarrow>
               (case bk_now (sd_backend sd) (fst (snd s1)) of (now, w) \<Rightarrow>
               (case first_fire trigger now (sj_startup_delay_seconds job) of
                  None \<Rightarrow> None
                | Some fire \<Rightarrow> Some (on_backend (bk_add_job (sd_backend sd) job fire) (fst s1, (w, snd (snd s1)))))))))"

fun register_jobs :: "'w scheduler \<Rightarrow> schedule_job list \<Rightarrow> 'w scheduler_state \<Rightarrow> (unit result \<times> 'w scheduler_state) option" where
  "register_jobs sd [] s = Some (Inr (), s)"
| "register_jobs sd (job # jobs) s =
     (case register_job sd job s of
        None \<Rightarrow> None
      | Some (Inl x, s') \<Rightarrow> Some (Inl x, s')
      | Some (Inr _, s') \<Rightarrow> register_jobs sd jobs s')"

definition recover_now :: "'w scheduler \<Rightarrow> ('w scheduler_state, unit) op" where
  "recover_now sd =
     sbind (scheduler_now sd) (\<lambda>now.
     sbind (on_attempts (recover_running_runs now ''PROCESS_RESTART'' True)) (\<lambda>ids.
     poke (\<lambda>s. ((fst s)\<lparr>sm_recovered := ids\<rparr>, snd s))))"

definition start_recovery :: "'w scheduler \<Rightarrow> ('w scheduler_state, unit) op" where
  "start_recovery sd =
     (case sd_recovery_lock sd of
        None \<Rightarrow> recover_now sd
      | Some (acquire, release) \<Rightarrow>
          sbind (on_backend acquire) (\<lambda>acquired.
          if acquired then sfinally (recover_now sd) (\<lambda>s. (fst s, (release (fst (snd s)), snd (snd s))))
          else slift (raise RuntimeError ''scheduler recovery blocked by an active engine run'')))"

definition launch :: "'w scheduler \<Rightarrow> bool \<Rightarrow> ('w scheduler_state, unit) op" where
  "launch sd paused = sbind (on_backend (bk_start (sd_backend sd) paused)) (\<lambda>_.
     poke (\<lambda>s. ((fst s)\<lparr>sm_ready := True\<rparr>, snd s)))"

definition start_scheduler :: "'w scheduler \<Rightarrow> bool \<Rightarrow> 'w scheduler_state \<Rightarrow> (unit result \<times> 'w scheduler_state) option" where
  "start_scheduler sd paused s =
     (if bk_running (sd_backend sd) (fst (snd s)) then Some (raise RuntimeError ''scheduler is already running'', s)
      else (case start_recovery sd s of
        (Inl x, s1) \<Rightarrow> Some (Inl x, s1)
      | (Inr _, s1) \<Rightarrow>
          (case (if sc_enabled (sd_schedule sd) then register_jobs sd (sc_jobs (sd_schedule sd)) s1 else Some (Inr (), s1)) of
             None \<Rightarrow> None
           | Some (Inl x, s2) \<Rightarrow> Some (Inl x, s2)
           | Some (Inr _, s2) \<Rightarrow> Some (launch sd paused s2))))"

subsection \<open>Health and shutdown\<close>

record scheduler_health =
  sh_running :: bool
  sh_ready :: bool
  sh_configured_jobs :: int
  sh_recovered_run_ids :: "string list"

definition health :: "'w scheduler \<Rightarrow> 'w scheduler_state \<Rightarrow> scheduler_health" where
  "health sd s =
     (let r = bk_running (sd_backend sd) (fst (snd s))
      in \<lparr>sh_running = r, sh_ready = (r \<and> sm_ready (fst s)), sh_configured_jobs = int (length (sc_jobs (sd_schedule sd))),
          sh_recovered_run_ids = sm_recovered (fst s)\<rparr>)"

definition monotonic_now :: "'w scheduler \<Rightarrow> ('w scheduler_state, rat) op" where
  "monotonic_now sd = on_second (on_first (\<lambda>w. case sd_monotonic sd w of (t, w') \<Rightarrow> (Inr t, w')))"

definition stop_operation :: "'w scheduler \<Rightarrow> rat \<Rightarrow> ('w \<times> run_db) job_operation \<Rightarrow> ('w scheduler_state, unit) op" where
  "stop_operation sd deadline operation =
     (case jo_shutdown operation of
        None \<Rightarrow> sreturn ()
      | Some stop \<Rightarrow> sbind (monotonic_now sd) (\<lambda>now. on_second (stop (max 0 (deadline - now)))))"

definition shutdown_scheduler :: "'w scheduler \<Rightarrow> bool \<Rightarrow> rat \<Rightarrow> ('w scheduler_state, unit) op" where
  "shutdown_scheduler sd wait timeout =
     sbind (poke (\<lambda>s. ((fst s)\<lparr>sm_ready := False\<rparr>, snd s))) (\<lambda>_.
     sbind (peek (\<lambda>s. (bk_running (sd_backend sd) (fst (snd s)), sm_operations (fst s)))) (\<lambda>(on, operations).
     if \<not> on then sreturn ()
     else
       sbind (on_backend (bk_pause (sd_backend sd))) (\<lambda>_.
       sbind (monotonic_now sd) (\<lambda>now.
       sbind (sfor (stop_operation sd (now + max 0 timeout)) operations) (\<lambda>_.
       on_backend (bk_shutdown (sd_backend sd) wait))))))"

section \<open>Retries are bounded\<close>

text \<open>The same operation with a count of its calls.\<close>

definition with_count :: "('s, 'a) op \<Rightarrow> ('s \<times> nat, 'a) op" where
  "with_count m s = (case m (fst s) of (r, s') \<Rightarrow> (r, (s', Suc (snd s))))"

definition without_count :: "('s, 'a) op \<Rightarrow> ('s \<times> nat, 'a) op" where
  "without_count m = on_first m"

lemma with_count_case: "with_count m (s, n) = (r, (s', n')) \<longleftrightarrow> m s = (r, s') \<and> n' = Suc n"
  by (auto simp: with_count_def split: prod.splits)

lemma without_count_case: "without_count m (s, n) = (r, (s', n')) \<longleftrightarrow> m s = (r, s') \<and> n' = n"
  by (auto simp: without_count_def on_first_def split: prod.splits)

lemma retry_loop_bound:
  assumes "retry_loop (with_count operation) (\<lambda>d. without_count (sleep d)) ds rc (s, n) = (r, (s', n'))"
  shows "n \<le> n' \<and> n' \<le> n + length ds \<and> (\<forall>x. r = Inr x \<longrightarrow> final_receipt x \<or> n' = n + length ds)"
  using assms
proof (induction ds arbitrary: rc s n)
  case Nil
  then show ?case by (simp add: sreturn_def)
next
  case (Cons d ds)
  show ?case
  proof (cases "final_receipt rc")
    case True
    with Cons.prems show ?thesis by (auto simp: sreturn_def)
  next
    case False
    obtain q t k where q: "without_count (sleep d) (s, n) = (q, (t, k))" by (metis prod.collapse)
    obtain p u m where p: "with_count operation (t, k) = (p, (u, m))" by (metis prod.collapse)
    have k: "k = n" "m = Suc n" using q p by (simp_all add: without_count_case with_count_case)
    show ?thesis
    proof (cases q)
      case (Inl x)
      with Cons.prems False q k show ?thesis by (auto simp: sbind_def)
    next
      case (Inr y)
      show ?thesis
      proof (cases p)
        case (Inl x)
        with Cons.prems False q Inr p k show ?thesis by (auto simp: sbind_def)
      next
        case (Inr rc')
        with Cons.prems False q \<open>q = Inr y\<close> p have
          "retry_loop (with_count operation) (\<lambda>d. without_count (sleep d)) ds rc' (u, m) = (r, (s', n'))"
          by (simp add: sbind_def)
        from Cons.IH [OF this] k show ?thesis by auto
      qed
    qed
  qed
qed

section \<open>Attempts\<close>

text \<open>The attempt is running under the record it was started with.\<close>

definition attempt_open :: "string \<Rightarrow> run_record \<Rightarrow> run_db \<Rightarrow> bool" where
  "attempt_open a run db \<longleftrightarrow> run_db_wf db \<and> (\<exists>r. find_run db a = Some r \<and> run_record.truncate r = run)"

text \<open>
  The contract of an operation: it may write the database as it likes, but leaves the records of the
  attempts, whose identities are not those of runs, as they are.
\<close>

locale job_contract =
  fixes operation :: "('w \<times> run_db, run_receipt) op"
  assumes spares: "\<not> is_hex64 a \<Longrightarrow> rn_provider_id run = ''scheduler'' \<Longrightarrow> keeps (\<lambda>s. attempt_open a run (snd s)) operation"
begin

lemma spares_retries:
  assumes "\<not> is_hex64 a" "rn_provider_id run = ''scheduler''"
  shows "keeps (\<lambda>s. attempt_open a run (snd s)) (run_with_retries operation policy (\<lambda>d. on_first (sleep d)))"
proof -
  have loop: "keeps (\<lambda>s. attempt_open a run (snd s)) (retry_loop operation (\<lambda>d. on_first (sleep d)) ds r)" for ds r
  proof (induction ds arbitrary: r)
    case (Cons d ds)
    then show ?case
      by (cases "final_receipt r") (auto intro!: keeps_sreturn keeps_sbind keeps_first_other spares assms)
  qed (auto intro: keeps_sreturn)
  show ?thesis unfolding run_with_retries_def by (intro keeps_sbind spares assms loop)
qed

end

lemma attempt_id_not_hex: "\<not> is_hex64 (scheduler_attempt_id job t n)"
  by (simp add: scheduler_attempt_id_def is_hex64_def)

lemma on_attempts_eq: "on_attempts m (mem, (w, db)) = (case m db of (r, db') \<Rightarrow> (r, (mem, (w, db'))))"
  by (simp add: on_attempts_def on_second_def split: prod.split)

lemma scheduler_now_eq: "scheduler_now sd (mem, (w, db)) = (case sd_clock_ms sd w of (t, w') \<Rightarrow> (Inr t, (mem, (w', db))))"
  by (simp add: scheduler_now_def on_second_def on_first_def split: prod.split)

lemma start_attempt_cases:
  assumes "start_scheduler_attempt code job t n db = (r, db')" "run_db_wf db"
  shows "case r of Inl x \<Rightarrow> db' = db
    | Inr a \<Rightarrow> a = scheduler_attempt_id job t n \<and> 0 \<le> t \<and> attempt_open a (scheduler_run code job t n) db'"
proof (cases r)
  case (Inl x)
  with assms(1) have "db' = db"
    by (auto simp: start_scheduler_attempt_def store_run_def sbind_def sguard_def sreturn_def transaction_def
        split: prod.splits sum.splits option.splits if_splits)
  with Inl show ?thesis by simp
next
  case (Inr a)
  with assms(1) have st: "store_run (scheduler_run code job t n) db = (Inr (), db')" and a: "a = scheduler_attempt_id job t n" "0 \<le> t"
    by (auto simp: start_scheduler_attempt_def sbind_Inr split: if_splits)
  have "rn_run_id (scheduler_run code job t n) = a" by (simp add: scheduler_run_def Let_def a)
  with store_run_stored(1) [OF st] keepsD [OF wf.keeps_store_run assms(2) st] Inr a show ?thesis
    by (simp add: attempt_open_def)
qed

text \<open>Ending an open attempt cannot fail.\<close>

definition attempt_ended :: "string \<Rightarrow> string \<Rightarrow> int \<Rightarrow> int \<Rightarrow> run_db \<Rightarrow> bool" where
  "attempt_ended a oc t u db \<longleftrightarrow> (\<exists>r. find_run db a = Some r \<and> scheduler_outcome r = Some oc
     \<and> rn_started_at_ms r = t \<and> rn_completed_at_ms r = Some u
     \<and> rn_status r = (if oc \<in> set receipt_success_statuses then ''SUCCEEDED'' else ''FAILED''))"

lemma scheduler_run_fields:
  "rn_status (scheduler_run code job t n) = ''RUNNING''" "rn_started_at_ms (scheduler_run code job t n) = t"
  "rn_provider_id (scheduler_run code job t n) = ''scheduler''"
  by (simp_all add: scheduler_run_def Let_def)

lemma outcome_names:
  assumes "oc \<in> set (receipt_success_statuses @ scheduler_failure_outcomes)"
  shows "oc \<in> set scheduler_outcomes" "1 \<le> length oc" "length oc \<le> 4000"
  using assms by (auto simp: receipt_success_statuses_def scheduler_failure_outcomes_def scheduler_outcomes_def)

lemma finish_run_ends:
  assumes "st \<in> {''SUCCEEDED'', ''FAILED''}" "x \<in> set (receipt_success_statuses @ scheduler_failure_outcomes)"
    and "find_run db a = Some r" "rn_status r = ''RUNNING''"
    and "update_runs (running a) (end_run st u err (Some x)) db = Inr db1" "find_run db1 a = Some r1"
  shows "finish_run a st u err (Some x) db = (Inr (run_record.truncate r1), db1)"
  unfolding finish_run_def using assms
  by (simp add: sguard_def sbind_def transaction_def loaded_run_simp)

lemma finish_attempt_total:
  assumes op: "attempt_open a (scheduler_run code job t n) db" and u: "t \<le> u"
    and out: "oc \<in> set (receipt_success_statuses @ scheduler_failure_outcomes)"
  shows "\<exists>run db'. finish_scheduler_attempt a oc u db = (Inr run, db') \<and> attempt_ended a oc t u db' \<and> run_db_wf db'"
proof -
  from op obtain r where wf: "run_db_wf db" and r: "find_run db a = Some r" "run_record.truncate r = scheduler_run code job t n"
    by (auto simp: attempt_open_def)
  let ?st = "if oc \<in> set receipt_success_statuses then ''SUCCEEDED'' else ''FAILED''"
  let ?err = "if ?st = ''SUCCEEDED'' then None else Some (if oc \<in> set scheduler_failure_outcomes then oc else ''FAILED'')"
  let ?f = "end_run ?st u ?err (Some oc)"
  have st: "rn_status r = ''RUNNING''" "rn_started_at_ms r = t"
    using scheduler_run_fields(1,2) [of code job t n] unfolding r(2) [symmetric] by (simp_all add: run_record.truncate_def)
  have mem: "r \<in> set (run_rows db)" "rn_run_id r = a" using find_run_Some [OF r(1)] by simp_all
  have unique: "q = r" if "q \<in> set (run_rows db)" "rn_run_id q = a" for q
    using wf mem that by (auto simp: run_db_wf_def run_ids_def distinct_map inj_on_def)
  have "run_row_check (?f r)"
    using wf mem(1) u st(2) outcome_names [OF out]
    by (auto simp: run_db_wf_def list_all_iff run_row_check_def end_run_def run_state_check_def sql_opt_def)
  then have "list_all (\<lambda>q. running a q \<longrightarrow> run_row_check (?f q)) (run_rows db)"
    using unique by (auto simp: list_all_iff running_def)
  from update_total [OF this] obtain db1 where up: "update_runs (running a) ?f db = Inr db1" ..
  have found: "find_run db1 a = Some (?f r)"
    using find_update [OF up, of a] r(1) st(1) mem(2) by (simp add: end_run_def running_def)
  have run: "finish_scheduler_attempt a oc u db = (Inr (run_record.truncate (?f r)), db1)"
    unfolding finish_scheduler_attempt_def Let_def by (rule finish_run_ends [OF _ out r(1) st(1) up found]) simp
  have "attempt_ended a oc t u db1" using found st(2) by (simp add: attempt_ended_def end_run_def)
  with run keepsD [OF wf.keeps_attempts(2) wf run] show ?thesis by blast
qed

lemma durable_outcome_known: "durable_outcome r \<in> set (receipt_success_statuses @ scheduler_failure_outcomes)"
  by (auto simp: durable_outcome_def final_receipt_def scheduler_failure_outcomes_def split: option.split)

lemma durable_outcome_success:
  "durable_outcome r \<in> set receipt_success_statuses \<longleftrightarrow> rv_status r \<in> set receipt_success_statuses"
  by (auto simp: durable_outcome_def final_receipt_def scheduler_failure_outcomes_def receipt_success_statuses_def split: option.split)

lemma guarded_receipt_returns:
  assumes "job_contract (jo_call operation)" "\<not> is_hex64 a" "rn_provider_id run = ''scheduler''" "attempt_open a run db"
  shows "\<exists>rc w' db'. guarded_receipt sd operation started (mem, (w, db)) = (Inr rc, (mem, (w', db'))) \<and> attempt_open a run db'"
proof -
  let ?ret = "run_with_retries (jo_call operation) (sd_retry_policy sd) (\<lambda>d. on_first (sd_sleep sd d))"
  obtain q w1 db1 where q: "?ret (w, db) = (q, (w1, db1))" by (metis prod.collapse)
  have open1: "attempt_open a run db1"
    using keepsD [OF job_contract.spares_retries [OF assms(1-3)] _ q] assms(4) by simp
  have s: "on_second ?ret (mem, (w, db)) = (q, (mem, (w1, db1)))" by (simp add: on_second_def q)
  show ?thesis
  proof (cases q)
    case (Inl x)
    obtain t w2 where "sd_clock_ms sd w1 = (t, w2)" by (cases "sd_clock_ms sd w1")
    with s Inl open1 show ?thesis
      by (simp add: guarded_receipt_def scatch_def sbind_def scheduler_now_eq sreturn_def)
  next
    case (Inr rc)
    with s open1 show ?thesis by (simp add: guarded_receipt_def scatch_def)
  qed
qed

section \<open>The first fire\<close>

definition next_fire_of :: "(int option \<Rightarrow> int \<Rightarrow> int option) \<Rightarrow> int option \<Rightarrow> int option" where
  "next_fire_of trigger x = (case x of None \<Rightarrow> None | Some t \<Rightarrow> trigger (Some t) t)"

lemma skip_early_result:
  assumes "\<And>t t'. trigger (Some t) t = Some t' \<Longrightarrow> t < t'"
  shows "\<exists>fire n. skip_early trigger limit x = Some fire \<and> fire = (next_fire_of trigger ^^ n) x
    \<and> (case fire of None \<Rightarrow> True | Some t \<Rightarrow> limit \<le> t)
    \<and> (\<forall>m<n. \<exists>t. (next_fire_of trigger ^^ m) x = Some t \<and> t < limit)"
proof (induction "case x of None \<Rightarrow> 0 | Some t \<Rightarrow> nat (limit - t)" arbitrary: x rule: less_induct)
  case less
  show ?case
  proof (cases x)
    case None
    then show ?thesis by (intro exI [of _ None] exI [of _ 0]) (simp add: skip_early.simps)
  next
    case (Some t)
    show ?thesis
    proof (cases "t < limit")
      case False
      with Some show ?thesis by (intro exI [of _ "Some t"] exI [of _ 0]) (simp add: skip_early.simps)
    next
      case True
      let ?y = "trigger (Some t) t"
      have "(case ?y of None \<Rightarrow> 0 | Some t \<Rightarrow> nat (limit - t)) < (case x of None \<Rightarrow> 0 | Some t \<Rightarrow> nat (limit - t))"
        using assms [of t] True Some by (auto split: option.split)
      from less [OF this] obtain fire n where f: "skip_early trigger limit ?y = Some fire"
        "fire = (next_fire_of trigger ^^ n) ?y" "case fire of None \<Rightarrow> True | Some t \<Rightarrow> limit \<le> t"
        "\<forall>m<n. \<exists>t. (next_fire_of trigger ^^ m) ?y = Some t \<and> t < limit" by blast
      have y: "next_fire_of trigger x = ?y" by (simp add: next_fire_of_def Some)
      have step: "(next_fire_of trigger ^^ Suc m) x = (next_fire_of trigger ^^ m) ?y" for m
        by (simp only: funpow_Suc_right comp_apply y)
      have "skip_early trigger limit x = Some fire" using f(1) True Some by (simp add: skip_early.simps)
      moreover have "\<forall>m<Suc n. \<exists>t. (next_fire_of trigger ^^ m) x = Some t \<and> t < limit"
      proof (intro allI impI)
        fix m
        assume "m < Suc n"
        then show "\<exists>t. (next_fire_of trigger ^^ m) x = Some t \<and> t < limit"
          using f(4) step Some True by (cases m) auto
      qed
      ultimately show ?thesis using f(2,3) step [of n] by (intro exI [of _ fire] exI [of _ "Suc n"]) simp
    qed
  qed
qed

section \<open>Properties\<close>

text \<open>With an accepted policy an operation is called at least once and at most as often as the policy
  allows, and the last call is the last allowed one unless its receipt is final.\<close>

theorem retries_bounded:
  assumes "mk_retry_policy p = Inr q"
    and "run_with_retries (with_count operation) p (\<lambda>d. without_count (sleep d)) (s, 0) = (r, (s', n))"
  shows "1 \<le> n \<and> int n \<le> rt_maximum_attempts p
    \<and> (case r of Inl x \<Rightarrow> True | Inr rc \<Rightarrow> final_receipt rc \<or> int n = rt_maximum_attempts p)"
proof -
  have len: "int (length (rt_backoff_seconds p)) = rt_maximum_attempts p - 1"
    using assms(1) by (auto simp: mk_retry_policy_def)
  obtain u t k where u: "with_count operation (s, 0) = (u, (t, k))" by (metis prod.collapse)
  then have k: "k = 1" by (simp add: with_count_case)
  show ?thesis
  proof (cases u)
    case (Inl x)
    with assms(2) u k len show ?thesis by (auto simp: run_with_retries_def sbind_def)
  next
    case (Inr rc)
    with assms(2) u have "retry_loop (with_count operation) (\<lambda>d. without_count (sleep d)) (rt_backoff_seconds p) rc (t, k) = (r, (s', n))"
      by (simp add: run_with_retries_def sbind_def)
    from retry_loop_bound [OF this] k len show ?thesis by (auto split: sum.split)
  qed
qed

theorem retries_bounded_witness:
  "\<exists>r s' n. run_with_retries (with_count (slift (raise ValueError ''down'') :: (unit, run_receipt) op))
      \<lparr>rt_maximum_attempts = 2, rt_backoff_seconds = [5]\<rparr> (\<lambda>d. without_count (sreturn ())) ((), 0) = (r, (s', n)) \<and> 1 \<le> n \<and> int n \<le> 2"
proof -
  let ?p = "\<lparr>rt_maximum_attempts = 2, rt_backoff_seconds = [5]\<rparr>"
  have p: "mk_retry_policy ?p = Inr ?p" by (simp add: mk_retry_policy_def)
  obtain r s' n where run: "run_with_retries (with_count (slift (raise ValueError ''down'') :: (unit, run_receipt) op))
      ?p (\<lambda>d. without_count (sreturn ())) ((), 0) = (r, (s', n))" by (metis prod.collapse)
  from retries_bounded [OF p run] run show ?thesis by auto
qed

text \<open>C30:
  A job whose attempt was started ends it: whatever its operation does, return or raise, at any time
  of the clock, the record of the attempt is ended with the outcome of the receipt, as a success iff the
  receipt is one, not before its start, and the job returns a receipt. Only the start of the attempt
  can make a job raise, and then the database is as before. Every attempt takes a new number.\<close>

theorem job_attempt_always_ended:
  assumes run: "run_job sd operation job (mem, (w, db)) = (r, (mem', (w', db')))"
    and contract: "job_contract (jo_call operation)" and wf: "run_db_wf db"
  shows "sm_attempt_sequence mem' = sm_attempt_sequence mem + 1 \<and>
    (let started = fst (sd_clock_ms sd w); n = sm_attempt_sequence mem in
     case r of Inl x \<Rightarrow> db' = db \<and> fst (start_scheduler_attempt (sd_code_hash sd) job started n db) = Inl x
     | Inr rc \<Rightarrow> \<exists>ended. started \<le> ended \<and> run_db_wf db'
         \<and> (durable_outcome rc \<in> set receipt_success_statuses \<longleftrightarrow> rv_status rc \<in> set receipt_success_statuses)
         \<and> attempt_ended (scheduler_attempt_id job started n) (durable_outcome rc) started ended db')"
proof -
  obtain t w1 where now: "sd_clock_ms sd w = (t, w1)" by (cases "sd_clock_ms sd w")
  let ?n = "sm_attempt_sequence mem" and ?mem = "mem\<lparr>sm_attempt_sequence := sm_attempt_sequence mem + 1\<rparr>"
  obtain q db1 where st: "start_scheduler_attempt (sd_code_hash sd) job t ?n db = (q, db1)" by (metis prod.collapse)
  note cases = start_attempt_cases [OF st wf]
  show ?thesis
  proof (cases q)
    case (Inl x)
    with run cases show ?thesis
      by (auto simp: run_job_def sbind_def scheduler_now_eq now next_attempt_sequence_def Let_def on_attempts_eq st)
  next
    case (Inr a)
    with cases have a: "a = scheduler_attempt_id job t ?n" and op: "attempt_open a (scheduler_run (sd_code_hash sd) job t ?n) db1" by auto
    have nh: "\<not> is_hex64 a" by (simp add: a attempt_id_not_hex)
    obtain rc w2 db2 where g: "guarded_receipt sd operation t (?mem, (w1, db1)) = (Inr rc, (?mem, (w2, db2)))"
      "attempt_open a (scheduler_run (sd_code_hash sd) job t ?n) db2"
      using guarded_receipt_returns [OF contract nh scheduler_run_fields(3) op] by blast
    obtain v w3 where later: "sd_clock_ms sd w2 = (v, w3)" by (cases "sd_clock_ms sd w2")
    obtain run' db3 where f: "finish_scheduler_attempt a (durable_outcome rc) (max t v) db2 = (Inr run', db3)"
      "attempt_ended a (durable_outcome rc) t (max t v) db3" "run_db_wf db3"
      using finish_attempt_total [OF g(2) _ durable_outcome_known, of "max t v" rc] by auto
    have "run_job sd operation job (mem, (w, db)) = (Inr rc, (?mem, (w3, db3)))"
      by (simp add: run_job_def sbind_def scheduler_now_eq now next_attempt_sequence_def Let_def on_attempts_eq st Inr g(1)
          later f(1) sreturn_def)
    with run f(3) have r: "r = Inr rc" "mem' = ?mem" "run_db_wf db'" "db' = db3" by auto
    have "t \<le> max t v" by simp
    with f(2) r have "\<exists>ended. t \<le> ended \<and> attempt_ended (scheduler_attempt_id job t ?n) (durable_outcome rc) t ended db'"
      unfolding a by blast
    with r show ?thesis by (simp add: now durable_outcome_success)
  qed
qed

text \<open>A scheduler whose only job fails.\<close>

definition sample_scheduler :: "unit scheduler" where
  "sample_scheduler = \<lparr>sd_schedule = \<lparr>sc_enabled = False, sc_timezone = ''UTC'', sc_jobs = []\<rparr>,
     sd_operation_factory = (\<lambda>job. raise ValueError ''none''), sd_code_hash = replicate 64 CHR ''a'', sd_clock_ms = (\<lambda>w. (90000, w)),
     sd_retry_policy = \<lparr>rt_maximum_attempts = 2, rt_backoff_seconds = [5]\<rparr>, sd_sleep = (\<lambda>d. sreturn ()),
     sd_recovery_lock = None, sd_backend = \<lparr>bk_running = (\<lambda>w. True), bk_trigger = (\<lambda>c. raise ValueError c), bk_now = (\<lambda>w. (0, w)),
       bk_add_job = (\<lambda>j t. sreturn ()), bk_start = (\<lambda>p. sreturn ()), bk_pause = sreturn (), bk_shutdown = (\<lambda>wait. sreturn ())\<rparr>,
     sd_monotonic = (\<lambda>w. (0, w))\<rparr>"

definition failing_operation :: "(unit \<times> run_db) job_operation" where
  "failing_operation = \<lparr>jo_call = slift (raise ValueError ''down''), jo_shutdown = None\<rparr>"

lemma failing_contract: "job_contract (jo_call failing_operation)"
  by unfold_locales (simp add: failing_operation_def keeps_slift)

lemma scheduler_row_check:
  assumes "is_hex64 code" "0 \<le> t"
  shows "run_row_check (new_row (scheduler_run code job t n))"
proof -
  let ?r = "new_row (scheduler_run code job t n)"
  have f: "rn_status ?r = ''RUNNING''" "rn_started_at_ms ?r = t" "rn_completed_at_ms ?r = None" "rn_error ?r = None"
    "rn_provider_id ?r = ''scheduler''" "rn_market_type ?r = market_type_name" "rn_git_commit ?r = None" "rn_code_hash ?r = Some code"
    "rn_data_start_open_ms ?r = t div 60000 * 60000" "rn_data_end_close_ms ?r = t div 60000 * 60000 + 59999" "scheduler_outcome ?r = None"
    by (simp_all add: scheduler_run_def new_row_def run_record.defs run_row.defs Let_def market_type_name_def)
  have h: "is_hex64 (rn_strategy_config_hash ?r)" "is_hex64 (rn_market_config_hash ?r)" "is_hex64 (rn_data_hash ?r)"
    by (simp_all add: scheduler_run_def new_row_def run_record.defs Let_def sha256_hex_shape)
  have "(t div 60000 * 60000 + 59999) mod 60000 = 59999"
    by (subst mod_mult_self3) simp
  then show ?thesis
    using assms f h by (simp add: run_row_check_def provenance_check_def run_state_check_def sql_opt_def)
qed

lemma sample_attempt_starts:
  assumes "is_hex64 code"
  shows "\<exists>a db'. start_scheduler_attempt code ''daily'' 90000 0 empty_run_db = (Inr a, db')"
proof -
  let ?run = "scheduler_run code ''daily'' 90000 0"
  have row: "run_row_check (new_row ?run)"
    by (rule scheduler_row_check [OF assms]) simp
  have git: "rn_git_commit ?run = None" by (simp add: scheduler_run_def Let_def)
  have "\<exists>db'. store_run ?run empty_run_db = (Inr (), db')"
    using row git by (simp add: store_run_def transaction_def empty_run_db_def find_run_def insert_run_def)
  then show ?thesis by (auto simp: start_scheduler_attempt_def sbind_def sguard_def sreturn_def)
qed

theorem job_attempt_always_ended_witness:
  "\<exists>rc mem' db' t u. run_job sample_scheduler failing_operation ''daily'' (new_scheduler_memory, ((), empty_run_db)) = (Inr rc, (mem', ((), db')))
     \<and> sm_attempt_sequence mem' = 1 \<and> attempt_ended (scheduler_attempt_id ''daily'' t 0) (durable_outcome rc) t u db'"
proof -
  obtain r s where rs: "run_job sample_scheduler failing_operation ''daily'' (new_scheduler_memory, ((), empty_run_db)) = (r, s)"
    by (cases "run_job sample_scheduler failing_operation ''daily'' (new_scheduler_memory, ((), empty_run_db))")
  obtain mem' db' where "s = (mem', ((), db'))" by (cases s) auto
  with rs have run: "run_job sample_scheduler failing_operation ''daily'' (new_scheduler_memory, ((), empty_run_db))
      = (r, (mem', ((), db')))" by simp
  have wf: "run_db_wf empty_run_db" by (simp add: run_db_wf_def empty_run_db_def run_ids_def)
  have "is_hex64 (replicate 64 CHR ''a'')" by code_simp
  then have "is_hex64 (sd_code_hash sample_scheduler)" by (simp add: sample_scheduler_def)
  from sample_attempt_starts [OF this] obtain a db1 where
    st: "start_scheduler_attempt (sd_code_hash sample_scheduler) ''daily'' 90000 0 empty_run_db = (Inr a, db1)" by blast
  have now: "fst (sd_clock_ms sample_scheduler ()) = 90000" by (simp add: sample_scheduler_def)
  have n: "sm_attempt_sequence new_scheduler_memory = 0" by (simp add: new_scheduler_memory_def)
  note ended = job_attempt_always_ended [OF run failing_contract wf, unfolded now n Let_def]
  show ?thesis
  proof (cases r)
    case (Inl x)
    with ended st show ?thesis by simp
  next
    case (Inr rc)
    with ended run show ?thesis by auto
  qed
qed

text \<open>C31:
  For every trigger whose fire times advance, the search for the first fire of a job ends, and its
  result is the first fire time at or after the end of the startup delay: every earlier fire is
  skipped and none after it.\<close>

theorem first_fire_is_earliest:
  assumes "\<And>t t'. trigger (Some t) t = Some t' \<Longrightarrow> t < t'"
  shows "\<exists>fire n. first_fire trigger now delay = Some fire \<and> fire = (next_fire_of trigger ^^ n) (trigger None now)
    \<and> (case fire of None \<Rightarrow> True | Some t \<Rightarrow> now + delay * 1000000 \<le> t)
    \<and> (\<forall>m<n. \<exists>t. (next_fire_of trigger ^^ m) (trigger None now) = Some t \<and> t < now + delay * 1000000)"
  unfolding first_fire_def by (rule skip_early_result [OF assms])

theorem first_fire_is_earliest_witness:
  "\<exists>fire. first_fire (\<lambda>previous now. Some (now div 60000000 * 60000000 + 60000000)) 5 90 = Some fire
     \<and> (case fire of None \<Rightarrow> True | Some t \<Rightarrow> 5 + 90 * 1000000 \<le> t)"
proof -
  have "t < t'" if "Some (t div 60000000 * 60000000 + 60000000) = Some t'" for t t' :: int
    using that by (auto simp: minus_mult_div_eq_mod [symmetric] intro: order.strict_trans2 [of t])
  from first_fire_is_earliest [of "\<lambda>previous now. Some (now div 60000000 * 60000000 + 60000000)", OF this, of 5 90]
  show ?thesis by blast
qed

end
