(* ===== verification/Services.thy ===== *)
theory Services
  imports Scheduler
begin

text \<open>
  The wiring of the program (\<^verbatim>\<open>composition/runtime_services.py\<close>): the folders of a process, the
  historical synchronisation and the backtest as the command line runs them, one run with its router,
  the scheduled child process and what its parent makes of the receipt it prints. The environment,
  the file system, the YAML parser, the exchange, the lock, the plugin registry, the code hash, the
  child process and the report publisher are parameters. Temporary folders are not modelled; the
  snapshot of a database is its value.

  The lemmas show that a synchronised snapshot is complete for the replay, that a backtest depends on
  nothing but the candles of its range, that a run always ends in a receipt, and that the parent
  understands every receipt its child prints.
\<close>

section \<open>Folders and times\<close>

text \<open>\<^verbatim>\<open>path.is_absolute() and str(path) == text\<close>: no empty and no dot component; two leading slashes are kept.\<close>

definition path_tail :: "string \<Rightarrow> string option" where
  "path_tail s =
     (if take 2 s = ''//'' \<and> take 3 s \<noteq> ''///'' then Some (drop 2 s)
      else if take 1 s = ''/'' then Some (drop 1 s) else None)"

definition normalized_path :: "string \<Rightarrow> bool" where
  "normalized_path s \<longleftrightarrow> (case path_tail s of None \<Rightarrow> False
     | Some rest \<Rightarrow> rest = [] \<or> list_all (\<lambda>p. p \<noteq> [] \<and> p \<noteq> ''.'') (split_on CHR ''/'' rest))"

definition join_path :: "string \<Rightarrow> string \<Rightarrow> string" where
  "join_path folder name = (if folder \<noteq> [] \<and> last folder = CHR ''/'' then folder @ name else folder @ ''/'' @ name)"

definition required_runtime_folder :: "(string \<Rightarrow> string option) \<Rightarrow> string \<Rightarrow> string result" where
  "required_runtime_folder environ variable =
     (case environ variable of
        None \<Rightarrow> raise ValueError (variable @ '' is required'')
      | Some text \<Rightarrow>
          if text = [] then raise ValueError (variable @ '' is required'')
          else rbind (rguard (normalized_path text) ValueError (variable @ '' must be an absolute normalized path''))
                 (\<lambda>_. Inr text))"

record runtime_paths =
  pa_data_folder :: string
  pa_database :: string
  pa_lock :: string
  pa_health :: string
  pa_backtests :: string

definition paths_from_environ :: "(string \<Rightarrow> string option) \<Rightarrow> runtime_paths result" where
  "paths_from_environ environ =
     rbind (required_runtime_folder environ ''DATA_FOLDER'') (\<lambda>folder.
     Inr \<lparr>pa_data_folder = folder, pa_database = join_path folder ''trading_research.db'',
          pa_lock = join_path folder ''engine.lock'', pa_health = join_path folder ''scheduler.ready'',
          pa_backtests = join_path folder ''backtests''\<rparr>)"

definition utc_minute_ms :: "string \<Rightarrow> int result" where
  "utc_minute_ms text =
     (case minute_fields text of
        None \<Rightarrow> raise ValueError ''range timestamps must be canonical UTC minute strings''
      | Some (y, mo, d, h, mi) \<Rightarrow>
          rbind (rguard (valid_datetime y mo d h mi) ValueError ''range timestamps must be canonical UTC minute strings'') (\<lambda>_.
          rbind (rguard (\<not> utc_millis y mo d h mi < 0) ValueError ''range timestamps must not precede the Unix epoch'') (\<lambda>_.
          Inr (utc_millis y mo d h mi))))"

section \<open>Synchronising and testing\<close>

record backtest_report =
  br_identity :: backtest_identity
  br_scenario :: backtest_scenario
  br_strategy :: strategy_config
  br_market_data :: market_data_config
  br_replay :: replay_result
  br_trades :: "trade_record list"
  br_metrics :: metrics_report

record ('w, 'p) services =
  sv_environ :: "string \<Rightarrow> string option"
  sv_read :: "string \<Rightarrow> string result"
  sv_yaml :: "string \<Rightarrow> pyobj result"
  sv_provider :: "market_data_config \<Rightarrow> ('w, 'w kline_provider) op"
  sv_acquire :: "string \<Rightarrow> ('w, bool) op"
  sv_release :: "'w \<Rightarrow> 'w"
  sv_strategy_path :: "string \<Rightarrow> backtest_scenario \<Rightarrow> string result"
  sv_plugin :: "string \<Rightarrow> (evidence \<Rightarrow> plugin result) result"
  sv_code_hash :: "string result"
  sv_publish :: "string \<Rightarrow> backtest_report \<Rightarrow> ('w, 'p) op"

definition service_market_data :: "('w, 'p) services \<Rightarrow> market_data_config result" where
  "service_market_data sv =
     rbind (required_runtime_folder (sv_environ sv) ''CONFIG_FOLDER'') (\<lambda>folder.
     rbind (sv_read sv (join_path folder ''market-data.yaml'')) (load_market_data_text (sv_yaml sv)))"

definition under_lock ::
    "('w, 'p) services \<Rightarrow> runtime_paths \<Rightarrow> string \<Rightarrow> ('w \<times> 's, 'a) op \<Rightarrow> ('w \<times> 's, 'a) op" where
  "under_lock sv paths msg body =
     sbind (on_world (sv_acquire sv (pa_lock paths))) (\<lambda>acquired.
     if acquired then sfinally body (\<lambda>s. (sv_release sv (fst s), snd s)) else slift (raise RuntimeError msg))"

definition mappings_of :: "market_data_config \<Rightarrow> string list \<Rightarrow> instrument_mapping list result" where
  "mappings_of market instruments =
     rmapM (\<lambda>i. rbind (dict_index (md_instruments market) i) (\<lambda>symbol.
       mk_mapping \<lparr>im_instrument_id = i, im_provider_symbol = symbol\<rparr>)) instruments"

definition sync_historical_command ::
    "('w, 'p) services \<Rightarrow> string \<Rightarrow> string \<Rightarrow> ('w \<times> candle_db, historical_receipt) op" where
  "sync_historical_command sv start_text end_text =
     sbind (slift (paths_from_environ (sv_environ sv))) (\<lambda>paths.
     sbind (slift (service_market_data sv)) (\<lambda>market.
     sbind (slift (utc_minute_ms start_text)) (\<lambda>a.
     sbind (slift (utc_minute_ms end_text)) (\<lambda>b.
     sbind (sguard (\<not> a > b) ValueError ''historical range start must not follow end'') (\<lambda>_.
     sbind (on_world (sv_provider sv market)) (\<lambda>pv.
     sbind (slift (mappings_of market (dict_keys (md_instruments market)))) (\<lambda>ms.
     under_lock sv paths ''historical sync cannot overlap the active writer''
       (sync_all pv sqlite_repo ms a b))))))))"

text \<open>The reader of a snapshot.\<close>

definition snapshot_source :: "candle_db \<Rightarrow> candle_source" where
  "snapshot_source db p m i a b = fst (load_candles p m i a b db)"

definition execution_minutes :: "string \<Rightarrow> int result" where
  "execution_minutes tf = (case dict_get [(''1m'', 1), (''5m'', 5), (''1h'', 60), (''4h'', 240)] tf of
     None \<Rightarrow> raise ValueError ''unsupported execution timeframe'' | Some n \<Rightarrow> Inr n)"

definition plugin_factories_of :: "('w, 'p) services \<Rightarrow> strategy_config \<Rightarrow> factories result" where
  "plugin_factories_of sv strategy =
     rbind (rmapM (\<lambda>s. rbind (sv_plugin sv (sg_id s)) (\<lambda>f. Inr (sg_id s, f))) (sy_signals strategy)) (\<lambda>fs. Inr (dict_of fs))"

text \<open>Everything after the snapshot: a function of the configurations and the snapshot.\<close>

definition offline_backtest ::
    "('w, 'p) services \<Rightarrow> backtest_scenario \<Rightarrow> strategy_config \<Rightarrow> market_data_config \<Rightarrow> required_range \<Rightarrow> candle_db
      \<Rightarrow> backtest_report result" where
  "offline_backtest sv scenario strategy market required db =
     rbind (plugin_factories_of sv strategy) (\<lambda>facs.
     rbind (mk_replay strategy (md_provider market) (md_market_type market) (snapshot_source db) facs) (\<lambda>rp.
     rbind (run_replay rp (bs_period scenario)) (\<lambda>res.
     rbind (rmapM (\<lambda>i. snapshot_source db (md_provider market) (md_market_type market) i
              (rq_start_open_ms required) (rq_end_open_ms required)) (sy_instruments strategy)) (\<lambda>css.
     rbind (dict_index (sy_roles strategy) ''execution'') (\<lambda>tf.
     rbind (execution_minutes tf) (\<lambda>bar.
     rbind (mk_simulator (bs_entry scenario) (bs_execution scenario) (bs_costs scenario) bar) (\<lambda>sim.
     rbind (run_simulation sim (evaluations res) (concat css)) (\<lambda>trades.
     rbind (summarize_backtest (evaluations res) trades) (\<lambda>metrics.
     rbind (sv_code_hash sv) (\<lambda>code.
     rbind (create_identity (hash_backtest scenario) (hash_strategy strategy) (hash_market_data market)
              (rr_data_hash res) code (bs_period scenario) required) (\<lambda>identity.
     Inr \<lparr>br_identity = identity, br_scenario = scenario, br_strategy = strategy, br_market_data = market,
          br_replay = res, br_trades = trades, br_metrics = metrics\<rparr>)))))))))))"

definition run_backtest :: "('w, 'p) services \<Rightarrow> string \<Rightarrow> ('w \<times> candle_db, 'p) op" where
  "run_backtest sv scenario_path =
     sbind (slift (paths_from_environ (sv_environ sv))) (\<lambda>paths.
     sbind (slift (rbind (sv_read sv scenario_path) (load_backtest_text (sv_yaml sv)))) (\<lambda>scenario.
     sbind (slift (rbind (sv_strategy_path sv scenario_path scenario) (\<lambda>p.
              rbind (sv_read sv p) (load_strategy_text (sv_yaml sv))))) (\<lambda>strategy.
     sbind (slift (service_market_data sv)) (\<lambda>market.
     sbind (sguard (\<not> set (sy_instruments strategy) - set (dict_keys (md_instruments market)) \<noteq> {}) ValueError
              ''strategy instruments are missing from market-data configuration'') (\<lambda>_.
     sbind (slift (resolve_range (bs_period scenario) (sy_history_minutes strategy))) (\<lambda>required.
     sbind (on_world (sv_provider sv market)) (\<lambda>pv.
     sbind (slift (mappings_of market (sy_instruments strategy))) (\<lambda>ms.
     sbind (under_lock sv paths ''backtest cannot overlap the active writer''
              (sbind (sync_all pv sqlite_repo ms (rq_start_open_ms required) (rq_end_open_ms required)) (\<lambda>_.
               peek snd))) (\<lambda>snapshot.
     sbind (slift (offline_backtest sv scenario strategy market required snapshot)) (\<lambda>report.
     on_world (sv_publish sv (pa_backtests paths) report)))))))))))"

section \<open>One run\<close>

text \<open>The router lives as long as the run; it starts with an empty memory.\<close>

definition with_router ::
    "(('w router_memory \<times> 'w) engine_state, 'a) op \<Rightarrow> ('w engine_state, 'a) op" where
  "with_router m s = (case m ((empty_memory, fst s), snd s) of (r, (mw, cd)) \<Rightarrow> (r, (snd mw, cd)))"

text \<open>An engine whose calls do not see the router.\<close>

definition beside_provider :: "'w kline_provider \<Rightarrow> ('m \<times> 'w) kline_provider" where
  "beside_provider pv = \<lparr>pv_id = pv_id pv, pv_validate = (\<lambda>m. on_second (pv_validate pv m)),
     pv_server_time = on_second (pv_server_time pv), pv_latest_closed = on_second (pv_latest_closed pv),
     pv_fetch = (\<lambda>rq. on_second (pv_fetch pv rq))\<rparr>"

definition beside_router :: "'w engine \<Rightarrow> ('m \<times> 'w) engine" where
  "beside_router e = \<lparr>
     en_provider_factory = (\<lambda>market. on_second (\<lambda>w. case en_provider_factory e market w of
        (Inl x, w') \<Rightarrow> (Inl x, w') | (Inr pv, w') \<Rightarrow> (Inr (beside_provider pv), w'))),
     en_plugin_factories = en_plugin_factories e, en_acquire = on_second (en_acquire e),
     en_release = (\<lambda>mw. (fst mw, en_release e (snd mw))), en_config_loader = (\<lambda>req. on_second (en_config_loader e req)),
     en_clock_ms = (\<lambda>mw. case en_clock_ms e (snd mw) of (t, w') \<Rightarrow> (t, (fst mw, w'))), en_code_hash = en_code_hash e,
     en_event_sink = None, en_batch_sink = None\<rparr>"

definition notification_router ::
    "notification_config \<Rightarrow> (string \<Rightarrow> destination \<Rightarrow> ('w, 'w notifier) op) \<Rightarrow> ('w \<Rightarrow> int \<times> 'w) \<Rightarrow> ('w, run_db) router" where
  "notification_router config factory clock_ms = \<lparr>rt_config = config, rt_factory = factory,
     rt_clock = (\<lambda>w. case clock_ms w of (t, w') \<Rightarrow> (t div 1000, w')), rt_store = Some run_notification_store\<rparr>"

definition flush_warning :: "run_receipt \<Rightarrow> run_receipt" where
  "flush_warning r =
     (if rv_status r \<notin> set receipt_success_statuses then r
      else (let text = (case rv_error r of None \<Rightarrow> ''NOTIFICATION_WARNING: final_flush'' | Some x \<Rightarrow> x @ '', final_flush'')
            in r\<lparr>rv_status := ''SUCCEEDED_WITH_WARNINGS'', rv_error := Some (take 4000 text)\<rparr>))"

definition run_with_router ::
    "'w engine \<Rightarrow> ('w, run_db) router \<Rightarrow> run_request \<Rightarrow> (('w router_memory \<times> 'w) engine_state, run_receipt) op" where
  "run_with_router e rt req =
     sbind (engine_run (routed_engine rt (beside_router e)) req) (\<lambda>receipt.
     sbind (scatch (sbind (on_sink (router_call (close_router rt))) (\<lambda>out. sreturn (failed_outcome out)))
              (\<lambda>_. sreturn True)) (\<lambda>final_failed.
     sreturn (if final_failed then flush_warning receipt else receipt)))"

text \<open>\<open>configured\<close> is the loaded notification configuration, if a path was given.\<close>

definition run_once ::
    "'w engine \<Rightarrow> (string \<Rightarrow> destination \<Rightarrow> ('w, 'w notifier) op) \<Rightarrow> notification_config option result \<Rightarrow> run_request
      \<Rightarrow> ('w engine_state, run_receipt) op" where
  "run_once e factory configured req =
     sbind (engine_now e) (\<lambda>started.
     scatch
       (sbind (slift configured) (\<lambda>config.
        sbind (slift (mk_engine e)) (\<lambda>e.
        sbind (slift (mk_run_request req)) (\<lambda>req.
        case config of
          None \<Rightarrow> engine_run e req
        | Some nc \<Rightarrow> with_router (run_with_router e (notification_router nc factory (en_clock_ms e)) req)))))
       (\<lambda>x. sbind (engine_now e) (\<lambda>completed.
          sreturn \<lparr>rv_run_id = None, rv_status = ''FAILED'', rv_trigger = rr_trigger req, rv_started_at_ms = started,
            rv_completed_at_ms = completed, rv_instrument_count = 0, rv_decision_count = 0, rv_error = Some (bounded_error x)\<rparr>)))"

section \<open>The child process\<close>

definition exit_codes :: "(string, int) dict" where
  "exit_codes = [(''SUCCEEDED'', 0), (''SUCCEEDED_WITH_WARNINGS'', 0), (''FAILED'', 1), (''OVERLAP_SKIPPED'', 75)]"

definition run_receipt_statuses :: "string list" where
  "run_receipt_statuses = [''SUCCEEDED'', ''SUCCEEDED_WITH_WARNINGS'', ''FAILED'', ''OVERLAP_SKIPPED'']"

text \<open>The exit code and the output of \<^verbatim>\<open>main\<close> for the \<^verbatim>\<open>run\<close> command.\<close>

definition cli_run_exit :: "run_receipt \<Rightarrow> int \<times> json" where
  "cli_run_exit r =
     (if rv_status r = ''FAILED'' then 1 else if rv_status r = ''OVERLAP_SKIPPED'' then 75 else 0,
      JObj (receipt_canonical_dict r))"

definition invalid_child_receipt :: "int \<Rightarrow> run_receipt" where
  "invalid_child_receipt now = \<lparr>rv_run_id = None, rv_status = ''FAILED'', rv_trigger = ''scheduled'', rv_started_at_ms = now,
     rv_completed_at_ms = now, rv_instrument_count = 0, rv_decision_count = 0, rv_error = Some ''INVALID_CHILD_RECEIPT''\<rparr>"

fun str_field :: "json option \<Rightarrow> string option" where
  "str_field (Some (JStr s)) = Some s" | "str_field _ = None"

fun int_field :: "json option \<Rightarrow> int option" where
  "int_field (Some (JInt i)) = Some i" | "int_field _ = None"

text \<open>A field that is null or text.\<close>

fun opt_str_field :: "json option \<Rightarrow> string option option" where
  "opt_str_field (Some JNull) = Some None" | "opt_str_field (Some (JStr s)) = Some (Some s)" | "opt_str_field _ = None"

definition receipt_fields :: "string list" where
  "receipt_fields = [''run_id'', ''status'', ''trigger'', ''started_at_ms'', ''completed_at_ms'', ''instrument_count'', ''decision_count'', ''error'']"

definition receipt_of_payload :: "(string, json) dict \<Rightarrow> run_receipt option" where
  "receipt_of_payload kvs =
     (let f = dict_get kvs in
      case (opt_str_field (f ''run_id''), str_field (f ''status''), str_field (f ''trigger''), int_field (f ''started_at_ms''),
            int_field (f ''completed_at_ms''), int_field (f ''instrument_count''), int_field (f ''decision_count''),
            opt_str_field (f ''error'')) of
        (Some rid, Some st, Some tr, Some a, Some b, Some ic, Some dc, Some err) \<Rightarrow>
          Some \<lparr>rv_run_id = rid, rv_status = st, rv_trigger = tr, rv_started_at_ms = a, rv_completed_at_ms = b,
            rv_instrument_count = ic, rv_decision_count = dc, rv_error = err\<rparr>
      | _ \<Rightarrow> None)"

text \<open>The contract between child and parent.\<close>

definition receipt_valid :: "int \<Rightarrow> run_receipt \<Rightarrow> bool" where
  "receipt_valid code r \<longleftrightarrow>
     rv_status r \<in> set run_receipt_statuses \<and> dict_get exit_codes (rv_status r) = Some code
     \<and> rv_trigger r \<in> set run_triggers \<and> 0 \<le> rv_started_at_ms r \<and> rv_started_at_ms r \<le> rv_completed_at_ms r
     \<and> 0 \<le> rv_instrument_count r \<and> 0 \<le> rv_decision_count r
     \<and> (case rv_run_id r of None \<Rightarrow> True | Some rid \<Rightarrow> is_hex64 rid)
     \<and> (case rv_error r of None \<Rightarrow> True | Some x \<Rightarrow> 1 \<le> length x \<and> length x \<le> 4000)
     \<and> \<not> (rv_status r \<in> set receipt_success_statuses \<and> rv_run_id r = None)
     \<and> \<not> (rv_status r = ''SUCCEEDED'' \<and> rv_error r \<noteq> None)
     \<and> \<not> (rv_status r = ''SUCCEEDED_WITH_WARNINGS'' \<and> rv_error r = None)
     \<and> \<not> (rv_status r = ''FAILED'' \<and> rv_error r = None)
     \<and> \<not> (rv_status r = ''OVERLAP_SKIPPED'' \<and> (rv_run_id r \<noteq> None \<or> rv_error r \<noteq> None
           \<or> rv_instrument_count r \<noteq> 0 \<or> rv_decision_count r \<noteq> 0))"

text \<open>\<open>out\<close> is the value of the output, \<open>None\<close> when it is not JSON; \<open>now\<close> the time of an invalid receipt.\<close>

definition receipt_from_child :: "int \<Rightarrow> int \<Rightarrow> json option \<Rightarrow> run_receipt" where
  "receipt_from_child now code out =
     (case out of
        Some (JObj kvs) \<Rightarrow>
          if set (dict_keys kvs) \<noteq> set receipt_fields then invalid_child_receipt now
          else (case receipt_of_payload kvs of
            None \<Rightarrow> invalid_child_receipt now
          | Some r \<Rightarrow>
              if receipt_valid code r
              then r\<lparr>rv_error := (if rv_status r = ''FAILED'' then Some ''CHILD_FAILED'' else rv_error r)\<rparr>
              else invalid_child_receipt now)
      | _ \<Rightarrow> invalid_child_receipt now)"

text \<open>
  The managed operation: \<open>communicate\<close> runs the child up to its maximum runtime, \<open>terminate\<close> ends it.
  An interruption recovers the runs it left, but not the attempts of the scheduler.
\<close>

datatype child_end = Exited int "json option" | Expired

record 'w child_process =
  cp_communicate :: "('w \<times> run_db, child_end) op"
  cp_terminate :: "('w \<times> run_db, unit) op"
  cp_acquire :: "('w, bool) op"
  cp_release :: "'w \<Rightarrow> 'w"
  cp_clock_ms :: "'w \<Rightarrow> int \<times> 'w"

definition child_now :: "'w child_process \<Rightarrow> ('w \<times> run_db, int) op" where
  "child_now cp = on_first (\<lambda>w. case cp_clock_ms cp w of (t, w') \<Rightarrow> (Inr t, w'))"

definition interrupt_child :: "'w child_process \<Rightarrow> string \<Rightarrow> ('w \<times> run_db, string option \<times> string) op" where
  "interrupt_child cp reason =
     sbind (cp_terminate cp) (\<lambda>_.
     sbind (on_first (cp_acquire cp)) (\<lambda>acquired.
     sbind (if acquired
            then sfinally (sbind (child_now cp) (\<lambda>now. on_second (recover_running_runs now reason False)))
                   (\<lambda>s. (cp_release cp (fst s), snd s))
            else sreturn []) (\<lambda>recovered.
     sreturn (case recovered of [rid] \<Rightarrow> Some rid | _ \<Rightarrow> None, reason))))"

definition managed_call :: "'w child_process \<Rightarrow> ('w \<times> run_db, run_receipt) op" where
  "managed_call cp =
     sbind (child_now cp) (\<lambda>started.
     sbind (cp_communicate cp) (\<lambda>ended.
     case ended of
       Expired \<Rightarrow>
         sbind (interrupt_child cp ''MAXIMUM_RUNTIME'') (\<lambda>(rid, reason).
         sbind (child_now cp) (\<lambda>completed.
         sreturn \<lparr>rv_run_id = rid, rv_status = ''FAILED'', rv_trigger = ''scheduled'', rv_started_at_ms = started,
           rv_completed_at_ms = completed, rv_instrument_count = 0, rv_decision_count = 0, rv_error = Some reason\<rparr>))
     | Exited code out \<Rightarrow>
         sbind (child_now cp) (\<lambda>now. sreturn (receipt_from_child now code out))))"

section \<open>Snapshots\<close>

lemma sorted_opens_unique:
  assumes "sorted_wrt (<) (map open_time_ms xs)" "sorted_wrt (<) (map open_time_ms ys)" "set xs = set ys"
  shows "xs = (ys :: candle list)"
proof (rule map_sorted_distinct_set_unique [of open_time_ms])
  show "inj_on open_time_ms (set xs \<union> set ys)"
    using strict_sorted_distinct [OF assms(1)] assms(3) by (simp add: distinct_map)
  show "sorted (map open_time_ms xs)" "sorted (map open_time_ms ys)"
    using strict_sorted_distinct [OF assms(1)] strict_sorted_distinct [OF assms(2)] by blast+
  show "distinct (map open_time_ms xs)" "distinct (map open_time_ms ys)"
    using strict_sorted_distinct [OF assms(1)] strict_sorted_distinct [OF assms(2)] by blast+
qed (rule assms(3))

lemma minutes_set: "set (minutes a b) = {t. \<exists>n::nat. t = a + int n * 60000 \<and> t \<le> b}"
  unfolding minutes_def by (subst py_range_set) auto

lemma minutes_member:
  assumes "a \<le> t" "t \<le> b" "minute_aligned a" "t mod 60000 = 0"
  shows "t \<in> set (minutes a b)"
proof -
  have "60000 dvd t - a" using assms(3,4) unfolding minute_aligned_def by (intro dvd_diff mod_0_imp_dvd) simp_all
  then obtain k where k: "t - a = 60000 * k" by (rule dvdE)
  then have "t = a + int (nat k) * 60000" using assms(1) by simp
  then show ?thesis using assms(2) unfolding minutes_set by blast
qed

lemma minutes_strict: "sorted_wrt (<) (minutes a b)"
  by (simp add: minutes_grid grid_sorted)

lemma found_candle:
  assumes "candle_db_wf db" "find_row db k = Some x"
  shows "candle_wf x" "primary_key x = k"
  using find_row_Some [OF assms(2)] assms(1) by (auto simp: candle_db_wf_def)

text \<open>A complete series is what the snapshot loads.\<close>

lemma complete_series_loaded:
  assumes wf: "candle_db_wf db" and cs: "complete_series db p a b (i, cs)" and a: "minute_aligned a"
  shows "snapshot_source db p market_type_name i a b = Inr cs"
proof -
  from load_candles_spec [OF wf, of p market_type_name i a b] obtain xs where
    xs: "load_candles p market_type_name i a b db = (Inr xs, db)" "sorted_wrt (<) (map open_time_ms xs)"
      "set xs = {c. \<exists>t. a \<le> t \<and> t \<le> b \<and> find_row db (p, market_type_name, i, ''1m'', t) = Some c}" by blast
  have t: "map open_time_ms cs = minutes a b"
    and f: "\<forall>x\<in>set cs. find_row db (p, market_type_name, i, ''1m'', open_time_ms x) = Some x"
    using cs by (auto simp: complete_series_def list_all_iff)
  have opens: "open_time_ms ` set cs = set (minutes a b)" using arg_cong [OF t, of set] by simp
  have in_range: "a \<le> open_time_ms x \<and> open_time_ms x \<le> b" if "x \<in> set cs" for x
    using opens that unfolding minutes_set by force
  have "set cs = set xs"
  proof
    show "set cs \<subseteq> set xs" using in_range f unfolding xs(3) by blast
    show "set xs \<subseteq> set cs"
    proof
      fix x
      assume "x \<in> set xs"
      then obtain u where u: "a \<le> u" "u \<le> b" "find_row db (p, market_type_name, i, ''1m'', u) = Some x" unfolding xs(3) by blast
      from found_candle [OF wf u(3)] have "open_time_ms x = u" "u mod 60000 = 0"
        by (auto simp: primary_key_def candle_wf_def)
      with minutes_member [OF u(1,2) a] opens obtain y where "y \<in> set cs" "open_time_ms y = u" by (metis imageE)
      with f u(3) show "x \<in> set cs" by fastforce
    qed
  qed
  moreover have "sorted_wrt (<) (map open_time_ms cs)" unfolding t by (rule minutes_strict)
  ultimately have "cs = xs" using xs(2) by (intro sorted_opens_unique)
  with xs(1) show ?thesis by (simp add: snapshot_source_def)
qed

lemma complete_series_valid:
  assumes wf: "candle_db_wf db" and cs: "complete_series db (rp_provider_id rp) a b (i, cs)" and ab: "a \<le> b"
    and market: "rp_market_type rp = market_type_name"
  shows "validate_candles rp cs i \<lparr>rq_start_open_ms = a, rq_end_open_ms = b\<rparr> = Inr ()"
proof -
  let ?n = "nat ((b - a) div 60000 + 1)"
  have t: "map open_time_ms cs = grid a 60000 ?n"
    and f: "\<forall>x\<in>set cs. find_row db (rp_provider_id rp, market_type_name, i, ''1m'', open_time_ms x) = Some x"
    using cs by (auto simp: complete_series_def list_all_iff minutes_grid)
  have "0 \<le> (b - a) div 60000" using ab by (simp add: pos_imp_zdiv_nonneg_iff)
  moreover have len: "length cs = ?n" using arg_cong [OF t, of length] by simp
  ultimately have "int (length cs) = (b - a) div 60000 + 1" by simp
  moreover have "open_time_ms (cs ! k) = a + int k * 60000" if "k < length cs" for k
    using that len arg_cong [OF t, of "\<lambda>xs. xs ! k"] by (simp add: grid_def)
  moreover have "provider_id x = rp_provider_id rp \<and> market_type x = market_type_name \<and> c_instrument_id x = i" if "x \<in> set cs" for x
    using found_candle(2) [OF wf] f that by (auto simp: primary_key_def)
  ultimately show ?thesis
    by (auto simp: validate_candles_def market list_all_iff in_set_enumerate_eq rguard_def)
qed

lemma sync_each_complete:
  assumes "typed_provider pv" "candle_db_wf c"
    and "sync_each pv sqlite_repo a b ms (w, c) = (Inr results, (w', c'))"
  shows "rows_grown c c' \<and> (\<forall>m\<in>set ms. \<exists>cs. complete_series c' (pv_id pv) a b (im_instrument_id m, cs))"
  using assms(2,3)
proof (induction ms arbitrary: w c results)
  case Nil
  then show ?case by (simp add: historical.grown_refl)
next
  case (Cons m rest)
  from Cons.prems(2) obtain res more w1 c1 where
    h: "historical_sync_range pv sqlite_repo m a b (w, c) = (Inr res, (w1, c1))"
    and t: "sync_each pv sqlite_repo a b rest (w1, c1) = (Inr more, (w', c'))"
    by (auto simp: sbind_Inr)
  have g: "rows_grown c c1"
    using keepsD [OF keeps_historical [OF assms(1)] _ h, of c] Cons.prems(1) by (simp add: historical.grown_refl)
  have one: "complete_series c1 (pv_id pv) a b (im_instrument_id m, is_candles res)"
    using historical_result [OF assms(1) Cons.prems(1) h] by (simp add: complete_series_def market_row_key_def)
  from g have "candle_db_wf c1" by (simp add: historical.grown_def)
  from Cons.IH [OF this t] g one show ?case
    by (auto intro: rows_grown_trans complete_series_grown)
qed

text \<open>Two snapshots with the same candles in a range.\<close>

definition same_range :: "string \<Rightarrow> string \<Rightarrow> int \<Rightarrow> int \<Rightarrow> candle_db \<Rightarrow> candle_db \<Rightarrow> bool" where
  "same_range p m a b db1 db2 \<longleftrightarrow>
     (\<forall>i t. a \<le> t \<and> t \<le> b \<longrightarrow> find_row db1 (p, m, i, ''1m'', t) = find_row db2 (p, m, i, ''1m'', t))"

lemma same_range_source:
  assumes "candle_db_wf db1" "candle_db_wf db2" "same_range p m a b db1 db2"
  shows "snapshot_source db1 p m i a b = snapshot_source db2 p m i a b"
proof -
  from load_candles_spec [OF assms(1), of p m i a b] obtain xs where
    xs: "load_candles p m i a b db1 = (Inr xs, db1)" "sorted_wrt (<) (map open_time_ms xs)"
      "set xs = {c. \<exists>t. a \<le> t \<and> t \<le> b \<and> find_row db1 (p, m, i, ''1m'', t) = Some c}" by blast
  from load_candles_spec [OF assms(2), of p m i a b] obtain ys where
    ys: "load_candles p m i a b db2 = (Inr ys, db2)" "sorted_wrt (<) (map open_time_ms ys)"
      "set ys = {c. \<exists>t. a \<le> t \<and> t \<le> b \<and> find_row db2 (p, m, i, ''1m'', t) = Some c}" by blast
  have "set xs = set ys" unfolding xs(3) ys(3) using assms(3) by (auto simp: same_range_def)
  with sorted_opens_unique [OF xs(2) ys(2)] xs(1) ys(1) show ?thesis by (simp add: snapshot_source_def)
qed

lemma load_instrument_source:
  assumes "\<And>i. rp_candle_source rp1 (rp_provider_id rp1) (rp_market_type rp1) i (rq_start_open_ms rq) (rq_end_open_ms rq)
      = rp_candle_source rp2 (rp_provider_id rp1) (rp_market_type rp1) i (rq_start_open_ms rq) (rq_end_open_ms rq)"
    and "rp2 = rp1\<lparr>rp_candle_source := rp_candle_source rp2\<rparr>"
  shows "load_instrument rp1 rq i = load_instrument rp2 rq i"
proof -
  have f: "rp_provider_id rp2 = rp_provider_id rp1" "rp_market_type rp2 = rp_market_type rp1" "rp_strategy rp2 = rp_strategy rp1"
    using arg_cong [OF assms(2), of rp_provider_id] arg_cong [OF assms(2), of rp_market_type]
      arg_cong [OF assms(2), of rp_strategy] by simp_all
  then show ?thesis by (simp add: load_instrument_def assms(1) validate_candles_def)
qed

lemma run_replay_source:
  assumes src: "\<And>i. s1 p m i (rq_start_open_ms rq) (rq_end_open_ms rq) = s2 p m i (rq_start_open_ms rq) (rq_end_open_ms rq)"
    and rq: "resolve_range period (sy_history_minutes strategy) = Inr rq"
    and rp: "mk_replay strategy p m s1 facs = Inr rp1" "mk_replay strategy p m s2 facs = Inr rp2"
  shows "run_replay rp1 period = run_replay rp2 period"
proof -
  have f: "rp1 = \<lparr>rp_strategy = strategy, rp_provider_id = p, rp_market_type = m, rp_candle_source = s1, rp_factories = facs\<rparr>"
    "rp2 = \<lparr>rp_strategy = strategy, rp_provider_id = p, rp_market_type = m, rp_candle_source = s2, rp_factories = facs\<rparr>"
    using rp by (auto simp: mk_replay_def)
  have li: "load_instrument rp1 rq = load_instrument rp2 rq"
    by (intro ext load_instrument_source) (simp_all add: f src)
  have ev: "evaluate_at rp1 = evaluate_at rp2"
    by (intro ext) (simp add: evaluate_at_def prefixes_def f)
  have fs: "rp_strategy rp1 = strategy" "rp_strategy rp2 = strategy" "rp_factories rp1 = facs" "rp_factories rp2 = facs"
    by (simp_all add: f)
  show ?thesis unfolding run_replay_def fs ev Let_def rq by (simp add: li)
qed

section \<open>Receipts\<close>

text \<open>What every receipt of a run satisfies, whatever the clock and the warnings.\<close>

definition receipt_consistent :: "run_receipt \<Rightarrow> bool" where
  "receipt_consistent r \<longleftrightarrow>
     rv_status r \<in> set run_receipt_statuses \<and> 0 \<le> rv_instrument_count r \<and> 0 \<le> rv_decision_count r
     \<and> (case rv_run_id r of None \<Rightarrow> True | Some rid \<Rightarrow> is_hex64 rid) \<and> rv_error r \<noteq> Some []
     \<and> (rv_status r \<in> set receipt_success_statuses \<longrightarrow> rv_run_id r \<noteq> None)
     \<and> (rv_status r = ''SUCCEEDED'' \<longrightarrow> rv_error r = None)
     \<and> (rv_status r = ''SUCCEEDED_WITH_WARNINGS'' \<or> rv_status r = ''FAILED'' \<longrightarrow> rv_error r \<noteq> None)
     \<and> (rv_status r = ''OVERLAP_SKIPPED'' \<longrightarrow> rv_run_id r = None \<and> rv_error r = None
          \<and> rv_instrument_count r = 0 \<and> rv_decision_count r = 0)
     \<and> (\<forall>x. rv_status r = ''FAILED'' \<and> rv_error r = Some x \<longrightarrow> length x \<le> 4000)"

text \<open>A consistent receipt satisfies the contract of the parent, unless its warning is too long.\<close>

lemma consistent_valid:
  assumes "receipt_consistent r" "rv_trigger r \<in> set run_triggers" "0 \<le> rv_started_at_ms r"
    "rv_started_at_ms r \<le> rv_completed_at_ms r"
  shows "receipt_valid (fst (cli_run_exit r)) r \<longleftrightarrow> (\<forall>x. rv_error r = Some x \<longrightarrow> length x \<le> 4000)"
proof -
  have "(case rv_error r of None \<Rightarrow> True | Some x \<Rightarrow> 1 \<le> length x \<and> length x \<le> 4000)
      \<longleftrightarrow> (\<forall>x. rv_error r = Some x \<longrightarrow> length x \<le> 4000)"
    using assms(1) by (cases "rv_error r") (auto simp: receipt_consistent_def Suc_le_eq)
  then show ?thesis
    using assms by (auto simp: receipt_valid_def receipt_consistent_def cli_run_exit_def run_receipt_statuses_def exit_codes_def
        receipt_success_statuses_def)
qed

lemma receipt_payload: "receipt_of_payload (receipt_canonical_dict r) = Some r"
  by (cases r) (auto simp: receipt_of_payload_def receipt_canonical_dict_def opt_str_def split: option.split)

lemma bounded_error_nonempty: "bounded_error x \<noteq> []"
  by (simp add: bounded_error_def one_line_def)

lemma bounded_error_length: "length (bounded_error x) \<le> 4000"
  by (simp add: bounded_error_def)

definition reported :: "run_request \<Rightarrow> run_receipt \<Rightarrow> bool" where
  "reported req r \<longleftrightarrow> receipt_consistent r \<and> rv_trigger r = rr_trigger req"

lemma engine_now_returns: "\<exists>t s'. engine_now e s = (Inr t, s')"
  by (cases "en_clock_ms e (fst s)") (simp add: engine_now_def on_world_def)

lemma engine_run_reported:
  assumes "engine_run e req s = (Inr rc, s')"
  shows "reported req rc"
proof -
  have locked: "reported req rc" if run: "run_locked e req t s = (Inr rc, s')" for t s s'
  proof -
    from run obtain inp warnings s1 s2 where p: "prepare_run e req s = (Inr inp, s1)"
      and ev: "evaluate_run e req t inp warnings s2 = (Inr rc, s')"
      by (auto simp: run_locked_def sbind_Inr)
    have hex: "is_hex64 (ri_run_id inp)" by (simp add: prepare_run_id [OF p] run_id_of_def run_identity_def)
    obtain res s3 where res: "analyse_and_commit e inp s2 = (res, s3)" by (cases "analyse_and_commit e inp s2")
    show ?thesis
    proof (cases res)
      case (Inl x)
      with ev res have "fail_run e req t inp x s3 = (Inr rc, s')" by (simp add: evaluate_run_def)
      then show ?thesis using hex bounded_error_nonempty [of x] bounded_error_length [of x]
        by (auto simp: fail_run_def sbind_Inr Let_def reported_def receipt_consistent_def run_receipt_statuses_def
            receipt_success_statuses_def)
    next
      case (Inr out)
      with ev res have "complete_run e req t inp warnings out s3 = (Inr rc, s')" by (simp add: evaluate_run_def)
      moreover obtain decisions completed where "out = (decisions, completed)" by (cases out)
      ultimately obtain more where "rc = succeeded_receipt req t inp completed (length decisions) (warnings @ more)"
        by (auto simp: complete_run_def sbind_Inr)
      then show ?thesis using hex
        by (auto simp: succeeded_receipt_def reported_def receipt_consistent_def run_receipt_statuses_def
            receipt_success_statuses_def)
    qed
  qed
  obtain t s1 where now: "engine_now e s = (Inr t, s1)" using engine_now_returns by blast
  with assms obtain got s2 where got: "on_world (en_acquire e) s1 = (Inr got, s2)"
    and rest: "(if got then sfinally (run_locked e req t) (\<lambda>s. (en_release e (fst s), snd s))
      else sbind (engine_now e) (\<lambda>completed. sreturn (overlap_receipt req t completed))) s2 = (Inr rc, s')"
    by (auto simp: engine_run_def sbind_Inr)
  show ?thesis
  proof (cases got)
    case True
    obtain r s3 where "run_locked e req t s2 = (r, s3)" by (cases "run_locked e req t s2")
    with rest True locked show ?thesis by (auto simp: sfinally_def)
  next
    case False
    with rest obtain completed where "rc = overlap_receipt req t completed" by (auto simp: sbind_Inr)
    then show ?thesis
      by (simp add: overlap_receipt_def reported_def receipt_consistent_def run_receipt_statuses_def receipt_success_statuses_def)
  qed
qed

lemma flush_warning_reported: "reported req r \<Longrightarrow> reported req (flush_warning r)"
  by (auto simp: reported_def flush_warning_def receipt_consistent_def run_receipt_statuses_def receipt_success_statuses_def
      Let_def split: option.splits)

lemma run_with_router_reported:
  assumes "run_with_router e rt req s = (Inr rc, s')"
  shows "reported req rc"
proof -
  from assms obtain r s1 where "engine_run (routed_engine rt (beside_router e)) req s = (Inr r, s1)"
    and "rc = r \<or> rc = flush_warning r"
    by (auto simp: run_with_router_def sbind_Inr split: if_splits)
  with engine_run_reported flush_warning_reported show ?thesis by blast
qed

lemma run_once_reported:
  "\<exists>rc s'. run_once e factory configured req s = (Inr rc, s') \<and> reported req rc"
proof -
  obtain started s1 where now: "engine_now e s = (Inr started, s1)" using engine_now_returns by blast
  let ?body = "sbind (slift configured) (\<lambda>config.
        sbind (slift (mk_engine e)) (\<lambda>e.
        sbind (slift (mk_run_request req)) (\<lambda>req.
        case config of
          None \<Rightarrow> engine_run e req
        | Some nc \<Rightarrow> with_router (run_with_router e (notification_router nc factory (en_clock_ms e)) req))))"
  obtain q s2 where q: "?body s1 = (q, s2)" by (cases "?body s1")
  show ?thesis
  proof (cases q)
    case (Inl x)
    obtain completed s3 where later: "engine_now e s2 = (Inr completed, s3)" using engine_now_returns by blast
    show ?thesis
      using now q Inl later bounded_error_nonempty [of x] bounded_error_length [of x]
      by (cases s3) (simp add: run_once_def sbind_def scatch_def sreturn_def reported_def receipt_consistent_def
          run_receipt_statuses_def receipt_success_statuses_def)
  next
    case (Inr rc)
    from q Inr obtain config where "mk_engine e = Inr e" "mk_run_request req = Inr req"
      and run: "(case config of None \<Rightarrow> engine_run e req
        | Some nc \<Rightarrow> with_router (run_with_router e (notification_router nc factory (en_clock_ms e)) req)) s1 = (Inr rc, s2)"
      by (auto simp: sbind_Inr mk_engine_def mk_run_request_def)
    have "reported req rc"
    proof (cases config)
      case None
      with run have "engine_run e req s1 = (Inr rc, s2)" by simp
      then show ?thesis by (rule engine_run_reported)
    next
      case (Some nc)
      with run show ?thesis
        by (auto simp: with_router_def split: prod.splits dest: run_with_router_reported)
    qed
    with now q Inr show ?thesis
      unfolding run_once_def by (intro exI [of _ rc] exI [of _ s2]) (simp add: sbind_def scatch_def)
  qed
qed

section \<open>Attempts survive the runs\<close>

lemma attempt_same_runs:
  assumes "attempt_open a run db" "same_runs db db'" "run_db_wf db'"
  shows "attempt_open a run db'"
  using assms same_runs_found [OF assms(2)] by (fastforce simp: attempt_open_def)

interpretation attempt: notification_closed "attempt_open a run" for a run
proof unfold_locales
  fix db db' es rid
  assume a: "attempt_open a run db" and es: "list_all dedup_ok es" and st: "set_column rid (notification_dedup_update (\<lambda>_. es)) db = Inr db'"
  from a have "run_db_wf db" by (simp add: attempt_open_def)
  from wf.closed_dedup [OF this es st] unchanged.closed_dedup [OF same_runs_refl es st] attempt_same_runs [OF a]
  show "attempt_open a run db'" by blast
next
  fix db db' xs rid
  assume a: "attempt_open a run db" and xs: "length xs \<le> 100" "list_all (outcome_ok rid) xs"
    and st: "set_column rid (notification_outcomes_update (\<lambda>_. xs)) db = Inr db'"
  from a have "run_db_wf db" by (simp add: attempt_open_def)
  from wf.closed_outcomes [OF this xs st] unchanged.closed_outcomes [OF same_runs_refl xs st] attempt_same_runs [OF a]
  show "attempt_open a run db'" by blast
qed

interpretation attempt_router: routed_store "rt\<lparr>rt_store := Some run_notification_store\<rparr>" "attempt_open a run" for rt a run
  by unfold_locales (auto simp: run_notification_store_def intro: keeps_lookup attempt.keeps_notifications)

text \<open>The calls for one run leave the record of an attempt alone.\<close>

lemma keeps_attempt_other:
  assumes "rid \<noteq> a" "keeps run_db_wf m"
    and "\<And>db r db'. m db = (r, db') \<Longrightarrow> find_run db' a = find_run db a"
  shows "keeps (attempt_open a run) m"
  using assms by (auto simp: keeps_def attempt_open_def)

lemma update_running_other:
  assumes "update_runs (running rid) f db = Inr db'" "\<And>r. rn_run_id (f r) = rn_run_id r" "a \<noteq> rid"
  shows "find_run db' a = find_run db a"
  using find_update [OF assms(1,2), of a] assms(3) find_run_Some [of db a]
  by (cases "find_run db a") (auto simp: running_def)

lemma keeps_attempt_runs:
  assumes "rid \<noteq> a"
  shows "rn_run_id r = rid \<Longrightarrow> keeps (attempt_open a run) (store_run r)"
    "keeps (attempt_open a run) (finish_run rid st t err oc)"
    "keeps (attempt_open a run) (commit_run rid obs ds t)"
proof -
  show "keeps (attempt_open a run) (store_run r)" if "rn_run_id r = rid"
  proof (rule keeps_attempt_other [OF assms wf.keeps_store_run])
    fix db q db'
    assume "store_run r db = (q, db')"
    then have "db' = db \<or> db' = db\<lparr>run_rows := run_rows db @ [new_row r]\<rparr>"
      by (auto simp: store_run_def transaction_def insert_run_def split: option.splits if_splits sum.splits prod.splits)
    then show "find_run db' a = find_run db a" using assms that by (auto simp: find_run_append split: option.split)
  qed
  show "keeps (attempt_open a run) (finish_run rid st t err oc)"
  proof (rule keeps_attempt_other [OF assms wf.keeps_finish_run])
    fix db q db'
    assume f: "finish_run rid st t err oc db = (q, db')"
    have "db' = db \<or> update_runs (running rid) (end_run st t err oc) db = Inr db'"
      using f by (auto simp: finish_run_def sbind_def sguard_def transaction_def loaded_run_simp
          split: option.splits if_splits sum.splits prod.splits)
    then show "find_run db' a = find_run db a"
      using update_running_other assms by (fastforce simp: end_run_def)
  qed
  show "keeps (attempt_open a run) (commit_run rid obs ds t)"
  proof (rule keeps_attempt_other [OF assms wf.keeps_commit_run])
    fix db q db'
    assume c: "commit_run rid obs ds t db = (q, db')"
    from commit_run_result [OF this] assms show "find_run db' a = find_run db a" by (cases q) auto
  qed
qed

lemma engine_spares_attempts:
  assumes sinks: "sink_contract e (attempt_open a run)" and a: "\<not> is_hex64 a"
  shows "keeps (\<lambda>s. attempt_open a run (snd (snd s))) (engine_run e req)"
proof -
  let ?P = "\<lambda>s :: 'a engine_state. attempt_open a run (snd (snd s))"
  note emits = sink_contract.keeps_emit [OF sinks] sink_contract.keeps_terminal [OF sinks]
  have world: "keeps ?P (on_world m)" for m :: "('a, 'b) op" by (rule keeps_world_snd)
  have now: "keeps ?P (engine_now e)" by (rule keeps_engine_now)
  have runs: "keeps ?P (on_runs m)" if "keeps (attempt_open a run) m" for m :: "(run_db, 'b) op"
    using that by (force simp: keeps_def on_runs_eq split: prod.splits)
  have rest: "keeps ?P (sbind (record_run e inp started) (\<lambda>warnings. evaluate_run e req started inp warnings))"
    if "ri_run_id inp = run_id_of e inp" for inp started
  proof -
    have ne: "ri_run_id inp \<noteq> a" using a that by (auto simp: run_id_of_def run_identity_def)
    note calls = keeps_attempt_runs [OF ne]
    have rec: "keeps ?P (record_run e inp started)"
      unfolding record_run_def
      by (intro keeps_sbind runs keeps_slift emits calls) (simp add: running_record_fields)
    have body: "keeps ?P (analyse_and_commit e inp)"
      unfolding analyse_and_commit_def by (intro keeps_sbind keeps_slift keeps_sreturn runs calls now)
    have fail: "keeps ?P (fail_run e req started inp x)" for x
      unfolding fail_run_def Let_def by (intro keeps_sbind keeps_sreturn runs calls now emits)
    have comp: "keeps ?P (complete_run e req started inp warnings out)" for warnings out
      unfolding complete_run_def by (cases out) (auto intro!: keeps_sbind keeps_sreturn emits)
    have "keeps ?P (evaluate_run e req started inp warnings)" for warnings
      unfolding keeps_def
    proof (intro allI impI)
      fix s r s'
      assume P: "?P s" and run: "evaluate_run e req started inp warnings s = (r, s')"
      obtain q t where q: "analyse_and_commit e inp s = (q, t)" by (cases "analyse_and_commit e inp s")
      from keepsD [OF body P q] have t: "?P t" .
      show "?P s'"
      proof (cases q)
        case (Inl x)
        with run q have "fail_run e req started inp x t = (r, s')" by (simp add: evaluate_run_def)
        from keepsD [OF fail t this] show ?thesis .
      next
        case (Inr out)
        with run q have "complete_run e req started inp warnings out t = (r, s')" by (simp add: evaluate_run_def)
        from keepsD [OF comp t this] show ?thesis .
      qed
    qed
    with rec show ?thesis by (intro keeps_sbind)
  qed
  have "keeps ?P (run_locked e req started)" for started
    unfolding run_locked_def
    by (rule keeps_sbind_val [OF keeps_prepare]) (rule rest, rule prepare_run_id)
  then have fin: "keeps ?P (sfinally (run_locked e req started) (\<lambda>s. (en_release e (fst s), snd s)))" for started
    by (force simp: keeps_def sfinally_def split: prod.splits)
  show ?thesis
    unfolding engine_run_def by (intro keeps_sbind now world) (auto intro!: fin keeps_sbind now keeps_sreturn)
qed

lemma run_once_spares_attempts:
  assumes a: "\<not> is_hex64 a" and sinks: "sink_contract e (attempt_open a run)"
  shows "keeps (\<lambda>s. attempt_open a run (snd (snd s))) (run_once e factory configured req)"
proof -
  let ?P = "\<lambda>s :: 'a engine_state. attempt_open a run (snd (snd s))"
  have now: "keeps ?P (engine_now e)" by (rule keeps_engine_now)
  have routed: "keeps ?P (with_router (run_with_router e (notification_router nc factory clock) req))" for nc clock req
  proof -
    let ?rt = "notification_router nc factory clock"
    have rt: "routed_store ?rt (attempt_open a run)"
      using attempt_router.routed_store_axioms [of ?rt a run] by (simp add: notification_router_def)
    have eng: "keeps (\<lambda>s. attempt_open a run (snd (snd s))) (engine_run (routed_engine ?rt (beside_router e)) req)"
      by (rule engine_spares_attempts [OF routed_sinks [OF rt] a])
    have close: "keeps (\<lambda>s. attempt_open a run (snd (snd s))) (on_sink (router_call (close_router ?rt)))"
      by (intro keeps_sink_runs keeps_router_call routed_store.keeps_routing [OF rt])
    have "keeps (\<lambda>s. attempt_open a run (snd (snd s))) (run_with_router e ?rt req)"
      unfolding run_with_router_def by (intro keeps_sbind eng keeps_scatch close keeps_sreturn)
    then show ?thesis by (force simp: keeps_def with_router_def split: prod.splits)
  qed
  have body: "keeps ?P (sbind (slift (mk_engine e)) (\<lambda>e. sbind (slift (mk_run_request req)) (\<lambda>req.
      case config of None \<Rightarrow> engine_run e req
      | Some nc \<Rightarrow> with_router (run_with_router e (notification_router nc factory (en_clock_ms e)) req))))" for config
  proof (rule keeps_sbind_val [OF keeps_slift])
    fix x and s s' :: "'a engine_state"
    assume "slift (mk_engine e) s = (Inr x, s')"
    then have x: "x = e" by (auto simp: mk_engine_def)
    show "keeps ?P (sbind (slift (mk_run_request req)) (\<lambda>req. case config of None \<Rightarrow> engine_run x req
      | Some nc \<Rightarrow> with_router (run_with_router x (notification_router nc factory (en_clock_ms x)) req)))"
      unfolding x by (intro keeps_sbind keeps_slift) (auto split: option.split intro: routed engine_spares_attempts [OF sinks a])
  qed
  show ?thesis
    unfolding run_once_def by (intro keeps_sbind keeps_scatch now keeps_slift keeps_sreturn body)
qed

section \<open>The scheduled child\<close>

text \<open>The recovery after an interruption leaves the attempts of the scheduler open.\<close>

lemma keeps_attempt_recovery:
  assumes "rn_provider_id run = ''scheduler''"
  shows "keeps (attempt_open a run) (recover_running_runs t reason False)"
  unfolding keeps_def
proof (intro allI impI)
  fix db r db'
  assume op: "attempt_open a run db" and rec: "recover_running_runs t reason False db = (r, db')"
  from op have "run_db_wf db" by (simp add: attempt_open_def)
  from keepsD [OF wf.keeps_recover this rec] have wf': "run_db_wf db'" .
  have "db' = db \<or> update_runs (stale_run t False) (fail_stale t reason) db = Inr db'"
    using rec by (auto simp: recover_running_runs_def sbind_def sguard_def transaction_def Let_def
        split: if_splits sum.splits prod.splits)
  then show "attempt_open a run db'"
  proof
    assume "db' = db"
    with op show ?thesis by simp
  next
    assume up: "update_runs (stale_run t False) (fail_stale t reason) db = Inr db'"
    from op obtain q where q: "find_run db a = Some q" "run_record.truncate q = run" by (auto simp: attempt_open_def)
    with assms have "rn_provider_id q = ''scheduler''" by (auto simp: run_record.truncate_def)
    then have "\<not> stale_run t False q" by (simp add: stale_run_def)
    with q find_update [OF up, of a] wf' show ?thesis by (auto simp: attempt_open_def fail_stale_def)
  qed
qed

text \<open>
  The contract of a child: while it runs and when it is ended, it leaves the attempts as they are.
  Then the managed operation is one the scheduler may call.
\<close>

locale child_contract =
  fixes cp :: "'w child_process"
  assumes communicate_spares: "\<not> is_hex64 a \<Longrightarrow> rn_provider_id run = ''scheduler'' \<Longrightarrow> keeps (\<lambda>s. attempt_open a run (snd s)) (cp_communicate cp)"
    and terminate_spares: "\<not> is_hex64 a \<Longrightarrow> rn_provider_id run = ''scheduler'' \<Longrightarrow> keeps (\<lambda>s. attempt_open a run (snd s)) (cp_terminate cp)"
begin

lemma interrupt_spares:
  assumes "\<not> is_hex64 a" "rn_provider_id run = ''scheduler''"
  shows "keeps (\<lambda>s. attempt_open a run (snd s)) (interrupt_child cp reason)"
proof -
  have now: "keeps (\<lambda>s. attempt_open a run (snd s)) (child_now cp)"
    unfolding child_now_def by (rule keeps_first_other)
  have "keeps (\<lambda>s. attempt_open a run (snd s))
      (sfinally (sbind (child_now cp) (\<lambda>now. on_second (recover_running_runs now reason False))) (\<lambda>s. (cp_release cp (fst s), snd s)))"
    by (intro keeps_sfinally keeps_sbind now keeps_on_second keeps_attempt_recovery assms(2)) simp
  then show ?thesis
    unfolding interrupt_child_def
    by (intro keeps_sbind keeps_first_other terminate_spares [OF assms]) (auto intro!: keeps_sbind keeps_sreturn)
qed

lemma managed_spares:
  assumes "\<not> is_hex64 a" "rn_provider_id run = ''scheduler''"
  shows "keeps (\<lambda>s. attempt_open a run (snd s)) (managed_call cp)"
proof -
  have now: "keeps (\<lambda>s. attempt_open a run (snd s)) (child_now cp)"
    unfolding child_now_def by (rule keeps_first_other)
  show ?thesis
    unfolding managed_call_def
    by (intro keeps_sbind now communicate_spares [OF assms])
      (auto split: child_end.split prod.split intro!: keeps_sbind now interrupt_spares [OF assms] keeps_sreturn)
qed

end

sublocale child_contract \<subseteq> job: job_contract "managed_call cp"
  by unfold_locales (rule managed_spares)

text \<open>
  The child of a scheduled job runs \<^verbatim>\<open>main\<close> with the \<^verbatim>\<open>run\<close> command on the databases it shares with the
  parent; an exception of \<^verbatim>\<open>main\<close> is exit code 2 and no output.
\<close>

definition run_child ::
    "'w engine \<Rightarrow> (string \<Rightarrow> destination \<Rightarrow> ('w, 'w notifier) op) \<Rightarrow> notification_config option result \<Rightarrow> run_request
      \<Rightarrow> (('w \<times> candle_db) \<times> run_db, child_end) op" where
  "run_child e factory configured req s =
     (case run_once e factory configured req (fst (fst s), (snd (fst s), snd s)) of
        (r, (w, (c, d))) \<Rightarrow>
          (Inr (case r of Inl x \<Rightarrow> Exited 2 None | Inr rc \<Rightarrow> Exited (fst (cli_run_exit rc)) (Some (snd (cli_run_exit rc)))), ((w, c), d)))"

definition engine_child ::
    "'w engine \<Rightarrow> (string \<Rightarrow> destination \<Rightarrow> ('w, 'w notifier) op) \<Rightarrow> notification_config option result \<Rightarrow> run_request
      \<Rightarrow> ('w \<times> candle_db) child_process" where
  "engine_child e factory configured req = \<lparr>cp_communicate = run_child e factory configured req,
     cp_terminate = sreturn (), cp_acquire = (\<lambda>s. case en_acquire e (fst s) of (r, w) \<Rightarrow> (r, (w, snd s))),
     cp_release = (\<lambda>s. (en_release e (fst s), snd s)),
     cp_clock_ms = (\<lambda>s. case en_clock_ms e (fst s) of (t, w) \<Rightarrow> (t, (w, snd s)))\<rparr>"

text \<open>An engine built by the services has no sinks but the router.\<close>

lemma sinkless_contract: "en_event_sink e = None \<Longrightarrow> en_batch_sink e = None \<Longrightarrow> sink_contract e P"
  by unfold_locales simp_all

interpretation scheduled: child_contract
  "engine_child (e\<lparr>en_event_sink := None, en_batch_sink := None\<rparr>) factory configured req" for e factory configured req
proof unfold_locales
  let ?e = "e\<lparr>en_event_sink := None, en_batch_sink := None\<rparr>"
  fix a run
  assume "\<not> is_hex64 a"
  then have "keeps (\<lambda>s. attempt_open a run (snd (snd s))) (run_once ?e factory configured req)"
    by (rule run_once_spares_attempts) (rule sinkless_contract; simp)
  then show "keeps (\<lambda>s. attempt_open a run (snd s)) (cp_communicate (engine_child ?e factory configured req))"
    by (force simp: keeps_def engine_child_def run_child_def split: prod.splits)
  show "keeps (\<lambda>s. attempt_open a run (snd s)) (cp_terminate (engine_child ?e factory configured req))"
    by (simp add: engine_child_def keeps_sreturn)
qed

lemma parent_reads_reported:
  assumes "reported req rc" "rr_trigger req \<in> set run_triggers" "0 \<le> rv_started_at_ms rc"
    "rv_started_at_ms rc \<le> rv_completed_at_ms rc"
  shows "receipt_from_child now (fst (cli_run_exit rc)) (Some (snd (cli_run_exit rc)))
    = (if \<exists>x. rv_status rc = ''SUCCEEDED_WITH_WARNINGS'' \<and> rv_error rc = Some x \<and> 4000 < length x then invalid_child_receipt now
       else rc\<lparr>rv_error := (if rv_status rc = ''FAILED'' then Some ''CHILD_FAILED'' else rv_error rc)\<rparr>)"
proof -
  from assms have c: "receipt_consistent rc" "rv_trigger rc \<in> set run_triggers" by (simp_all add: reported_def)
  have keys: "fst ` set (receipt_canonical_dict rc) = set receipt_fields"
    by (simp add: receipt_canonical_dict_def receipt_fields_def)
  have out: "snd (cli_run_exit rc) = JObj (receipt_canonical_dict rc)" by (simp add: cli_run_exit_def)
  have long: "(\<forall>x. rv_error rc = Some x \<longrightarrow> length x \<le> 4000)
      \<longleftrightarrow> \<not> (\<exists>x. rv_status rc = ''SUCCEEDED_WITH_WARNINGS'' \<and> rv_error rc = Some x \<and> 4000 < length x)"
    using c(1) by (auto simp: receipt_consistent_def run_receipt_statuses_def not_less)
  show ?thesis
    unfolding receipt_from_child_def out
    by (simp add: keys receipt_payload consistent_valid [OF c assms(3,4)] long del: not_ex)
qed

section \<open>Properties\<close>

text \<open>C34:
  After a synchronisation of the required range every instrument of the mappings loads from the
  snapshot of the database, and the replay accepts what it loads: no backtest that has synchronised
  fails for an incomplete range, a gap or a foreign candle.\<close>

theorem synchronised_snapshot_is_complete:
  assumes sync: "sync_all pv sqlite_repo ms a b (w, c) = (Inr rc, (w', c'))"
    and typed: "typed_provider pv" and wf: "candle_db_wf c"
    and rp: "rp_provider_id rp = pv_id pv" "rp_market_type rp = market_type_name"
    and i: "i \<in> set (map im_instrument_id ms)"
  shows "\<exists>cs. snapshot_source c' (rp_provider_id rp) (rp_market_type rp) i a b = Inr cs
    \<and> validate_candles rp cs i \<lparr>rq_start_open_ms = a, rq_end_open_ms = b\<rparr> = Inr ()"
proof -
  from sync obtain results where each: "sync_each pv sqlite_repo a b (sort_key im_instrument_id ms) (w, c) = (Inr results, (w', c'))"
    and range: "validate_range a b = Inr ()"
    by (auto simp: sync_all_def sbind_Inr split: if_splits)
  from range have ab: "minute_aligned a" "a \<le> b" by (auto simp: validate_range_def minute_aligned_def)
  from sync_each_complete [OF typed wf each] i obtain cs where
    g: "rows_grown c c'" and cs: "complete_series c' (pv_id pv) a b (i, cs)" by auto
  from g have wf': "candle_db_wf c'" by (simp add: historical.grown_def)
  from complete_series_loaded [OF wf' cs ab(1)] complete_series_valid [OF wf' cs [folded rp(1)] ab(2) rp(2)]
  show ?thesis by (auto simp: rp)
qed

text \<open>C35:
  After the snapshot a backtest is offline: on two databases that hold the same candles of the
  configured market in the required range it gives the same report, or raises the same exception,
  whatever else the databases hold.\<close>

theorem backtest_depends_on_range_only:
  assumes "candle_db_wf db1" "candle_db_wf db2"
    and "resolve_range (bs_period scenario) (sy_history_minutes strategy) = Inr required"
    and "same_range (md_provider market) (md_market_type market) (rq_start_open_ms required) (rq_end_open_ms required) db1 db2"
  shows "offline_backtest sv scenario strategy market required db1 = offline_backtest sv scenario strategy market required db2"
proof -
  let ?p = "md_provider market" and ?m = "md_market_type market"
  have src: "snapshot_source db1 ?p ?m i (rq_start_open_ms required) (rq_end_open_ms required)
      = snapshot_source db2 ?p ?m i (rq_start_open_ms required) (rq_end_open_ms required)" for i
    by (rule same_range_source [OF assms(1,2,4)])
  have replay: "rbind (mk_replay strategy ?p ?m (snapshot_source db1) facs) (\<lambda>rp. rbind (run_replay rp (bs_period scenario)) f)
      = rbind (mk_replay strategy ?p ?m (snapshot_source db2) facs) (\<lambda>rp. rbind (run_replay rp (bs_period scenario)) f)" for facs f
  proof (cases "mk_replay strategy ?p ?m (snapshot_source db1) facs")
    case (Inl x)
    then have "mk_replay strategy ?p ?m (snapshot_source db2) facs = Inl x" by (auto simp: mk_replay_def rguard_def split: if_splits)
    with Inl show ?thesis by simp
  next
    case (Inr rp1)
    then obtain rp2 where "mk_replay strategy ?p ?m (snapshot_source db2) facs = Inr rp2" by (auto simp: mk_replay_def)
    with Inr run_replay_source [OF src assms(3) Inr this] show ?thesis by simp
  qed
  show ?thesis by (simp add: offline_backtest_def src replay)
qed

theorem synchronised_snapshot_is_complete_witness:
  "\<exists>rc c' cs. sync_all sample_provider sqlite_repo [sample_mapping] 0 60000 ((), empty_candle_db) = (Inr rc, ((), c'))
    \<and> snapshot_source c' ''okx_swap'' market_type_name ''CRYPTO-BTC-USDT-PERP'' 0 60000 = Inr cs"
proof -
  obtain res c' where h: "historical_sync_range sample_provider sqlite_repo sample_mapping 0 60000 ((), empty_candle_db) = (Inr res, ((), c'))"
    using sample_synchronised by auto
  have v: "validate_range 0 60000 = Inr ()" by code_simp
  have sync: "\<exists>rc. sync_all sample_provider sqlite_repo [sample_mapping] 0 60000 ((), empty_candle_db) = (Inr rc, ((), c'))"
    using h by (simp add: sync_all_def v sbind_def slift_def sreturn_def sguard_def)
  then obtain rc where sync: "sync_all sample_provider sqlite_repo [sample_mapping] 0 60000 ((), empty_candle_db) = (Inr rc, ((), c'))" ..
  let ?rp = "\<lparr>rp_strategy = uc_strategy sample_configuration, rp_provider_id = ''okx_swap'', rp_market_type = market_type_name,
      rp_candle_source = snapshot_source c', rp_factories = []\<rparr>"
  have id: "rp_provider_id ?rp = pv_id sample_provider" "rp_market_type ?rp = market_type_name"
    "''CRYPTO-BTC-USDT-PERP'' \<in> set (map im_instrument_id [sample_mapping])"
    by (simp_all add: sample_provider_def sample_mapping_def)
  from synchronised_snapshot_is_complete [OF sync sample_typed empty_db_wf id] sync show ?thesis by auto
qed

text \<open>Services whose environment is empty.\<close>

definition sample_services :: "(unit, unit) services" where
  "sample_services = \<lparr>sv_environ = (\<lambda>v. None), sv_read = (\<lambda>p. raise OSError p), sv_yaml = (\<lambda>t. raise ValueError t),
     sv_provider = (\<lambda>market. sreturn sample_provider), sv_acquire = (\<lambda>p. sreturn True), sv_release = id,
     sv_strategy_path = (\<lambda>p s. raise OSError p), sv_plugin = (\<lambda>p. raise UnknownPluginError p), sv_code_hash = Inr (replicate 64 CHR ''a''),
     sv_publish = (\<lambda>p r. sreturn ())\<rparr>"

definition small_scenario :: backtest_scenario where
  "small_scenario = \<lparr>bs_name = ''base'', bs_version = ''1'', bs_strategy = ''levels.yaml'',
     bs_period = \<lparr>bp_start_ms = 240000, bp_end_ms = 300000\<rparr>,
     bs_entry = \<lparr>en_mode = ''entry_limit'', expiry_execution_bars = 3\<rparr>,
     bs_execution = \<lparr>maximum_holding_minutes = 60, intrabar_conflict = ''stop_first'', allow_same_minute_target = False\<rparr>,
     bs_costs = \<lparr>taker_fee_bps = ''5'', adverse_slippage_bps = ''2''\<rparr>, bs_existing_result = ''fail''\<rparr>"

theorem backtest_depends_on_range_only_witness:
  "\<exists>db. candles_1m db \<noteq> [] \<and> (let strategy = uc_strategy sample_configuration; market = uc_market_data sample_configuration;
      required = \<lparr>rq_start_open_ms = 120000, rq_end_open_ms = 300000\<rparr>
    in offline_backtest sample_services small_scenario strategy market required db
      = offline_backtest sample_services small_scenario strategy market required empty_candle_db)"
proof -
  from sample_stored obtain db where st: "store_candle_page sample_page 5 0 empty_candle_db = (Inr (), db)" ..
  note stored = store_page_Inr [OF st]
  with empty_db_wf sample_page_wf have wf: "candle_db_wf db" by blast
  have rows: "find_row db (''okx_swap'', market_type_name, i, ''1m'', t) = None" if "120000 \<le> t" for i t
    using stored that by (simp add: merged_def page_row_def sample_page_def sample_minute_def primary_key_def row_of_def
        find_row_def empty_candle_db_def)
  have none: "find_row empty_candle_db k = None" for k by (simp add: find_row_def empty_candle_db_def)
  have same: "same_range ''okx_swap'' market_type_name 120000 300000 db empty_candle_db"
    by (simp add: same_range_def rows none)
  have rq: "resolve_range (bs_period small_scenario) (sy_history_minutes (uc_strategy sample_configuration))
      = Inr \<lparr>rq_start_open_ms = 120000, rq_end_open_ms = 300000\<rparr>" by code_simp
  have "find_row db (primary_key (sample_minute 0 ''10'' ''12'' ''9.5'' ''11'')) \<noteq> None"
    using stored by (simp add: merged_def page_row_def sample_page_def)
  then have "candles_1m db \<noteq> []" by (auto simp: find_row_def)
  moreover have "md_provider (uc_market_data sample_configuration) = ''okx_swap''"
    "md_market_type (uc_market_data sample_configuration) = market_type_name" by (simp_all add: sample_configuration_def)
  ultimately show ?thesis
    using backtest_depends_on_range_only [OF wf empty_db_wf rq, of "uc_market_data sample_configuration" sample_services] same by auto
qed

section \<open>Runs and their reports\<close>

text \<open>C36:
  A run always reports: whatever its configuration, provider, sinks, strategy and database do, the
  service returns a receipt with the trigger of the request whose fields agree with its status - a
  success names its run, a failure has a reason, an overlap did nothing. A configuration that cannot be
  loaded is such a failure, without a run and with both databases as they were.\<close>

theorem run_once_always_reports:
  "\<exists>rc s'. run_once e factory configured req s = (Inr rc, s') \<and> reported req rc
     \<and> (case configured of Inl x \<Rightarrow> rv_status rc = ''FAILED'' \<and> rv_run_id rc = None \<and> rv_error rc = Some (bounded_error x)
            \<and> snd s' = snd s
        | Inr config \<Rightarrow> True)"
proof (cases configured)
  case (Inl x)
  obtain t s1 where now: "engine_now e s = (Inr t, s1)" using engine_now_returns by blast
  obtain u s2 where later: "engine_now e s1 = (Inr u, s2)" using engine_now_returns by blast
  have "snd s1 = snd s" "snd s2 = snd s1"
    using keepsD [OF keeps_engine_now [where P = "\<lambda>y. y = snd s"] _ now] keepsD [OF keeps_engine_now [where P = "\<lambda>y. y = snd s1"] _ later] by auto
  moreover obtain rc s' where "run_once e factory configured req s = (Inr rc, s')" "reported req rc"
    using run_once_reported by blast
  ultimately show ?thesis
    using Inl now later by (intro exI [of _ rc] exI [of _ s']) (auto simp: run_once_def sbind_def scatch_def slift_def sreturn_def)
next
  case (Inr config)
  with run_once_reported [of e factory configured req s] show ?thesis by auto
qed

text \<open>C37:
  The parent understands its child: the receipt the scheduler reads from exit code and output of a run
  is the receipt of the run, a failure with its reason replaced, for every run at sensible times. The one
  exception is a warning of more than 4000 characters: the run has succeeded and the parent reports an
  invalid receipt.\<close>

theorem parent_understands_child:
  assumes "run_once e factory configured req s = (Inr rc, s')" "rr_trigger req \<in> set run_triggers"
    "0 \<le> rv_started_at_ms rc" "rv_started_at_ms rc \<le> rv_completed_at_ms rc"
  shows "receipt_from_child now (fst (cli_run_exit rc)) (Some (snd (cli_run_exit rc)))
    = (if \<exists>x. rv_status rc = ''SUCCEEDED_WITH_WARNINGS'' \<and> rv_error rc = Some x \<and> 4000 < length x then invalid_child_receipt now
       else rc\<lparr>rv_error := (if rv_status rc = ''FAILED'' then Some ''CHILD_FAILED'' else rv_error rc)\<rparr>)"
proof -
  have "reported req rc" using run_once_reported [of e factory configured req s] assms(1) by auto
  from parent_reads_reported [OF this assms(2-4)] show ?thesis .
qed

theorem parent_understands_child_witness:
  "\<exists>rc s'. run_once sample_engine (\<lambda>name d w. (raise OSError name, w)) (Inl (Exn ValueError ''bad'')) sample_request ((), (empty_candle_db, empty_run_db)) = (Inr rc, s')
    \<and> receipt_from_child 7 (fst (cli_run_exit rc)) (Some (snd (cli_run_exit rc))) = rc\<lparr>rv_error := Some ''CHILD_FAILED''\<rparr>"
proof -
  let ?rc = "\<lparr>rv_run_id = None, rv_status = ''FAILED'', rv_trigger = ''manual'', rv_started_at_ms = 200000,
     rv_completed_at_ms = 200000, rv_instrument_count = 0, rv_decision_count = 0, rv_error = Some (bounded_error (Exn ValueError ''bad''))\<rparr>"
  have run: "run_once sample_engine (\<lambda>name d w. (raise OSError name, w)) (Inl (Exn ValueError ''bad'')) sample_request ((), (empty_candle_db, empty_run_db))
      = (Inr ?rc, ((), (empty_candle_db, empty_run_db)))"
    by (simp add: run_once_def sbind_def scatch_def engine_now_eq sample_engine_fields slift_def sreturn_def sample_request_def)
  have "rr_trigger sample_request \<in> set run_triggers" by (simp add: sample_request_def run_triggers_def)
  from parent_understands_child [OF run this, of 7] run show ?thesis by simp
qed

end
