(* ===== verification/Providers.thy ===== *)
theory Providers
  imports HistoricalSync Configuration
begin

text \<open>
  The exchange adapters behind the provider port (\<^verbatim>\<open>adapters/market_data/\<close>): the JSON requester with its
  bounded retries, and the Binance and OKX adapters, which check every response before a candle is
  built from it. The HTTP client is a parameter: a request gives a body, a status, no connection, or
  an exception of its own; a body that is not JSON is \<open>Body None\<close>. Digits of a response are those of
  ASCII text.

  The lemmas show that a page of either adapter holds only constructed, closed candles of the request,
  that its cursor makes progress inside the request, and that a request is retried boundedly often and
  fails only with the errors of the port.
\<close>

section \<open>Requests\<close>

datatype http_reply = Body "pyobj option" | HttpStatus int "string option" | Unreachable

datatype request_param = ParamText string | ParamInt int

type_synonym request_params = "(string \<times> request_param) list"

record 'w json_requester =
  jr_base_url :: string
  jr_backoffs :: "rat list"
  jr_sleep :: "rat \<Rightarrow> ('w, unit) op"
  jr_http :: "string \<Rightarrow> ('w, http_reply) op"

text \<open>\<^verbatim>\<open>urlencode\<close>: bytes outside the unreserved characters are escaped, a blank is a plus sign.\<close>

definition in_chars :: "char \<Rightarrow> char \<Rightarrow> char \<Rightarrow> bool" where
  "in_chars a b c \<longleftrightarrow> (of_char a :: int) \<le> of_char c \<and> (of_char c :: int) \<le> of_char b"

definition unreserved :: "char \<Rightarrow> bool" where
  "unreserved c \<longleftrightarrow> is_digit c \<or> in_chars CHR ''A'' CHR ''Z'' c \<or> in_chars CHR ''a'' CHR ''z'' c \<or> c \<in> set ''_.-~''"

definition upper_hex :: "int \<Rightarrow> char" where
  "upper_hex d = (if d < 10 then digit_char d else char_of (55 + d))"

definition quote_plus :: "string \<Rightarrow> string" where
  "quote_plus s = concat (map (\<lambda>c. if unreserved c then [c] else if c = CHR '' '' then ''+''
     else [CHR ''%'', upper_hex (of_char c div 16), upper_hex (of_char c mod 16)]) s)"

fun param_text :: "request_param \<Rightarrow> string" where
  "param_text (ParamText s) = s" | "param_text (ParamInt i) = int_text i"

definition urlencode :: "request_params \<Rightarrow> string" where
  "urlencode ps = join_with ''&'' (map (\<lambda>(k, v). quote_plus k @ ''='' @ quote_plus (param_text v)) ps)"

definition retry_after_ms :: "string option \<Rightarrow> int option" where
  "retry_after_ms header = (case header of None \<Rightarrow> None
     | Some v \<Rightarrow> if v \<noteq> [] \<and> all_digits v then Some (digits_val v * 1000) else None)"

text \<open>A reply settles the request, or asks for another attempt, after the time of the server if it names one.\<close>

datatype attempt_verdict = Settled "pyobj result" | Again_after "rat option" exn

fun reply_verdict :: "http_reply \<Rightarrow> attempt_verdict" where
  "reply_verdict (Body (Some v)) = Settled (Inr v)"
| "reply_verdict (Body None) = Settled (raise ProviderProtocolError ''provider returned malformed JSON'')"
| "reply_verdict (HttpStatus code header) =
     (if code \<in> {418, 429} then
        Again_after (map_option (\<lambda>ms. of_int ms / 1000) (retry_after_ms header)) (Exn ProviderRateLimitError ''provider rate limit'')
      else if 500 \<le> code \<and> code < 600 then
        Again_after None (Exn ProviderTemporaryError ''provider service remained unavailable'')
      else Settled (raise ProviderPermanentError (''provider rejected request with HTTP '' @ int_text code)))"
| "reply_verdict Unreachable = Again_after None (Exn ProviderTemporaryError ''provider transport remained unavailable'')"

fun request_loop :: "'w json_requester \<Rightarrow> string \<Rightarrow> rat list \<Rightarrow> ('w, pyobj) op" where
  "request_loop jr url [] =
     sbind (jr_http jr url) (\<lambda>reply. case reply_verdict reply of
       Settled r \<Rightarrow> slift r | Again_after pause x \<Rightarrow> slift (Inl x))"
| "request_loop jr url (b # bs) =
     sbind (jr_http jr url) (\<lambda>reply. case reply_verdict reply of
       Settled r \<Rightarrow> slift r
     | Again_after pause x \<Rightarrow> sbind (jr_sleep jr (case pause of None \<Rightarrow> b | Some t \<Rightarrow> t)) (\<lambda>_. request_loop jr url bs))"

definition request_json :: "'w json_requester \<Rightarrow> string \<Rightarrow> request_params \<Rightarrow> ('w, pyobj) op" where
  "request_json jr path params =
     request_loop jr (jr_base_url jr @ path @ (if params = [] then [] else ''?'' @ urlencode params)) (jr_backoffs jr)"

section \<open>What both adapters share\<close>

text \<open>The memory of an adapter object; Binance validates no symbols.\<close>

record adapter_memory =
  am_validated :: "string list"
  am_server_time :: "int option"

definition new_adapter_memory :: adapter_memory where
  "new_adapter_memory = \<lparr>am_validated = [], am_server_time = None\<rparr>"

type_synonym 'w session = "adapter_memory \<times> 'w"

type_synonym 'w json_call = "string \<Rightarrow> request_params \<Rightarrow> ('w, pyobj) op"

text \<open>\<^verbatim>\<open>payload.get(key)\<close>.\<close>

definition py_get :: "(pyobj, pyobj) dict \<Rightarrow> string \<Rightarrow> pyobj" where
  "py_get kvs key = (case dict_get kvs (PStr key) of None \<Rightarrow> PNone | Some v \<Rightarrow> v)"

text \<open>The server time is asked for once.\<close>

definition cached_time :: "('w session, int) op \<Rightarrow> ('w session, int) op" where
  "cached_time ask =
     sbind (peek (\<lambda>s. am_server_time (fst s))) (\<lambda>known.
     case known of
       Some t \<Rightarrow> sreturn t
     | None \<Rightarrow> sbind ask (\<lambda>t. sbind (poke (\<lambda>s. ((fst s)\<lparr>am_server_time := Some t\<rparr>, snd s))) (\<lambda>_. sreturn t)))"

definition latest_closed :: "string \<Rightarrow> ('w session, int) op \<Rightarrow> ('w session, int) op" where
  "latest_closed name server_time =
     sbind server_time (\<lambda>t.
     sbind (sguard (\<not> t < 60000) ProviderProtocolError (name @ '' server time has no closed canonical minute'')) (\<lambda>_.
     sreturn ((t - 60000) div 60000 * 60000)))"

text \<open>\<^verbatim>\<open>except (TypeError, ValueError)\<close> around the constructor of a candle.\<close>

definition canonical_contract :: "string \<Rightarrow> candle result \<Rightarrow> candle result" where
  "canonical_contract msg r =
     (case r of
        Inl (Exn c m) \<Rightarrow> if c = TypeError \<or> is_value_error c then raise ProviderProtocolError msg else Inl (Exn c m)
      | Inr x \<Rightarrow> Inr x)"

section \<open>Binance\<close>

definition binance_time :: "'w json_call \<Rightarrow> ('w session, int) op" where
  "binance_time ask =
     sbind (on_second (ask ''/fapi/v1/time'' [])) (\<lambda>payload.
     case payload of
       PDict kvs \<Rightarrow>
         (case py_get kvs ''serverTime'' of
            PInt t \<Rightarrow> sbind (sguard (\<not> length (int_text t) \<noteq> 13) ProviderProtocolError
                        ''Binance server time has ambiguous units'') (\<lambda>_. sreturn t)
          | _ \<Rightarrow> slift (raise ProviderProtocolError ''Binance time response is malformed''))
     | _ \<Rightarrow> slift (raise ProviderProtocolError ''Binance time response is malformed''))"

definition binance_candle :: "kline_request \<Rightarrow> int \<Rightarrow> pyobj \<Rightarrow> candle result" where
  "binance_candle rq boundary row =
     (case row of
        PList xs \<Rightarrow>
          rbind (rguard (\<not> length xs \<noteq> 12) ProviderProtocolError ''Binance kline row is malformed'') (\<lambda>_.
          case (xs ! 0, xs ! 6, xs ! 8) of
            (PInt opening, PInt closing, PInt trades) \<Rightarrow>
              rbind (rguard (\<not> (length (int_text opening) \<noteq> 13 \<or> length (int_text closing) \<noteq> 13)) ProviderProtocolError
                       ''Binance kline row has ambiguous timestamp units'') (\<lambda>_.
              rbind (rguard (rq_start rq \<le> opening \<and> opening \<le> rq_end rq) ProviderProtocolError
                       ''Binance kline row is outside the requested range'') (\<lambda>_.
              rbind (rguard (\<not> opening > boundary) ProviderProtocolError ''Binance returned an open candle'') (\<lambda>_.
              canonical_contract ''Binance kline row violates the canonical contract''
                (mk_candle \<lparr>rc_provider_id = PStr ''binance_usdm'', rc_market_type = PStr (rq_market_type rq),
                   rc_instrument_id = PStr (rq_instrument_id rq), rc_provider_symbol = PStr (rq_provider_symbol rq),
                   rc_interval = PStr ''1m'', rc_open_time_ms = PInt opening, rc_close_time_ms = PInt closing,
                   rc_open = xs ! 1, rc_high = xs ! 2, rc_low = xs ! 3, rc_close = xs ! 4, rc_base_volume = xs ! 5,
                   rc_quote_volume = xs ! 7, rc_source_fields = PDict [(PStr ''trade_count'', PInt trades),
                     (PStr ''taker_buy_base_volume'', xs ! 9), (PStr ''taker_buy_quote_volume'', xs ! 10)]\<rparr>))))
          | _ \<Rightarrow> raise ProviderProtocolError ''Binance kline row has ambiguous numeric units'')
      | _ \<Rightarrow> raise ProviderProtocolError ''Binance kline row is malformed'')"

text \<open>The rows of a response, after the errors the exchange reports in it.\<close>

definition binance_rows :: "pyobj \<Rightarrow> pyobj list result" where
  "binance_rows payload =
     (case payload of
        PDict kvs \<Rightarrow>
          (case py_get kvs ''code'' of
             PInt code \<Rightarrow>
               if code = - 1003 then raise ProviderRateLimitError ''provider rate limit''
               else if code \<in> {- 1000, - 1001, - 1007} then
                 raise ProviderTemporaryError ''Binance reported a temporary provider failure''
               else raise ProviderPermanentError ''Binance rejected the public market-data request''
           | _ \<Rightarrow> raise ProviderProtocolError ''Binance kline response is malformed'')
      | PList rows \<Rightarrow> Inr rows
      | _ \<Rightarrow> raise ProviderProtocolError ''Binance kline response is malformed'')"

definition binance_page :: "kline_request \<Rightarrow> int \<Rightarrow> pyobj list \<Rightarrow> kline_page result" where
  "binance_page rq boundary rows =
     rbind (rmapM (binance_candle rq boundary) rows) (\<lambda>candles.
     rbind (rguard (candles \<noteq> []) ProviderProtocolError ''Binance returned no progress for the requested range'') (\<lambda>_.
     (let next_start = open_time_ms (last candles) + 60000; complete = next_start > rq_end rq in
      mk_page \<lparr>pg_candles = candles, pg_next = (if complete then None else Some next_start), pg_complete = complete\<rparr>)))"

definition binance_provider :: "int \<Rightarrow> 'w json_call \<Rightarrow> 'w session kline_provider" where
  "binance_provider limit ask = \<lparr>pv_id = ''binance_usdm'', pv_validate = (\<lambda>m. sreturn ()),
     pv_server_time = cached_time (binance_time ask), pv_latest_closed = latest_closed ''Binance'' (cached_time (binance_time ask)),
     pv_fetch = (\<lambda>rq.
       sbind (sguard (\<not> rq_provider_id rq \<noteq> ''binance_usdm'') ProviderConfigurationError
                ''request provider does not match Binance adapter'') (\<lambda>_.
       sbind (on_second (ask ''/fapi/v1/klines'' [(''symbol'', ParamText (rq_provider_symbol rq)), (''interval'', ParamText ''1m''),
                (''startTime'', ParamInt (rq_start rq)), (''endTime'', ParamInt (rq_end rq)), (''limit'', ParamInt limit)])) (\<lambda>payload.
       sbind (slift (binance_rows payload)) (\<lambda>rows.
       sbind (latest_closed ''Binance'' (cached_time (binance_time ask))) (\<lambda>boundary.
       slift (binance_page rq boundary rows))))))\<rparr>"

definition mk_binance :: "int \<Rightarrow> 'w json_call \<Rightarrow> 'w session kline_provider result" where
  "mk_binance limit ask = rbind (rguard (1 \<le> limit \<and> limit \<le> 1500) ProviderConfigurationError
     ''Binance page limit must be an integer from 1 to 1500'') (\<lambda>_. Inr (binance_provider limit ask))"

section \<open>OKX\<close>

text \<open>\<^verbatim>\<open>code in {...}\<close> hashes the code, which a list or a dictionary does not allow.\<close>

fun unhashable :: "pyobj \<Rightarrow> bool" where
  "unhashable (PList xs) = True" | "unhashable (PDict kvs) = True" | "unhashable _ = False"

definition okx_data :: "pyobj \<Rightarrow> string \<Rightarrow> pyobj list result" where
  "okx_data payload operation =
     (case payload of
        PDict kvs \<Rightarrow>
          (let code = py_get kvs ''code'' in
           if code \<noteq> PStr ''0'' then
             if code = PStr ''50011'' then raise ProviderRateLimitError ''provider rate limit''
             else if unhashable code then raise TypeError ''unhashable type''
             else if code \<in> {PStr ''50013'', PStr ''50026''} then
               raise ProviderTemporaryError (''OKX '' @ operation @ '' temporarily unavailable'')
             else (case code of
                 PStr s \<Rightarrow> raise ProviderPermanentError (''OKX rejected '' @ operation @ '' request'')
               | _ \<Rightarrow> raise ProviderProtocolError (''OKX '' @ operation @ '' response is malformed''))
           else (case py_get kvs ''data'' of
               PList xs \<Rightarrow> Inr xs
             | _ \<Rightarrow> raise ProviderProtocolError (''OKX '' @ operation @ '' response is malformed'')))
      | _ \<Rightarrow> raise ProviderProtocolError (''OKX '' @ operation @ '' response is malformed''))"

definition millisecond_text :: "pyobj \<Rightarrow> string \<Rightarrow> int result" where
  "millisecond_text v name =
     (case v of
        PStr s \<Rightarrow> if \<not> (length s \<noteq> 13 \<or> \<not> all_digits s) then Inr (digits_val s)
                  else raise ProviderProtocolError (name @ '' has ambiguous units'')
      | _ \<Rightarrow> raise ProviderProtocolError (name @ '' has ambiguous units''))"

definition okx_swap_metadata :: "string \<Rightarrow> (pyobj, pyobj) dict \<Rightarrow> bool" where
  "okx_swap_metadata symbol metadata \<longleftrightarrow>
     \<not> list_ex (\<lambda>(key, v). py_get metadata key \<noteq> PStr v)
       [(''instType'', ''SWAP''), (''instId'', symbol), (''ctType'', ''linear''), (''settleCcy'', ''USDT'')]"

definition okx_validate :: "'w json_call \<Rightarrow> instrument_mapping \<Rightarrow> ('w session, unit) op" where
  "okx_validate ask m =
     sbind (on_second (ask ''/api/v5/public/instruments''
              [(''instType'', ParamText ''SWAP''), (''instId'', ParamText (im_provider_symbol m))])) (\<lambda>payload.
     sbind (slift (okx_data payload ''instrument'')) (\<lambda>data.
     case data of
       [PDict metadata] \<Rightarrow>
         sbind (sguard (okx_swap_metadata (im_provider_symbol m) metadata) ProviderInstrumentError
                  ''OKX instrument is not the configured linear USDT swap'') (\<lambda>_.
         poke (\<lambda>s. ((fst s)\<lparr>am_validated := am_validated (fst s) @ [im_provider_symbol m]\<rparr>, snd s)))
     | _ \<Rightarrow> slift (raise ProviderInstrumentError ''OKX instrument metadata is missing or ambiguous'')))"

definition okx_time :: "'w json_call \<Rightarrow> ('w session, int) op" where
  "okx_time ask =
     sbind (on_second (ask ''/api/v5/public/time'' [])) (\<lambda>payload.
     sbind (slift (okx_data payload ''time'')) (\<lambda>data.
     case data of
       [PDict kvs] \<Rightarrow> slift (millisecond_text (py_get kvs ''ts'') ''OKX server time'')
     | _ \<Rightarrow> slift (raise ProviderProtocolError ''OKX time response is malformed'')))"

text \<open>The rows at or after the start, and whether an older one was seen.\<close>

definition okx_row_step :: "kline_request \<Rightarrow> pyobj list \<times> bool \<Rightarrow> pyobj \<Rightarrow> (pyobj list \<times> bool) result" where
  "okx_row_step rq acc row =
     (case row of
        PList xs \<Rightarrow>
          rbind (rguard (\<not> length xs \<noteq> 9) ProviderProtocolError ''OKX candle row is malformed'') (\<lambda>_.
          rbind (millisecond_text (xs ! 0) ''OKX candle open time'') (\<lambda>t.
          rbind (rguard (\<not> t > rq_end rq) ProviderProtocolError ''OKX candle row is outside the requested upper bound'') (\<lambda>_.
          Inr (if t < rq_start rq then (fst acc, True) else (fst acc @ [row], snd acc)))))
      | _ \<Rightarrow> raise ProviderProtocolError ''OKX candle row is malformed'')"

definition okx_candle :: "kline_request \<Rightarrow> int \<Rightarrow> pyobj \<Rightarrow> candle result" where
  "okx_candle rq boundary row =
     (case row of
        PList xs \<Rightarrow>
          rbind (rguard (\<not> length xs \<noteq> 9) ProviderProtocolError ''OKX candle row is malformed'') (\<lambda>_.
          rbind (millisecond_text (xs ! 0) ''OKX candle open time'') (\<lambda>t.
          rbind (rguard (rq_start rq \<le> t \<and> t \<le> rq_end rq) ProviderProtocolError
                   ''OKX candle row is outside the requested range'') (\<lambda>_.
          rbind (rguard (\<not> (xs ! 8 \<noteq> PStr ''1'' \<or> t > boundary)) ProviderProtocolError
                   ''OKX returned an incomplete candle'') (\<lambda>_.
          canonical_contract ''OKX candle row violates the canonical contract''
            (mk_candle \<lparr>rc_provider_id = PStr ''okx_swap'', rc_market_type = PStr (rq_market_type rq),
               rc_instrument_id = PStr (rq_instrument_id rq), rc_provider_symbol = PStr (rq_provider_symbol rq),
               rc_interval = PStr ''1m'', rc_open_time_ms = PInt t, rc_close_time_ms = PInt (t + 59999),
               rc_open = xs ! 1, rc_high = xs ! 2, rc_low = xs ! 3, rc_close = xs ! 4, rc_base_volume = xs ! 6,
               rc_quote_volume = xs ! 7, rc_source_fields = PDict [(PStr ''contract_volume'', xs ! 5)]\<rparr>)))))
      | _ \<Rightarrow> raise ProviderProtocolError ''OKX candle row is malformed'')"

definition okx_page :: "int \<Rightarrow> kline_request \<Rightarrow> int \<Rightarrow> pyobj list \<Rightarrow> kline_page result" where
  "okx_page limit rq boundary data =
     rbind (rfoldM (okx_row_step rq) ([], False) data) (\<lambda>(in_range, saw_older).
     rbind (rmapM (okx_candle rq boundary) in_range) (\<lambda>found.
     (let candles = sort_key open_time_ms found in
      rbind (rguard (candles \<noteq> []) ProviderProtocolError ''OKX returned no progress for the requested range'') (\<lambda>_.
      (let earliest = open_time_ms (hd candles);
           complete = (saw_older \<or> earliest \<le> rq_start rq \<or> int (length data) < limit) in
       mk_page \<lparr>pg_candles = candles, pg_next = (if complete then None else Some (earliest - 60000)), pg_complete = complete\<rparr>)))))"

definition okx_provider :: "int \<Rightarrow> 'w json_call \<Rightarrow> 'w session kline_provider" where
  "okx_provider limit ask = \<lparr>pv_id = ''okx_swap'', pv_validate = okx_validate ask,
     pv_server_time = cached_time (okx_time ask), pv_latest_closed = latest_closed ''OKX'' (cached_time (okx_time ask)),
     pv_fetch = (\<lambda>rq.
       sbind (sguard (\<not> rq_provider_id rq \<noteq> ''okx_swap'') ProviderConfigurationError
                ''request provider does not match OKX adapter'') (\<lambda>_.
       sbind (peek (\<lambda>s. am_validated (fst s))) (\<lambda>validated.
       sbind (sguard (rq_provider_symbol rq \<in> set validated) ProviderInstrumentError
                ''OKX instrument metadata must be validated before candles'') (\<lambda>_.
       sbind (on_second (ask ''/api/v5/market/history-candles'' [(''instId'', ParamText (rq_provider_symbol rq)), (''bar'', ParamText ''1m''),
                (''after'', ParamText (int_text (rq_end rq + 60000))), (''limit'', ParamText (int_text limit))])) (\<lambda>payload.
       sbind (slift (okx_data payload ''history candle'')) (\<lambda>data.
       sbind (latest_closed ''OKX'' (cached_time (okx_time ask))) (\<lambda>boundary.
       slift (okx_page limit rq boundary data))))))))\<rparr>"

definition mk_okx :: "int \<Rightarrow> 'w json_call \<Rightarrow> 'w session kline_provider result" where
  "mk_okx limit ask = rbind (rguard (1 \<le> limit \<and> limit \<le> 100) ProviderConfigurationError
     ''OKX page limit must be an integer from 1 to 100'') (\<lambda>_. Inr (okx_provider limit ask))"

section \<open>The registry\<close>

definition default_requester :: "(rat \<Rightarrow> ('w, unit) op) \<Rightarrow> (string \<Rightarrow> ('w, http_reply) op) \<Rightarrow> string \<Rightarrow> 'w json_requester" where
  "default_requester sleep http url = \<lparr>jr_base_url = url, jr_backoffs = [1, 2], jr_sleep = sleep, jr_http = http\<rparr>"

definition build_market_provider ::
    "(rat \<Rightarrow> ('w, unit) op) \<Rightarrow> (string \<Rightarrow> ('w, http_reply) op) \<Rightarrow> market_data_config \<Rightarrow> 'w session kline_provider result" where
  "build_market_provider sleep http config =
     (if md_provider config = ''binance_usdm'' then
        mk_binance 1500 (request_json (default_requester sleep http ''https://fapi.binance.com''))
      else if md_provider config = ''okx_swap'' then
        mk_okx 100 (request_json (default_requester sleep http ''https://www.okx.com''))
      else raise LookupError (''unknown provider ID '' @ py_repr (md_provider config) @ ''; allowed IDs are ''
        @ [CHR 0x28, CHR 0x27] @ ''binance_usdm'' @ [CHR 0x27, CHR 0x2C, CHR 0x20, CHR 0x27] @ ''okx_swap'' @ [CHR 0x27, CHR 0x29]))"

section \<open>Pages\<close>

lemma keeps_sbind_run:
  assumes "keeps P m" "\<And>s x s' r s''. P s \<Longrightarrow> m s = (Inr x, s') \<Longrightarrow> P s' \<Longrightarrow> f x s' = (r, s'') \<Longrightarrow> P s''"
  shows "keeps P (sbind m f)"
  unfolding keeps_def
proof (intro allI impI)
  fix s r s''
  assume s: "P s" and run: "sbind m f s = (r, s'')"
  obtain q t where q: "m s = (q, t)" by (cases "m s")
  from keepsD [OF assms(1) s q] have t: "P t" .
  show "P s''"
  proof (cases q)
    case (Inl x)
    with run q t show ?thesis by (simp add: sbind_def)
  next
    case (Inr x)
    with run q have "f x t = (r, s'')" by (simp add: sbind_def)
    with assms(2) s q Inr t show ?thesis by blast
  qed
qed

lemma mk_candle_fields:
  assumes "mk_candle rc = Inr c"
  shows "rc_provider_id rc = PStr (provider_id c)" "rc_market_type rc = PStr (market_type c)"
    "rc_instrument_id rc = PStr (c_instrument_id c)" "rc_provider_symbol rc = PStr (provider_symbol c)"
    "rc_open_time_ms rc = PInt (open_time_ms c)" "c_interval c = ''1m''"
  using assms by (auto simp: mk_candle_def split: pyobj.splits if_splits dest!: instrument_id_obj_Inr)

lemma canonical_contract_Inr: "canonical_contract msg r = Inr c \<longleftrightarrow> r = Inr c"
  by (auto simp: canonical_contract_def split: sum.splits exn.splits if_splits)

text \<open>What an adapter promises of a page: candles of the request that had closed by the time of the server,
  and a cursor next to one of them.\<close>

definition closed_by :: "int option \<Rightarrow> candle \<Rightarrow> bool" where
  "closed_by time c \<longleftrightarrow> (\<exists>t. time = Some t \<and> close_time_ms c < t)"

definition page_promised :: "kline_request \<Rightarrow> int option \<Rightarrow> kline_page \<Rightarrow> bool" where
  "page_promised rq time page \<longleftrightarrow>
     (\<forall>c\<in>set (pg_candles page). candle_wf c \<and> page_candle_ok rq c \<and> closed_by time c)
     \<and> pg_candles page \<noteq> [] \<and> (pg_complete page \<longleftrightarrow> pg_next page = None)
     \<and> (case pg_next page of None \<Rightarrow> True
        | Some n \<Rightarrow> rq_start rq \<le> n \<and> n \<le> rq_end rq
            \<and> (\<exists>c\<in>set (pg_candles page). n = open_time_ms c + 60000 \<or> n = open_time_ms c - 60000))"

lemma closed_boundary: "s \<le> (t - 60000) div 60000 * 60000 \<Longrightarrow> s + 59999 < (t :: int)"
  using div_mult_mod_eq [of "t - 60000" 60000] pos_mod_sign [of 60000 "t - 60000"] by linarith

lemma latest_closed_Inr:
  assumes "latest_closed name st s = (Inr b, s')"
  shows "\<exists>t. st s = (Inr t, s') \<and> b = (t - 60000) div 60000 * 60000"
  using assms by (auto simp: latest_closed_def sbind_Inr split: if_splits)

lemma cached_time_Inr:
  assumes "cached_time ask s = (Inr t, s')"
  shows "am_server_time (fst s') = Some t"
proof -
  from assms obtain known where k: "am_server_time (fst s) = known"
    "(case known of Some t \<Rightarrow> sreturn t
     | None \<Rightarrow> sbind ask (\<lambda>t. sbind (poke (\<lambda>s. ((fst s)\<lparr>am_server_time := Some t\<rparr>, snd s))) (\<lambda>_. sreturn t))) s = (Inr t, s')"
    by (auto simp: cached_time_def sbind_Inr peek_def)
  then show ?thesis by (cases known) (auto simp: sbind_Inr poke_def)
qed

lemma boundary_closed:
  assumes "latest_closed name (cached_time ask) s = (Inr b, s')" "open_time_ms c \<le> b" "candle_wf c"
  shows "closed_by (am_server_time (fst s')) c"
proof -
  from latest_closed_Inr [OF assms(1)] obtain t where t: "cached_time ask s = (Inr t, s')" "b = (t - 60000) div 60000 * 60000"
    by blast
  from assms(3) have "close_time_ms c = open_time_ms c + 59999" by (simp add: candle_wf_def)
  with closed_boundary [of "open_time_ms c" t] assms(2) t(2) cached_time_Inr [OF t(1)] show ?thesis
    by (simp add: closed_by_def)
qed

text \<open>The candle of a row, for both adapters.\<close>

definition row_candle :: "string \<Rightarrow> kline_request \<Rightarrow> int \<Rightarrow> candle \<Rightarrow> bool" where
  "row_candle pid rq boundary c \<longleftrightarrow> candle_wf c \<and> provider_id c = pid \<and> market_type c = rq_market_type rq
     \<and> c_instrument_id c = rq_instrument_id rq \<and> provider_symbol c = rq_provider_symbol rq
     \<and> rq_start rq \<le> open_time_ms c \<and> open_time_ms c \<le> rq_end rq \<and> open_time_ms c \<le> boundary"

lemma binance_candle_row: "binance_candle rq b row = Inr c \<Longrightarrow> row_candle ''binance_usdm'' rq b c"
  by (auto simp: binance_candle_def row_candle_def canonical_contract_Inr mk_candle_wf dest: mk_candle_fields split: pyobj.splits)

lemma okx_candle_row: "okx_candle rq b row = Inr c \<Longrightarrow> row_candle ''okx_swap'' rq b c"
  by (auto simp: okx_candle_def row_candle_def canonical_contract_Inr mk_candle_wf dest: mk_candle_fields split: pyobj.splits)

lemma row_candle_ok:
  assumes "row_candle (rq_provider_id rq) rq b c" "mk_request rq = Inr rq"
  shows "page_candle_ok rq c"
  using assms by (auto simp: row_candle_def page_candle_ok_def mk_request_def candle_wf_def)

lemma binance_page_Inr:
  assumes "binance_page rq b rows = Inr page"
  shows "\<forall>c\<in>set (pg_candles page). row_candle ''binance_usdm'' rq b c" "pg_candles page \<noteq> []"
    "pg_complete page \<longleftrightarrow> pg_next page = None"
    "pg_next page = Some n \<Longrightarrow> n = open_time_ms (last (pg_candles page)) + 60000 \<and> n \<le> rq_end rq"
  using assms by (auto simp: binance_page_def Let_def mk_page_def dest: rmapM_in_set binance_candle_row split: if_splits)

lemma okx_page_Inr:
  assumes "okx_page limit rq b data = Inr page"
  shows "\<forall>c\<in>set (pg_candles page). row_candle ''okx_swap'' rq b c" "pg_candles page \<noteq> []"
    "pg_complete page \<longleftrightarrow> pg_next page = None"
    "pg_next page = Some n \<Longrightarrow> n = open_time_ms (hd (pg_candles page)) - 60000 \<and> rq_start rq < n + 60000"
  using assms by (auto simp: okx_page_def Let_def mk_page_def dest: rmapM_in_set okx_candle_row split: if_splits)

section \<open>The contract of an adapter\<close>

text \<open>What is new in the candle table has closed.\<close>

definition only_closed :: "candle_db \<Rightarrow> 'w session \<times> candle_db \<Rightarrow> bool" where
  "only_closed db0 s \<longleftrightarrow> candle_db_wf (snd s)
     \<and> (\<forall>k c. find_row (snd s) k = Some c \<longrightarrow> find_row db0 k = Some c \<or> closed_by (am_server_time (fst (fst s))) c)"

text \<open>
  An adapter keeps its promise for every page, and the time it has once asked for. Its clients get
  two things: the provider is typed, and a synchronisation through it stores no candle that had not
  closed.
\<close>

locale closed_candle_adapter =
  fixes pv :: "'w session kline_provider"
  assumes promised: "mk_request rq = Inr rq \<Longrightarrow> pv_fetch pv rq s = (Inr page, s') \<Longrightarrow> page_promised rq (am_server_time (fst s')) page"
    and typed: "pv_fetch pv rq s = (Inr page, s') \<Longrightarrow> \<forall>c\<in>set (pg_candles page). candle_wf c"
    and time_kept: "keeps (\<lambda>s. am_server_time (fst s) = Some t) (pv_fetch pv rq)"
      "keeps (\<lambda>s. am_server_time (fst s) = Some t) (pv_validate pv m)"
      "keeps (\<lambda>s. am_server_time (fst s) = Some t) (pv_server_time pv)"
      "keeps (\<lambda>s. am_server_time (fst s) = Some t) (pv_latest_closed pv)"
begin

lemma typed_adapter: "typed_provider pv"
  using typed by (simp add: typed_provider_def)

lemma closed_later: "closed_by (am_server_time (fst s)) c \<Longrightarrow> (\<And>t. keeps (\<lambda>s. am_server_time (fst s) = Some t) m)
    \<Longrightarrow> m s = (r, s') \<Longrightarrow> closed_by (am_server_time (fst s')) c"
  unfolding closed_by_def keeps_def by blast

lemma keeps_call:
  assumes "\<And>t. keeps (\<lambda>s. am_server_time (fst s) = Some t) m"
  shows "keeps (only_closed db0) (on_world m)"
  unfolding keeps_def
proof (intro allI impI)
  fix s r s'
  assume o: "only_closed db0 s" and run: "on_world m s = (r, s')"
  then have "m (fst s) = (r, fst s')" "snd s' = snd s" by (auto simp: on_world_def split: prod.splits)
  with o closed_later [OF _ assms] show "only_closed db0 s'" unfolding only_closed_def by metis
qed

lemma keeps_pure: "(\<And>s. snd (m s) = s) \<Longrightarrow> keeps (only_closed db0) (on_store m)"
  by (auto simp: keeps_def on_store_def only_closed_def split: prod.splits) (metis snd_conv)+

lemma store_only_closed:
  assumes o: "only_closed db0 s" and page: "\<forall>c\<in>set cs. candle_wf c \<and> closed_by (am_server_time (fst (fst s))) c"
    and run: "on_store (repo_store (historical_repo sqlite_repo) cs t req) s = (r, s')"
  shows "only_closed db0 s'"
proof -
  from run have st: "repo_store (historical_repo sqlite_repo) cs t req (snd s) = (r, snd s')" and w: "fst s' = fst s"
    by (auto simp: on_store_def split: prod.splits)
  from o page historical.store_inv [OF _ _ st] have wf: "candle_db_wf (snd s')" by (simp add: only_closed_def)
  show ?thesis
  proof (cases r)
    case (Inl x)
    with historical.store_failed st have "snd s' = snd s" by blast
    with o w show ?thesis by (simp add: only_closed_def)
  next
    case (Inr u)
    with historical.store_rows st have rows: "find_row (snd s') = merged cs (find_row (snd s))" by blast
    have "find_row db0 k = Some c \<or> closed_by (am_server_time (fst (fst s))) c" if "find_row (snd s') k = Some c" for k c
    proof (cases "page_row cs k")
      case None
      with that have "find_row (snd s) k = Some c" by (simp add: rows merged_def)
      with o show ?thesis unfolding only_closed_def by blast
    next
      case (Some x)
      with that have "x = c" by (simp add: rows merged_def)
      with page_row_Some [OF Some] obtain d where "d \<in> set cs" "c = row_of d" by blast
      with page show ?thesis by (simp add: closed_by_def row_of_def)
    qed
    with wf w show ?thesis by (simp add: only_closed_def)
  qed
qed

lemma keeps_page: "keeps (only_closed db0) (sync_page pv (historical_repo sqlite_repo) m t req a b cs acc)"
  unfolding sync_page_def
proof (rule keeps_sbind_run, rule keeps_slift)
  fix s rq s1 r s2
  assume "slift (mk_request (sync_request (pv_id pv) m a b)) s = (Inr rq, s1)" and o: "only_closed db0 s1"
    and run: "sbind (on_world (pv_fetch pv rq)) (\<lambda>page. sbind (slift (validate_page rq page)) (\<lambda>cs'.
       sbind (slift (rfoldM accept_step acc cs')) (\<lambda>acc'.
       sbind (on_store (repo_store (historical_repo sqlite_repo) cs' t req)) (\<lambda>_.
       slift (after_page page cs' a b cs acc'))))) s1 = (r, s2)"
  then have rq: "mk_request rq = Inr rq" using mk_request_Inr by fastforce
  have fetch: "keeps (only_closed db0) (on_world (pv_fetch pv rq))" by (rule keeps_call) (rule time_kept)
  have "keeps (only_closed db0) (sbind (on_world (pv_fetch pv rq)) (\<lambda>page. sbind (slift (validate_page rq page)) (\<lambda>cs'.
       sbind (slift (rfoldM accept_step acc cs')) (\<lambda>acc'.
       sbind (on_store (repo_store (historical_repo sqlite_repo) cs' t req)) (\<lambda>_.
       slift (after_page page cs' a b cs acc'))))))"
  proof (rule keeps_sbind_run [OF fetch])
    fix s page s' r s''
    assume f: "on_world (pv_fetch pv rq) s = (Inr page, s')" and o: "only_closed db0 s'"
      and run: "sbind (slift (validate_page rq page)) (\<lambda>cs'. sbind (slift (rfoldM accept_step acc cs')) (\<lambda>acc'.
       sbind (on_store (repo_store (historical_repo sqlite_repo) cs' t req)) (\<lambda>_. slift (after_page page cs' a b cs acc')))) s' = (r, s'')"
    from f have "pv_fetch pv rq (fst s) = (Inr page, fst s')" by (auto simp: on_world_def split: prod.splits)
    from promised [OF rq this] have page: "\<forall>c\<in>set (pg_candles page). candle_wf c \<and> closed_by (am_server_time (fst (fst s'))) c"
      by (simp add: page_promised_def)
    show "only_closed db0 s''"
    proof (cases "validate_page rq page")
      case (Inl x)
      with run o show ?thesis by (simp add: sbind_def slift_def)
    next
      case (Inr cs')
      with page validate_page_Inr [OF Inr] have cs': "\<forall>c\<in>set cs'. candle_wf c \<and> closed_by (am_server_time (fst (fst s'))) c" by blast
      show ?thesis
      proof (cases "rfoldM accept_step acc cs'")
        case (Inl x)
        with run Inr o show ?thesis by (simp add: sbind_def slift_def)
      next
        case (Inr acc')
        obtain q s1 where st: "on_store (repo_store (historical_repo sqlite_repo) cs' t req) s' = (q, s1)"
          by (cases "on_store (repo_store (historical_repo sqlite_repo) cs' t req) s'")
        from store_only_closed [OF o cs' st] have "only_closed db0 s1" .
        moreover have "s'' = s1" using run \<open>validate_page rq page = Inr cs'\<close> Inr st
          by (cases q) (auto simp: sbind_def slift_def)
        ultimately show ?thesis by simp
      qed
    qed
  qed
  from keepsD [OF this o run] show "only_closed db0 s2" .
qed

lemma keeps_sync: "keeps (only_closed db0) (sync_range pv (historical_repo sqlite_repo) m a b)"
proof -
  have loop: "keeps (only_closed db0) (sync_loop pv (historical_repo sqlite_repo) m t req a b cs acc)" for t req a b cs acc
    unfolding keeps_def
  proof (intro allI impI)
    fix s r s'
    assume o: "only_closed db0 s" and run: "sync_loop pv (historical_repo sqlite_repo) m t req a b cs acc s = (r, s')"
    from o show "only_closed db0 s'"
      by (rule_tac sync_loop_induct [OF run, where P = "\<lambda>a b cs acc s. only_closed db0 s" and Q = "\<lambda>r s. only_closed db0 s"])
        (auto dest: keepsD [OF keeps_page])
  qed
  have load: "keeps (only_closed db0) (load_market pv (historical_repo sqlite_repo) m a b)" for a b
    unfolding keeps_def load_market_def
  proof (intro allI impI)
    fix s r s'
    assume o: "only_closed db0 s"
      and run: "on_store (repo_load (historical_repo sqlite_repo) (pv_id pv) market_type_name (im_instrument_id m) a b) s = (r, s')"
    from o have "candle_db_wf (snd s)" by (simp add: only_closed_def)
    from historical.load_spec [OF this, of "pv_id pv" market_type_name "im_instrument_id m" a b] run
    have "s' = s" by (auto simp: on_store_def split: prod.splits)
    with o show "only_closed db0 s'" by simp
  qed
  have state: "keeps (only_closed db0) (on_store (repo_sync_state (historical_repo sqlite_repo) p mt i))" for p mt i
    by (rule keeps_pure) (rule historical.sync_state_pure)
  have missing: "keeps (only_closed db0) (sync_missing_range pv (historical_repo sqlite_repo) m t req ab)" for t req ab
    unfolding sync_missing_range_def by (intro keeps_sbind loop keeps_sguard)
  show ?thesis
    unfolding sync_range_def
    by (intro keeps_sbind keeps_call time_kept keeps_sguard load keeps_slift state keeps_sfor missing keeps_sreturn)
qed

lemma keeps_historical_sync: "keeps (only_closed db0) (historical_sync_range pv sqlite_repo m a b)"
proof -
  have gap: "keeps (only_closed db0) (sync_gap pv sqlite_repo m ab)" for ab
    unfolding keeps_def
  proof (intro allI impI)
    fix s r s'
    assume o: "only_closed db0 s" and run: "sync_gap pv sqlite_repo m ab s = (r, s')"
    obtain q t where q: "sync_range pv (historical_repo sqlite_repo) m (fst ab) (snd ab) s = (q, t)"
      by (cases "sync_range pv (historical_repo sqlite_repo) m (fst ab) (snd ab) s")
    with run have "s' = t" by (cases q) (auto simp: sync_gap_def split: exn.splits if_splits)
    then show "only_closed db0 s'" using keepsD [OF keeps_sync o q] by simp
  qed
  have load: "keeps (only_closed db0) (load_market pv sqlite_repo m a b)"
    unfolding keeps_def load_market_def
  proof (intro allI impI)
    fix s r s'
    assume o: "only_closed db0 s"
      and run: "on_store (repo_load sqlite_repo (pv_id pv) market_type_name (im_instrument_id m) a b) s = (r, s')"
    from o have "candle_db_wf (snd s)" by (simp add: only_closed_def)
    from sqlite.load_spec [OF this, of "pv_id pv" market_type_name "im_instrument_id m" a b] run
    have "s' = s" by (auto simp: on_store_def split: prod.splits)
    with o show "only_closed db0 s'" by simp
  qed
  show ?thesis
    unfolding historical_sync_range_def
    by (intro keeps_sbind keeps_slift keeps_call time_kept keeps_sguard load keeps_sfor gap)
qed

lemma keeps_sync_all: "keeps (only_closed db0) (sync_all pv sqlite_repo ms a b)"
proof -
  have "keeps (only_closed db0) (sync_each pv sqlite_repo a b ms)" for ms
    by (induction ms) (auto intro!: keeps_sbind keeps_sreturn keeps_historical_sync simp del: split_paired_All)
  then show ?thesis unfolding sync_all_def by (intro keeps_sbind keeps_slift keeps_sguard keeps_sreturn)
qed

end

section \<open>The two adapters\<close>

lemma keeps_time_second: "keeps (\<lambda>s. P (fst s)) (on_second m)"
  by (rule keeps_second_other)

lemma keeps_cached:
  assumes "keeps (\<lambda>s. am_server_time (fst s) = Some t) ask"
  shows "keeps (\<lambda>s. am_server_time (fst s) = Some t) (cached_time ask)"
  unfolding cached_time_def
proof (rule keeps_sbind_run [OF keeps_peek])
  fix s :: "'a session" and known and s' r s''
  assume "peek (\<lambda>s. am_server_time (fst s)) s = (Inr known, s')" "am_server_time (fst s') = Some t"
    "(case known of Some t \<Rightarrow> sreturn t
       | None \<Rightarrow> sbind ask (\<lambda>t. sbind (poke (\<lambda>s. ((fst s)\<lparr>am_server_time := Some t\<rparr>, snd s))) (\<lambda>_. sreturn t))) s' = (r, s'')"
  then show "am_server_time (fst s'') = Some t" by (auto simp: peek_def sreturn_def)
qed

lemma keeps_latest: "keeps P st \<Longrightarrow> keeps P (latest_closed name st)"
  unfolding latest_closed_def by (intro keeps_sbind keeps_sguard keeps_sreturn)

lemma keeps_asked:
  "keeps (\<lambda>s. am_server_time (fst s) = Some t) (cached_time (binance_time ask))"
  "keeps (\<lambda>s. am_server_time (fst s) = Some t) (cached_time (okx_time ask))"
proof -
  have "keeps (\<lambda>s. am_server_time (fst s) = Some t) (binance_time ask)"
    unfolding binance_time_def
    by (auto intro!: keeps_sbind keeps_time_second keeps_sguard keeps_sreturn keeps_slift split: pyobj.split)
  then show "keeps (\<lambda>s. am_server_time (fst s) = Some t) (cached_time (binance_time ask))" by (rule keeps_cached)
  have "keeps (\<lambda>s. am_server_time (fst s) = Some t) (okx_time ask)"
    unfolding okx_time_def
    by (auto intro!: keeps_sbind keeps_time_second keeps_slift split: pyobj.split list.split)
  then show "keeps (\<lambda>s. am_server_time (fst s) = Some t) (cached_time (okx_time ask))" by (rule keeps_cached)
qed

interpretation binance: closed_candle_adapter "binance_provider limit ask" for limit ask
proof unfold_locales
  fix rq s page s'
  assume f: "pv_fetch (binance_provider limit ask) rq s = (Inr page, s')"
  then obtain s1 rows b where pid: "rq_provider_id rq = ''binance_usdm''"
    and lc: "latest_closed ''Binance'' (cached_time (binance_time ask)) s1 = (Inr b, s')" and pg: "binance_page rq b rows = Inr page"
    by (auto simp: binance_provider_def sbind_Inr split: if_splits)
  note page = binance_page_Inr [OF pg]
  show "\<forall>c\<in>set (pg_candles page). candle_wf c" using page(1) by (auto simp: row_candle_def)
  assume rq: "mk_request rq = Inr rq"
  have "candle_wf c \<and> page_candle_ok rq c \<and> closed_by (am_server_time (fst s')) c" if "c \<in> set (pg_candles page)" for c
    using page(1) that row_candle_ok [OF _ rq] boundary_closed [OF lc] by (auto simp: pid row_candle_def)
  moreover have "rq_start rq \<le> n" if "pg_next page = Some n" for n
  proof -
    have "rq_start rq \<le> open_time_ms (last (pg_candles page))" using page(1) last_in_set [OF page(2)] by (simp add: row_candle_def)
    with page(4) [OF that] show ?thesis by linarith
  qed
  ultimately show "page_promised rq (am_server_time (fst s')) page"
    using page(2-4) last_in_set [OF page(2)] by (auto simp: page_promised_def split: option.split)
qed (auto simp: binance_provider_def intro!: keeps_sbind keeps_sguard keeps_slift keeps_sreturn keeps_time_second keeps_latest keeps_asked)

interpretation okx: closed_candle_adapter "okx_provider limit ask" for limit ask
proof unfold_locales
  fix rq s page s'
  assume f: "pv_fetch (okx_provider limit ask) rq s = (Inr page, s')"
  then obtain s1 data b where pid: "rq_provider_id rq = ''okx_swap''"
    and lc: "latest_closed ''OKX'' (cached_time (okx_time ask)) s1 = (Inr b, s')" and pg: "okx_page limit rq b data = Inr page"
    by (auto simp: okx_provider_def sbind_Inr split: if_splits)
  note page = okx_page_Inr [OF pg]
  show "\<forall>c\<in>set (pg_candles page). candle_wf c" using page(1) by (auto simp: row_candle_def)
  assume rq: "mk_request rq = Inr rq"
  have "candle_wf c \<and> page_candle_ok rq c \<and> closed_by (am_server_time (fst s')) c" if "c \<in> set (pg_candles page)" for c
    using page(1) that row_candle_ok [OF _ rq] boundary_closed [OF lc] by (auto simp: pid row_candle_def)
  moreover have "rq_start rq \<le> n \<and> n \<le> rq_end rq" if n: "pg_next page = Some n" for n
  proof -
    have h: "row_candle ''okx_swap'' rq b (hd (pg_candles page))" using page(1,2) by simp
    then have "(open_time_ms (hd (pg_candles page)) - rq_start rq) mod 60000 = 0"
      using mk_request_Inr [OF rq] by (auto simp: row_candle_def candle_wf_def minute_aligned_def mod_eq_0_iff_dvd)
    with grid_step [of "open_time_ms (hd (pg_candles page))" "rq_start rq" 60000] page(4) [OF n] h show ?thesis
      by (auto simp: row_candle_def)
  qed
  ultimately show "page_promised rq (am_server_time (fst s')) page"
    using page(2-4) hd_in_set [OF page(2)] by (auto simp: page_promised_def split: option.split)
qed (auto simp: okx_provider_def okx_validate_def intro!: keeps_sbind keeps_sguard keeps_slift keeps_sreturn keeps_time_second keeps_latest
    keeps_asked keeps_peek keeps_poke split: pyobj.split list.split)

section \<open>Requests are bounded\<close>

text \<open>The same requester with a count of its HTTP requests.\<close>

definition counting :: "'w json_requester \<Rightarrow> ('w \<times> nat) json_requester" where
  "counting jr = \<lparr>jr_base_url = jr_base_url jr, jr_backoffs = jr_backoffs jr, jr_sleep = (\<lambda>d. on_first (jr_sleep jr d)),
     jr_http = (\<lambda>url s. case jr_http jr url (fst s) of (r, w) \<Rightarrow> (r, (w, Suc (snd s))))\<rparr>"

definition port_error :: "exn \<Rightarrow> bool" where
  "port_error x \<longleftrightarrow> exn_kind x \<in> {ProviderProtocolError, ProviderRateLimitError, ProviderTemporaryError, ProviderPermanentError}"

lemma verdict_errors: "reply_verdict reply = Settled (Inl x) \<or> reply_verdict reply = Again_after pause x \<Longrightarrow> port_error x"
  by (cases reply rule: reply_verdict.cases) (auto simp: port_error_def split: if_splits)

lemma request_loop_bound:
  "case request_loop (counting jr) url bs (w, n) of (r, (w', n')) \<Rightarrow> n < n' \<and> n' \<le> n + Suc (length bs)
     \<and> (\<forall>x. r = Inl x \<longrightarrow> port_error x \<or> (\<exists>v v'. jr_http jr url v = (Inl x, v')) \<or> (\<exists>d v v'. jr_sleep jr d v = (Inl x, v')))"
proof (induction bs arbitrary: w n)
  case Nil
  obtain q w1 where q: "jr_http jr url w = (q, w1)" by (cases "jr_http jr url w")
  show ?case
  proof (cases q)
    case (Inl x)
    with q show ?thesis by (auto simp: counting_def sbind_def)
  next
    case (Inr reply)
    with q verdict_errors [of reply] show ?thesis
      by (auto simp: counting_def sbind_def slift_def split: attempt_verdict.split)
  qed
next
  case (Cons b bs)
  obtain q w1 where q: "jr_http jr url w = (q, w1)" by (cases "jr_http jr url w")
  show ?case
  proof (cases q)
    case (Inl x)
    with q show ?thesis by (auto simp: counting_def sbind_def)
  next
    case (Inr reply)
    show ?thesis
    proof (cases "reply_verdict reply")
      case (Settled r)
      with q Inr verdict_errors [of reply] show ?thesis by (auto simp: counting_def sbind_def slift_def)
    next
      case (Again_after pause x)
      let ?d = "case pause of None \<Rightarrow> b | Some t \<Rightarrow> t"
      obtain p w2 where p: "jr_sleep jr ?d w1 = (p, w2)" by (cases "jr_sleep jr ?d w1")
      have run: "request_loop (counting jr) url (b # bs) (w, n)
          = (case p of Inl x \<Rightarrow> (Inl x, (w2, Suc n)) | Inr _ \<Rightarrow> request_loop (counting jr) url bs (w2, Suc n))"
        using q Inr Again_after p by (simp add: counting_def sbind_def on_first_def split: sum.split)
      show ?thesis
      proof (cases p)
        case (Inl y)
        with run p show ?thesis by auto
      next
        case (Inr u)
        with run Cons.IH [where w = w2 and n = "Suc n"] show ?thesis by (auto split: prod.splits)
      qed
    qed
  qed
qed

section \<open>Properties\<close>


lemma built_provider_cases:
  assumes "build_market_provider sleep http config = Inr pv"
  shows "closed_candle_adapter pv"
  using assms binance.closed_candle_adapter_axioms okx.closed_candle_adapter_axioms
  by (auto simp: build_market_provider_def mk_binance_def mk_okx_def split: if_splits)

text \<open>C39:
  Whatever the exchange answers, a page that the configured provider returns for a request consists of
  constructed candles of that request, at least one, each of them closed before the time the server has
  reported, and its cursor lies in the range of the request next to one of the candles.\<close>

theorem provider_pages_closed:
  assumes "build_market_provider sleep http config = Inr pv" "mk_request rq = Inr rq"
    and "pv_fetch pv rq s = (Inr page, s')"
  shows "page_promised rq (am_server_time (fst s')) page"
  using closed_candle_adapter.promised [OF built_provider_cases [OF assms(1)] assms(2,3)] .

text \<open>C38:
  No developing candle reaches the database: a synchronisation through the configured provider, however it
  ends, only adds candles that had closed by the time of the server, and keeps the invariant of the table.\<close>

theorem only_closed_candles_stored:
  assumes "build_market_provider sleep http config = Inr pv" "candle_db_wf db"
    and "sync_all pv sqlite_repo ms a b (s, db) = (r, (s', db'))"
  shows "candle_db_wf db' \<and> (\<forall>k c. find_row db' k = Some c \<longrightarrow>
     find_row db k = Some c \<or> closed_by (am_server_time (fst s')) c)"
proof -
  note adapter = built_provider_cases [OF assms(1)]
  have "only_closed db (s, db)" using assms(2) by (simp add: only_closed_def)
  from keepsD [OF closed_candle_adapter.keeps_sync_all [OF adapter] this assms(3)]
  show ?thesis by (simp add: only_closed_def)
qed

text \<open>An exchange that gives its replies in order, whatever it is asked.\<close>

definition canned_http :: "string \<Rightarrow> (http_reply list, http_reply) op" where
  "canned_http url replies = (case replies of [] \<Rightarrow> (Inr Unreachable, []) | r # rs \<Rightarrow> (Inr r, rs))"

text \<open>A server that is overloaded, then gone, then rejects the request: three attempts, and the last error.\<close>

definition sample_requester :: "http_reply list json_requester" where
  "sample_requester = default_requester (\<lambda>d. sreturn ()) canned_http ''https://www.okx.com''"

lemma sample_requester_run:
  "request_json (counting sample_requester) ''/api/v5/public/time'' [] ([HttpStatus 429 (Some ''2''), Unreachable, HttpStatus 404 None], 0)
     = (raise ProviderPermanentError ''provider rejected request with HTTP 404'', ([], 3))"
  by code_simp


definition sample_rows :: "pyobj list" where
  "sample_rows = [PList [PInt 1699999980000, PStr ''10'', PStr ''12'', PStr ''9.5'', PStr ''11'', PStr ''3'', PInt 1700000039999,
     PStr ''30'', PInt 7, PStr ''1'', PStr ''10'', PStr ''0'']]"

definition time_reply :: http_reply where
  "time_reply = Body (Some (PDict [(PStr ''serverTime'', PInt 1700000100000)]))"

definition sample_market :: market_data_config where
  "sample_market = \<lparr>md_provider = ''binance_usdm'', md_market_type = market_type_name,
     md_instruments = [(''CRYPTO-BTC-USDT-PERP'', ''BTCUSDT'')]\<rparr>"

abbreviation sample_binance :: "http_reply list session kline_provider" where
  "sample_binance \<equiv> binance_provider 1500 (request_json (default_requester (\<lambda>d. sreturn ()) canned_http ''https://fapi.binance.com''))"

lemma sample_built: "build_market_provider (\<lambda>d. sreturn ()) canned_http sample_market = Inr sample_binance"
  by (simp add: build_market_provider_def sample_market_def mk_binance_def)

definition btc_mapping :: instrument_mapping where
  "btc_mapping = \<lparr>im_instrument_id = ''CRYPTO-BTC-USDT-PERP'', im_provider_symbol = ''BTCUSDT''\<rparr>"

abbreviation minute_request :: kline_request where
  "minute_request \<equiv> sync_request ''binance_usdm'' btc_mapping 1699999980000 1699999980000"

lemma canned_request:
  "request_json (default_requester (\<lambda>d. sreturn ()) canned_http base) path params (Body (Some v) # rs) = (Inr v, rs)"
  by (simp add: request_json_def default_requester_def sbind_def canned_http_def slift_def)

lemma sample_fetched:
  "\<exists>page s'. pv_fetch sample_binance minute_request (new_adapter_memory, [Body (Some (PList sample_rows)), time_reply]) = (Inr page, s')"
proof -
  have t: "length (int_text 1700000100000) = 13" by code_simp
  have "is_ok (binance_page minute_request 1700000040000 sample_rows)" by code_simp
  then obtain page where "binance_page minute_request 1700000040000 sample_rows = Inr page" by (auto simp: is_ok_iff)
  then show ?thesis
    by (simp add: binance_provider_def sync_request_def sbind_def on_second_def canned_request slift_def binance_rows_def
        latest_closed_def sguard_def cached_time_def peek_def new_adapter_memory_def binance_time_def time_reply_def py_get_def t sreturn_def poke_def)
qed

theorem provider_pages_closed_witness:
  "\<exists>page s'. pv_fetch sample_binance minute_request (new_adapter_memory, [Body (Some (PList sample_rows)), time_reply]) = (Inr page, s')
     \<and> page_promised minute_request (am_server_time (fst s')) page"
proof -
  have "mk_request minute_request = Inr minute_request" by code_simp
  with provider_pages_closed [OF sample_built] sample_fetched show ?thesis by blast
qed

abbreviation sample_minute_ms :: int where
  "sample_minute_ms \<equiv> 1699999980000"

lemma sample_gap_filled:
  "\<exists>ws cs ws'. sfor (sync_gap sample_binance sqlite_repo btc_mapping) (missing_ranges sample_minute_ms sample_minute_ms [])
       ((\<lparr>am_validated = [], am_server_time = Some 1700000100000\<rparr>, [Body (Some (PList sample_rows))]), empty_candle_db) = (Inr (), ws)
     \<and> load_market sample_binance sqlite_repo btc_mapping sample_minute_ms sample_minute_ms ws = (Inr cs, ws')
     \<and> length cs = 1"
proof -
  have "case sfor (sync_gap sample_binance sqlite_repo btc_mapping) (missing_ranges sample_minute_ms sample_minute_ms [])
       ((\<lparr>am_validated = [], am_server_time = Some 1700000100000\<rparr>, [Body (Some (PList sample_rows))]), empty_candle_db) of
      (Inr _, ws) \<Rightarrow> (case load_market sample_binance sqlite_repo btc_mapping sample_minute_ms sample_minute_ms ws of
          (Inr cs, _) \<Rightarrow> length cs = 1 | _ \<Rightarrow> False)
    | _ \<Rightarrow> False" by code_simp
  then show ?thesis by (auto split: prod.splits sum.splits)
qed

lemma sample_binance_synchronised:
  "\<exists>rc s' db'. sync_all sample_binance sqlite_repo [btc_mapping] sample_minute_ms sample_minute_ms
       ((new_adapter_memory, [time_reply, Body (Some (PList sample_rows))]), empty_candle_db) = (Inr rc, (s', db'))"
proof -
  have t: "length (int_text 1700000100000) = 13" by code_simp
  have v: "validate_range sample_minute_ms sample_minute_ms = Inr ()" by code_simp
  have latest: "pv_latest_closed sample_binance (new_adapter_memory, [time_reply, Body (Some (PList sample_rows))])
      = (Inr 1700000040000, (\<lparr>am_validated = [], am_server_time = Some 1700000100000\<rparr>, [Body (Some (PList sample_rows))]))"
    by (simp add: binance_provider_def latest_closed_def sguard_def sbind_def cached_time_def peek_def new_adapter_memory_def
        binance_time_def on_second_def time_reply_def canned_request py_get_def t sreturn_def poke_def)
  have load: "load_market sample_binance sqlite_repo btc_mapping sample_minute_ms sample_minute_ms (w, empty_candle_db) = (Inr [], (w, empty_candle_db))" for w
  proof -
    have "load_candles ''binance_usdm'' market_type_name ''CRYPTO-BTC-USDT-PERP'' sample_minute_ms sample_minute_ms empty_candle_db
        = (Inr [], empty_candle_db)" by code_simp
    then show ?thesis by (simp add: load_market_def on_store_def sqlite_repo_def btc_mapping_def binance_provider_def)
  qed
  have val: "pv_validate sample_binance m s = (Inr (), s)" for m s by (simp add: binance_provider_def sreturn_def)
  obtain ws cs ws' where gap: "sfor (sync_gap sample_binance sqlite_repo btc_mapping) (missing_ranges sample_minute_ms sample_minute_ms [])
       ((\<lparr>am_validated = [], am_server_time = Some 1700000100000\<rparr>, [Body (Some (PList sample_rows))]), empty_candle_db) = (Inr (), ws)"
    "load_market sample_binance sqlite_repo btc_mapping sample_minute_ms sample_minute_ms ws = (Inr cs, ws')" "length cs = 1"
    using sample_gap_filled by blast
  then obtain c where cs: "cs = [c]" by (auto simp: length_Suc_conv)
  obtain res where "historical_sync_range sample_binance sqlite_repo btc_mapping sample_minute_ms sample_minute_ms
      ((new_adapter_memory, [time_reply, Body (Some (PList sample_rows))]), empty_candle_db) = (Inr res, ws')"
    using gap by (simp add: historical_sync_range_def sbind_def slift_def v on_world_def val latest load sync_result_def cs sguard_def)
  then show ?thesis by (cases ws') (simp add: sync_all_def v sbind_def slift_def sguard_def sreturn_def)
qed

theorem only_closed_candles_stored_witness:
  "\<exists>rc s' db'. sync_all sample_binance sqlite_repo [btc_mapping] sample_minute_ms sample_minute_ms
       ((new_adapter_memory, [time_reply, Body (Some (PList sample_rows))]), empty_candle_db) = (Inr rc, (s', db'))
     \<and> candle_db_wf db' \<and> (\<forall>k c. find_row db' k = Some c \<longrightarrow> closed_by (am_server_time (fst s')) c)"
proof -
  obtain rc s' db' where run: "sync_all sample_binance sqlite_repo [btc_mapping] sample_minute_ms sample_minute_ms
      ((new_adapter_memory, [time_reply, Body (Some (PList sample_rows))]), empty_candle_db) = (Inr rc, (s', db'))"
    using sample_binance_synchronised by blast
  from only_closed_candles_stored [OF sample_built empty_db_wf run] run show ?thesis
    by (auto simp: empty_candle_db_def find_row_def)
qed

end
