(* ===== verification/Spec2Isabelle.thy ===== *)
theory Spec2Isabelle
  imports Policy HistoricalSync Risk Simulator RunStore Services Providers
begin

text \<open>
  Verification library of the SMC/ICT trading research engine (\<^verbatim>\<open>src/src/trading_research\<close>).

  \<^bold>\<open>The program.\<close> Closed one-minute candles are fetched page by page from an exchange, checked, and
  kept in SQLite. They are resampled to complete higher timeframes and handed, one series per role,
  to a graph of configured indicator plugins; every plugin returns an observation with the time at
  which it became known. A decision policy walks the configured signals in order and returns the
  first failure or a ready decision with entry, stop and target. A backtest replays that evaluation
  at every closed execution bar and simulates the ready decisions on the one-minute candles; the
  trades are summarised. The live path runs under a process lock: it synchronises, records the run,
  commits evidence and outcome together, and reports to notification sinks; a scheduler starts such
  runs as child processes, reads their receipts and keeps a record of every attempt. All of
  it is content-addressed: values have one canonical JSON text and a SHA-256 digest.

  \<^bold>\<open>Theories, in the order of the data flow\<close> (paths under \<^verbatim>\<open>src/src/trading_research\<close>):
  \<^item> \<^verbatim>\<open>Prelude\<close>: exceptions (\<open>exn\<close>), the result of a call that may raise (\<open>'a result\<close>, with \<open>rbind\<close>,
    \<open>rguard\<close>, \<open>rmapM\<close>, \<open>rfoldM\<close>), calls with effects (\<open>op\<close>: an exception keeps the state reached),
    Python dictionaries as insertion-ordered association lists, shared list lemmas.
  \<^item> \<^verbatim>\<open>Sha256\<close>, \<^verbatim>\<open>Digits\<close>, \<^verbatim>\<open>Json\<close>, \<^verbatim>\<open>Decimals\<close>: what the program uses of the standard library
    (\<^verbatim>\<open>hashlib\<close> on 32-bit words, integer text, canonical \<^verbatim>\<open>json.dumps\<close>, \<^verbatim>\<open>decimal\<close> with 28 digits
    and half-even rounding) and \<^verbatim>\<open>domain/evidence_values.py\<close>, \<^verbatim>\<open>configuration/hashing.py\<close>.
  \<^item> \<^verbatim>\<open>Values\<close>, \<^verbatim>\<open>Candles\<close>, \<^verbatim>\<open>Evidence\<close>: \<^verbatim>\<open>domain/\<close> and \<^verbatim>\<open>application/evidence.py\<close>. A validating
    constructor is a function from dynamic values to a typed record or an exception.
  \<^item> \<^verbatim>\<open>Resampling\<close>: \<^verbatim>\<open>application/resampling.py\<close>.
  \<^item> \<^verbatim>\<open>Graph\<close>, \<^verbatim>\<open>Policy\<close>: \<^verbatim>\<open>application/graph.py\<close>, \<^verbatim>\<open>application/decision_policy.py\<close>; plugins and
    their factories are arguments.
  \<^item> \<^verbatim>\<open>Indicators\<close>, \<^verbatim>\<open>Smc\<close>, \<^verbatim>\<open>Ict\<close>, \<^verbatim>\<open>Risk\<close>: \<^verbatim>\<open>indicators/\<close> and the closed registry of
    \<^verbatim>\<open>composition/registries.py\<close>, the plugins on which \<^verbatim>\<open>Graph\<close> is instantiated.
  \<^item> \<^verbatim>\<open>Repository\<close>: the contract of the candle repository as the locale \<open>candle_repository\<close>, which
    describes the rows as a partial function from primary keys. \<^verbatim>\<open>CandleStore\<close> models the candle
    tables of \<^verbatim>\<open>adapters/persistence/sqlite.py\<close> and interprets the locale; \<^verbatim>\<open>MarketSync\<close>
    (\<^verbatim>\<open>application/market_sync.py\<close>) and \<^verbatim>\<open>HistoricalSync\<close> (\<^verbatim>\<open>application/historical_sync.py\<close>) are its
    clients, proved inside the locale; the second interprets it again for the adapter it passes on.
  \<^item> \<^verbatim>\<open>RunStore\<close>: the run, evidence and notification tables of \<^verbatim>\<open>sqlite.py\<close> with their constraints; the
    calls form an inductive step relation with reachability.
  \<^item> \<^verbatim>\<open>Simulator\<close>, \<^verbatim>\<open>Metrics\<close>: \<^verbatim>\<open>application/execution_simulator.py\<close>, \<^verbatim>\<open>application/metrics.py\<close>.
  \<^item> \<^verbatim>\<open>Configuration\<close>, \<^verbatim>\<open>Strategy\<close>, \<^verbatim>\<open>Scenario\<close>: \<^verbatim>\<open>configuration/models.py\<close> and \<^verbatim>\<open>loaders.py\<close>, from
    the value the YAML parser returns to validated records, their canonical form and hash, and the
    translation of a strategy into graph nodes and decision signals.
  \<^item> \<^verbatim>\<open>Replay\<close>: \<^verbatim>\<open>application/backtesting.py\<close>, which composes resampling, graph, policy and traces.
  \<^item> \<^verbatim>\<open>Notifications\<close>: \<^verbatim>\<open>application/notifications.py\<close> with its port: routing, suppression of repeated
    events, batches. The locale \<open>routed_store\<close> is its contract with the store of delivered events.
  \<^item> \<^verbatim>\<open>Runtime\<close>: \<^verbatim>\<open>application/runtime.py\<close>, the run of the engine on the outside world and the two parts
    of the repository; \<open>sink_contract\<close> and \<open>quiet_engine\<close> are its contract with the sinks, which the
    router fulfils.
  \<^item> \<^verbatim>\<open>Scheduler\<close>: \<^verbatim>\<open>application/scheduler.py\<close>; \<open>job_contract\<close> is what it asks of the operation of a job.
  \<^item> \<^verbatim>\<open>Services\<close>: \<^verbatim>\<open>composition/runtime_services.py\<close> and the exit of \<^verbatim>\<open>cli.py\<close>: the commands, one run with
    its router, the child process and its receipt. The child that runs the engine is shown to satisfy
    \<open>child_contract\<close>, and through it \<open>job_contract\<close>.
  \<^item> \<^verbatim>\<open>Providers\<close>: \<^verbatim>\<open>adapters/market_data/\<close>, the JSON requester with its retries and the Binance and
    OKX adapters behind the provider port. The locale \<open>closed_candle_adapter\<close> is what a synchronisation
    needs of an adapter to store closed candles only; both adapters are interpretations.

  \<^bold>\<open>What the lemmas show.\<close> Values: canonical text is a normal form, and what a constructor accepts it
  accepts again unchanged. Time: no component looks ahead (resampling, swing and structure events,
  graph observations, simulated entries). Graph: an order exists exactly for acyclic graphs, is
  unique, respects dependencies, and conforming plugins always give a result. Policy: the walk is
  the first failure of the ordered signals. Storage: a page or a run is stored entirely or not at
  all, stored rows never change, every reachable database satisfies its constraints, a successful
  synchronisation leaves no gap. Backtest: trades of an instrument do not overlap, exits are at the
  first touch with the stop before the target, the summary does not depend on the order of its
  inputs and exists for every simulation; the replay sees no candle that closes later, and what the
  live path sees on an aligned window. Configuration: what the loaders accept, the components
  that receive it accept. Runs: a receipt says what the database holds, a run always ends in one, an
  attempt that was started is ended, and the parent reads the receipt its child wrote. Exchanges: whatever
  a response holds, only closed candles of the request are stored, and requests are retried boundedly.

  \<^bold>\<open>Bounds and termination.\<close> No definition uses fuel. The page loop of \<^verbatim>\<open>MarketSync\<close> terminates by the
  length of the range still requested, for every provider; the topological order by the nodes left;
  the search for the first fire of a job is a partial function (\<open>skip_early\<close>, \<open>None\<close> for a call that
  does not return), shown to return for every trigger whose times advance; every other loop is a
  fold over its data.

  \<^bold>\<open>Parameters.\<close> Code outside the repository is an argument: the HTTP client of the exchanges (and, in
  \<^verbatim>\<open>MarketSync\<close>, any exchange behind the provider port), the plugins of the graph, the YAML parser, the candle source of a replay, the clock, the lock, the
  scheduling library, the adapters behind the sinks. The SQLite engine is modelled
  by what its documentation promises of the statements used: constraints are checked per statement
  and a transaction that raises rolls back. pydantic enters through its documented strict validation.

  \<^bold>\<open>Not modelled.\<close> Floating-point time (\<^verbatim>\<open>UtcTimestamp\<close>); the exponent limits of \<^verbatim>\<open>decimal\<close>; the wording
  of configuration messages (an error is the location it is reported at); connection handling, schema
  inspection, migration and the file of a snapshot of \<^verbatim>\<open>sqlite.py\<close>; the HTTP client itself and the notification
  senders; threads: a call of the scheduler, of the router or of a child runs to its
  end, so the shutdown of a child from another thread is left out; temporary folders and the
  translation of host paths; report files, the parser of the command line, logging and provenance.
  These are input and output, wiring, or calls of a library.
\<close>

end
